(* ===== verification/Dp_Prelude.thy ===== *)
theory Dp_Prelude
  imports Main "HOL-Library.Word" "HOL-Library.Monad_Syntax"
begin

text \<open>
  Shared vocabulary of the development: bytes and C integers, the option monad in which
  \<open>None\<close> is undefined behaviour of the C program (an access outside an object, a use of a
  freed object, a signed overflow), byte regions with bounds-checked reads and writes, and the
  few functions of \<^verbatim>\<open>string.h\<close> the sources call.  The collections \<open>region_simps\<close> and
  \<open>mem_simps\<close> carry the component proofs.
\<close>

unbundle bit_operations_syntax

named_theorems region_simps \<open>reads and writes of byte regions\<close>
named_theorems mem_simps \<open>unfolding of the checked memory operations\<close>

section \<open>C integers\<close>

type_synonym byte = "8 word"
type_synonym u32 = "32 word"

abbreviation (input) INT_MAX :: int where
  "INT_MAX \<equiv> 2147483647"

abbreviation (input) INT_MIN :: int where
  "INT_MIN \<equiv> - 2147483648"

text \<open>The result of a signed 32-bit operation: \<open>None\<close> where C leaves it undefined.\<close>

definition chk_int :: "int \<Rightarrow> int option" where
  "chk_int x = (if INT_MIN \<le> x \<and> x \<le> INT_MAX then Some x else None)"

definition imin :: "int \<Rightarrow> int \<Rightarrow> int" where
  "imin a b = (if a < b then a else b)"

definition iclamp :: "int \<Rightarrow> int \<Rightarrow> int \<Rightarrow> int" where
  "iclamp v l h = (let t = (if v < l then l else v) in if t < h then t else h)"

definition has_bit :: "u32 \<Rightarrow> u32 \<Rightarrow> bool" where
  "has_bit f m \<longleftrightarrow> f AND m \<noteq> 0"

definition guard :: "bool \<Rightarrow> unit option" where
  "guard b = (if b then Some () else None)"

lemma chk_int_Some_iff [simp]:
  "chk_int x = Some y \<longleftrightarrow> x = y \<and> INT_MIN \<le> x \<and> x \<le> INT_MAX"
  by (auto simp: chk_int_def)

lemma chk_int_in_range [simp]: "INT_MIN \<le> x \<Longrightarrow> x \<le> INT_MAX \<Longrightarrow> chk_int x = Some x"
  by simp

lemma guard_bind [simp]: "(guard b \<bind> f) = (if b then f () else None)"
  by (simp add: guard_def)

lemma guard_Some [simp]: "guard b = Some u \<longleftrightarrow> b"
  by (simp add: guard_def)

lemma iclamp_range: "l \<le> h \<Longrightarrow> l \<le> iclamp v l h \<and> iclamp v l h \<le> h"
  by (auto simp: iclamp_def Let_def)

lemma iclamp_id: "l \<le> v \<Longrightarrow> v \<le> h \<Longrightarrow> iclamp v l h = v"
  by (auto simp: iclamp_def Let_def)

lemma iclamp_median: "l \<le> h \<Longrightarrow> iclamp v l h = max l (min v h)"
  by (auto simp: iclamp_def Let_def)

section \<open>Byte regions\<close>

definition peek :: "nat \<Rightarrow> nat \<Rightarrow> 'a list \<Rightarrow> 'a list" where
  "peek i n xs = take n (drop i xs)"

definition poke :: "nat \<Rightarrow> 'a list \<Rightarrow> 'a list \<Rightarrow> 'a list" where
  "poke i ys xs = take i xs @ ys @ drop (i + length ys) xs"

text \<open>The bytes between two offsets of a region; offsets are C integers.\<close>

definition seg :: "int \<Rightarrow> int \<Rightarrow> 'a list \<Rightarrow> 'a list" where
  "seg lo hi xs = peek (nat lo) (nat (hi - lo)) xs"

definition mem_read :: "int \<Rightarrow> int \<Rightarrow> 'a list \<Rightarrow> 'a list option" where
  "mem_read i n xs =
     (if 0 \<le> i \<and> 0 \<le> n \<and> i + n \<le> int (length xs) then Some (seg i (i + n) xs) else None)"

definition mem_write :: "int \<Rightarrow> 'a list \<Rightarrow> 'a list \<Rightarrow> 'a list option" where
  "mem_write i ys xs =
     (if 0 \<le> i \<and> i + int (length ys) \<le> int (length xs) then Some (poke (nat i) ys xs) else None)"

text \<open>An array read at a C integer.\<close>

definition elem_at :: "'a list \<Rightarrow> int \<Rightarrow> 'a option" where
  "elem_at xs i = (if 0 \<le> i \<and> i < int (length xs) then Some (xs ! nat i) else None)"

lemma length_peek [simp]: "i + n \<le> length xs \<Longrightarrow> length (peek i n xs) = n"
  by (simp add: peek_def)

lemma length_poke [region_simps]: "i + length ys \<le> length xs \<Longrightarrow> length (poke i ys xs) = length xs"
  by (simp add: poke_def)

lemma peek_0 [simp]: "peek i 0 xs = []"
  by (simp add: peek_def)

lemma peek_poke_same: "i + length ys \<le> length xs \<Longrightarrow> peek i (length ys) (poke i ys xs) = ys"
  by (simp add: peek_def poke_def)

lemma peek_poke_before:
  "j + n \<le> i \<Longrightarrow> i + length ys \<le> length xs \<Longrightarrow> peek j n (poke i ys xs) = peek j n xs"
  by (simp add: peek_def poke_def take_drop min_absorb1)

lemma peek_poke_after:
  assumes "i + length ys \<le> j" and "i + length ys \<le> length xs"
  shows "peek j n (poke i ys xs) = peek j n xs"
proof -
  have "drop j (poke i ys xs) = drop (j - (i + length ys)) (drop (i + length ys) xs)"
    using assms by (simp add: poke_def)
  then show ?thesis using assms by (simp add: peek_def)
qed

lemma peek_split: "peek i (m + n) xs = peek i m xs @ peek (i + m) n xs"
  by (simp add: peek_def take_add add.commute)

lemma peek_take_append:
  "j + n \<le> k \<Longrightarrow> k \<le> length xs \<Longrightarrow> peek j n (take k xs @ ys) = peek j n xs"
  by (simp add: peek_def take_drop min_absorb1)

lemma length_seg [simp]:
  "0 \<le> lo \<Longrightarrow> lo \<le> hi \<Longrightarrow> hi \<le> int (length xs) \<Longrightarrow> length (seg lo hi xs) = nat (hi - lo)"
  by (simp add: seg_def)

lemma seg_empty [simp]: "hi \<le> lo \<Longrightarrow> seg lo hi xs = []"
  by (simp add: seg_def)

lemma seg_append:
  assumes "0 \<le> a" and "a \<le> b" and "b \<le> c"
  shows "seg a b xs @ seg b c xs = seg a c xs"
proof -
  have "nat (c - a) = nat (b - a) + nat (c - b)" and "nat a + nat (b - a) = nat b"
    using assms by linarith+
  with peek_split [of "nat a" "nat (b - a)" "nat (c - b)" xs] show ?thesis
    by (simp add: seg_def)
qed

lemma seg_poke_before [region_simps]:
  "0 \<le> lo \<Longrightarrow> lo \<le> hi \<Longrightarrow> hi \<le> i \<Longrightarrow> i + int (length ys) \<le> int (length xs) \<Longrightarrow>
    seg lo hi (poke (nat i) ys xs) = seg lo hi xs"
  unfolding seg_def by (rule peek_poke_before) linarith+

lemma seg_poke_after [region_simps]:
  "0 \<le> i \<Longrightarrow> i + int (length ys) \<le> lo \<Longrightarrow> i + int (length ys) \<le> int (length xs) \<Longrightarrow>
    seg lo hi (poke (nat i) ys xs) = seg lo hi xs"
  unfolding seg_def by (rule peek_poke_after) linarith+

lemma seg_poke_same [region_simps]:
  "0 \<le> i \<Longrightarrow> hi = i + int (length ys) \<Longrightarrow> hi \<le> int (length xs) \<Longrightarrow>
    seg i hi (poke (nat i) ys xs) = ys"
  unfolding seg_def using peek_poke_same [of "nat i" ys xs] by simp

lemma seg_take_append [region_simps]:
  "0 \<le> lo \<Longrightarrow> lo \<le> hi \<Longrightarrow> hi \<le> int k \<Longrightarrow> k \<le> length xs \<Longrightarrow>
    seg lo hi (take k xs @ ys) = seg lo hi xs"
  unfolding seg_def by (rule peek_take_append) linarith+

lemma take_seg:
  "0 \<le> lo \<Longrightarrow> 0 \<le> n \<Longrightarrow> lo + n \<le> hi \<Longrightarrow> take (nat n) (seg lo hi xs) = seg lo (lo + n) xs"
  by (simp add: seg_def peek_def min_absorb1)

lemma drop_seg:
  "0 \<le> lo \<Longrightarrow> 0 \<le> n \<Longrightarrow> lo + n \<le> hi \<Longrightarrow> drop (nat n) (seg lo hi xs) = seg (lo + n) hi xs"
  by (simp add: seg_def peek_def drop_take nat_diff_distrib' nat_add_distrib add.commute diff_diff_eq)

lemma seg_seg:
  assumes "0 \<le> base" and "0 \<le> lo" and "lo \<le> hi" and "base + hi \<le> tp"
  shows "seg lo hi (seg base tp xs) = seg (base + lo) (base + hi) xs"
proof -
  have "seg lo hi (seg base tp xs) =
      take (nat (hi - lo)) (drop (nat lo) (seg base tp xs))"
    by (simp add: seg_def [of lo hi] peek_def)
  also have "\<dots> = take (nat (hi - lo)) (seg (base + lo) tp xs)"
    using assms by (simp add: drop_seg)
  also have "\<dots> = seg (base + lo) (base + hi) xs"
    using assms take_seg [of "base + lo" "hi - lo" tp xs] by simp
  finally show ?thesis .
qed

lemma seg_poke_inside:
  assumes "0 \<le> i" and "i \<le> lo" and "lo \<le> hi" and "hi \<le> i + int (length ys)"
    and "i + int (length ys) \<le> int (length xs)"
  shows "seg lo hi (poke (nat i) ys xs) = seg (lo - i) (hi - i) ys"
proof -
  have "seg lo hi (poke (nat i) ys xs) =
      seg (lo - i) (hi - i) (seg i (i + int (length ys)) (poke (nat i) ys xs))"
    using assms seg_seg [of i "lo - i" "hi - i" "i + int (length ys)" "poke (nat i) ys xs"]
    by simp
  with assms show ?thesis by (simp add: seg_poke_same)
qed

lemma nth_seg:
  "0 \<le> lo \<Longrightarrow> hi \<le> int (length xs) \<Longrightarrow> i < nat (hi - lo) \<Longrightarrow> seg lo hi xs ! i = xs ! (nat lo + i)"
  by (simp add: seg_def peek_def)

lemma mem_read_Some_iff [mem_simps]:
  "mem_read i n xs = Some ys \<longleftrightarrow>
     0 \<le> i \<and> 0 \<le> n \<and> i + n \<le> int (length xs) \<and> ys = seg i (i + n) xs"
  by (auto simp: mem_read_def)

lemma mem_write_Some_iff [mem_simps]:
  "mem_write i ys xs = Some zs \<longleftrightarrow>
     0 \<le> i \<and> i + int (length ys) \<le> int (length xs) \<and> zs = poke (nat i) ys xs"
  by (auto simp: mem_write_def)

section \<open>The functions of string.h the sources call\<close>

text \<open>\<open>strnlen\<close> looks at the first \<open>n\<close> bytes only; \<open>strlen\<close> has no bound, so a region with
  no terminator is read beyond its end.\<close>

definition strnlen :: "byte list \<Rightarrow> nat" where
  "strnlen bs = length (takeWhile (\<lambda>c. c \<noteq> 0) bs)"

definition strlen :: "byte list \<Rightarrow> int option" where
  "strlen bs = (if 0 \<in> set bs then Some (int (strnlen bs)) else None)"

text \<open>\<open>memmem\<close>: the offset of the first occurrence of \<open>pat\<close>.\<close>

fun memmem :: "'a list \<Rightarrow> 'a list \<Rightarrow> nat option" where
  "memmem [] pat = (if pat = [] then Some 0 else None)"
| "memmem (x # xs) pat =
     (if take (length pat) (x # xs) = pat then Some 0 else map_option Suc (memmem xs pat))"

text \<open>\<open>memcmp\<close>: the sign of the first difference of two regions of equal length.\<close>

fun memcmp :: "byte list \<Rightarrow> byte list \<Rightarrow> int" where
  "memcmp (x # xs) (y # ys) = (if x = y then memcmp xs ys else if x < y then - 1 else 1)"
| "memcmp _ _ = 0"

lemma strnlen_le: "strnlen bs \<le> length bs"
  by (simp add: strnlen_def length_takeWhile_le)

lemma memmem_Some:
  "memmem xs pat = Some i \<Longrightarrow> take (length pat) (drop i xs) = pat \<and> i + length pat \<le> length xs"
proof (induction xs pat arbitrary: i rule: memmem.induct)
  case (1 pat)
  then show ?case by (auto split: if_splits)
next
  case (2 x xs pat)
  show ?case
  proof (cases "take (length pat) (x # xs) = pat")
    case True
    with 2 have "i = 0" by simp
    moreover from True have "length pat \<le> length (x # xs)"
      by (metis length_take min.cobounded1)
    ultimately show ?thesis using True by simp
  next
    case False
    with 2 obtain j where "memmem xs pat = Some j" "i = Suc j" by (auto split: if_splits)
    with 2 False show ?thesis by simp
  qed
qed

lemma memmem_first:
  "memmem xs pat = Some i \<Longrightarrow> j < i \<Longrightarrow> take (length pat) (drop j xs) \<noteq> pat"
proof (induction xs pat arbitrary: i j rule: memmem.induct)
  case (1 pat)
  then show ?case by (auto split: if_splits)
next
  case (2 x xs pat)
  then show ?case by (cases j) (auto split: if_splits)
qed

lemma memmem_None:
  "memmem xs pat = None \<Longrightarrow> j + length pat \<le> length xs \<Longrightarrow> take (length pat) (drop j xs) \<noteq> pat"
proof (induction xs pat arbitrary: j rule: memmem.induct)
  case (1 pat)
  then show ?case by (auto split: if_splits)
next
  case (2 x xs pat)
  then show ?case by (cases j) (auto split: if_splits)
qed

lemma memcmp_0_iff: "length xs = length ys \<Longrightarrow> memcmp xs ys = 0 \<longleftrightarrow> xs = ys"
  by (induction xs ys rule: list_induct2) auto

lemma memcmp_antisym: "length xs = length ys \<Longrightarrow> memcmp ys xs = - memcmp xs ys"
  by (induction xs ys rule: list_induct2) (auto simp: not_less_iff_gr_or_eq)

end
