(* ===== verification/Dpret.thy ===== *)
theory Dpret
  imports Dp_Prelude
begin

text \<open>
  Return codes (\<^verbatim>\<open>dpret.h\<close>) and their descriptions (\<^verbatim>\<open>dpret.c\<close>).  A
  \<open>dpret_t\<close> is a signed integer: negative for an error, otherwise success or a count.  The errno
  values are those of Linux.  The text of an errno is \<open>strerror\<close>'s, a parameter here.
\<close>

section \<open>Codes\<close>

type_synonym dpret = int

abbreviation (input) DPE_OK :: int where
  "DPE_OK \<equiv> 0"

abbreviation (input) DPE_PERM :: int where
  "DPE_PERM \<equiv> - 1"

abbreviation (input) DPE_AGAIN :: int where
  "DPE_AGAIN \<equiv> - 11"

abbreviation (input) DPE_NOMEM :: int where
  "DPE_NOMEM \<equiv> - 12"

abbreviation (input) DPE_BUSY :: int where
  "DPE_BUSY \<equiv> - 16"

abbreviation (input) DPE_INVAL :: int where
  "DPE_INVAL \<equiv> - 22"

abbreviation (input) DPE_NODATA :: int where
  "DPE_NODATA \<equiv> - 61"

abbreviation (input) DPE_TIME :: int where
  "DPE_TIME \<equiv> - 62"

abbreviation (input) DPE_BADFD :: int where
  "DPE_BADFD \<equiv> - 77"

abbreviation (input) DPE_CONNRESET :: int where
  "DPE_CONNRESET \<equiv> - 104"

abbreviation (input) DPE_INPROGRESS :: int where
  "DPE_INPROGRESS \<equiv> - 115"

abbreviation (input) DPE_WAIT :: int where
  "DPE_WAIT \<equiv> - 11"

abbreviation (input) DPE_REPEAT :: int where
  "DPE_REPEAT \<equiv> - 151"

abbreviation (input) DPE_UNINIT :: int where
  "DPE_UNINIT \<equiv> - 152"

abbreviation (input) DPE_EOF :: int where
  "DPE_EOF \<equiv> - 156"

abbreviation (input) DPE_BEINITED :: int where
  "DPE_BEINITED \<equiv> - 159"

abbreviation (input) DPE_UNSUPPORT :: int where
  "DPE_UNSUPPORT \<equiv> - 175"

abbreviation (input) DPE_CONTINUE :: int where
  "DPE_CONTINUE \<equiv> - 190"

abbreviation (input) DPE_INTERNAL_ERROR :: int where
  "DPE_INTERNAL_ERROR \<equiv> - 500"

definition dpret_isok :: "dpret \<Rightarrow> bool" where
  "dpret_isok err \<longleftrightarrow> err \<ge> 0"

definition dpret_iserr :: "dpret \<Rightarrow> bool" where
  "dpret_iserr err \<longleftrightarrow> err < 0"

definition dpret_isok_eof :: "dpret \<Rightarrow> bool" where
  "dpret_isok_eof err \<longleftrightarrow> err \<ge> 0 \<or> err = DPE_EOF"

section \<open>Descriptions\<close>

text \<open>The table \<open>_errmsgs\<close> of 600 slots: the slots not listed are \<open>NULL\<close>.\<close>

definition errmsgs :: "(int \<times> string) list" where
  "errmsgs = [
    (150, ''Unknown Error''),
    (151, ''Repeat Operation''),
    (152, ''Not initialized''),
    (153, ''Open Failed''),
    (154, ''File or source closed''),
    (155, ''Set Attribute Failed''),
    (156, ''End of data or file''),
    (157, ''Not exists''),
    (158, ''Has been initialized''),
    (159, ''Initialization due to Invalid parameter''),
    (160, ''The parameter type mismatch''),
    (166, ''Missing parameter''),
    (167, ''Prepareing or bind parameter error''),
    (168, ''Need authentication''),
    (169, ''Not open source''),
    (170, ''Invalid command''),
    (171, ''Already authenticated''),
    (172, ''Invalid data type''),
    (173, ''Listen no events''),
    (174, ''Authentication error''),
    (175, ''Not support''),
    (176, ''No source''),
    (177, ''Object or source deleted''),
    (178, ''Not enough data or buffer space''),
    (179, ''Partially OK''),
    (180, ''Ignore the operation''),
    (190, ''Continue''),
    (191, ''Switching Protocols''),
    (192, ''Processing''),
    (193, ''Early Hints''),
    (200, ''OK''),
    (201, ''Created''),
    (202, ''Accepted''),
    (203, ''Non-Authoritative Information''),
    (204, ''No Content''),
    (205, ''Reset Content''),
    (206, ''Partial Content''),
    (207, ''Multi-Status''),
    (208, ''Already Reported''),
    (226, ''IM Used''),
    (300, ''Multiple Choices''),
    (301, ''Moved Permanently''),
    (302, ''Found''),
    (303, ''See Other''),
    (304, ''Not Modified''),
    (305, ''Use Proxy''),
    (307, ''Temporary Redirect''),
    (308, ''Permanent Redirect''),
    (400, ''Bad Request''),
    (401, ''Unauthorized''),
    (402, ''Payment Required''),
    (403, ''Forbidden''),
    (404, ''Not Found''),
    (405, ''Method Not Allowed''),
    (406, ''Not Acceptable''),
    (407, ''Proxy Authentication Required''),
    (408, ''Request Timeout''),
    (409, ''Conflict''),
    (410, ''Gone''),
    (411, ''Length Required''),
    (412, ''Precondition Failed''),
    (413, ''Payload Too Large''),
    (414, ''URI Too Long''),
    (415, ''Unsupported Media Type''),
    (416, ''Range Not Satisfiable''),
    (417, ''Expectation Failed''),
    (418, (''I'' @ [CHR 0x27] @ ''m a teapot'')),
    (422, ''Unprocessable Entity''),
    (425, ''Too Early''),
    (426, ''Upgrade Required''),
    (428, ''Precondition Required''),
    (429, ''Too Many Requests''),
    (431, ''Request Header Fields Too Large''),
    (451, ''Unavailable For Legal Reasons''),
    (500, ''Internal Server Error''),
    (501, ''Not Implemented''),
    (502, ''Bad Gateway''),
    (503, ''Service Unavailable''),
    (504, ''Gateway Timeout''),
    (505, ''HTTP Version Not Supported''),
    (506, ''Variant Also Negotiates''),
    (507, ''Insufficient Storage''),
    (508, ''Loop Detected''),
    (510, ''Not Extended''),
    (511, ''Network Authentication Required'')]"

definition dperr_detail :: "(int \<Rightarrow> string) \<Rightarrow> int \<Rightarrow> string" where
  "dperr_detail strerror err =
     (let msg =
        (if (- 150 < err \<and> err \<le> 0) \<or> err > 0 then Some (strerror \<bar>err\<bar>)
         else if - 600 < err \<and> err \<le> - 150 then map_of errmsgs \<bar>err\<bar>
         else None)
      in case msg of None \<Rightarrow> the (map_of errmsgs 150) | Some m \<Rightarrow> m)"

definition dperr_http_detail :: "(int \<Rightarrow> string) \<Rightarrow> int \<Rightarrow> string" where
  "dperr_http_detail strerror http_status =
     (let s = \<bar>http_status\<bar>;
          s' = (if s \<ge> 100 \<and> s < 110 then s + 90 else s)
      in dperr_detail strerror (- s'))"

section \<open>Properties\<close>

lemma dpret_iserr_isok: "dpret_iserr r \<longleftrightarrow> \<not> dpret_isok r"
  by (auto simp: dpret_iserr_def dpret_isok_def)

lemma errmsgs_keys: "(n, m) \<in> set errmsgs \<Longrightarrow> 150 \<le> n \<and> n < 600"
  by (auto simp: errmsgs_def)

lemma errmsgs_distinct: "distinct (map fst errmsgs)"
  by (simp add: errmsgs_def)

lemma errmsgs_Unknown: "map_of errmsgs 150 = Some ''Unknown Error''"
  by (simp add: errmsgs_def)

lemma map_of_errmsgs: "(n, m) \<in> set errmsgs \<Longrightarrow> map_of errmsgs n = Some m"
  using errmsgs_distinct by (rule map_of_is_SomeI)

lemma dperr_detail_table:
  "(n, m) \<in> set errmsgs \<Longrightarrow> dperr_detail strerror (- n) = m"
  using errmsgs_keys [of n m] map_of_errmsgs [of n m]
  by (auto simp: dperr_detail_def)

lemma dperr_detail_unlisted:
  "- 600 < err \<Longrightarrow> err \<le> - 150 \<Longrightarrow> - err \<notin> fst ` set errmsgs \<Longrightarrow>
    dperr_detail strerror err = ''Unknown Error''"
  by (auto simp: dperr_detail_def errmsgs_Unknown map_of_eq_None_iff [THEN iffD2])

text \<open>
  The descriptions cover every code.  An errno code (or any positive value) is described by
  \<open>strerror\<close>; a code of the table has the table's text, whatever its sign convention through the
  HTTP entry point for the statuses from 200 on; the informational statuses 100 to 103 reach the
  codes 190 to 193; everything else below -149 is ''Unknown Error''.
\<close>

theorem dperr_detail_classifies:
  "dperr_detail strerror err =
    (if - 150 < err then strerror \<bar>err\<bar>
     else case map_of errmsgs (- err) of Some m \<Rightarrow> m | None \<Rightarrow> ''Unknown Error'')"
proof (cases "- 600 < err")
  case True
  then show ?thesis
    by (auto simp: dperr_detail_def errmsgs_Unknown split: option.splits)
next
  case False
  then have "map_of errmsgs (- err) = None"
    using errmsgs_keys by (force simp: map_of_eq_None_iff)
  with False show ?thesis
    by (simp add: dperr_detail_def errmsgs_Unknown)
qed

theorem dperr_http_detail_informational:
  "0 \<le> k \<Longrightarrow> k < 10 \<Longrightarrow> dperr_http_detail strerror (100 + k) = dperr_detail strerror (- (190 + k))"
  by (simp add: dperr_http_detail_def)

end
