(* ===== verification/Dpbuf.thy ===== *)
theory Dpbuf
  imports Dpret
begin

text \<open>
  The growable byte buffer (\<^verbatim>\<open>dpbuf.c\<close>, \<^verbatim>\<open>dpbuf.h\<close>).  A buffer is a record of four cursors
  over a reference-counted block; several buffers may share one block, so blocks live in a
  store and every operation takes and returns the store.  An allocation attempt may fail: the
  store carries an arbitrary schedule \<open>avail\<close> of the outcomes and an arbitrary content \<open>junk\<close> of
  fresh memory.  An operation that touches memory returns an option: \<open>None\<close> is an access outside
  the block, a use of a freed block, or a signed overflow.
\<close>

section \<open>Data\<close>

abbreviation (input) DPBUF_MAX_SIZE :: int where
  "DPBUF_MAX_SIZE \<equiv> 0x4fffffff"

abbreviation (input) DPBUF_S_SIZE :: int where
  "DPBUF_S_SIZE \<equiv> 1024"

abbreviation (input) DPBUF_CONSTDATA :: u32 where
  "DPBUF_CONSTDATA \<equiv> 2"

abbreviation (input) DPBUF_NORECYCLE :: u32 where
  "DPBUF_NORECYCLE \<equiv> 4"

abbreviation (input) DPBUF_FLAGMASK :: u32 where
  "DPBUF_FLAGMASK \<equiv> 15"

abbreviation (input) DPBUF_INIT_R :: u32 where
  "DPBUF_INIT_R \<equiv> 256"

abbreviation (input) DPBUF_INIT_W :: u32 where
  "DPBUF_INIT_W \<equiv> 512"

abbreviation (input) DPBUF_DUP_DATA :: u32 where
  "DPBUF_DUP_DATA \<equiv> 1024"

record dpbuf_data =
  dbytes :: "byte list"
  maxs :: int
  dflag :: u32
  refc :: int

record dpbuf =
  utype :: "8 word"
  uflag :: "24 word"
  bflag :: u32
  rbeg :: int
  rend :: int
  wbeg :: int
  bsize :: int
  bdata :: "nat option"

record store =
  blocks :: "nat \<Rightarrow> dpbuf_data option"
  nblk :: nat
  allocs :: nat
  avail :: "nat \<Rightarrow> bool"
  junk :: "nat \<Rightarrow> nat \<Rightarrow> byte"

datatype seek = SEEK_SET | SEEK_CUR | SEEK_END

text \<open>A \<open>dpbuf_t\<close> after \<^verbatim>\<open>memset(self, 0, sizeof(dpbuf_t))\<close>.\<close>

definition dpbuf_zero :: dpbuf where
  "dpbuf_zero = \<lparr>utype = 0, uflag = 0, bflag = 0, rbeg = 0, rend = 0, wbeg = 0, bsize = 0,
     bdata = None\<rparr>"

definition get_block :: "store \<Rightarrow> dpbuf \<Rightarrow> (nat \<times> dpbuf_data) option" where
  "get_block h b = do { p \<leftarrow> bdata b; d \<leftarrow> blocks h p; Some (p, d) }"

definition set_block :: "store \<Rightarrow> nat \<Rightarrow> dpbuf_data \<Rightarrow> store" where
  "set_block h p d = h\<lparr>blocks := (blocks h)(p \<mapsto> d)\<rparr>"

text \<open>One call of \<open>malloc\<close> or \<open>realloc\<close>: the store counts it and tells whether it succeeds.\<close>

definition attempt :: "store \<Rightarrow> store \<times> bool" where
  "attempt h = (h\<lparr>allocs := Suc (allocs h)\<rparr>, avail h (allocs h))"

definition fresh_bytes :: "store \<Rightarrow> nat \<Rightarrow> nat \<Rightarrow> byte list" where
  "fresh_bytes h i n = map (junk h (allocs h)) [i..<n]"

definition new_block :: "store \<Rightarrow> dpbuf_data \<Rightarrow> store \<times> nat" where
  "new_block h d = (h\<lparr>blocks := (blocks h)(nblk h \<mapsto> d), nblk := Suc (nblk h)\<rparr>, nblk h)"

section \<open>Blocks\<close>

definition dpbuf_data_new :: "store \<Rightarrow> int \<Rightarrow> store \<times> nat option" where
  "dpbuf_data_new h sz =
     (if sz < 0 \<or> sz \<ge> INT_MAX then (h, None)
      else case attempt h of (h1, ok1) \<Rightarrow>
        if \<not> ok1 then (h1, None)
        else case attempt h1 of (h2, ok2) \<Rightarrow>
          if \<not> ok2 then (h2, None)
          else
            let bs = (fresh_bytes h2 0 (nat sz + 1))[0 := 0, nat sz := 0];
                (h3, p) = new_block h2 \<lparr>dbytes = bs, maxs = sz, dflag = 0, refc = 1\<rparr>
            in (h3, Some p))"

definition dpbuf_data_new_d ::
  "store \<Rightarrow> byte list option \<Rightarrow> int \<Rightarrow> u32 \<Rightarrow> (store \<times> nat option) option" where
  "dpbuf_data_new_d h data sz mode =
     (case data of None \<Rightarrow> Some (h, None) | Some src \<Rightarrow>
      (case attempt h of (h1, ok1) \<Rightarrow>
        if \<not> ok1 then Some (h1, None)
        else do {
          sz \<leftarrow> (if sz < 0 then strlen src else Some sz);
          if has_bit mode DPBUF_DUP_DATA then do {
            n \<leftarrow> chk_int (sz + 1);
            (case attempt h1 of (h2, ok2) \<Rightarrow>
              if \<not> ok2 then Some (h2, None)
              else do {
                copied \<leftarrow> mem_read 0 sz src;
                let (h3, p) = new_block h2
                      \<lparr>dbytes = copied @ [0], maxs = sz, dflag = 0, refc = 1\<rparr>;
                Some (h3, Some p)
              })
          } else do {
            let (h3, p) = new_block h1
                  \<lparr>dbytes = src, maxs = sz, dflag = mode AND DPBUF_FLAGMASK, refc = 1\<rparr>;
            Some (h3, Some p)
          }
        }))"

definition dpbuf_data_del :: "store \<Rightarrow> nat \<Rightarrow> store option" where
  "dpbuf_data_del h p = do {
     d \<leftarrow> blocks h p;
     Some (if refc d = 1 then h\<lparr>blocks := (blocks h)(p := None)\<rparr>
           else set_block h p (d\<lparr>refc := refc d - 1\<rparr>))
   }"

definition dpbuf_data_ref :: "store \<Rightarrow> nat \<Rightarrow> store option" where
  "dpbuf_data_ref h p = do {
     d \<leftarrow> blocks h p;
     Some (set_block h p (d\<lparr>refc := refc d + 1\<rparr>))
   }"

definition pow_min_value :: "int \<Rightarrow> int option" where
  "pow_min_value value =
     (if value = 0 then Some 1
      else do {
        v \<leftarrow> chk_int (value - 1);
        let v = v OR drop_bit 1 v;
        let v = v OR drop_bit 2 v;
        let v = v OR drop_bit 4 v;
        let v = v OR drop_bit 8 v;
        chk_int (v + 1)
      })"

definition dpbuf_data_resize :: "store \<Rightarrow> nat \<Rightarrow> int \<Rightarrow> (store \<times> bool) option" where
  "dpbuf_data_resize h p sz = do {
     d \<leftarrow> blocks h p;
     if maxs d > sz then do {
       bs \<leftarrow> mem_write sz [0] (dbytes d);
       Some (set_block h p (d\<lparr>dbytes := bs\<rparr>), True)
     }
     else if has_bit (dflag d) DPBUF_CONSTDATA then Some (h, False)
     else if sz < 0 \<or> sz \<ge> INT_MAX then Some (h, False)
     else do {
       newsz \<leftarrow> pow_min_value (sz + 1);
       if newsz > DPBUF_MAX_SIZE then Some (h, False)
       else (case attempt h of (h1, ok) \<Rightarrow>
         if \<not> ok then Some (h1, False)
         else do {
           let tmp = take (nat newsz) (dbytes d) @ fresh_bytes h1 (length (dbytes d)) (nat newsz);
           bs \<leftarrow> mem_write sz [0] tmp;
           Some (set_block h1 p (d\<lparr>dbytes := bs, maxs := newsz\<rparr>), True)
         })
     }
   }"

section \<open>Initialisation, views and release\<close>

text \<open>
  \<open>self\<close> is \<open>None\<close> for a null pointer.  The in-place initialisers return the object they
  wrote.
\<close>

definition dpbuf_cpusr :: "dpbuf option \<Rightarrow> dpbuf option \<Rightarrow> dpbuf option" where
  "dpbuf_cpusr self dst =
     (case (self, dst) of
        (Some s, Some d) \<Rightarrow> Some (d\<lparr>uflag := uflag s, utype := utype s\<rparr>)
      | _ \<Rightarrow> dst)"

definition dpbuf_init :: "store \<Rightarrow> dpbuf option \<Rightarrow> int \<Rightarrow> store \<times> dpbuf option \<times> bool" where
  "dpbuf_init h self sz =
     (if self = None \<or> sz < 0 then (h, self, False)
      else case dpbuf_data_new h sz of
          (h1, None) \<Rightarrow> (h1, Some dpbuf_zero, False)
        | (h1, Some p) \<Rightarrow> (h1, Some (dpbuf_zero\<lparr>bdata := Some p, bsize := sz\<rparr>), True))"

definition dpbuf_init_d ::
  "store \<Rightarrow> dpbuf option \<Rightarrow> byte list option \<Rightarrow> int \<Rightarrow> u32 \<Rightarrow> (store \<times> dpbuf option \<times> bool) option"
where
  "dpbuf_init_d h self data sz mode =
     (if self = None then Some (h, self, False)
      else do {
        (h1, r) \<leftarrow> dpbuf_data_new_d h data sz mode;
        case r of None \<Rightarrow> Some (h1, Some dpbuf_zero, False)
        | Some p \<Rightarrow> do {
            d \<leftarrow> blocks h1 p;
            let b = dpbuf_zero\<lparr>bdata := Some p, bsize := maxs d\<rparr>;
            let b = (if has_bit mode DPBUF_INIT_R
                     then b\<lparr>rend := bsize b, wbeg := bsize b\<rparr> else b);
            Some (h1, Some b, True)
          }
      })"

text \<open>\<open>txt\<close> is what \<open>vsnprintf\<close> produces for the format and its arguments, \<open>None\<close> when it
  reports an error.\<close>

definition dpbuf_init_v ::
  "store \<Rightarrow> dpbuf option \<Rightarrow> byte list option \<Rightarrow> (store \<times> dpbuf option \<times> bool) option" where
  "dpbuf_init_v h self txt =
     (if self = None then Some (h, self, False)
      else case txt of None \<Rightarrow> Some (h, self, False)
      | Some s \<Rightarrow>
        (case dpbuf_init h self (int (length s)) of
           (h1, b, False) \<Rightarrow> Some (h1, b, False)
         | (h1, None, True) \<Rightarrow> None
         | (h1, Some b, True) \<Rightarrow> do {
             (p, d) \<leftarrow> get_block h1 b;
             bs \<leftarrow> mem_write 0 (s @ [0]) (dbytes d);
             Some (set_block h1 p (d\<lparr>dbytes := bs\<rparr>),
                   Some (b\<lparr>rend := bsize b, wbeg := bsize b\<rparr>), True)
           }))"

definition dpbuf_init_r ::
  "store \<Rightarrow> dpbuf option \<Rightarrow> dpbuf option \<Rightarrow> (store \<times> dpbuf option \<times> bool) option" where
  "dpbuf_init_r h self other =
     (if self = None then Some (h, self, False)
      else case other of
        None \<Rightarrow> Some (dpbuf_init h self 0)
      | Some ob \<Rightarrow>
        (case bdata ob of None \<Rightarrow> Some (dpbuf_init h self 0)
         | Some p \<Rightarrow> do {
             h1 \<leftarrow> dpbuf_data_ref h p;
             Some (h1, dpbuf_cpusr other (Some (ob\<lparr>wbeg := rend ob, bsize := rend ob\<rparr>)), True)
           }))"

definition dpbuf_crsize :: "dpbuf \<Rightarrow> int" where
  "dpbuf_crsize b = rend b - rbeg b"

definition dpbuf_cwsize :: "dpbuf \<Rightarrow> int" where
  "dpbuf_cwsize b = bsize b - wbeg b"

definition dpbuf_cesize :: "dpbuf \<Rightarrow> int" where
  "dpbuf_cesize b = wbeg b - rend b"

text \<open>The memory from a cursor on: what \<open>dpbuf_crdata\<close>, \<open>dpbuf_cedata\<close> and \<open>dpbuf_cwdata\<close>
  point to.\<close>

definition from_cursor :: "store \<Rightarrow> dpbuf \<Rightarrow> int \<Rightarrow> byte list option" where
  "from_cursor h b i = do {
     (p, d) \<leftarrow> get_block h b;
     guard (0 \<le> i \<and> i \<le> int (length (dbytes d)));
     Some (drop (nat i) (dbytes d))
   }"

definition dpbuf_crdata :: "store \<Rightarrow> dpbuf \<Rightarrow> byte list option" where
  "dpbuf_crdata h b = from_cursor h b (rbeg b)"

definition dpbuf_cwdata :: "store \<Rightarrow> dpbuf \<Rightarrow> byte list option" where
  "dpbuf_cwdata h b = from_cursor h b (wbeg b)"

definition dpbuf_cedata :: "store \<Rightarrow> dpbuf \<Rightarrow> byte list option" where
  "dpbuf_cedata h b = from_cursor h b (rend b)"

definition dpbuf_from_r ::
  "store \<Rightarrow> dpbuf option \<Rightarrow> dpbuf option \<Rightarrow> (store \<times> dpbuf option \<times> bool) option" where
  "dpbuf_from_r h self other =
     (if self = None then Some (h, self, False)
      else case other of None \<Rightarrow> Some (dpbuf_init h self 0)
      | Some ob \<Rightarrow>
        if dpbuf_crsize ob = 0 then Some (dpbuf_init h self 0)
        else do {
          src \<leftarrow> dpbuf_crdata h ob;
          (h1, b, ok) \<leftarrow> dpbuf_init_d h self (Some src) (dpbuf_crsize ob)
                           (DPBUF_DUP_DATA OR DPBUF_INIT_R);
          Some (h1, if ok then dpbuf_cpusr other b else b, ok)
        })"

definition dpbuf_from_e ::
  "store \<Rightarrow> dpbuf option \<Rightarrow> dpbuf option \<Rightarrow> (store \<times> dpbuf option \<times> bool) option" where
  "dpbuf_from_e h self other =
     (if self = None then Some (h, self, False)
      else case other of None \<Rightarrow> Some (dpbuf_init h self 0)
      | Some ob \<Rightarrow>
        if dpbuf_cesize ob = 0 then Some (dpbuf_init h self 0)
        else do {
          src \<leftarrow> dpbuf_cedata h ob;
          (h1, b, ok) \<leftarrow> dpbuf_init_d h self (Some src) (dpbuf_cesize ob)
                           (DPBUF_DUP_DATA OR DPBUF_INIT_R);
          Some (h1, if ok then dpbuf_cpusr other b else b, ok)
        })"

text \<open>The constructors allocate the \<open>dpbuf_t\<close> itself first and release it when the
  initialisation fails.\<close>

definition dpbuf_new :: "store \<Rightarrow> int \<Rightarrow> store \<times> dpbuf option" where
  "dpbuf_new h sz =
     (case attempt h of (h1, ok) \<Rightarrow>
      (case dpbuf_init h1 (if ok then Some dpbuf_zero else None) sz of
         (h2, b, r) \<Rightarrow> (h2, if r then b else None)))"

definition dpbuf_new_d ::
  "store \<Rightarrow> byte list option \<Rightarrow> int \<Rightarrow> u32 \<Rightarrow> (store \<times> dpbuf option) option" where
  "dpbuf_new_d h data sz mode =
     (case attempt h of (h1, ok) \<Rightarrow> do {
        (h2, b, r) \<leftarrow> dpbuf_init_d h1 (if ok then Some dpbuf_zero else None) data sz mode;
        Some (h2, if r then b else None)
      })"

definition dpbuf_new_v :: "store \<Rightarrow> byte list option \<Rightarrow> (store \<times> dpbuf option) option" where
  "dpbuf_new_v h txt =
     (case txt of None \<Rightarrow> Some (h, None)
      | Some s \<Rightarrow>
        (case dpbuf_new h (int (length s)) of
           (h1, None) \<Rightarrow> Some (h1, None)
         | (h1, Some b) \<Rightarrow> do {
             (p, d) \<leftarrow> get_block h1 b;
             bs \<leftarrow> mem_write 0 (s @ [0]) (dbytes d);
             Some (set_block h1 p (d\<lparr>dbytes := bs\<rparr>),
                   Some (b\<lparr>rend := bsize b, wbeg := bsize b\<rparr>))
           }))"

definition dpbuf_new_r :: "store \<Rightarrow> dpbuf option \<Rightarrow> (store \<times> dpbuf option) option" where
  "dpbuf_new_r h self =
     (case self of None \<Rightarrow> Some (dpbuf_new h 0)
      | Some b \<Rightarrow>
        (case bdata b of None \<Rightarrow> Some (dpbuf_new h 0)
         | Some p \<Rightarrow>
           (case attempt h of (h1, ok) \<Rightarrow>
              if \<not> ok then Some (h1, None)
              else do {
                h2 \<leftarrow> dpbuf_data_ref h1 p;
                Some (h2, dpbuf_cpusr self (Some (b\<lparr>wbeg := rend b, bsize := rend b\<rparr>)))
              })))"

definition dpbuf_dup_r :: "store \<Rightarrow> dpbuf option \<Rightarrow> (store \<times> dpbuf option) option" where
  "dpbuf_dup_r h self =
     (case self of None \<Rightarrow> Some (dpbuf_new h 0)
      | Some b \<Rightarrow>
        if dpbuf_crsize b = 0 then Some (dpbuf_new h 0)
        else do {
          src \<leftarrow> dpbuf_crdata h b;
          (h1, nb) \<leftarrow> dpbuf_new_d h (Some src) (dpbuf_crsize b) (DPBUF_DUP_DATA OR DPBUF_INIT_R);
          Some (h1, dpbuf_cpusr self nb)
        })"

definition dpbuf_dup_e :: "store \<Rightarrow> dpbuf option \<Rightarrow> (store \<times> dpbuf option) option" where
  "dpbuf_dup_e h self =
     (case self of None \<Rightarrow> Some (dpbuf_new h 0)
      | Some b \<Rightarrow>
        if dpbuf_cesize b = 0 then Some (dpbuf_new h 0)
        else do {
          src \<leftarrow> dpbuf_cedata h b;
          (h1, nb) \<leftarrow> dpbuf_new_d h (Some src) (dpbuf_cesize b) (DPBUF_DUP_DATA OR DPBUF_INIT_R);
          Some (h1, dpbuf_cpusr self nb)
        })"

definition dpbuf_del :: "store \<Rightarrow> dpbuf option \<Rightarrow> store option" where
  "dpbuf_del h self =
     (case self of None \<Rightarrow> Some h
      | Some b \<Rightarrow> do { p \<leftarrow> bdata b; dpbuf_data_del h p })"

definition dpbuf_fini :: "store \<Rightarrow> dpbuf option \<Rightarrow> (store \<times> dpbuf) option" where
  "dpbuf_fini h self =
     (case self of None \<Rightarrow> None
      | Some b \<Rightarrow>
        (case bdata b of None \<Rightarrow> Some (h, dpbuf_zero)
         | Some p \<Rightarrow> do { h1 \<leftarrow> dpbuf_data_del h p; Some (h1, dpbuf_zero) }))"

definition dpbuf_refc :: "store \<Rightarrow> dpbuf \<Rightarrow> int option" where
  "dpbuf_refc h b = do { (p, d) \<leftarrow> get_block h b; Some (refc d) }"

section \<open>Tags and flags\<close>

definition dpbuf_set_utype :: "dpbuf \<Rightarrow> int \<Rightarrow> dpbuf" where
  "dpbuf_set_utype b t = b\<lparr>utype := word_of_int t\<rparr>"

definition dpbuf_uflag :: "dpbuf \<Rightarrow> int \<Rightarrow> int" where
  "dpbuf_uflag b f = uint (uflag b) AND f"

definition dpbuf_rmv_uflag :: "dpbuf \<Rightarrow> int \<Rightarrow> dpbuf" where
  "dpbuf_rmv_uflag b f = b\<lparr>uflag := uflag b AND NOT (word_of_int f)\<rparr>"

definition dpbuf_add_uflag :: "dpbuf \<Rightarrow> int \<Rightarrow> dpbuf" where
  "dpbuf_add_uflag b f = b\<lparr>uflag := uflag b OR word_of_int f\<rparr>"

definition dpbuf_set_recycle :: "dpbuf \<Rightarrow> bool \<Rightarrow> dpbuf" where
  "dpbuf_set_recycle b on =
     b\<lparr>bflag := (if on then bflag b AND NOT DPBUF_NORECYCLE else bflag b OR DPBUF_NORECYCLE)\<rparr>"

section \<open>Capacity and compaction\<close>

definition dpbuf_resize :: "store \<Rightarrow> dpbuf \<Rightarrow> int \<Rightarrow> (store \<times> dpbuf \<times> bool) option" where
  "dpbuf_resize h b sz =
     (if sz \<le> 0 then Some (h, b, False)
      else do {
        p \<leftarrow> bdata b;
        (h1, r) \<leftarrow> dpbuf_data_resize h p sz;
        Some (h1, if r then b\<lparr>bsize := sz\<rparr> else b, r)
      })"

definition dpbuf_recycle_data :: "store \<Rightarrow> dpbuf \<Rightarrow> (store \<times> dpbuf) option" where
  "dpbuf_recycle_data h b = do {
     (p, d) \<leftarrow> get_block h b;
     if rbeg b = wbeg b then do {
       let b1 = b\<lparr>bsize := bsize b - wbeg b, rbeg := 0, rend := 0, wbeg := 0\<rparr>;
       bs \<leftarrow> mem_write (bsize b1) [0] (dbytes d);
       Some (set_block h p (d\<lparr>dbytes := bs\<rparr>), b1)
     }
     else if rbeg b > DPBUF_S_SIZE \<and> maxs d div rbeg b < 4 then do {
       moved \<leftarrow> mem_read (rbeg b) (wbeg b - rbeg b) (dbytes d);
       bs \<leftarrow> mem_write 0 moved (dbytes d);
       let b1 = b\<lparr>rbeg := 0, rend := rend b - rbeg b, wbeg := wbeg b - rbeg b,
                  bsize := bsize b - rbeg b\<rparr>;
       bs' \<leftarrow> mem_write (bsize b1) [0] bs;
       Some (set_block h p (d\<lparr>dbytes := bs'\<rparr>), b1)
     }
     else Some (h, b)
   }"

definition dpbuf_resizew :: "store \<Rightarrow> dpbuf \<Rightarrow> int \<Rightarrow> (store \<times> dpbuf \<times> bool) option" where
  "dpbuf_resizew h b s =
     (if s \<ge> 0 then do {
        (h1, b1) \<leftarrow> (if \<not> has_bit (bflag b) DPBUF_NORECYCLE then dpbuf_recycle_data h b
                      else Some (h, b));
        sz \<leftarrow> chk_int (wbeg b1 + s);
        dpbuf_resize h1 b1 sz
      } else Some (h, b, False))"

definition dpbuf_wcheck :: "store \<Rightarrow> dpbuf \<Rightarrow> int \<Rightarrow> (store \<times> dpbuf \<times> bool) option" where
  "dpbuf_wcheck h b len =
     (if bsize b - wbeg b < len then dpbuf_resizew h b len else Some (h, b, True))"

definition dpbuf_recycle :: "store \<Rightarrow> dpbuf option \<Rightarrow> bool \<Rightarrow> (store \<times> dpbuf option) option" where
  "dpbuf_recycle h self force =
     (case self of None \<Rightarrow> Some (h, None)
      | Some b \<Rightarrow>
        if force \<or> \<not> has_bit (bflag b) DPBUF_NORECYCLE then do {
          (h1, b1) \<leftarrow> dpbuf_recycle_data h b;
          (h2, b2, r) \<leftarrow> dpbuf_resize h1 b1 0;
          Some (h2, Some b2)
        } else Some (h, Some b))"

definition dpbuf_reset :: "dpbuf \<Rightarrow> u32 \<Rightarrow> dpbuf" where
  "dpbuf_reset b mode =
     (if has_bit mode DPBUF_INIT_R then b\<lparr>rend := bsize b, wbeg := bsize b, rbeg := 0\<rparr>
      else if has_bit mode DPBUF_INIT_W then b\<lparr>rbeg := 0, rend := 0, wbeg := 0\<rparr>
      else b\<lparr>rbeg := 0, rend := 0, wbeg := 0, bsize := 0\<rparr>)"

section \<open>Comparison and search in the readable window\<close>

definition dpbuf_cempty :: "dpbuf \<Rightarrow> bool" where
  "dpbuf_cempty b \<longleftrightarrow> dpbuf_crsize b = 0"

definition dpbuf_cequalc :: "store \<Rightarrow> dpbuf \<Rightarrow> byte list \<Rightarrow> int \<Rightarrow> bool option" where
  "dpbuf_cequalc h b sub len = do {
     len \<leftarrow> (if len < 0 then strlen sub else Some len);
     if len = 0 \<or> dpbuf_crsize b < len then Some False
     else do {
       d \<leftarrow> dpbuf_crdata h b;
       x \<leftarrow> mem_read 0 len d;
       y \<leftarrow> mem_read 0 len sub;
       Some (memcmp x y = 0)
     }
   }"

text \<open>\<open>same\<close> tells whether the two pointers are equal.\<close>

definition dpbuf_ccmp :: "store \<Rightarrow> bool \<Rightarrow> dpbuf option \<Rightarrow> dpbuf option \<Rightarrow> int option" where
  "dpbuf_ccmp h same self other =
     (if same then Some 0
      else case (self, other) of
        (None, _) \<Rightarrow> Some (- 1)
      | (Some _, None) \<Rightarrow> Some 1
      | (Some a, Some b) \<Rightarrow>
          let l1 = dpbuf_crsize a; l2 = dpbuf_crsize b
          in if l1 \<noteq> l2 then chk_int (l1 - l2)
             else if l1 > 0 then do {
               d1 \<leftarrow> dpbuf_crdata h a;
               d2 \<leftarrow> dpbuf_crdata h b;
               x \<leftarrow> mem_read 0 l1 d1;
               y \<leftarrow> mem_read 0 l1 d2;
               Some (memcmp x y)
             }
             else Some 0)"

definition dpbuf_cfind ::
  "store \<Rightarrow> dpbuf option \<Rightarrow> byte list option \<Rightarrow> int \<Rightarrow> int \<Rightarrow> int option" where
  "dpbuf_cfind h self match len left =
     (case (match, self) of
        (Some m, Some b) \<Rightarrow> do {
          len \<leftarrow> (if len < 0 then strlen m else Some len);
          let rsz = dpbuf_crsize b;
          if len = 0 \<or> rsz < len then Some DPE_NODATA
          else do {
            d \<leftarrow> dpbuf_crdata h b;
            hay \<leftarrow> mem_read left (rsz - left) d;
            pat \<leftarrow> mem_read 0 len m;
            case memmem hay pat of None \<Rightarrow> Some DPE_PERM
            | Some i \<Rightarrow> Some (left + int i)
          }
        }
      | _ \<Rightarrow> Some DPE_INVAL)"

definition dpbuf_cstrlen :: "store \<Rightarrow> dpbuf \<Rightarrow> int option" where
  "dpbuf_cstrlen h b = do {
     d \<leftarrow> dpbuf_crdata h b;
     w \<leftarrow> mem_read 0 (dpbuf_crsize b) d;
     Some (int (strnlen w))
   }"

definition is_ws :: "byte \<Rightarrow> bool" where
  "is_ws c \<longleftrightarrow> c = 32 \<or> c = 13 \<or> c = 10"

definition dpbuf_cbegwith ::
  "store \<Rightarrow> dpbuf \<Rightarrow> byte list option \<Rightarrow> int \<Rightarrow> bool \<Rightarrow> bool option" where
  "dpbuf_cbegwith h b sub len skip_begws =
     (let s = dpbuf_crsize b in
      case sub of None \<Rightarrow> Some False
      | Some sb \<Rightarrow>
        if s = 0 then Some False
        else do {
          len \<leftarrow> (if len < 0 then strlen sb else Some len);
          if s < len then Some False
          else do {
            d \<leftarrow> dpbuf_crdata h b;
            n \<leftarrow> (if skip_begws then do {
                     w \<leftarrow> mem_read 0 s d;
                     Some (length (takeWhile is_ws w))
                   } else Some 0);
            if s - int n < len then Some False
            else do {
              x \<leftarrow> mem_read 0 len sb;
              y \<leftarrow> mem_read (int n) len d;
              Some (memcmp x y = 0)
            }
          }
        })"

section \<open>Cursors\<close>

definition dpbuf_rseek :: "dpbuf \<Rightarrow> int \<Rightarrow> seek \<Rightarrow> (dpbuf \<times> int) option" where
  "dpbuf_rseek b offset seek = do {
     i \<leftarrow> (case seek of SEEK_SET \<Rightarrow> chk_int (0 + offset)
            | SEEK_CUR \<Rightarrow> chk_int (rbeg b + offset)
            | SEEK_END \<Rightarrow> chk_int (rend b + offset));
     let b1 = b\<lparr>rbeg := iclamp i 0 (rend b)\<rparr>;
     Some (b1, rbeg b1 - rbeg b)
   }"

definition dpbuf_wseek :: "dpbuf \<Rightarrow> int \<Rightarrow> seek \<Rightarrow> (dpbuf \<times> int) option" where
  "dpbuf_wseek b offset seek = do {
     i \<leftarrow> (case seek of SEEK_SET \<Rightarrow> chk_int (rend b + offset)
            | SEEK_CUR \<Rightarrow> chk_int (wbeg b + offset)
            | SEEK_END \<Rightarrow> chk_int (bsize b + offset));
     let b1 = b\<lparr>wbeg := iclamp i (rend b) (bsize b)\<rparr>;
     Some (b1, wbeg b1 - wbeg b)
   }"

definition dpbuf_eseek :: "dpbuf \<Rightarrow> int \<Rightarrow> seek \<Rightarrow> (dpbuf \<times> int) option" where
  "dpbuf_eseek b offset seek = do {
     i \<leftarrow> (case seek of SEEK_SET \<Rightarrow> chk_int (rbeg b + offset)
            | SEEK_CUR \<Rightarrow> chk_int (rend b + offset)
            | SEEK_END \<Rightarrow> chk_int (wbeg b + offset));
     let b1 = b\<lparr>rend := iclamp i (rbeg b) (wbeg b)\<rparr>;
     Some (b1, rend b1 - rend b)
   }"

section \<open>Writing\<close>

text \<open>The copy at the write cursor and the advance of the cursor, common to the writers.\<close>

definition put_bytes :: "store \<Rightarrow> dpbuf \<Rightarrow> byte list \<Rightarrow> (store \<times> dpbuf) option" where
  "put_bytes h b xs = do {
     (p, d) \<leftarrow> get_block h b;
     bs \<leftarrow> mem_write (wbeg b) xs (dbytes d);
     Some (set_block h p (d\<lparr>dbytes := bs\<rparr>), b\<lparr>wbeg := wbeg b + int (length xs)\<rparr>)
   }"

text \<open>\<open>memcpy\<close> between two regions of one block is undefined when they overlap.\<close>

definition memcpy_disjoint :: "dpbuf \<Rightarrow> dpbuf \<Rightarrow> int \<Rightarrow> bool" where
  "memcpy_disjoint self buf len \<longleftrightarrow>
     bdata self \<noteq> bdata buf \<or> rbeg buf + len \<le> wbeg self \<or> wbeg self + len \<le> rbeg buf \<or> len = 0"

definition dpbuf_wbuf :: "store \<Rightarrow> dpbuf \<Rightarrow> dpbuf \<Rightarrow> int \<Rightarrow> (store \<times> dpbuf \<times> int) option" where
  "dpbuf_wbuf h self buf len = do {
     let alen = dpbuf_crsize buf;
     let len = (if len \<le> 0 then alen else imin alen len);
     (h1, b1, ok) \<leftarrow> dpbuf_wcheck h self len;
     if \<not> ok then Some (h1, b1, DPE_NOMEM)
     else do {
       src \<leftarrow> dpbuf_crdata h1 buf;
       xs \<leftarrow> mem_read 0 len src;
       guard (memcpy_disjoint b1 buf len);
       (h2, b2) \<leftarrow> put_bytes h1 b1 xs;
       Some (h2, b2, len)
     }
   }"

definition dpbuf_wbuf_r ::
  "store \<Rightarrow> dpbuf \<Rightarrow> dpbuf \<Rightarrow> int \<Rightarrow> (store \<times> dpbuf \<times> dpbuf \<times> int) option" where
  "dpbuf_wbuf_r h self buf len = do {
     let alen = dpbuf_crsize buf;
     let len = (if len \<le> 0 then alen else imin alen len);
     (h1, b1, ok) \<leftarrow> dpbuf_wcheck h self len;
     if \<not> ok then Some (h1, b1, buf, DPE_NOMEM)
     else do {
       src \<leftarrow> dpbuf_crdata h1 buf;
       xs \<leftarrow> mem_read 0 len src;
       guard (memcpy_disjoint b1 buf len);
       (h2, b2) \<leftarrow> put_bytes h1 b1 xs;
       Some (h2, b2, buf\<lparr>rbeg := rbeg buf + len\<rparr>, len)
     }
   }"

definition dpbuf_wfill :: "store \<Rightarrow> dpbuf \<Rightarrow> int \<Rightarrow> byte \<Rightarrow> (store \<times> dpbuf \<times> int) option" where
  "dpbuf_wfill h b len v = do {
     (h1, b1, ok) \<leftarrow> dpbuf_wcheck h b len;
     if \<not> ok then Some (h1, b1, DPE_NOMEM)
     else do {
       guard (0 \<le> len);
       (h2, b2) \<leftarrow> put_bytes h1 b1 (replicate (nat len) v);
       Some (h2, b2, len)
     }
   }"

definition dpbuf_wdata ::
  "store \<Rightarrow> dpbuf \<Rightarrow> byte list option \<Rightarrow> int \<Rightarrow> (store \<times> dpbuf \<times> int) option" where
  "dpbuf_wdata h b data len =
     (case data of None \<Rightarrow> Some (h, b, DPE_INVAL)
      | Some src \<Rightarrow>
        if len = 0 then Some (h, b, DPE_INVAL)
        else do {
          (h1, b1, ok) \<leftarrow> dpbuf_wcheck h b len;
          if \<not> ok then Some (h1, b1, DPE_NOMEM)
          else do {
            xs \<leftarrow> mem_read 0 len src;
            (h2, b2) \<leftarrow> put_bytes h1 b1 xs;
            Some (h2, b2, len)
          }
        })"

text \<open>\<open>fmt\<close> is \<open>None\<close> for a null format, \<open>Some None\<close> when \<open>vsnprintf\<close> reports an error.\<close>

definition dpbuf_wstrv ::
  "store \<Rightarrow> dpbuf option \<Rightarrow> byte list option option \<Rightarrow> (store \<times> dpbuf option \<times> int) option" where
  "dpbuf_wstrv h self fmt =
     (case (self, fmt) of
        (Some b, Some txt) \<Rightarrow>
          let rsz = (case txt of None \<Rightarrow> - 1 | Some s \<Rightarrow> int (length s)) in
          if rsz \<le> 0 then Some (h, self, 0)
          else do {
            s \<leftarrow> txt;
            n \<leftarrow> chk_int (rsz + 1);
            (h1, b1, ok) \<leftarrow> dpbuf_wcheck h b n;
            if \<not> ok then Some (h1, Some b1, DPE_NOMEM)
            else do {
              (h2, b2) \<leftarrow> put_bytes h1 b1 (s @ [0]);
              Some (h2, Some (b2\<lparr>wbeg := wbeg b1 + rsz\<rparr>), rsz)
            }
          }
      | _ \<Rightarrow> Some (h, self, DPE_INVAL))"

section \<open>Reading\<close>

text \<open>The bytes between \<open>rend\<close> and \<open>wbeg\<close>, as the scanning readers see them.\<close>

definition pending :: "store \<Rightarrow> dpbuf \<Rightarrow> byte list option" where
  "pending h b = do { d \<leftarrow> dpbuf_cedata h b; mem_read 0 (dpbuf_cesize b) d }"

definition dpbuf_rws :: "store \<Rightarrow> dpbuf \<Rightarrow> (dpbuf \<times> int) option" where
  "dpbuf_rws h b = do {
     let b1 = b\<lparr>rbeg := rend b\<rparr>;
     w \<leftarrow> pending h b1;
     let n = int (length (takeWhile is_ws w));
     Some (b1\<lparr>rend := rend b1 + n\<rparr>, n)
   }"

definition dpbuf_rdata :: "dpbuf \<Rightarrow> int \<Rightarrow> dpbuf \<times> int" where
  "dpbuf_rdata b len =
     (let b1 = b\<lparr>rbeg := rend b\<rparr>;
          slen = dpbuf_cesize b1;
          len = (if len < 0 then slen else len);
          len = imin len slen
      in (b1\<lparr>rend := rend b1 + len\<rparr>, len))"

definition dpbuf_rmust :: "dpbuf \<Rightarrow> int \<Rightarrow> dpbuf \<times> int" where
  "dpbuf_rmust b len =
     (let b1 = b\<lparr>rbeg := rend b\<rparr>;
          slen = dpbuf_cesize b1
      in if len < 0 \<or> len > slen then (b1\<lparr>rend := rbeg b1\<rparr>, DPE_NODATA)
         else (b1\<lparr>rend := rend b1 + len\<rparr>, len))"

definition dpbuf_runtil ::
  "store \<Rightarrow> dpbuf \<Rightarrow> byte list option \<Rightarrow> int \<Rightarrow> (dpbuf \<times> int) option" where
  "dpbuf_runtil h b until until_sz = do {
     let b1 = b\<lparr>rbeg := rend b\<rparr>;
     let b2 = b1\<lparr>rend := wbeg b1\<rparr>;
     idx \<leftarrow> dpbuf_cfind h (Some b2) until until_sz 0;
     if idx < 0 then Some (b2\<lparr>rend := rbeg b2\<rparr>, DPE_NODATA)
     else do {
       let len = idx + until_sz;
       Some (b2\<lparr>rend := rbeg b2 + len\<rparr>, len)
     }
   }"

definition dpbuf_rcstr :: "store \<Rightarrow> dpbuf \<Rightarrow> (dpbuf \<times> int) option" where
  "dpbuf_rcstr h b = do {
     let b1 = b\<lparr>rbeg := rend b\<rparr>;
     w \<leftarrow> pending h b1;
     let el = wbeg b1 - rend b1;
     let len = int (strnlen w);
     let len = (if len > 0 \<and> len < el then len + 1 else len);
     Some (b1\<lparr>rend := rend b1 + len\<rparr>, len)
   }"

definition dpbuf_rall :: "dpbuf \<Rightarrow> dpbuf \<times> int" where
  "dpbuf_rall b =
     (let b1 = b\<lparr>rbeg := rend b, rend := wbeg b\<rparr> in (b1, rend b1 - rbeg b1))"

definition dpbuf_readto ::
  "store \<Rightarrow> dpbuf \<Rightarrow> dpbuf \<Rightarrow> int \<Rightarrow> (store \<times> dpbuf \<times> dpbuf \<times> int) option" where
  "dpbuf_readto h self det sz = do {
     let s1 = self\<lparr>rbeg := rend self\<rparr>;
     let esz = dpbuf_cesize s1;
     if esz = 0 then Some (h, s1, det, DPE_NODATA)
     else do {
       let s2 = s1\<lparr>rend := wbeg s1\<rparr>;
       (h1, d1, wsz) \<leftarrow> dpbuf_wbuf h det s2 sz;
       let d2 = d1\<lparr>rend := wbeg d1\<rparr>;
       let s3 = s2\<lparr>rend := wbeg s2 - (esz - wsz)\<rparr>;
       Some (h1, s3\<lparr>rbeg := rend s3\<rparr>, d2, wsz)
     }
   }"

end
