(* ===== verification/Dpbuf_Inv.thy ===== *)
theory Dpbuf_Inv
  imports Dpbuf
begin

text \<open>
  The invariant of a buffer over its block, the windows it delimits, and what capacity and
  compaction operations keep of them: every operation of a well-formed buffer stays inside its
  block and moves bytes only together with the cursors that delimit them.
\<close>

section \<open>Invariant and windows\<close>

definition block_ok :: "dpbuf_data \<Rightarrow> bool" where
  "block_ok d \<longleftrightarrow> 0 \<le> maxs d \<and> maxs d \<le> int (length (dbytes d)) \<and> maxs d \<le> INT_MAX \<and> 1 \<le> refc d"

definition cursors_ok :: "dpbuf \<Rightarrow> dpbuf_data \<Rightarrow> bool" where
  "cursors_ok b d \<longleftrightarrow>
     0 \<le> rbeg b \<and> rbeg b \<le> rend b \<and> rend b \<le> wbeg b \<and> wbeg b \<le> bsize b \<and>
     bsize b \<le> maxs d \<and> bsize b < int (length (dbytes d))"

definition buf_ok :: "store \<Rightarrow> dpbuf \<Rightarrow> bool" where
  "buf_ok h b \<longleftrightarrow>
     (case get_block h b of None \<Rightarrow> False | Some (p, d) \<Rightarrow> block_ok d \<and> cursors_ok b d)"

definition content :: "store \<Rightarrow> dpbuf \<Rightarrow> byte list" where
  "content h b = (case get_block h b of None \<Rightarrow> [] | Some (p, d) \<Rightarrow> dbytes d)"

text \<open>The readable window \<open>[rbeg, rend)\<close> and the bytes written but not yet readable,
  \<open>[rend, wbeg)\<close>.\<close>

definition rview :: "store \<Rightarrow> dpbuf \<Rightarrow> byte list" where
  "rview h b = seg (rbeg b) (rend b) (content h b)"

definition eview :: "store \<Rightarrow> dpbuf \<Rightarrow> byte list" where
  "eview h b = seg (rend b) (wbeg b) (content h b)"

text \<open>A block may grow under the other buffers that share it, but never below a capacity one
  of them has.\<close>

definition block_fits :: "dpbuf_data \<Rightarrow> dpbuf_data \<Rightarrow> bool" where
  "block_fits d d' \<longleftrightarrow>
     maxs d \<le> maxs d' \<and>
     (\<forall>n. n \<le> maxs d \<longrightarrow> n < int (length (dbytes d)) \<longrightarrow> n < int (length (dbytes d')))"

text \<open>What an operation on one buffer leaves alone: the block it works on, that block's flags
  and reference count, and every other block.\<close>

definition same_frame :: "store \<Rightarrow> dpbuf \<Rightarrow> store \<Rightarrow> dpbuf \<Rightarrow> bool" where
  "same_frame h b h' b' \<longleftrightarrow>
     bdata b' = bdata b \<and>
     (\<forall>q. bdata b \<noteq> Some q \<longrightarrow> blocks h' q = blocks h q) \<and>
     (\<forall>p. bdata b = Some p \<longrightarrow>
        map_option refc (blocks h' p) = map_option refc (blocks h p) \<and>
        map_option dflag (blocks h' p) = map_option dflag (blocks h p)) \<and>
     (\<forall>p d d'. bdata b = Some p \<longrightarrow> blocks h p = Some d \<longrightarrow> blocks h' p = Some d' \<longrightarrow>
        block_fits d d')"

text \<open>The outcome shared by the operations that may move or grow the block: the buffer stays
  well formed, both windows keep their bytes.\<close>

definition keeps :: "store \<Rightarrow> dpbuf \<Rightarrow> store \<Rightarrow> dpbuf \<Rightarrow> bool" where
  "keeps h b h' b' \<longleftrightarrow>
     buf_ok h' b' \<and> same_frame h b h' b' \<and> rview h' b' = rview h b \<and> eview h' b' = eview h b"

lemma get_block_Some_iff:
  "get_block h b = Some (p, d) \<longleftrightarrow> bdata b = Some p \<and> blocks h p = Some d"
  by (auto simp: get_block_def bind_eq_Some_conv)

lemma buf_ok_iff:
  "buf_ok h b \<longleftrightarrow>
     (\<exists>p d. bdata b = Some p \<and> blocks h p = Some d \<and> block_ok d \<and> cursors_ok b d)"
  by (auto simp: buf_ok_def get_block_Some_iff split: option.splits)
     (auto simp: get_block_def)

lemma buf_okE:
  assumes "buf_ok h b"
  obtains p d where "bdata b = Some p" "blocks h p = Some d" "block_ok d" "cursors_ok b d"
    "get_block h b = Some (p, d)" "content h b = dbytes d"
  using assms by (auto simp: buf_ok_iff content_def get_block_def)

lemma buf_okI:
  "bdata b = Some p \<Longrightarrow> blocks h p = Some d \<Longrightarrow> block_ok d \<Longrightarrow> cursors_ok b d \<Longrightarrow> buf_ok h b"
  by (auto simp: buf_ok_iff)

lemma content_at: "bdata b = Some p \<Longrightarrow> blocks h p = Some d \<Longrightarrow> content h b = dbytes d"
  by (simp add: content_def get_block_def)

lemma blocks_set_block [simp]: "blocks (set_block h p d) = (blocks h)(p \<mapsto> d)"
  by (simp add: set_block_def)

lemma block_fits_refl [simp]: "block_fits d d"
  by (simp add: block_fits_def)

lemma block_fits_trans: "block_fits d d1 \<Longrightarrow> block_fits d1 d2 \<Longrightarrow> block_fits d d2"
  by (auto simp: block_fits_def)

lemma block_fits_length:
  "maxs d' = maxs d \<Longrightarrow> length (dbytes d') = length (dbytes d) \<Longrightarrow> block_fits d d'"
  by (simp add: block_fits_def)

lemma same_frame_refl [simp]: "same_frame h b h b"
  by (simp add: same_frame_def)

lemma same_frame_trans:
  assumes "same_frame h b h1 b1" and "same_frame h1 b1 h2 b2"
  shows "same_frame h b h2 b2"
proof -
  have "block_fits d d'"
    if p: "bdata b = Some p" "blocks h p = Some d" "blocks h2 p = Some d'" for p d d'
  proof -
    from assms(1) p obtain d1 where "blocks h1 p = Some d1"
      by (auto simp: same_frame_def)
    with assms p show ?thesis
      unfolding same_frame_def by (metis block_fits_trans)
  qed
  with assms show ?thesis by (auto simp: same_frame_def)
qed

lemma same_frame_cursors:
  "bdata b' = bdata b \<Longrightarrow> same_frame h b h b'"
  by (auto simp: same_frame_def)

lemma same_frame_update:
  "bdata b = Some p \<Longrightarrow> blocks h p = Some d \<Longrightarrow> bdata b' = Some p \<Longrightarrow>
    blocks h' = (blocks h)(p \<mapsto> d') \<Longrightarrow> refc d' = refc d \<Longrightarrow> dflag d' = dflag d \<Longrightarrow>
    block_fits d d' \<Longrightarrow> same_frame h b h' b'"
  by (auto simp: same_frame_def)

lemma keeps_refl: "buf_ok h b \<Longrightarrow> keeps h b h b"
  by (simp add: keeps_def)

lemma keeps_trans: "keeps h b h1 b1 \<Longrightarrow> keeps h1 b1 h2 b2 \<Longrightarrow> keeps h b h2 b2"
  by (auto simp: keeps_def intro: same_frame_trans)

lemma keepsD:
  assumes "keeps h b h' b'"
  shows "buf_ok h' b'" "same_frame h b h' b'" "rview h' b' = rview h b" "eview h' b' = eview h b"
  using assms by (simp_all add: keeps_def)

lemma same_frame_sharing:
  assumes "same_frame h b h' b'" and "buf_ok h' b'" and "buf_ok h b" and "buf_ok h c"
  shows "buf_ok h' c"
proof (cases "bdata c = bdata b")
  case False
  with assms show ?thesis
    by (auto simp: buf_ok_iff same_frame_def)
next
  case True
  from assms(3) obtain p d where d: "bdata b = Some p" "blocks h p = Some d" by (rule buf_okE)
  from assms(2) d assms(1) obtain d' where d': "blocks h' p = Some d'" "block_ok d'"
    by (auto simp: buf_ok_iff same_frame_def)
  from assms(4) True d have "cursors_ok c d" by (auto simp: buf_ok_iff)
  moreover have "block_fits d d'" using assms(1) d d' by (auto simp: same_frame_def)
  ultimately have "cursors_ok c d'"
    by (auto simp: cursors_ok_def block_fits_def)
  with True d d' show ?thesis by (auto intro: buf_okI)
qed

lemma length_rview: "buf_ok h b \<Longrightarrow> length (rview h b) = nat (dpbuf_crsize b)"
  by (erule buf_okE) (auto simp: rview_def dpbuf_crsize_def cursors_ok_def)

lemma length_eview: "buf_ok h b \<Longrightarrow> length (eview h b) = nat (dpbuf_cesize b)"
  by (erule buf_okE) (auto simp: eview_def dpbuf_cesize_def cursors_ok_def)

section \<open>Growth: the new capacity\<close>

lemma int_or_shift:
  fixes x :: int
  assumes "0 \<le> x" and "x < 2 ^ n"
  shows "x \<le> x OR drop_bit k x" and "0 \<le> x OR drop_bit k x" and "x OR drop_bit k x < 2 ^ n"
proof -
  have "x div 2 ^ k \<le> x div 1"
    using assms by (intro zdiv_mono2) auto
  with assms have d: "0 \<le> drop_bit k x" "drop_bit k x \<le> x"
    by (simp_all add: drop_bit_eq_div pos_imp_zdiv_nonneg_iff)
  then show "x \<le> x OR drop_bit k x" by (simp add: or_greater_eq)
  with assms show "0 \<le> x OR drop_bit k x" by linarith
  show "x OR drop_bit k x < 2 ^ n"
    using assms d by (intro OR_upper) auto
qed

text \<open>The smeared value of \<open>pow_min_value\<close> before the final increment.\<close>

definition smear :: "int \<Rightarrow> int" where
  "smear x =
     (let v = x OR drop_bit 1 x; v = v OR drop_bit 2 v; v = v OR drop_bit 4 v
      in v OR drop_bit 8 v)"

lemma smear_bounds:
  assumes "0 \<le> x" and "x < 2 ^ n"
  shows "x \<le> smear x" and "smear x < 2 ^ n"
proof -
  define a where "a = x OR drop_bit 1 x"
  define b where "b = a OR drop_bit 2 a"
  define c where "c = b OR drop_bit 4 b"
  note steps = int_or_shift [OF assms, of 1, folded a_def]
  note stepb = int_or_shift [OF steps(2,3), of 2, folded b_def]
  note stepc = int_or_shift [OF stepb(2,3), of 4, folded c_def]
  note stepd = int_or_shift [OF stepc(2,3), of 8]
  have e: "smear x = c OR drop_bit 8 c"
    by (simp add: smear_def a_def b_def c_def Let_def)
  show "x \<le> smear x" using steps(1) stepb(1) stepc(1) stepd(1) e by linarith
  show "smear x < 2 ^ n" using stepd(3) e by simp
qed

lemma pow_min_value_smear:
  "0 < v \<Longrightarrow> v \<le> INT_MAX \<Longrightarrow> pow_min_value v = chk_int (smear (v - 1) + 1)"
  by (simp add: pow_min_value_def smear_def Let_def chk_int_def)

lemma pow_min_value_bounds:
  assumes "0 < v" and "v \<le> 2 ^ 30"
  obtains n where "pow_min_value v = Some n" and "v \<le> n" and "n \<le> 2 ^ 30"
proof -
  have "v - 1 \<le> smear (v - 1)" "smear (v - 1) < 2 ^ 30"
    using assms smear_bounds [of "v - 1" 30] by simp_all
  with assms show thesis
    by (intro that [of "smear (v - 1) + 1"]) (auto simp: pow_min_value_smear chk_int_def)
qed

lemma bit_smear:
  "bit (smear x) n \<longleftrightarrow> (\<exists>m < 16. bit x (n + m))"
proof -
  have e: "bit (smear x) n \<longleftrightarrow>
      (\<exists>m \<in> {0, 1, 2, 3, 4, 5, 6, 7, 8, 9, 10, 11, 12, 13, 14, 15}. bit x (n + m))"
    by (simp add: smear_def Let_def bit_or_iff bit_drop_bit_eq numeral_eq_Suc)
  have s: "{0, 1, 2, 3, 4, 5, 6, 7, 8, 9, 10, 11, 12, 13, 14, 15} = {..<16::nat}"
    by (auto simp: numeral_eq_Suc less_Suc_eq)
  show ?thesis using e unfolding s by auto
qed

text \<open>Up to 65536 the capacity is the least power of two that is large enough.\<close>

lemma smear_mask:
  assumes "0 < x" and "x < 2 ^ 16"
  shows "\<exists>k \<le> 16. smear x = 2 ^ k - 1 \<and> 2 ^ k \<le> 2 * x"
proof -
  obtain t where t: "bit x t" "\<And>j. bit x j \<Longrightarrow> j \<le> t" "t < 16"
  proof -
    have fin: "j < 16" if "bit x j" for j
      using that assms bit_take_bit_iff [of 16 x j] by (simp add: take_bit_int_eq_self)
    have "{j. bit x j} \<noteq> {}"
      using assms bit_eq_iff [of x 0] by auto
    moreover have "finite {j. bit x j}"
      using fin by (auto intro: finite_subset [of _ "{..<16}"])
    ultimately show thesis
      using that [of "Max {j. bit x j}"] fin Max_in [of "{j. bit x j}"] Max_ge [of "{j. bit x j}"]
      by blast
  qed
  have "smear x = mask (Suc t)"
  proof (rule bit_eqI)
    fix n
    have "bit (smear x) n \<longleftrightarrow> n \<le> t"
    proof
      assume "bit (smear x) n"
      then obtain m where "bit x (n + m)" by (auto simp: bit_smear)
      with t(2) show "n \<le> t" by fastforce
    next
      assume "n \<le> t"
      with t(1,3) show "bit (smear x) n"
        unfolding bit_smear by (intro exI [of _ "t - n"]) auto
    qed
    then show "bit (smear x) n = bit (mask (Suc t) :: int) n"
      by (simp add: bit_mask_iff less_Suc_eq_le)
  qed
  moreover have "2 ^ t \<le> x"
  proof (rule ccontr)
    assume "\<not> 2 ^ t \<le> x"
    with assms have "x div 2 ^ t = 0" by simp
    with t(1) show False by (simp add: bit_iff_odd)
  qed
  ultimately show ?thesis
    using t(3) by (intro exI [of _ "Suc t"]) (simp add: mask_eq_exp_minus_1)
qed

lemma pow_min_value_power:
  assumes "0 < v" and "v \<le> 65536"
  shows "\<exists>k. pow_min_value v = Some (2 ^ k) \<and> v \<le> 2 ^ k \<and> (\<forall>j. v \<le> 2 ^ j \<longrightarrow> k \<le> j)"
proof (cases "v = 1")
  case True
  then show ?thesis
    by (intro exI [of _ 0]) (simp add: pow_min_value_def Let_def chk_int_def)
next
  case False
  with assms obtain k where k: "k \<le> 16" "smear (v - 1) = 2 ^ k - 1" "2 ^ k \<le> 2 * (v - 1)"
    using smear_mask [of "v - 1"] by auto
  have "(2::int) ^ k \<le> 2 ^ 16" using k(1) by (intro power_increasing) auto
  moreover have "(- 2147483648 :: int) \<le> 2 ^ k"
    by (rule order_trans [of _ 0]) simp_all
  ultimately have p: "pow_min_value v = Some (2 ^ k)"
    using assms k(2) by (simp add: pow_min_value_smear chk_int_def)
  have "v \<le> 2 ^ k"
    using smear_bounds(1) [of "v - 1" 16] assms k(2) by simp
  moreover have "k \<le> j" if "v \<le> 2 ^ j" for j
  proof (rule ccontr)
    assume "\<not> k \<le> j"
    then have "(2::int) * 2 ^ j \<le> 2 ^ k"
      using power_increasing [of "Suc j" k "2::int"] by simp
    moreover have False if "v \<le> a" "b \<le> 2 * (v - 1)" "2 * a \<le> b" for a b
      using that by presburger
    ultimately show False using that k(3) by blast
  qed
  ultimately show ?thesis using p by blast
qed

section \<open>Capacity and compaction keep the windows\<close>

definition grown :: "dpbuf_data \<Rightarrow> int \<Rightarrow> dpbuf_data \<Rightarrow> bool" where
  "grown d sz d' \<longleftrightarrow>
     block_ok d' \<and> sz \<le> maxs d' \<and> sz < int (length (dbytes d')) \<and>
     refc d' = refc d \<and> dflag d' = dflag d \<and> block_fits d d' \<and>
     (\<forall>lo hi. 0 \<le> lo \<longrightarrow> lo \<le> hi \<longrightarrow> hi \<le> sz \<longrightarrow> hi \<le> maxs d \<longrightarrow>
        seg lo hi (dbytes d') = seg lo hi (dbytes d))"

lemma dpbuf_data_resize_small:
  assumes "blocks h p = Some d" and "block_ok d" and "0 < sz" and "sz < maxs d"
  shows "\<exists>h' d'. dpbuf_data_resize h p sz = Some (h', True) \<and>
    blocks h' = (blocks h)(p \<mapsto> d') \<and> grown d sz d'"
proof -
  let ?d = "d\<lparr>dbytes := poke (nat sz) [0] (dbytes d)\<rparr>"
  have "dpbuf_data_resize h p sz = Some (set_block h p ?d, True)"
    using assms by (auto simp: dpbuf_data_resize_def mem_write_def block_ok_def)
  moreover have "grown d sz ?d"
    using assms by (auto simp: grown_def block_ok_def region_simps intro: block_fits_length)
  ultimately show ?thesis by fastforce
qed

lemma dpbuf_data_resize_realloc:
  assumes "blocks h p = Some d" and "block_ok d" and "0 < sz" and "maxs d \<le> sz" and "sz < 2 ^ 30"
    and "\<not> has_bit (dflag d) DPBUF_CONSTDATA" and "avail h (allocs h)"
  shows "\<exists>h' d'. dpbuf_data_resize h p sz = Some (h', True) \<and>
    blocks h' = (blocks h)(p \<mapsto> d') \<and> grown d sz d'"
proof -
  obtain n where n: "pow_min_value (sz + 1) = Some n" "sz + 1 \<le> n" "n \<le> 2 ^ 30"
    using pow_min_value_bounds [of "sz + 1"] assms by auto
  define h1 where "h1 = h\<lparr>allocs := Suc (allocs h)\<rparr>"
  define tmp where "tmp = take (nat n) (dbytes d) @ fresh_bytes h1 (length (dbytes d)) (nat n)"
  have len: "length tmp = nat n"
    using n by (auto simp: tmp_def fresh_bytes_def)
  let ?d = "d\<lparr>dbytes := poke (nat sz) [0] tmp, maxs := n\<rparr>"
  have "mem_write sz [0] tmp = Some (poke (nat sz) [0] tmp)"
    using assms n len by (simp add: mem_write_def)
  then have "dpbuf_data_resize h p sz = Some (set_block h1 p ?d, True)"
    using assms n by (auto simp: dpbuf_data_resize_def attempt_def tmp_def h1_def Let_def)
  moreover have "seg lo hi (poke (nat sz) [0] tmp) = seg lo hi (dbytes d)"
    if "0 \<le> lo" "lo \<le> hi" "hi \<le> sz" "hi \<le> maxs d" for lo hi
  proof -
    have "seg lo hi (poke (nat sz) [0] tmp) = seg lo hi tmp"
      using that len n by (intro seg_poke_before) auto
    also have "\<dots> = seg lo hi (take (min (nat n) (length (dbytes d))) (dbytes d) @
        fresh_bytes h1 (length (dbytes d)) (nat n))"
      by (simp add: tmp_def min_def)
    also have "\<dots> = seg lo hi (dbytes d)"
      using that n assms by (intro seg_take_append) (auto simp: block_ok_def)
    finally show ?thesis .
  qed
  then have "grown d sz ?d"
    using assms n len by (auto simp: grown_def block_ok_def block_fits_def region_simps)
  moreover have "blocks (set_block h1 p ?d) = (blocks h)(p \<mapsto> ?d)"
    by (simp add: h1_def)
  ultimately show ?thesis by blast
qed

lemma dpbuf_data_resize_refused:
  assumes "blocks h p = Some d" and "block_ok d" and "0 < sz" and "maxs d \<le> sz" and "sz < 2 ^ 30"
    and "has_bit (dflag d) DPBUF_CONSTDATA \<or> \<not> avail h (allocs h)"
  shows "\<exists>h'. dpbuf_data_resize h p sz = Some (h', False) \<and> blocks h' = blocks h"
proof -
  obtain n where "pow_min_value (sz + 1) = Some n" "n \<le> 2 ^ 30"
    using pow_min_value_bounds [of "sz + 1"] assms by auto
  then show ?thesis
    using assms by (auto simp: dpbuf_data_resize_def attempt_def)
qed

lemma dpbuf_data_resize_total:
  assumes "blocks h p = Some d" and "block_ok d" and "0 < sz" and "sz < 2 ^ 30"
  shows "(\<exists>h' d'. dpbuf_data_resize h p sz = Some (h', True) \<and>
        blocks h' = (blocks h)(p \<mapsto> d') \<and> grown d sz d') \<or>
     (\<exists>h'. dpbuf_data_resize h p sz = Some (h', False) \<and> blocks h' = blocks h)"
  using assms dpbuf_data_resize_small [of h p d sz] dpbuf_data_resize_realloc [of h p d sz]
    dpbuf_data_resize_refused [of h p d sz] by (meson not_le)

lemma grown_keeps:
  assumes "bdata b = Some p" and "blocks h p = Some d" and "cursors_ok b d"
    and "grown d sz d'" and "wbeg b \<le> sz" and "blocks h' = (blocks h)(p \<mapsto> d')"
  shows "keeps h b h' (b\<lparr>bsize := sz\<rparr>)"
proof -
  let ?b = "b\<lparr>bsize := sz\<rparr>"
  have "buf_ok h' ?b"
    using assms by (auto intro!: buf_okI [of _ p _ d'] simp: cursors_ok_def grown_def)
  moreover have "same_frame h b h' ?b"
    using assms by (intro same_frame_update [of _ p _ d _ _ d']) (auto simp: grown_def)
  moreover have "content h b = dbytes d" "content h' ?b = dbytes d'"
    using assms by (auto intro: content_at)
  ultimately show ?thesis
    using assms by (auto simp: keeps_def rview_def eview_def cursors_ok_def grown_def)
qed

lemma dpbuf_resize_keeps:
  assumes "buf_ok h b" and "wbeg b \<le> sz" and "sz < 2 ^ 30"
  shows "\<exists>h' r. dpbuf_resize h b sz = Some (h', if r then b\<lparr>bsize := sz\<rparr> else b, r) \<and>
    keeps h b h' (if r then b\<lparr>bsize := sz\<rparr> else b)"
proof (cases "sz \<le> 0")
  case True
  with assms show ?thesis
    by (intro exI [of _ h] exI [of _ False]) (simp add: dpbuf_resize_def keeps_refl)
next
  case False
  from assms(1) obtain p d where pd: "bdata b = Some p" "blocks h p = Some d" "block_ok d"
    "cursors_ok b d" by (rule buf_okE)
  from dpbuf_data_resize_total [OF pd(2,3) _ assms(3)] False
  have "(\<exists>h' d'. dpbuf_data_resize h p sz = Some (h', True) \<and>
        blocks h' = (blocks h)(p \<mapsto> d') \<and> grown d sz d') \<or>
     (\<exists>h'. dpbuf_data_resize h p sz = Some (h', False) \<and> blocks h' = blocks h)"
    by (meson not_le)
  then show ?thesis
  proof (elim disjE exE conjE)
    fix h' d'
    assume r: "dpbuf_data_resize h p sz = Some (h', True)" "blocks h' = (blocks h)(p \<mapsto> d')"
      "grown d sz d'"
    with pd False assms(2) show ?thesis
      by (intro exI [of _ h'] exI [of _ True])
        (auto simp: dpbuf_resize_def intro: grown_keeps)
  next
    fix h'
    assume r: "dpbuf_data_resize h p sz = Some (h', False)" "blocks h' = blocks h"
    then have "keeps h b h' b"
      using assms(1) by (auto simp: keeps_def buf_ok_iff same_frame_def rview_def eview_def
          content_def get_block_def)
    with pd False r show ?thesis
      by (intro exI [of _ h'] exI [of _ False]) (auto simp: dpbuf_resize_def)
  qed
qed

lemma dpbuf_recycle_empty:
  assumes "buf_ok h b" and "rbeg b = wbeg b"
  shows "\<exists>h'. dpbuf_recycle_data h b =
      Some (h', b\<lparr>bsize := bsize b - wbeg b, rbeg := 0, rend := 0, wbeg := 0\<rparr>) \<and>
    keeps h b h' (b\<lparr>bsize := bsize b - wbeg b, rbeg := 0, rend := 0, wbeg := 0\<rparr>)"
proof -
  from assms(1) obtain p d where pd: "bdata b = Some p" "blocks h p = Some d" "block_ok d"
    "cursors_ok b d" "get_block h b = Some (p, d)" by (rule buf_okE)
  let ?d = "d\<lparr>dbytes := poke (nat (bsize b - wbeg b)) [0] (dbytes d)\<rparr>"
  let ?b = "b\<lparr>bsize := bsize b - wbeg b, rbeg := 0, rend := 0, wbeg := 0\<rparr>"
  have "dpbuf_recycle_data h b = Some (set_block h p ?d, ?b)"
    using pd assms(2) by (auto simp: dpbuf_recycle_data_def mem_write_def cursors_ok_def)
  moreover have "buf_ok (set_block h p ?d) ?b"
    using pd by (auto intro!: buf_okI [of _ p _ ?d] simp: block_ok_def cursors_ok_def region_simps)
  moreover have "same_frame h b (set_block h p ?d) ?b"
    using pd by (intro same_frame_update [of _ p _ d _ _ ?d] block_fits_length)
      (auto simp: cursors_ok_def region_simps)
  moreover have "rend b = wbeg b" using pd(4) assms(2) by (simp add: cursors_ok_def)
  ultimately show ?thesis
    using assms(2) by (auto simp: keeps_def rview_def eview_def)
qed

lemma dpbuf_recycle_move:
  assumes "buf_ok h b" and "rbeg b \<noteq> wbeg b"
    and "get_block h b = Some (p, d)" and "rbeg b > DPBUF_S_SIZE" and "maxs d div rbeg b < 4"
  shows "\<exists>h'. dpbuf_recycle_data h b =
      Some (h', b\<lparr>rbeg := 0, rend := rend b - rbeg b, wbeg := wbeg b - rbeg b,
        bsize := bsize b - rbeg b\<rparr>) \<and>
    keeps h b h' (b\<lparr>rbeg := 0, rend := rend b - rbeg b, wbeg := wbeg b - rbeg b,
        bsize := bsize b - rbeg b\<rparr>)"
proof -
  have pd: "bdata b = Some p" "blocks h p = Some d" "block_ok d" "cursors_ok b d"
    using assms(1,3) by (auto simp: buf_ok_iff get_block_Some_iff)
  define m where "m = seg (rbeg b) (wbeg b) (dbytes d)"
  have lm: "int (length m) = wbeg b - rbeg b"
    using pd(4) by (auto simp: m_def cursors_ok_def)
  define bs where "bs = poke 0 m (dbytes d)"
  have lbs: "length bs = length (dbytes d)"
    using pd(4) lm by (auto simp: bs_def cursors_ok_def intro!: length_poke)
  let ?sz = "bsize b - rbeg b"
  let ?bs = "poke (nat ?sz) [0] bs"
  let ?d = "d\<lparr>dbytes := ?bs\<rparr>"
  let ?b = "b\<lparr>rbeg := 0, rend := rend b - rbeg b, wbeg := wbeg b - rbeg b, bsize := ?sz\<rparr>"
  have lb2: "length ?bs = length (dbytes d)"
    using pd(4) assms(4) lbs by (auto simp: cursors_ok_def length_poke)
  have "mem_read (rbeg b) (wbeg b - rbeg b) (dbytes d) = Some m"
    using pd(4) by (auto simp: mem_read_def m_def cursors_ok_def)
  moreover have "mem_write 0 m (dbytes d) = Some bs"
    using pd(4) lm by (auto simp: mem_write_def bs_def cursors_ok_def)
  moreover have "mem_write ?sz [0] bs = Some ?bs"
    using pd(4) lbs assms(4) by (auto simp: mem_write_def cursors_ok_def)
  ultimately have r: "dpbuf_recycle_data h b = Some (set_block h p ?d, ?b)"
    using assms(2-5) by (simp add: dpbuf_recycle_data_def Let_def)
  have sg: "seg lo hi ?bs = seg (rbeg b + lo) (rbeg b + hi) (dbytes d)"
    if "0 \<le> lo" "lo \<le> hi" "hi \<le> wbeg b - rbeg b" for lo hi
  proof -
    have "seg lo hi ?bs = seg lo hi bs"
      using that pd(4) lbs by (intro seg_poke_before) (auto simp: cursors_ok_def)
    also have "\<dots> = seg lo hi m"
      using that pd(4) lm seg_poke_inside [of 0 lo hi m "dbytes d"]
      by (auto simp: bs_def cursors_ok_def)
    also have "\<dots> = seg (rbeg b + lo) (rbeg b + hi) (dbytes d)"
      using that pd(4) by (auto simp: m_def cursors_ok_def intro!: seg_seg)
    finally show ?thesis .
  qed
  have "buf_ok (set_block h p ?d) ?b"
    using pd lb2 assms(4) by (auto intro!: buf_okI [of _ p _ ?d] simp: block_ok_def cursors_ok_def)
  moreover have "same_frame h b (set_block h p ?d) ?b"
    using pd lb2 by (intro same_frame_update [of _ p _ d _ _ ?d] block_fits_length) auto
  moreover have "content h b = dbytes d" "content (set_block h p ?d) ?b = ?bs"
    using pd by (auto simp: content_at)
  ultimately show ?thesis
    using r pd(4) by (auto simp: keeps_def rview_def eview_def cursors_ok_def sg)
qed

lemma dpbuf_recycle_keeps:
  assumes "buf_ok h b"
  shows "\<exists>h' b'. dpbuf_recycle_data h b = Some (h', b') \<and> keeps h b h' b' \<and>
    wbeg b' \<le> wbeg b \<and> bsize b' - wbeg b' = bsize b - wbeg b"
proof -
  from assms obtain p d where pd: "get_block h b = Some (p, d)" and c: "cursors_ok b d"
    by (rule buf_okE)
  consider (empty) "rbeg b = wbeg b"
    | (move) "rbeg b \<noteq> wbeg b" "rbeg b > DPBUF_S_SIZE" "maxs d div rbeg b < 4"
    | (stay) "rbeg b \<noteq> wbeg b" "\<not> (rbeg b > DPBUF_S_SIZE \<and> maxs d div rbeg b < 4)"
    by blast
  then show ?thesis
  proof cases
    case empty
    then show ?thesis using dpbuf_recycle_empty [OF assms] c by (fastforce simp: cursors_ok_def)
  next
    case move
    then show ?thesis using dpbuf_recycle_move [OF assms _ pd] c
      by (fastforce simp: cursors_ok_def)
  next
    case stay
    then have "dpbuf_recycle_data h b = Some (h, b)"
      using pd by (auto simp: dpbuf_recycle_data_def)
    then show ?thesis using assms by (auto intro: keeps_refl)
  qed
qed

lemma dpbuf_resizew_keeps:
  assumes "buf_ok h b" and "0 \<le> s" and "wbeg b + s < 2 ^ 30"
  shows "\<exists>h' b' r. dpbuf_resizew h b s = Some (h', b', r) \<and> keeps h b h' b' \<and>
    wbeg b' \<le> wbeg b \<and> (r \<longrightarrow> bsize b' = wbeg b' + s)"
proof -
  obtain h1 b1 where r: "(if \<not> has_bit (bflag b) DPBUF_NORECYCLE then dpbuf_recycle_data h b
      else Some (h, b)) = Some (h1, b1)" and k: "keeps h b h1 b1" "wbeg b1 \<le> wbeg b"
    using dpbuf_recycle_keeps [OF assms(1)] keeps_refl [OF assms(1)]
    by (cases "has_bit (bflag b) DPBUF_NORECYCLE") auto
  have ok1: "buf_ok h1 b1" using k(1) by (rule keepsD)
  then have w: "0 \<le> wbeg b1" by (rule buf_okE) (auto simp: cursors_ok_def)
  obtain h2 q where q: "dpbuf_resize h1 b1 (wbeg b1 + s) =
      Some (h2, if q then b1\<lparr>bsize := wbeg b1 + s\<rparr> else b1, q)"
    "keeps h1 b1 h2 (if q then b1\<lparr>bsize := wbeg b1 + s\<rparr> else b1)"
    using dpbuf_resize_keeps [OF ok1, of "wbeg b1 + s"] assms k(2) by auto
  have "INT_MIN \<le> wbeg b1 + s" "wbeg b1 + s \<le> INT_MAX"
    using assms k(2) w by simp_all
  with r q(1) assms(2) have "dpbuf_resizew h b s =
      Some (h2, if q then b1\<lparr>bsize := wbeg b1 + s\<rparr> else b1, q)"
    by (simp add: dpbuf_resizew_def)
  with keeps_trans [OF k(1) q(2)] k(2) show ?thesis by auto
qed

lemma dpbuf_wcheck_keeps:
  assumes "buf_ok h b" and "0 \<le> len" and "wbeg b + len < 2 ^ 30"
  shows "\<exists>h' b' r. dpbuf_wcheck h b len = Some (h', b', r) \<and> keeps h b h' b' \<and>
    wbeg b' \<le> wbeg b \<and> (r \<longrightarrow> len \<le> bsize b' - wbeg b')"
proof (cases "bsize b - wbeg b < len")
  case True
  then show ?thesis using dpbuf_resizew_keeps [OF assms] by (fastforce simp: dpbuf_wcheck_def)
next
  case False
  then show ?thesis using keeps_refl [OF assms(1)] by (auto simp: dpbuf_wcheck_def)
qed

section \<open>Growth succeeds when it may\<close>

definition may_grow :: "store \<Rightarrow> dpbuf \<Rightarrow> bool" where
  "may_grow h b \<longleftrightarrow>
     (case get_block h b of None \<Rightarrow> False
      | Some (p, d) \<Rightarrow> \<not> has_bit (dflag d) DPBUF_CONSTDATA \<and> avail h (allocs h))"

lemma dpbuf_resize_succeeds:
  assumes "buf_ok h b" and "0 < sz" and "sz < 2 ^ 30" and "may_grow h b"
  shows "\<exists>h'. dpbuf_resize h b sz = Some (h', b\<lparr>bsize := sz\<rparr>, True)"
proof -
  from assms(1) obtain p d where pd: "bdata b = Some p" "blocks h p = Some d" "block_ok d"
    "get_block h b = Some (p, d)" by (rule buf_okE)
  from assms(4) pd(4) have "\<not> has_bit (dflag d) DPBUF_CONSTDATA" "avail h (allocs h)"
    by (simp_all add: may_grow_def)
  then have "\<exists>h'. dpbuf_data_resize h p sz = Some (h', True)"
    using assms(2,3) dpbuf_data_resize_small [OF pd(2,3)] dpbuf_data_resize_realloc [OF pd(2,3)]
    by (meson not_le)
  with pd(1) assms(2) show ?thesis by (auto simp: dpbuf_resize_def)
qed

lemma dpbuf_recycle_may_grow:
  assumes "dpbuf_recycle_data h b = Some (h', b')" and "may_grow h b"
  shows "may_grow h' b'"
  using assms
  by (auto simp: dpbuf_recycle_data_def bind_eq_Some_conv may_grow_def get_block_def set_block_def
      split: if_splits option.splits)

lemma dpbuf_resizew_succeeds:
  assumes "buf_ok h b" and "0 < s" and "wbeg b + s < 2 ^ 30" and "may_grow h b"
  shows "\<exists>h' b'. dpbuf_resizew h b s = Some (h', b', True)"
proof -
  obtain h1 b1 where r: "(if \<not> has_bit (bflag b) DPBUF_NORECYCLE then dpbuf_recycle_data h b
      else Some (h, b)) = Some (h1, b1)" and k: "keeps h b h1 b1" "wbeg b1 \<le> wbeg b"
    using dpbuf_recycle_keeps [OF assms(1)] keeps_refl [OF assms(1)]
    by (cases "has_bit (bflag b) DPBUF_NORECYCLE") auto
  have m: "may_grow h1 b1"
    using r dpbuf_recycle_may_grow [of h b h1 b1] assms(4) by (auto split: if_splits)
  have ok1: "buf_ok h1 b1" using k(1) by (rule keepsD)
  then have w: "0 \<le> wbeg b1" by (rule buf_okE) (auto simp: cursors_ok_def)
  obtain h2 where "dpbuf_resize h1 b1 (wbeg b1 + s) = Some (h2, b1\<lparr>bsize := wbeg b1 + s\<rparr>, True)"
    using dpbuf_resize_succeeds [OF ok1 _ _ m, of "wbeg b1 + s"] assms k(2) w by auto
  moreover have "INT_MIN \<le> wbeg b1 + s" "wbeg b1 + s \<le> INT_MAX"
    using assms k(2) w by simp_all
  ultimately show ?thesis
    using r assms(2) by (simp add: dpbuf_resizew_def)
qed

lemma dpbuf_wcheck_succeeds:
  assumes "buf_ok h b" and "0 \<le> len" and "wbeg b + len < 2 ^ 30"
    and "may_grow h b \<or> len \<le> bsize b - wbeg b"
  shows "\<exists>h' b'. dpbuf_wcheck h b len = Some (h', b', True)"
proof (cases "bsize b - wbeg b < len")
  case True
  moreover have "0 \<le> bsize b - wbeg b"
    using assms(1) by (rule buf_okE) (auto simp: cursors_ok_def)
  ultimately show ?thesis
    using dpbuf_resizew_succeeds [of h b len] assms by (auto simp: dpbuf_wcheck_def)
next
  case False
  then show ?thesis by (simp add: dpbuf_wcheck_def)
qed

end
