(* ===== verification/Dpbuf_Spec.thy ===== *)
theory Dpbuf_Spec
  imports Dpbuf_Inv
begin

text \<open>
  What each buffer operation does to the two windows: writers append to the pending bytes or
  report \<open>-ENOMEM\<close> and change nothing, readers move a prefix of the pending bytes into the
  readable window.  The interface \<open>byte_stream\<close> states this for any buffer and derives that a
  sequence of writes and reads neither loses, duplicates nor reorders a byte; \<open>dpbuf\<close> is an
  instance.
\<close>

section \<open>Writers\<close>

definition appends :: "store \<Rightarrow> dpbuf \<Rightarrow> store \<Rightarrow> dpbuf \<Rightarrow> byte list \<Rightarrow> bool" where
  "appends h b h' b' xs \<longleftrightarrow>
     buf_ok h' b' \<and> same_frame h b h' b' \<and> rview h' b' = rview h b \<and> eview h' b' = eview h b @ xs"

lemma keeps_appends:
  "keeps h b h1 b1 \<Longrightarrow> appends h1 b1 h2 b2 xs \<Longrightarrow> appends h b h2 b2 xs"
  by (auto simp: keeps_def appends_def intro: same_frame_trans)

lemma appendsD:
  assumes "appends h b h' b' xs"
  shows "buf_ok h' b'" "same_frame h b h' b'" "rview h' b' = rview h b"
    "eview h' b' = eview h b @ xs"
  using assms by (simp_all add: appends_def)

lemma buf_ok_wbeg: "buf_ok h b \<Longrightarrow> 0 \<le> wbeg b"
  by (erule buf_okE) (auto simp: cursors_ok_def)

lemma put_bytes_appends:
  assumes "buf_ok h b" and "int (length xs) \<le> bsize b - wbeg b"
  shows "\<exists>h'. put_bytes h b xs = Some (h', b\<lparr>wbeg := wbeg b + int (length xs)\<rparr>) \<and>
    appends h b h' (b\<lparr>wbeg := wbeg b + int (length xs)\<rparr>) xs"
proof -
  from assms(1) obtain p d where pd: "bdata b = Some p" "blocks h p = Some d" "block_ok d"
    "cursors_ok b d" "get_block h b = Some (p, d)" by (rule buf_okE)
  let ?bs = "poke (nat (wbeg b)) xs (dbytes d)"
  let ?d = "d\<lparr>dbytes := ?bs\<rparr>"
  let ?b = "b\<lparr>wbeg := wbeg b + int (length xs)\<rparr>"
  have len: "length ?bs = length (dbytes d)"
    using pd(4) assms(2) by (intro length_poke) (auto simp: cursors_ok_def)
  have "put_bytes h b xs = Some (set_block h p ?d, ?b)"
    using pd assms(2) by (auto simp: put_bytes_def mem_write_def cursors_ok_def)
  moreover have "buf_ok (set_block h p ?d) ?b"
    using pd len assms(2) by (auto intro!: buf_okI [of _ p _ ?d] simp: block_ok_def cursors_ok_def)
  moreover have "same_frame h b (set_block h p ?d) ?b"
    using pd len by (intro same_frame_update [of _ p _ d _ _ ?d] block_fits_length) auto
  moreover have "content h b = dbytes d" "content (set_block h p ?d) ?b = ?bs"
    using pd by (auto simp: content_at)
  moreover have "seg (rbeg b) (rend b) ?bs = seg (rbeg b) (rend b) (dbytes d)"
    using pd(4) assms(2) by (intro seg_poke_before) (auto simp: cursors_ok_def)
  moreover have "seg (rend b) (wbeg b + int (length xs)) ?bs =
      seg (rend b) (wbeg b) (dbytes d) @ xs"
  proof -
    have "seg (rend b) (wbeg b + int (length xs)) ?bs =
        seg (rend b) (wbeg b) ?bs @ seg (wbeg b) (wbeg b + int (length xs)) ?bs"
      using pd(4) by (intro seg_append [symmetric]) (auto simp: cursors_ok_def)
    also have "\<dots> = seg (rend b) (wbeg b) (dbytes d) @ xs"
      using pd(4) assms(2) by (auto simp: cursors_ok_def region_simps)
    finally show ?thesis .
  qed
  ultimately show ?thesis by (auto simp: appends_def rview_def eview_def)
qed

text \<open>The common outcome of a writer: it appends \<open>xs\<close> and returns their number, or it reports
  \<open>-ENOMEM\<close> with both windows unchanged.\<close>

definition write_outcome ::
  "store \<Rightarrow> dpbuf \<Rightarrow> byte list \<Rightarrow> store \<Rightarrow> dpbuf \<Rightarrow> int \<Rightarrow> bool" where
  "write_outcome h b xs h' b' r \<longleftrightarrow>
     wbeg b' \<le> wbeg b + int (length xs) \<and>
     (r = int (length xs) \<and> appends h b h' b' xs \<or> r = DPE_NOMEM \<and> keeps h b h' b')"

lemma write_outcome_appends:
  assumes "keeps h b h1 b1" and "wbeg b1 \<le> wbeg b"
    and "appends h1 b1 h2 (b1\<lparr>wbeg := wbeg b1 + int (length xs)\<rparr>) xs"
  shows "write_outcome h b xs h2 (b1\<lparr>wbeg := wbeg b1 + int (length xs)\<rparr>) (int (length xs))"
  using assms keeps_appends by (auto simp: write_outcome_def)

lemma write_outcome_nomem:
  "keeps h b h1 b1 \<Longrightarrow> wbeg b1 \<le> wbeg b \<Longrightarrow> write_outcome h b xs h1 b1 DPE_NOMEM"
  by (auto simp: write_outcome_def)

text \<open>Writers check the room, then copy: the two cases of the check decide the outcome.\<close>

lemma checked_write:
  assumes "buf_ok h b" and "wbeg b + int (length xs) < 2 ^ 30"
  obtains (room) h1 b1 h2 where "dpbuf_wcheck h b (int (length xs)) = Some (h1, b1, True)"
      "keeps h b h1 b1" "put_bytes h1 b1 xs = Some (h2, b1\<lparr>wbeg := wbeg b1 + int (length xs)\<rparr>)"
      "write_outcome h b xs h2 (b1\<lparr>wbeg := wbeg b1 + int (length xs)\<rparr>) (int (length xs))"
  | (full) h1 b1 where "dpbuf_wcheck h b (int (length xs)) = Some (h1, b1, False)"
      "write_outcome h b xs h1 b1 DPE_NOMEM" "\<not> may_grow h b"
proof -
  obtain h1 b1 r where c: "dpbuf_wcheck h b (int (length xs)) = Some (h1, b1, r)"
    "keeps h b h1 b1" "wbeg b1 \<le> wbeg b" "r \<longrightarrow> int (length xs) \<le> bsize b1 - wbeg b1"
    using dpbuf_wcheck_keeps [OF assms(1) _ assms(2)] by auto
  show thesis
  proof (cases r)
    case True
    with c(4) put_bytes_appends [OF keepsD(1) [OF c(2)], of xs] obtain h2 where
      "put_bytes h1 b1 xs = Some (h2, b1\<lparr>wbeg := wbeg b1 + int (length xs)\<rparr>)"
      "appends h1 b1 h2 (b1\<lparr>wbeg := wbeg b1 + int (length xs)\<rparr>) xs" by auto
    with c True show thesis by (intro room) (auto intro: write_outcome_appends)
  next
    case False
    moreover have "\<not> may_grow h b"
      using dpbuf_wcheck_succeeds [OF assms(1) _ assms(2)] c(1) False by auto
    ultimately show thesis using c by (intro full) (auto intro: write_outcome_nomem)
  qed
qed

lemma mem_read_prefix:
  "0 \<le> len \<Longrightarrow> len \<le> int (length src) \<Longrightarrow> mem_read 0 len src = Some (take (nat len) src)"
  by (simp add: mem_read_def seg_def peek_def)

lemma dpbuf_wdata_outcome:
  assumes "buf_ok h b" and "0 < len" and "len \<le> int (length src)" and "wbeg b + len < 2 ^ 30"
  shows "\<exists>h' b' r. dpbuf_wdata h b (Some src) len = Some (h', b', r) \<and>
    write_outcome h b (take (nat len) src) h' b' r \<and> (may_grow h b \<longrightarrow> r = len)"
proof -
  let ?xs = "take (nat len) src"
  have len: "int (length ?xs) = len" using assms by simp
  then have lim: "wbeg b + int (length ?xs) < 2 ^ 30" using assms(4) by simp
  show ?thesis
  proof (cases rule: checked_write [OF assms(1) lim, unfolded len])
    case (1 h1 b1 h2)
    then show ?thesis using assms mem_read_prefix [of len src]
      by (auto simp: dpbuf_wdata_def)
  next
    case (2 h1 b1)
    then show ?thesis using assms by (auto simp: dpbuf_wdata_def)
  qed
qed

lemma dpbuf_wfill_outcome:
  assumes "buf_ok h b" and "0 \<le> len" and "wbeg b + len < 2 ^ 30"
  shows "\<exists>h' b' r. dpbuf_wfill h b len v = Some (h', b', r) \<and>
    write_outcome h b (replicate (nat len) v) h' b' r \<and> (may_grow h b \<longrightarrow> r = len)"
proof -
  have len: "int (length (replicate (nat len) v)) = len" using assms by simp
  then have lim: "wbeg b + int (length (replicate (nat len) v)) < 2 ^ 30" using assms(3) by simp
  show ?thesis
  proof (cases rule: checked_write [OF assms(1) lim, unfolded len])
    case (1 h1 b1 h2)
    then show ?thesis using assms by (auto simp: dpbuf_wfill_def)
  next
    case (2 h1 b1)
    then show ?thesis using assms by (auto simp: dpbuf_wfill_def)
  qed
qed

section \<open>Copying from another buffer\<close>

lemma read_window:
  assumes "buf_ok h b" and "0 \<le> n" and "n \<le> dpbuf_crsize b"
  shows "\<exists>m. dpbuf_crdata h b = Some m \<and> mem_read 0 n m = Some (take (nat n) (rview h b))"
proof -
  from assms(1) obtain p d where pd: "cursors_ok b d" "get_block h b = Some (p, d)"
    "content h b = dbytes d" by (rule buf_okE)
  have "dpbuf_crdata h b = Some (drop (nat (rbeg b)) (dbytes d))"
    using pd by (auto simp: dpbuf_crdata_def from_cursor_def cursors_ok_def)
  moreover have "mem_read 0 n (drop (nat (rbeg b)) (dbytes d)) = Some (take (nat n) (rview h b))"
    using pd assms(2,3)
    by (auto simp: mem_read_def rview_def seg_def peek_def dpbuf_crsize_def cursors_ok_def min_def)
  ultimately show ?thesis by blast
qed

lemma same_frame_other:
  assumes "same_frame h b h1 b1" and "bdata c \<noteq> bdata b"
  shows "content h1 c = content h c" and "buf_ok h1 c = buf_ok h c"
    and "rview h1 c = rview h c" and "eview h1 c = eview h c"
proof -
  have g: "get_block h1 c = get_block h c"
    using assms by (cases "bdata c") (auto simp: get_block_def same_frame_def)
  show "content h1 c = content h c" by (simp add: content_def g)
  show "buf_ok h1 c = buf_ok h c" by (simp add: buf_ok_def g)
  show "rview h1 c = rview h c" "eview h1 c = eview h c"
    by (simp_all add: rview_def eview_def content_def g)
qed

text \<open>How many bytes the two copying writers transfer.\<close>

definition copy_len :: "dpbuf \<Rightarrow> int \<Rightarrow> int" where
  "copy_len buf len = (if len \<le> 0 then dpbuf_crsize buf else imin (dpbuf_crsize buf) len)"

lemma copy_len_range: "buf_ok h buf \<Longrightarrow> 0 \<le> copy_len buf len \<and> copy_len buf len \<le> dpbuf_crsize buf"
  by (erule buf_okE) (auto simp: copy_len_def imin_def dpbuf_crsize_def cursors_ok_def)

lemma dpbuf_wbuf_r_outcome:
  assumes "buf_ok h b" and "buf_ok h buf" and "bdata b \<noteq> bdata buf"
    and "wbeg b + copy_len buf len < 2 ^ 30"
  shows "\<exists>h' b' r. dpbuf_wbuf_r h b buf len =
      Some (h', b', if r < 0 then buf else buf\<lparr>rbeg := rbeg buf + r\<rparr>, r) \<and>
    write_outcome h b (take (nat (copy_len buf len)) (rview h buf)) h' b' r \<and>
    (may_grow h b \<longrightarrow> r = copy_len buf len)"
proof -
  let ?n = "copy_len buf len"
  let ?xs = "take (nat ?n) (rview h buf)"
  note range = copy_len_range [OF assms(2), of len]
  have len: "int (length ?xs) = ?n" using range length_rview [OF assms(2)] by auto
  then have lim: "wbeg b + int (length ?xs) < 2 ^ 30" using assms(4) by simp
  show ?thesis
  proof (cases rule: checked_write [OF assms(1) lim, unfolded len])
    case (1 h1 b1 h2)
    note fr = keepsD(2) [OF 1(2)]
    have "buf_ok h1 buf" "rview h1 buf = rview h buf"
      using same_frame_other [OF fr, of buf] assms(2,3) by auto
    then obtain m where "dpbuf_crdata h1 buf = Some m" "mem_read 0 ?n m = Some ?xs"
      using read_window [of h1 buf ?n] range by auto
    moreover have "memcpy_disjoint b1 buf ?n"
      using fr assms(3) by (auto simp: memcpy_disjoint_def same_frame_def)
    ultimately have "dpbuf_wbuf_r h b buf len =
        Some (h2, b1\<lparr>wbeg := wbeg b1 + ?n\<rparr>, buf\<lparr>rbeg := rbeg buf + ?n\<rparr>, ?n)"
      using 1 by (simp add: dpbuf_wbuf_r_def copy_len_def [symmetric] Let_def)
    with 1 range show ?thesis by auto
  next
    case (2 h1 b1)
    then have "dpbuf_wbuf_r h b buf len = Some (h1, b1, buf, DPE_NOMEM)"
      by (simp add: dpbuf_wbuf_r_def copy_len_def [symmetric] Let_def)
    with 2 show ?thesis by auto
  qed
qed

text \<open>The two copying writers differ only in what they do to the source.\<close>

lemma dpbuf_wbuf_eq:
  "dpbuf_wbuf h b buf len = map_option (\<lambda>(h', b', _, r). (h', b', r)) (dpbuf_wbuf_r h b buf len)"
  by (auto simp: dpbuf_wbuf_def dpbuf_wbuf_r_def Let_def split: option.splits bind_split if_splits)

lemma dpbuf_wbuf_outcome:
  assumes "buf_ok h b" and "buf_ok h buf" and "bdata b \<noteq> bdata buf"
    and "wbeg b + copy_len buf len < 2 ^ 30"
  shows "\<exists>h' b' r. dpbuf_wbuf h b buf len = Some (h', b', r) \<and>
    write_outcome h b (take (nat (copy_len buf len)) (rview h buf)) h' b' r \<and>
    (may_grow h b \<longrightarrow> r = copy_len buf len)"
  using dpbuf_wbuf_r_outcome [OF assms] by (fastforce simp: dpbuf_wbuf_eq)

section \<open>Readers\<close>

text \<open>A reader turns the first \<open>n\<close> pending bytes into the readable window; the window it had
  is released.\<close>

definition consumes :: "store \<Rightarrow> dpbuf \<Rightarrow> dpbuf \<Rightarrow> nat \<Rightarrow> bool" where
  "consumes h b b' n \<longleftrightarrow>
     buf_ok h b' \<and> bdata b' = bdata b \<and> wbeg b' = wbeg b \<and> bsize b' = bsize b \<and>
     rview h b' = take n (eview h b) \<and> eview h b' = drop n (eview h b)"

lemma consumes_advance:
  assumes "buf_ok h b" and "0 \<le> n" and "n \<le> dpbuf_cesize b"
  shows "consumes h b (b\<lparr>rbeg := rend b, rend := rend b + n\<rparr>) (nat n)"
proof -
  let ?b = "b\<lparr>rbeg := rend b, rend := rend b + n\<rparr>"
  from assms(1) obtain p d where pd: "bdata b = Some p" "blocks h p = Some d" "block_ok d"
    "cursors_ok b d" "content h b = dbytes d" by (rule buf_okE)
  have "buf_ok h ?b"
    using pd assms(2,3) by (intro buf_okI [of _ p _ d]) (auto simp: cursors_ok_def dpbuf_cesize_def)
  moreover have "content h ?b = dbytes d" using pd by (auto intro: content_at)
  ultimately show ?thesis
    using pd assms(2,3)
    by (auto simp: consumes_def rview_def eview_def cursors_ok_def dpbuf_cesize_def
        take_seg drop_seg)
qed

lemma pending_eview: "buf_ok h b \<Longrightarrow> pending h b = Some (eview h b)"
  by (erule buf_okE)
    (auto simp: pending_def dpbuf_cedata_def from_cursor_def eview_def mem_read_def seg_def peek_def
      dpbuf_cesize_def cursors_ok_def)

lemma pending_start: "pending h (b\<lparr>rbeg := i\<rparr>) = pending h b"
  by (simp add: pending_def dpbuf_cedata_def from_cursor_def get_block_def dpbuf_cesize_def)

lemma cesize_nonneg: "buf_ok h b \<Longrightarrow> 0 \<le> dpbuf_cesize b"
  by (erule buf_okE) (auto simp: dpbuf_cesize_def cursors_ok_def)

lemma dpbuf_rdata_consumes:
  assumes "buf_ok h b"
  shows "\<exists>n. dpbuf_rdata b len = (b\<lparr>rbeg := rend b, rend := rend b + int n\<rparr>, int n) \<and>
    n = (if len < 0 then length (eview h b) else min (nat len) (length (eview h b))) \<and>
    consumes h b (b\<lparr>rbeg := rend b, rend := rend b + int n\<rparr>) n"
proof -
  let ?n = "if len < 0 then length (eview h b) else min (nat len) (length (eview h b))"
  have l: "int (length (eview h b)) = dpbuf_cesize b"
    using length_eview [OF assms] cesize_nonneg [OF assms] by simp
  have "dpbuf_rdata b len = (b\<lparr>rbeg := rend b, rend := rend b + int ?n\<rparr>, int ?n)"
    using l cesize_nonneg [OF assms]
    by (auto simp: dpbuf_rdata_def Let_def imin_def dpbuf_cesize_def)
  moreover have "int ?n \<le> dpbuf_cesize b"
    unfolding l [symmetric] by simp
  with consumes_advance [OF assms, of "int ?n"]
  have "consumes h b (b\<lparr>rbeg := rend b, rend := rend b + int ?n\<rparr>) ?n"
    by (simp only: nat_int of_nat_0_le_iff)
  ultimately show ?thesis by blast
qed

lemma dpbuf_rmust_consumes:
  assumes "buf_ok h b"
  shows "dpbuf_rmust b len =
      (if 0 \<le> len \<and> nat len \<le> length (eview h b)
       then (b\<lparr>rbeg := rend b, rend := rend b + len\<rparr>, len)
       else (b\<lparr>rbeg := rend b\<rparr>, DPE_NODATA))"
    and "0 \<le> len \<Longrightarrow> nat len \<le> length (eview h b) \<Longrightarrow>
      consumes h b (b\<lparr>rbeg := rend b, rend := rend b + len\<rparr>) (nat len)"
    and "consumes h b (b\<lparr>rbeg := rend b\<rparr>) 0"
proof -
  have l: "int (length (eview h b)) = dpbuf_cesize b"
    using length_eview [OF assms] cesize_nonneg [OF assms] by simp
  then show "dpbuf_rmust b len =
      (if 0 \<le> len \<and> nat len \<le> length (eview h b)
       then (b\<lparr>rbeg := rend b, rend := rend b + len\<rparr>, len)
       else (b\<lparr>rbeg := rend b\<rparr>, DPE_NODATA))"
    by (auto simp: dpbuf_rmust_def Let_def dpbuf_cesize_def)
  show "0 \<le> len \<Longrightarrow> nat len \<le> length (eview h b) \<Longrightarrow>
      consumes h b (b\<lparr>rbeg := rend b, rend := rend b + len\<rparr>) (nat len)"
    using consumes_advance [OF assms, of len] l by auto
  show "consumes h b (b\<lparr>rbeg := rend b\<rparr>) 0"
    using consumes_advance [OF assms, of 0] cesize_nonneg [OF assms] by simp
qed

lemma dpbuf_rall_consumes:
  assumes "buf_ok h b"
  shows "dpbuf_rall b = (b\<lparr>rbeg := rend b, rend := wbeg b\<rparr>, int (length (eview h b)))"
    and "consumes h b (b\<lparr>rbeg := rend b, rend := wbeg b\<rparr>) (length (eview h b))"
  using consumes_advance [OF assms, of "dpbuf_cesize b"] cesize_nonneg [OF assms]
    length_eview [OF assms]
  by (simp_all add: dpbuf_rall_def Let_def dpbuf_cesize_def)

text \<open>A reader that scans the pending bytes for a length \<open>f\<close>.\<close>

lemma scan_consumes:
  assumes "buf_ok h b" and "f (eview h b) \<le> length (eview h b)"
  shows "consumes h b (b\<lparr>rbeg := rend b, rend := rend b + int (f (eview h b))\<rparr>) (f (eview h b))"
  using consumes_advance [OF assms(1), of "int (f (eview h b))"] assms(2) length_eview [OF assms(1)]
    cesize_nonneg [OF assms(1)] by simp

lemma dpbuf_rws_consumes:
  assumes "buf_ok h b"
  defines "n \<equiv> length (takeWhile is_ws (eview h b))"
  shows "dpbuf_rws h b = Some (b\<lparr>rbeg := rend b, rend := rend b + int n\<rparr>, int n)"
    and "consumes h b (b\<lparr>rbeg := rend b, rend := rend b + int n\<rparr>) n"
  using pending_eview [OF assms(1)] scan_consumes [OF assms(1), of "\<lambda>w. length (takeWhile is_ws w)"]
  by (simp_all add: dpbuf_rws_def Let_def pending_start n_def length_takeWhile_le)

text \<open>The length of the first C string of the pending bytes, with its terminator when it is
  there and the string is not empty.\<close>

definition cstr_len :: "byte list \<Rightarrow> nat" where
  "cstr_len w = (let n = strnlen w in if 0 < n \<and> n < length w then Suc n else n)"

lemma dpbuf_rcstr_consumes:
  assumes "buf_ok h b"
  defines "n \<equiv> cstr_len (eview h b)"
  shows "dpbuf_rcstr h b = Some (b\<lparr>rbeg := rend b, rend := rend b + int n\<rparr>, int n)"
    and "consumes h b (b\<lparr>rbeg := rend b, rend := rend b + int n\<rparr>) n"
proof -
  have l: "int (length (eview h b)) = wbeg b - rend b"
    using length_eview [OF assms(1)] cesize_nonneg [OF assms(1)] by (simp add: dpbuf_cesize_def)
  then show "dpbuf_rcstr h b = Some (b\<lparr>rbeg := rend b, rend := rend b + int n\<rparr>, int n)"
    using pending_eview [OF assms(1)]
    by (auto simp: dpbuf_rcstr_def Let_def pending_start n_def cstr_len_def)
  have "cstr_len (eview h b) \<le> length (eview h b)"
    using strnlen_le [of "eview h b"] by (simp add: cstr_len_def Let_def)
  then show "consumes h b (b\<lparr>rbeg := rend b, rend := rend b + int n\<rparr>) n"
    unfolding n_def by (rule scan_consumes [OF assms(1)])
qed

section \<open>Search\<close>

lemma dpbuf_cfind_memmem:
  assumes "buf_ok h b" and "0 < len" and "len \<le> int (length m)"
    and "0 \<le> left" and "left \<le> dpbuf_crsize b"
  shows "dpbuf_cfind h (Some b) (Some m) len left =
    Some (if dpbuf_crsize b < len then DPE_NODATA
          else case memmem (drop (nat left) (rview h b)) (take (nat len) m) of
            None \<Rightarrow> DPE_PERM | Some i \<Rightarrow> left + int i)"
proof -
  from assms(1) obtain p d where pd: "cursors_ok b d" "get_block h b = Some (p, d)"
    "content h b = dbytes d" by (rule buf_okE)
  have "dpbuf_crdata h b = Some (drop (nat (rbeg b)) (dbytes d))"
    using pd by (auto simp: dpbuf_crdata_def from_cursor_def cursors_ok_def)
  moreover have "mem_read left (dpbuf_crsize b - left) (drop (nat (rbeg b)) (dbytes d)) =
      Some (drop (nat left) (rview h b))"
    using pd assms(4,5)
    by (auto simp: mem_read_def rview_def seg_def peek_def dpbuf_crsize_def cursors_ok_def drop_take
        nat_diff_distrib add.commute)
  ultimately show ?thesis
    using assms(2,3) mem_read_prefix [of len m]
    by (auto simp: dpbuf_cfind_def Let_def split: option.splits)
qed

lemma memmem_length: "memmem xs pat = Some i \<Longrightarrow> i + length pat \<le> length xs"
  by (simp add: memmem_Some)

lemma dpbuf_runtil_consumes:
  assumes "buf_ok h b" and "0 < sz" and "sz \<le> int (length until)"
  defines "pat \<equiv> take (nat sz) until"
  shows "dpbuf_runtil h b (Some until) sz =
      (case memmem (eview h b) pat of
         None \<Rightarrow> Some (b\<lparr>rbeg := rend b\<rparr>, DPE_NODATA)
       | Some i \<Rightarrow> Some (b\<lparr>rbeg := rend b, rend := rend b + (int i + sz)\<rparr>, int i + sz))"
    and "memmem (eview h b) pat = Some i \<Longrightarrow>
      consumes h b (b\<lparr>rbeg := rend b, rend := rend b + (int i + sz)\<rparr>) (i + length pat)"
proof -
  let ?b = "b\<lparr>rbeg := rend b, rend := wbeg b\<rparr>"
  have c: "consumes h b ?b (length (eview h b))" by (rule dpbuf_rall_consumes [OF assms(1)])
  then have ok: "buf_ok h ?b" and v: "rview h ?b = eview h b" by (auto simp: consumes_def)
  have lp: "int (length pat) = sz" using assms(2,3) by (simp add: pat_def)
  have size: "dpbuf_crsize ?b = int (length (eview h b))"
    using length_eview [OF assms(1)] cesize_nonneg [OF assms(1)]
    by (simp add: dpbuf_crsize_def dpbuf_cesize_def)
  have short: "memmem (eview h b) pat = None" if "dpbuf_crsize ?b < sz"
    using that size lp memmem_length [of "eview h b" pat] by (cases "memmem (eview h b) pat") auto
  have find: "dpbuf_cfind h (Some ?b) (Some until) sz 0 =
      Some (if dpbuf_crsize ?b < sz then DPE_NODATA
            else case memmem (eview h b) pat of None \<Rightarrow> DPE_PERM | Some i \<Rightarrow> int i)"
    using dpbuf_cfind_memmem [OF ok assms(2,3), of 0] size v
    by (simp add: pat_def split: option.splits)
  show "dpbuf_runtil h b (Some until) sz =
      (case memmem (eview h b) pat of
         None \<Rightarrow> Some (b\<lparr>rbeg := rend b\<rparr>, DPE_NODATA)
       | Some i \<Rightarrow> Some (b\<lparr>rbeg := rend b, rend := rend b + (int i + sz)\<rparr>, int i + sz))"
    using find short by (auto simp: dpbuf_runtil_def Let_def split: option.splits)
  show "consumes h b (b\<lparr>rbeg := rend b, rend := rend b + (int i + sz)\<rparr>) (i + length pat)"
    if "memmem (eview h b) pat = Some i"
  proof -
    have "i + length pat \<le> length (eview h b)" using that by (rule memmem_length)
    then have "int i + sz \<le> dpbuf_cesize b" and "0 \<le> int i + sz"
      and "nat (int i + sz) = i + length pat"
      using lp length_eview [OF assms(1)] cesize_nonneg [OF assms(1)] assms(2) by linarith+
    with consumes_advance [OF assms(1), of "int i + sz"] show ?thesis by simp
  qed
qed

section \<open>Cursor moves\<close>

lemma chk_sum_range:
  "INT_MIN \<le> x + y \<Longrightarrow> x + y \<le> INT_MAX \<Longrightarrow> chk_int (x + y) = Some (x + y)"
  by simp

text \<open>The origin a seek is relative to.\<close>

definition origin :: "int \<Rightarrow> int \<Rightarrow> int \<Rightarrow> seek \<Rightarrow> int" where
  "origin s c e k = (case k of SEEK_SET \<Rightarrow> s | SEEK_CUR \<Rightarrow> c | SEEK_END \<Rightarrow> e)"

lemma dpbuf_rseek_ok:
  assumes "buf_ok h b" and "INT_MIN \<le> origin 0 (rbeg b) (rend b) k + off"
    and "origin 0 (rbeg b) (rend b) k + off \<le> INT_MAX"
  shows "\<exists>i. dpbuf_rseek b off k = Some (b\<lparr>rbeg := i\<rparr>, i - rbeg b) \<and>
    i = max 0 (min (origin 0 (rbeg b) (rend b) k + off) (rend b)) \<and> buf_ok h (b\<lparr>rbeg := i\<rparr>)"
proof -
  from assms(1) obtain p d where pd: "bdata b = Some p" "blocks h p = Some d" "block_ok d"
    "cursors_ok b d" by (rule buf_okE)
  let ?i = "max 0 (min (origin 0 (rbeg b) (rend b) k + off) (rend b))"
  have "iclamp v 0 (rend b) = max 0 (min v (rend b))" for v
    using pd(4) by (intro iclamp_median) (auto simp: cursors_ok_def)
  then have "dpbuf_rseek b off k = Some (b\<lparr>rbeg := ?i\<rparr>, ?i - rbeg b)"
    using assms(2,3) by (cases k) (simp_all add: dpbuf_rseek_def origin_def Let_def)
  moreover have "buf_ok h (b\<lparr>rbeg := ?i\<rparr>)"
    using pd by (intro buf_okI [of _ p _ d]) (auto simp: cursors_ok_def)
  ultimately show ?thesis by blast
qed

lemma dpbuf_wseek_ok:
  assumes "buf_ok h b" and "INT_MIN \<le> origin (rend b) (wbeg b) (bsize b) k + off"
    and "origin (rend b) (wbeg b) (bsize b) k + off \<le> INT_MAX"
  shows "\<exists>i. dpbuf_wseek b off k = Some (b\<lparr>wbeg := i\<rparr>, i - wbeg b) \<and>
    i = max (rend b) (min (origin (rend b) (wbeg b) (bsize b) k + off) (bsize b)) \<and>
    buf_ok h (b\<lparr>wbeg := i\<rparr>)"
proof -
  from assms(1) obtain p d where pd: "bdata b = Some p" "blocks h p = Some d" "block_ok d"
    "cursors_ok b d" by (rule buf_okE)
  let ?i = "max (rend b) (min (origin (rend b) (wbeg b) (bsize b) k + off) (bsize b))"
  have "iclamp v (rend b) (bsize b) = max (rend b) (min v (bsize b))" for v
    using pd(4) by (intro iclamp_median) (auto simp: cursors_ok_def)
  then have "dpbuf_wseek b off k = Some (b\<lparr>wbeg := ?i\<rparr>, ?i - wbeg b)"
    using assms(2,3) by (cases k) (simp_all add: dpbuf_wseek_def origin_def Let_def)
  moreover have "buf_ok h (b\<lparr>wbeg := ?i\<rparr>)"
    using pd by (intro buf_okI [of _ p _ d]) (auto simp: cursors_ok_def)
  ultimately show ?thesis by blast
qed

lemma dpbuf_eseek_ok:
  assumes "buf_ok h b" and "INT_MIN \<le> origin (rbeg b) (rend b) (wbeg b) k + off"
    and "origin (rbeg b) (rend b) (wbeg b) k + off \<le> INT_MAX"
  shows "\<exists>i. dpbuf_eseek b off k = Some (b\<lparr>rend := i\<rparr>, i - rend b) \<and>
    i = max (rbeg b) (min (origin (rbeg b) (rend b) (wbeg b) k + off) (wbeg b)) \<and>
    buf_ok h (b\<lparr>rend := i\<rparr>)"
proof -
  from assms(1) obtain p d where pd: "bdata b = Some p" "blocks h p = Some d" "block_ok d"
    "cursors_ok b d" by (rule buf_okE)
  let ?i = "max (rbeg b) (min (origin (rbeg b) (rend b) (wbeg b) k + off) (wbeg b))"
  have "iclamp v (rbeg b) (wbeg b) = max (rbeg b) (min v (wbeg b))" for v
    using pd(4) by (intro iclamp_median) (auto simp: cursors_ok_def)
  then have "dpbuf_eseek b off k = Some (b\<lparr>rend := ?i\<rparr>, ?i - rend b)"
    using assms(2,3) by (cases k) (simp_all add: dpbuf_eseek_def origin_def Let_def)
  moreover have "buf_ok h (b\<lparr>rend := ?i\<rparr>)"
    using pd by (intro buf_okI [of _ p _ d]) (auto simp: cursors_ok_def)
  ultimately show ?thesis by blast
qed

section \<open>The byte-stream interface\<close>

datatype stream_op = Write "byte list" | Read int

text \<open>Run a sequence of writes and reads, collecting the bytes accepted and the bytes
  delivered.  \<open>None\<close> when an operation faults.\<close>

fun stream_run ::
  "('s \<Rightarrow> byte list \<Rightarrow> ('s \<times> int) option) \<Rightarrow> ('s \<Rightarrow> int \<Rightarrow> ('s \<times> byte list) option) \<Rightarrow>
    's \<Rightarrow> stream_op list \<Rightarrow> ('s \<times> byte list \<times> byte list) option" where
  "stream_run wr rd s [] = Some (s, [], [])"
| "stream_run wr rd s (Write xs # ops) = do {
     (s1, r) \<leftarrow> wr s xs;
     (s2, w, o') \<leftarrow> stream_run wr rd s1 ops;
     Some (s2, (if r < 0 then [] else xs) @ w, o')
   }"
| "stream_run wr rd s (Read n # ops) = do {
     (s1, ys) \<leftarrow> rd s n;
     (s2, w, o') \<leftarrow> stream_run wr rd s1 ops;
     Some (s2, w, ys @ o')
   }"

fun written :: "stream_op list \<Rightarrow> int" where
  "written [] = 0"
| "written (Write xs # ops) = int (length xs) + written ops"
| "written (Read n # ops) = written ops"

lemma written_nonneg: "0 \<le> written ops"
  by (induction ops rule: written.induct) auto

locale byte_stream =
  fixes ok :: "'s \<Rightarrow> bool"
    and used :: "'s \<Rightarrow> int"
    and pend :: "'s \<Rightarrow> byte list"
    and wr :: "'s \<Rightarrow> byte list \<Rightarrow> ('s \<times> int) option"
    and rd :: "'s \<Rightarrow> int \<Rightarrow> ('s \<times> byte list) option"
    and lim :: int
  assumes write_law: "ok s \<Longrightarrow> used s + int (length xs) < lim \<Longrightarrow>
      \<exists>s' r. wr s xs = Some (s', r) \<and> ok s' \<and> used s' \<le> used s + int (length xs) \<and>
        pend s' = pend s @ (if r < 0 then [] else xs)"
    and read_law: "ok s \<Longrightarrow>
      \<exists>s' ys. rd s n = Some (s', ys) \<and> ok s' \<and> used s' \<le> used s \<and> ys @ pend s' = pend s"
begin

lemma run_conserves:
  "ok s \<Longrightarrow> used s + written ops < lim \<Longrightarrow>
    \<exists>s' w o'. stream_run wr rd s ops = Some (s', w, o') \<and> ok s' \<and> pend s @ w = o' @ pend s'"
proof (induction ops arbitrary: s)
  case Nil
  then show ?case by simp
next
  case (Cons op ops)
  show ?case
  proof (cases op)
    case (Write xs)
    with Cons.prems written_nonneg [of ops] obtain s1 r where s1: "wr s xs = Some (s1, r)" "ok s1"
      "used s1 \<le> used s + int (length xs)" "pend s1 = pend s @ (if r < 0 then [] else xs)"
      using write_law [of s xs] by auto
    with Cons.IH [of s1] Cons.prems Write obtain s' w o' where
      "stream_run wr rd s1 ops = Some (s', w, o')" "ok s'" "pend s1 @ w = o' @ pend s'"
      by fastforce
    with Write s1 show ?thesis by auto
  next
    case (Read n)
    with Cons.prems obtain s1 ys where s1: "rd s n = Some (s1, ys)" "ok s1"
      "used s1 \<le> used s" "ys @ pend s1 = pend s"
      using read_law [of s n] by auto
    with Cons.IH [of s1] Cons.prems Read obtain s' w o' where
      "stream_run wr rd s1 ops = Some (s', w, o')" "ok s'" "pend s1 @ w = o' @ pend s'"
      by fastforce
    with Read s1 show ?thesis by (auto simp flip: s1(4))
  qed
qed

end

text \<open>The buffer as a stream: \<open>dpbuf_wdata\<close> writes, \<open>dpbuf_rdata\<close> makes bytes readable and
  the client takes the readable window.\<close>

definition buf_write :: "store \<times> dpbuf \<Rightarrow> byte list \<Rightarrow> ((store \<times> dpbuf) \<times> int) option" where
  "buf_write = (\<lambda>(h, b) xs. do {
     (h', b', r) \<leftarrow> dpbuf_wdata h b (Some xs) (int (length xs));
     Some ((h', b'), r)
   })"

definition buf_read :: "store \<times> dpbuf \<Rightarrow> int \<Rightarrow> ((store \<times> dpbuf) \<times> byte list) option" where
  "buf_read = (\<lambda>(h, b) n. do {
     let (b', r) = dpbuf_rdata b n;
     m \<leftarrow> dpbuf_crdata h b';
     ys \<leftarrow> mem_read 0 (dpbuf_crsize b') m;
     Some ((h, b'), ys)
   })"

lemma buf_write_law:
  assumes "buf_ok h b" and "wbeg b + int (length xs) < 2 ^ 30"
  shows "\<exists>h' b' r. buf_write (h, b) xs = Some ((h', b'), r) \<and> buf_ok h' b' \<and>
    wbeg b' \<le> wbeg b + int (length xs) \<and>
    eview h' b' = eview h b @ (if r < 0 then [] else xs)"
proof (cases "xs = []")
  case True
  with assms(1) show ?thesis by (auto simp: buf_write_def dpbuf_wdata_def)
next
  case False
  with assms obtain h' b' r where
    "dpbuf_wdata h b (Some xs) (int (length xs)) = Some (h', b', r)"
    "write_outcome h b xs h' b' r"
    using dpbuf_wdata_outcome [of h b "int (length xs)" xs] by auto
  then show ?thesis
    by (auto simp: buf_write_def write_outcome_def dest: appendsD keepsD)
qed

lemma buf_read_law:
  assumes "buf_ok h b"
  shows "\<exists>b' ys. buf_read (h, b) n = Some ((h, b'), ys) \<and> buf_ok h b' \<and>
    wbeg b' = wbeg b \<and> ys @ eview h b' = eview h b"
proof -
  obtain k where k: "dpbuf_rdata b n = (b\<lparr>rbeg := rend b, rend := rend b + int k\<rparr>, int k)"
    "consumes h b (b\<lparr>rbeg := rend b, rend := rend b + int k\<rparr>) k"
    using dpbuf_rdata_consumes [OF assms] by blast
  let ?b = "b\<lparr>rbeg := rend b, rend := rend b + int k\<rparr>"
  have ok: "buf_ok h ?b" using k(2) by (simp add: consumes_def)
  have "0 \<le> dpbuf_crsize ?b" by (simp add: dpbuf_crsize_def)
  then obtain m where "dpbuf_crdata h ?b = Some m"
    "mem_read 0 (dpbuf_crsize ?b) m = Some (rview h ?b)"
    using read_window [OF ok, of "dpbuf_crsize ?b"] length_rview [OF ok] by auto
  with k show ?thesis by (auto simp: buf_read_def consumes_def)
qed

interpretation dpbuf_stream: byte_stream
  "\<lambda>(h, b). buf_ok h b" "\<lambda>(h, b). wbeg b" "\<lambda>(h, b). eview h b" buf_write buf_read "2 ^ 30"
proof (unfold_locales, goal_cases)
  case (1 s xs)
  then show ?case using buf_write_law [of "fst s" "snd s" xs] by (cases s) fastforce
next
  case (2 s n)
  then show ?case using buf_read_law [of "fst s" "snd s" n] by (cases s) fastforce
qed

end
