(* ===== verification/Dpbuf_Life.thy ===== *)
theory Dpbuf_Life
  imports Dpbuf_Spec
begin

text \<open>
  Life cycle of buffers and blocks: allocation, shared views, release.  The step relation
  \<open>buf_step\<close> interleaves the public operations on a set of live buffers that may share blocks;
  its invariant says that every live buffer is well formed over a live block and that a block's
  reference count is the number of live buffers over it.
\<close>

section \<open>Allocation\<close>

definition fresh_above :: "store \<Rightarrow> bool" where
  "fresh_above h \<longleftrightarrow> (\<forall>p \<ge> nblk h. blocks h p = None)"

text \<open>A buffer created on a block of its own, holding \<open>r\<close> as its readable window and nothing
  pending.\<close>

definition born :: "store \<Rightarrow> store \<Rightarrow> dpbuf \<Rightarrow> byte list \<Rightarrow> bool" where
  "born h h' b r \<longleftrightarrow>
     (\<exists>d. bdata b = Some (nblk h) \<and> blocks h' = (blocks h)(nblk h \<mapsto> d) \<and> refc d = 1 \<and>
        \<not> has_bit (dflag d) DPBUF_CONSTDATA) \<and>
     nblk h' = Suc (nblk h) \<and> buf_ok h' b \<and> rview h' b = r \<and> eview h' b = []"

text \<open>A failed constructor leaves the blocks as they were.\<close>

definition unborn :: "store \<Rightarrow> store \<Rightarrow> bool" where
  "unborn h h' \<longleftrightarrow> blocks h' = blocks h \<and> nblk h' = nblk h"

lemma attempt_simps [simp]:
  "blocks (fst (attempt h)) = blocks h" "nblk (fst (attempt h)) = nblk h"
  by (simp_all add: attempt_def)

lemma dpbuf_data_new_cases:
  assumes "dpbuf_data_new h sz = (h', r)"
  shows "(r = None \<and> unborn h h') \<or>
    (0 \<le> sz \<and> sz < INT_MAX \<and> r = Some (nblk h) \<and> nblk h' = Suc (nblk h) \<and>
      (\<exists>bs. length bs = nat sz + 1 \<and>
        blocks h' = (blocks h)(nblk h \<mapsto> \<lparr>dbytes = bs, maxs = sz, dflag = 0, refc = 1\<rparr>)))"
proof (cases "sz < 0 \<or> sz \<ge> INT_MAX \<or> \<not> avail h (allocs h) \<or> \<not> avail h (Suc (allocs h))")
  case True
  with assms show ?thesis
    by (auto simp: dpbuf_data_new_def attempt_def unborn_def split: if_splits)
next
  case False
  define h2 where "h2 = h\<lparr>allocs := Suc (Suc (allocs h))\<rparr>"
  define bs where "bs = (fresh_bytes h2 0 (nat sz + 1))[0 := 0, nat sz := 0]"
  have "(h', r) = (fst (new_block h2 \<lparr>dbytes = bs, maxs = sz, dflag = 0, refc = 1\<rparr>), Some (nblk h))"
    using assms False
    by (auto simp: dpbuf_data_new_def attempt_def new_block_def Let_def bs_def h2_def)
  moreover have "length bs = nat sz + 1" by (simp add: bs_def fresh_bytes_def)
  ultimately show ?thesis
    using False by (auto simp: new_block_def h2_def intro!: exI [of _ bs])
qed

lemma has_bit_0 [simp]: "\<not> has_bit 0 m"
  by (simp add: has_bit_def)

lemma dpbuf_init_born:
  assumes "dpbuf_init h (Some z) sz = (h', b, ok)"
  shows "(ok \<and> (\<exists>b'. b = Some b' \<and> born h h' b' [] \<and> dpbuf_cwsize b' = sz)) \<or>
    (\<not> ok \<and> unborn h h')"
proof (cases "sz < 0")
  case True
  with assms show ?thesis by (auto simp: dpbuf_init_def unborn_def)
next
  case False
  obtain h1 r where n: "dpbuf_data_new h sz = (h1, r)" by fastforce
  show ?thesis
  proof (cases r)
    case None
    with dpbuf_data_new_cases [OF n] n assms False show ?thesis
      by (auto simp: dpbuf_init_def)
  next
    case (Some p)
    with dpbuf_data_new_cases [OF n] obtain bs where
      bs: "0 \<le> sz" "sz < INT_MAX" "p = nblk h" "nblk h1 = Suc (nblk h)" "length bs = nat sz + 1"
      "blocks h1 = (blocks h)(nblk h \<mapsto> \<lparr>dbytes = bs, maxs = sz, dflag = 0, refc = 1\<rparr>)" by auto
    let ?b = "dpbuf_zero\<lparr>bdata := Some p, bsize := sz\<rparr>"
    have "buf_ok h1 ?b"
      using bs by (auto intro!: buf_okI [of _ p] simp: block_ok_def cursors_ok_def dpbuf_zero_def)
    then have "born h h1 ?b []"
      using bs by (auto simp: born_def rview_def eview_def dpbuf_zero_def)
    with n Some assms False show ?thesis
      by (auto simp: dpbuf_init_def dpbuf_cwsize_def dpbuf_zero_def)
  qed
qed

lemma dpbuf_new_born:
  assumes "dpbuf_new h sz = (h', b)"
  shows "case b of Some b' \<Rightarrow> born h h' b' [] \<and> dpbuf_cwsize b' = sz | None \<Rightarrow> unborn h h'"
proof -
  define h1 where "h1 = fst (attempt h)"
  have a: "attempt h = (h1, snd (attempt h))" by (simp add: h1_def)
  have t: "born h1 k c r \<Longrightarrow> born h k c r" "unborn h1 k \<Longrightarrow> unborn h k" for k c r
    by (simp_all add: born_def unborn_def h1_def)
  obtain c ok where i: "dpbuf_init h1 (if snd (attempt h) then Some dpbuf_zero else None) sz =
      (h', c, ok)" and b: "b = (if ok then c else None)"
    using assms a by (auto simp: dpbuf_new_def split: prod.splits)
  show ?thesis
  proof (cases "snd (attempt h)")
    case True
    then show ?thesis using i b dpbuf_init_born [of h1 dpbuf_zero sz h' c ok] t by auto
  next
    case False
    then have "h' = h1" "\<not> ok" using i by (auto simp: dpbuf_init_def)
    then show ?thesis using b t by (simp add: unborn_def h1_def)
  qed
qed

lemma dpbuf_new_succeeds:
  assumes "0 \<le> sz" and "sz < INT_MAX"
    and "avail h (allocs h)" "avail h (Suc (allocs h))" "avail h (Suc (Suc (allocs h)))"
  shows "\<exists>h' b. dpbuf_new h sz = (h', Some b)"
  using assms
  by (simp add: dpbuf_new_def dpbuf_init_def dpbuf_data_new_def attempt_def new_block_def Let_def)

text \<open>A copy of the readable window has a block of its own.\<close>

lemma dpbuf_new_d_dup:
  assumes "0 \<le> sz" and "sz < INT_MAX" and "sz \<le> int (length src)"
  shows "\<exists>h' b. dpbuf_new_d h (Some src) sz (DPBUF_DUP_DATA OR DPBUF_INIT_R) = Some (h', b) \<and>
    (case b of Some b' \<Rightarrow> born h h' b' (take (nat sz) src) | None \<Rightarrow> unborn h h')"
proof -
  have m: "has_bit (DPBUF_DUP_DATA OR DPBUF_INIT_R) DPBUF_DUP_DATA"
    "has_bit (DPBUF_DUP_DATA OR DPBUF_INIT_R) DPBUF_INIT_R"
    by (simp_all add: has_bit_def)
  define h3 where "h3 = fst (attempt (fst (attempt (fst (attempt h)))))"
  define d where "d = \<lparr>dbytes = take (nat sz) src @ [0], maxs = sz, dflag = 0, refc = 1\<rparr>"
  define h4 where "h4 = fst (new_block h3 d)"
  let ?b = "dpbuf_zero\<lparr>bdata := Some (nblk h), bsize := sz, rend := sz, wbeg := sz\<rparr>"
  have h3: "blocks h3 = blocks h" "nblk h3 = nblk h" by (simp_all add: h3_def)
  have h4: "blocks h4 = (blocks h)(nblk h \<mapsto> d)" "nblk h4 = Suc (nblk h)"
    by (simp_all add: h4_def new_block_def h3)
  have "buf_ok h4 ?b"
    using assms h4 by (auto intro!: buf_okI [of _ "nblk h"]
        simp: block_ok_def cursors_ok_def dpbuf_zero_def d_def)
  moreover have "content h4 ?b = dbytes d" using h4 by (auto intro: content_at)
  moreover have "seg 0 sz (take (nat sz) src @ [0]) = take (nat sz) src"
    using assms by (simp add: seg_def peek_def)
  ultimately have "born h h4 ?b (take (nat sz) src)"
    using assms h4 by (auto simp: born_def d_def rview_def eview_def dpbuf_zero_def)
  moreover have "INT_MIN \<le> sz + 1" "sz + 1 \<le> INT_MAX" using assms by simp_all
  ultimately show ?thesis
    using assms m mem_read_prefix [of sz src]
    by (auto simp: dpbuf_new_d_def dpbuf_init_d_def dpbuf_data_new_d_def attempt_def unborn_def
        h4_def h3_def new_block_def d_def Let_def)
qed

lemma tag_simps [simp]:
  "buf_ok h (c\<lparr>uflag := f, utype := t\<rparr>) = buf_ok h c"
  "rview h (c\<lparr>uflag := f, utype := t\<rparr>) = rview h c"
  "eview h (c\<lparr>uflag := f, utype := t\<rparr>) = eview h c"
  by (simp_all add: buf_ok_iff cursors_ok_def rview_def eview_def content_def get_block_def)

lemma dpbuf_dup_r_born:
  assumes "buf_ok h b" and "dpbuf_crsize b < INT_MAX"
  shows "\<exists>h' nb. dpbuf_dup_r h (Some b) = Some (h', nb) \<and>
    (case nb of Some b' \<Rightarrow> born h h' b' (rview h b) | None \<Rightarrow> unborn h h')"
proof (cases "dpbuf_crsize b = 0")
  case True
  then have "rview h b = []" using length_rview [OF assms(1)] by simp
  then show ?thesis
    using True dpbuf_new_born [of h 0] by (cases "dpbuf_new h 0") (auto simp: dpbuf_dup_r_def split: option.splits)
next
  case False
  have nn: "0 \<le> dpbuf_crsize b"
    using assms(1) by (rule buf_okE) (auto simp: dpbuf_crsize_def cursors_ok_def)
  then obtain m where m: "dpbuf_crdata h b = Some m"
    "mem_read 0 (dpbuf_crsize b) m = Some (rview h b)"
    using read_window [OF assms(1), of "dpbuf_crsize b"] length_rview [OF assms(1)] by auto
  then have len: "dpbuf_crsize b \<le> int (length m)" by (simp add: mem_simps)
  with m nn have r: "rview h b = take (nat (dpbuf_crsize b)) m"
    using mem_read_prefix [of "dpbuf_crsize b" m] by simp
  from dpbuf_new_d_dup [OF nn assms(2) len, of h] obtain h' nb where
    nb: "dpbuf_new_d h (Some m) (dpbuf_crsize b) (DPBUF_DUP_DATA OR DPBUF_INIT_R) = Some (h', nb)"
    "case nb of Some b' \<Rightarrow> born h h' b' (rview h b) | None \<Rightarrow> unborn h h'"
    unfolding r by blast
  have tag: "born h h' (c\<lparr>uflag := f, utype := t\<rparr>) v = born h h' c v" for c f t v
    by (simp add: born_def)
  from nb m False show ?thesis
    by (cases nb) (auto simp: dpbuf_dup_r_def dpbuf_cpusr_def tag)
qed

section \<open>Shared views and release\<close>

lemma dpbuf_data_ref_blocks:
  "blocks h p = Some d \<Longrightarrow>
    dpbuf_data_ref h p = Some (set_block h p (d\<lparr>refc := refc d + 1\<rparr>))"
  by (simp add: dpbuf_data_ref_def)

lemma dpbuf_new_r_shares:
  assumes "buf_ok h b"
  shows "\<exists>h' nb. dpbuf_new_r h (Some b) = Some (h', nb) \<and> nblk h' = nblk h \<and>
    (case nb of None \<Rightarrow> blocks h' = blocks h
     | Some v \<Rightarrow> bdata v = bdata b \<and> buf_ok h' v \<and> rview h' v = rview h b \<and> eview h' v = [] \<and>
         dpbuf_cwsize v = 0 \<and>
         (\<exists>p d. bdata b = Some p \<and> blocks h p = Some d \<and>
            blocks h' = (blocks h)(p \<mapsto> d\<lparr>refc := refc d + 1\<rparr>)))"
proof -
  from assms obtain p d where pd: "bdata b = Some p" "blocks h p = Some d" "block_ok d"
    "cursors_ok b d" "content h b = dbytes d" by (rule buf_okE)
  define h1 where "h1 = h\<lparr>allocs := Suc (allocs h)\<rparr>"
  let ?d = "d\<lparr>refc := refc d + 1\<rparr>"
  let ?h = "set_block h1 p ?d"
  let ?v = "b\<lparr>wbeg := rend b, bsize := rend b\<rparr>"
  have "buf_ok ?h ?v"
    using pd by (intro buf_okI [of _ p _ ?d]) (auto simp: block_ok_def cursors_ok_def)
  moreover have "content ?h ?v = dbytes d"
    using pd by (auto intro: content_at [of _ p _ ?d, simplified])
  ultimately show ?thesis
    using pd by (auto simp: dpbuf_new_r_def attempt_def dpbuf_data_ref_def dpbuf_cpusr_def h1_def
        rview_def eview_def dpbuf_cwsize_def set_block_def)
qed

lemma buf_ok_refc:
  assumes "buf_ok h c" and "blocks h p = Some d" and "1 \<le> refc d'" and "maxs d' = maxs d"
    and "dbytes d' = dbytes d" and "blocks h' = (blocks h)(p \<mapsto> d')"
  shows "buf_ok h' c"
  using assms by (auto simp: buf_ok_iff block_ok_def cursors_ok_def)

section \<open>Interleaved use of shared buffers\<close>

type_synonym live = "store \<times> dpbuf list"

inductive buf_step :: "live \<Rightarrow> live \<Rightarrow> bool" where
  st_create: "dpbuf_new h sz = (h', Some b) \<Longrightarrow> buf_step (h, bs) (h', b # bs)"
| st_create_fail: "dpbuf_new h sz = (h', None) \<Longrightarrow> buf_step (h, bs) (h', bs)"
| st_view: "i < length bs \<Longrightarrow> dpbuf_new_r h (Some (bs ! i)) = Some (h', Some b) \<Longrightarrow>
    buf_step (h, bs) (h', b # bs)"
| st_view_fail: "i < length bs \<Longrightarrow> dpbuf_new_r h (Some (bs ! i)) = Some (h', None) \<Longrightarrow>
    buf_step (h, bs) (h', bs)"
| st_copy: "i < length bs \<Longrightarrow> dpbuf_crsize (bs ! i) < INT_MAX \<Longrightarrow>
    dpbuf_dup_r h (Some (bs ! i)) = Some (h', Some b) \<Longrightarrow> buf_step (h, bs) (h', b # bs)"
| st_write: "i < length bs \<Longrightarrow> 0 < len \<Longrightarrow> len \<le> int (length xs) \<Longrightarrow> wbeg (bs ! i) + len < 2 ^ 30 \<Longrightarrow>
    dpbuf_wdata h (bs ! i) (Some xs) len = Some (h', b', r) \<Longrightarrow>
    buf_step (h, bs) (h', bs[i := b'])"
| st_read: "i < length bs \<Longrightarrow> dpbuf_rdata (bs ! i) n = (b', r) \<Longrightarrow> buf_step (h, bs) (h, bs[i := b'])"
| st_release: "dpbuf_del h (Some b) = Some h' \<Longrightarrow>
    buf_step (h, bs1 @ b # bs2) (h', bs1 @ bs2)"

inductive buf_reach :: "live \<Rightarrow> bool" where
  start: "blocks h = Map.empty \<Longrightarrow> buf_reach (h, [])"
| step: "buf_reach s \<Longrightarrow> buf_step s s' \<Longrightarrow> buf_reach s'"

text \<open>The owners of a block among the live buffers.\<close>

definition owners :: "dpbuf list \<Rightarrow> nat \<Rightarrow> nat" where
  "owners bs p = count_list (map bdata bs) (Some p)"

definition counted :: "store \<Rightarrow> dpbuf list \<Rightarrow> bool" where
  "counted h bs \<longleftrightarrow>
     (\<forall>p d. blocks h p = Some d \<longrightarrow> refc d = int (owners bs p) \<and> 0 < owners bs p)"

definition live_inv :: "live \<Rightarrow> bool" where
  "live_inv = (\<lambda>(h, bs). fresh_above h \<and> (\<forall>b \<in> set bs. buf_ok h b) \<and> counted h bs)"

lemma owners_simps [simp]:
  "owners [] p = 0" "owners (b # bs) p = (if bdata b = Some p then 1 else 0) + owners bs p"
  "owners (bs1 @ bs2) p = owners bs1 p + owners bs2 p"
  by (simp_all add: owners_def)

lemma owners_update:
  "i < length bs \<Longrightarrow> bdata b' = bdata (bs ! i) \<Longrightarrow> owners (bs[i := b']) p = owners bs p"
  using list_update_id [of "map bdata bs" i] by (simp add: owners_def map_update)

lemma owners_0: "owners bs p = 0 \<longleftrightarrow> (\<forall>b \<in> set bs. bdata b \<noteq> Some p)"
  by (force simp: owners_def count_list_0_iff)

lemma unborn_inv: "unborn h h' \<Longrightarrow> live_inv (h, bs) \<Longrightarrow> live_inv (h', bs)"
  by (auto simp: live_inv_def unborn_def fresh_above_def counted_def buf_ok_iff)

lemma born_inv:
  assumes "born h h' b r" and "live_inv (h, bs)"
  shows "live_inv (h', b # bs)"
proof -
  obtain d where d: "bdata b = Some (nblk h)" "blocks h' = (blocks h)(nblk h \<mapsto> d)" "refc d = 1"
    "nblk h' = Suc (nblk h)" "buf_ok h' b" using assms(1) by (auto simp: born_def)
  have fr: "blocks h (nblk h) = None" using assms(2) by (simp add: live_inv_def fresh_above_def)
  have old: "buf_ok h' c \<and> bdata c \<noteq> Some (nblk h)" if "c \<in> set bs" for c
  proof -
    have "buf_ok h c" using assms(2) that by (simp add: live_inv_def)
    then obtain p e where "bdata c = Some p" "blocks h p = Some e" "block_ok e" "cursors_ok c e"
      by (rule buf_okE)
    moreover from this fr have "p \<noteq> nblk h" by auto
    ultimately show ?thesis using d(2) by (auto intro: buf_okI)
  qed
  then have "owners bs (nblk h) = 0" by (simp add: owners_0)
  with assms(2) d old show ?thesis
    by (auto simp: live_inv_def fresh_above_def counted_def)
qed

lemma view_inv:
  assumes "live_inv (h, bs)" and "i < length bs"
    and "dpbuf_new_r h (Some (bs ! i)) = Some (h', nb)"
  shows "live_inv (h', case nb of None \<Rightarrow> bs | Some v \<Rightarrow> v # bs)"
proof -
  have ok: "buf_ok h (bs ! i)" using assms(1,2) by (simp add: live_inv_def)
  show ?thesis
  proof (cases nb)
    case None
    then have "unborn h h'" using dpbuf_new_r_shares [OF ok] assms(3) by (simp add: unborn_def)
    with None assms(1) show ?thesis by (simp add: unborn_inv)
  next
    case (Some v)
    then obtain p d where v: "bdata v = Some p" "bdata (bs ! i) = Some p" "buf_ok h' v"
      "nblk h' = nblk h" "blocks h p = Some d"
      "blocks h' = (blocks h)(p \<mapsto> d\<lparr>refc := refc d + 1\<rparr>)"
      using dpbuf_new_r_shares [OF ok] assms(3) by auto
    have cnt: "refc d = int (owners bs p)" "0 < owners bs p"
      using assms(1) v(5) by (simp_all add: live_inv_def counted_def)
    have fr: "p < nblk h"
      using assms(1) v(5) by (cases "nblk h \<le> p") (auto simp: live_inv_def fresh_above_def)
    have "buf_ok h' c" if "c \<in> set bs" for c
      using that assms(1) v cnt
      by (intro buf_ok_refc [of h c p d "d\<lparr>refc := refc d + 1\<rparr>" h']) (auto simp: live_inv_def)
    with Some v cnt fr assms(1) show ?thesis
      by (auto simp: live_inv_def fresh_above_def counted_def)
  qed
qed

lemma frame_inv:
  assumes "live_inv (h, bs)" and "i < length bs" and "same_frame h (bs ! i) h' b'"
    and "buf_ok h' b'" and "nblk h' = nblk h"
  shows "live_inv (h', bs[i := b'])"
proof -
  have ok: "buf_ok h (bs ! i)" using assms(1,2) by (simp add: live_inv_def)
  then obtain p d where p: "bdata (bs ! i) = Some p" "blocks h p = Some d" by (rule buf_okE)
  have keep: "map_option refc (blocks h' q) = map_option refc (blocks h q)" for q
    using assms(3) p by (cases "q = p") (auto simp: same_frame_def)
  have "\<forall>c \<in> set (bs[i := b']). buf_ok h' c"
    using assms ok same_frame_sharing [OF assms(3,4) ok]
    by (auto simp: live_inv_def dest!: set_update_subset_insert [THEN subsetD])
  moreover have "fresh_above h'"
  proof -
    have "blocks h' q = None" if "nblk h' \<le> q" for q
      using keep [of q] that assms(1,5) by (simp add: live_inv_def fresh_above_def)
    then show ?thesis by (simp add: fresh_above_def)
  qed
  moreover have "counted h' (bs[i := b'])"
  proof -
    have "bdata b' = bdata (bs ! i)" using assms(3) by (simp add: same_frame_def)
    moreover have "\<exists>d0. blocks h q = Some d0 \<and> refc d0 = refc d'"
      if "blocks h' q = Some d'" for q d'
      using keep [of q] that by (cases "blocks h q") auto
    ultimately show ?thesis
      using assms(1,2) by (fastforce simp: live_inv_def counted_def owners_update)
  qed
  ultimately show ?thesis by (simp add: live_inv_def)
qed

lemma release_inv:
  assumes "live_inv (h, bs1 @ b # bs2)"
  shows "\<exists>h'. dpbuf_del h (Some b) = Some h' \<and> live_inv (h', bs1 @ bs2) \<and>
    (\<forall>p. bdata b = Some p \<longrightarrow> (blocks h' p = None \<longleftrightarrow> owners (bs1 @ bs2) p = 0))"
proof -
  have ok: "buf_ok h c" if "c \<in> set (bs1 @ b # bs2)" for c
    using assms that by (auto simp: live_inv_def)
  then have "buf_ok h b" by simp
  then obtain p d where p: "bdata b = Some p" "blocks h p = Some d" by (rule buf_okE)
  have cnt: "refc d = int (Suc (owners (bs1 @ bs2) p))"
    using assms p by (simp add: live_inv_def counted_def)
  have rest: "refc e = int (owners (bs1 @ bs2) q) \<and> 0 < owners (bs1 @ bs2) q"
    if "blocks h q = Some e" "q \<noteq> p" for q e
  proof -
    have "refc e = int (owners (bs1 @ b # bs2) q) \<and> 0 < owners (bs1 @ b # bs2) q"
      using assms that(1) unfolding live_inv_def counted_def by blast
    with p(1) that(2) show ?thesis by simp
  qed
  show ?thesis
  proof (cases "owners (bs1 @ bs2) p = 0")
    case True
    let ?h = "h\<lparr>blocks := (blocks h)(p := None)\<rparr>"
    have del: "dpbuf_del h (Some b) = Some ?h"
      using p cnt True by (simp add: dpbuf_del_def dpbuf_data_del_def)
    have "buf_ok ?h c" if "c \<in> set (bs1 @ bs2)" for c
    proof -
      have "buf_ok h c" using that ok by auto
      moreover have "bdata c \<noteq> Some p" using that True unfolding owners_0 by blast
      ultimately show ?thesis by (auto simp: buf_ok_iff)
    qed
    moreover have "fresh_above ?h"
      using assms p by (auto simp: live_inv_def fresh_above_def)
    moreover have "counted ?h (bs1 @ bs2)"
      using rest by (auto simp: counted_def)
    ultimately show ?thesis using del True p by (auto simp: live_inv_def)
  next
    case False
    let ?d = "d\<lparr>refc := refc d - 1\<rparr>"
    have "refc d \<noteq> 1" using cnt False by linarith
    then have del: "dpbuf_del h (Some b) = Some (set_block h p ?d)"
      using p by (simp add: dpbuf_del_def dpbuf_data_del_def)
    have "buf_ok (set_block h p ?d) c" if "c \<in> set (bs1 @ bs2)" for c
    proof -
      have "1 \<le> refc ?d" using cnt False by (simp del: owners_simps)
      then show ?thesis
        using that ok [of c] p(2) by (auto intro: buf_ok_refc [of h c p d ?d "set_block h p ?d"])
    qed
    moreover have "fresh_above (set_block h p ?d)"
      using assms p by (auto simp: live_inv_def fresh_above_def set_block_def)
    moreover have "counted (set_block h p ?d) (bs1 @ bs2)"
      using rest cnt False by (auto simp: counted_def)
    ultimately show ?thesis using del False p by (auto simp: live_inv_def)
  qed
qed

lemma dpbuf_recycle_data_nblk:
  "dpbuf_recycle_data h b = Some (h', b') \<Longrightarrow> nblk h' = nblk h"
  by (auto simp: dpbuf_recycle_data_def set_block_def bind_eq_Some_conv split: if_splits)

lemma dpbuf_data_resize_nblk:
  "dpbuf_data_resize h p sz = Some (h', r) \<Longrightarrow> nblk h' = nblk h"
  by (auto simp: dpbuf_data_resize_def set_block_def attempt_def bind_eq_Some_conv
      split: if_splits)

lemma dpbuf_resize_nblk:
  "dpbuf_resize h b sz = Some (h', b', r) \<Longrightarrow> nblk h' = nblk h"
  by (auto simp: dpbuf_resize_def bind_eq_Some_conv dest: dpbuf_data_resize_nblk split: if_splits)

lemma dpbuf_wcheck_nblk:
  "dpbuf_wcheck h b len = Some (h', b', r) \<Longrightarrow> nblk h' = nblk h"
  by (auto simp: dpbuf_wcheck_def dpbuf_resizew_def bind_eq_Some_conv
      dest!: dpbuf_resize_nblk dpbuf_recycle_data_nblk split: if_splits)

lemma put_bytes_nblk: "put_bytes h b xs = Some (h', b') \<Longrightarrow> nblk h' = nblk h"
  by (auto simp: put_bytes_def set_block_def bind_eq_Some_conv)

lemma dpbuf_wdata_nblk:
  "dpbuf_wdata h b data len = Some (h', b', r) \<Longrightarrow> nblk h' = nblk h"
  by (auto simp: dpbuf_wdata_def bind_eq_Some_conv dest!: dpbuf_wcheck_nblk put_bytes_nblk
      split: option.splits if_splits)

lemma write_inv:
  assumes "live_inv (h, bs)" and "i < length bs" and "0 < len" and "len \<le> int (length xs)"
    and "wbeg (bs ! i) + len < 2 ^ 30"
    and "dpbuf_wdata h (bs ! i) (Some xs) len = Some (h', b', r)"
  shows "live_inv (h', bs[i := b'])"
proof -
  have "buf_ok h (bs ! i)" using assms(1,2) by (simp add: live_inv_def)
  with assms dpbuf_wdata_outcome [of h "bs ! i" len xs]
  have "write_outcome h (bs ! i) (take (nat len) xs) h' b' r" by auto
  then have "same_frame h (bs ! i) h' b'" "buf_ok h' b'"
    by (auto simp: write_outcome_def dest: appendsD keepsD)
  with assms(1,2) dpbuf_wdata_nblk [OF assms(6)] show ?thesis by (intro frame_inv)
qed

lemma read_inv:
  assumes "live_inv (h, bs)" and "i < length bs" and "dpbuf_rdata (bs ! i) n = (b', r)"
  shows "live_inv (h, bs[i := b'])"
proof -
  have "buf_ok h (bs ! i)" using assms(1,2) by (simp add: live_inv_def)
  with dpbuf_rdata_consumes [of h "bs ! i" n] assms(3)
  have "buf_ok h b'" "bdata b' = bdata (bs ! i)" by (auto simp: consumes_def)
  with assms(1,2) same_frame_cursors [of b' "bs ! i" h] show ?thesis by (intro frame_inv) auto
qed

lemma buf_step_inv: "buf_step s s' \<Longrightarrow> live_inv s \<Longrightarrow> live_inv s'"
proof (induction rule: buf_step.induct)
  case (st_create h sz h' b bs)
  then show ?case using dpbuf_new_born [of h sz h' "Some b"] by (auto intro: born_inv)
next
  case (st_create_fail h sz h' bs)
  then show ?case using dpbuf_new_born [of h sz h' None] by (auto intro: unborn_inv)
next
  case (st_view i bs h h' b)
  then show ?case using view_inv [of h bs i h' "Some b"] by simp
next
  case (st_view_fail i bs h h')
  then show ?case using view_inv [of h bs i h' None] by simp
next
  case (st_copy i bs h h' b)
  then have "buf_ok h (bs ! i)" by (simp add: live_inv_def)
  with st_copy show ?case using dpbuf_dup_r_born [of h "bs ! i"] by (auto intro: born_inv)
next
  case (st_write i bs len xs h h' b' r)
  then show ?case by (intro write_inv)
next
  case (st_read i bs n b' r h)
  then show ?case by (intro read_inv)
next
  case (st_release h b h' bs1 bs2)
  then show ?case using release_inv [of h bs1 b bs2] by auto
qed

lemma buf_reach_inv: "buf_reach s \<Longrightarrow> live_inv s"
proof (induction rule: buf_reach.induct)
  case (start h)
  then show ?case by (simp add: live_inv_def fresh_above_def counted_def)
next
  case (step s s')
  then show ?case by (blast intro: buf_step_inv)
qed

end
