(* ===== verification/Dpbuf_Props.thy ===== *)
theory Dpbuf_Props
  imports Dpbuf_Life
begin

text \<open>
  The properties of the byte buffer, and the inputs on which the code leaves its contract: a
  failed \<open>dpbuf_readto\<close>, a negative length given to \<open>dpbuf_runtil\<close>, a terminator written behind
  wrapped memory, a write through a shared view.
\<close>

section \<open>Concrete buffers\<close>

definition demo_store :: store where
  "demo_store = \<lparr>blocks = Map.empty, nblk = 0, allocs = 0, avail = (\<lambda>_. True), junk = (\<lambda>_ _. 204)\<rparr>"

definition demo_heap :: store where
  "demo_heap = fst (dpbuf_new demo_store 4)"

definition demo_buf :: dpbuf where
  "demo_buf = the (snd (dpbuf_new demo_store 4))"

lemmas demo_new = dpbuf_new_def dpbuf_init_def dpbuf_data_new_def attempt_def new_block_def Let_def
  fresh_bytes_def dpbuf_zero_def demo_store_def

lemma demo_buf_eq:
  "demo_buf = \<lparr>utype = 0, uflag = 0, bflag = 0, rbeg = 0, rend = 0, wbeg = 0, bsize = 4, bdata = Some 0\<rparr>"
  by (simp add: demo_buf_def demo_new)

lemma demo_blocks:
  "blocks demo_heap = [0 \<mapsto> \<lparr>dbytes = [0, 204, 204, 204, 0], maxs = 4, dflag = 0, refc = 1\<rparr>]"
  by (simp add: demo_heap_def demo_new upt_rec)

lemma demo_heap_fields: "avail demo_heap n" "nblk demo_heap = 1"
  by (simp_all add: demo_heap_def demo_new)

lemma demo_ok: "buf_ok demo_heap demo_buf"
  by (auto simp: demo_buf_eq demo_blocks block_ok_def cursors_ok_def intro!: buf_okI)

lemma demo_may_grow: "may_grow demo_heap demo_buf"
  by (simp add: may_grow_def get_block_def demo_buf_eq demo_blocks demo_heap_fields has_bit_def)

lemma demo_reach: "buf_reach (demo_heap, [demo_buf])"
proof -
  have "dpbuf_new demo_store 4 = (demo_heap, Some demo_buf)"
    by (simp add: demo_heap_def demo_buf_def) (simp add: demo_new)
  then show ?thesis
    by (intro buf_reach.step [OF buf_reach.start [of demo_store]])
      (auto intro: buf_step.intros simp: demo_store_def)
qed

section \<open>Contract\<close>

text \<open>
  C1.  A buffer is a lossless byte stream.  From any well-formed buffer, any sequence of
  \<open>dpbuf_wdata\<close> and \<open>dpbuf_rdata\<close> calls that stays below the growth limit runs without a memory
  fault, whatever the allocator does, and the bytes that were pending followed by the accepted
  writes are exactly the delivered bytes followed by what is still pending.
\<close>

theorem dpbuf_stream_lossless:
  assumes "buf_ok h b" and "wbeg b + written ops < 2 ^ 30"
  shows "\<exists>h' b' w out. stream_run buf_write buf_read (h, b) ops = Some ((h', b'), w, out) \<and>
    buf_ok h' b' \<and> eview h b @ w = out @ eview h' b'"
  using dpbuf_stream.run_conserves [of "(h, b)" ops] assms by auto

theorem dpbuf_stream_lossless_witness:
  "\<exists>h' b' w out.
    stream_run buf_write buf_read (demo_heap, demo_buf)
      [Write [1, 2, 3], Read 2, Write [4, 5, 6], Read (- 1)] = Some ((h', b'), w, out) \<and>
    buf_ok h' b' \<and> eview demo_heap demo_buf @ w = out @ eview h' b'"
  using dpbuf_stream_lossless [OF demo_ok, of "[Write [1, 2, 3], Read 2, Write [4, 5, 6], Read (- 1)]"]
  by (simp add: demo_buf_eq)

text \<open>
  C5.  Shared buffers are memory safe and leak free.  In every state reachable by creating,
  sharing (\<open>dpbuf_new_r\<close>), copying, writing, reading and releasing buffers, a live buffer can be
  written and released without a fault, a block is live exactly while some live buffer refers to
  it, and its reference count is the number of those buffers.
\<close>

theorem dpbuf_shared_safety:
  assumes "buf_reach (h, bs)"
  shows "(\<forall>b \<in> set bs. dpbuf_del h (Some b) \<noteq> None \<and>
       (\<forall>xs. xs \<noteq> [] \<longrightarrow> wbeg b + int (length xs) < 2 ^ 30 \<longrightarrow>
          dpbuf_wdata h b (Some xs) (int (length xs)) \<noteq> None)) \<and>
    (\<forall>p. blocks h p \<noteq> None \<longleftrightarrow> (\<exists>b \<in> set bs. bdata b = Some p)) \<and>
    (\<forall>p d. blocks h p = Some d \<longrightarrow> refc d = int (owners bs p))"
proof -
  have inv: "live_inv (h, bs)" using assms by (rule buf_reach_inv)
  have ok: "buf_ok h b" if "b \<in> set bs" for b using inv that by (simp add: live_inv_def)
  have "dpbuf_del h (Some b) \<noteq> None" if "b \<in> set bs" for b
  proof -
    from that obtain bs1 bs2 where "bs = bs1 @ b # bs2" by (meson split_list)
    then show ?thesis using release_inv [of h bs1 b bs2] inv by auto
  qed
  moreover have "dpbuf_wdata h b (Some xs) (int (length xs)) \<noteq> None"
    if "b \<in> set bs" "xs \<noteq> []" "wbeg b + int (length xs) < 2 ^ 30" for b xs
    using dpbuf_wdata_outcome [OF ok [OF that(1)], of "int (length xs)" xs] that(2,3) by auto
  moreover have "blocks h p \<noteq> None \<longleftrightarrow> (\<exists>b \<in> set bs. bdata b = Some p)" for p
  proof
    assume "blocks h p \<noteq> None"
    then obtain d where "blocks h p = Some d" by blast
    then have "owners bs p \<noteq> 0" using inv by (auto simp: live_inv_def counted_def)
    then show "\<exists>b \<in> set bs. bdata b = Some p" by (simp add: owners_0)
  next
    assume "\<exists>b \<in> set bs. bdata b = Some p"
    then obtain b where b: "b \<in> set bs" "bdata b = Some p" by blast
    from ok [OF b(1)] show "blocks h p \<noteq> None" using b(2) by (auto elim: buf_okE)
  qed
  ultimately show ?thesis using inv by (auto simp: live_inv_def counted_def)
qed

theorem dpbuf_shared_safety_witness:
  "dpbuf_del demo_heap (Some demo_buf) \<noteq> None \<and>
   dpbuf_wdata demo_heap demo_buf (Some [1, 2, 3]) 3 \<noteq> None \<and>
   blocks demo_heap 0 \<noteq> None \<and> blocks demo_heap 1 = None \<and>
   refc (the (blocks demo_heap 0)) = int (owners [demo_buf] 0)"
proof -
  note safe = dpbuf_shared_safety [OF demo_reach]
  have "xs \<noteq> [] \<longrightarrow> wbeg demo_buf + int (length xs) < 2 ^ 30 \<longrightarrow>
    dpbuf_wdata demo_heap demo_buf (Some xs) (int (length xs)) \<noteq> None" for xs
    using safe by simp
  from this [of "[1, 2, 3]"] have "dpbuf_wdata demo_heap demo_buf (Some [1, 2, 3]) 3 \<noteq> None"
    by (simp add: demo_buf_eq)
  moreover have "dpbuf_del demo_heap (Some demo_buf) \<noteq> None" using safe by simp
  moreover have "blocks demo_heap p = Some d \<longrightarrow> refc d = int (owners [demo_buf] p)" for p d
    using safe by blast
  from this [of 0] have "refc (the (blocks demo_heap 0)) = int (owners [demo_buf] 0)"
    by (simp add: demo_blocks demo_buf_eq)
  ultimately show ?thesis by (simp add: demo_blocks)
qed

text \<open>
  C19.  \<open>dpbuf_wdata\<close> on every branch.  A null source or a zero length is \<open>-EINVAL\<close> and changes
  nothing.  Otherwise the call either appends the first \<open>len\<close> bytes of the source to the pending
  bytes and returns \<open>len\<close>, or returns \<open>-ENOMEM\<close> with both windows as they were; it fails only when
  the block may not grow.
\<close>

theorem dpbuf_wdata_contract:
  assumes "buf_ok h b" and "0 \<le> len" and "len \<le> int (length src)" and "wbeg b + len < 2 ^ 30"
  shows "dpbuf_wdata h b None len = Some (h, b, DPE_INVAL) \<and>
    (if len = 0 then dpbuf_wdata h b (Some src) len = Some (h, b, DPE_INVAL)
     else \<exists>h' b' r. dpbuf_wdata h b (Some src) len = Some (h', b', r) \<and>
       buf_ok h' b' \<and> rview h' b' = rview h b \<and>
       (r = len \<and> eview h' b' = eview h b @ take (nat len) src \<or>
        r = DPE_NOMEM \<and> \<not> may_grow h b \<and> eview h' b' = eview h b))"
proof (cases "len = 0")
  case True
  then show ?thesis by (simp add: dpbuf_wdata_def)
next
  case False
  with assms obtain h' b' r where w: "dpbuf_wdata h b (Some src) len = Some (h', b', r)"
    "write_outcome h b (take (nat len) src) h' b' r" "may_grow h b \<longrightarrow> r = len"
    using dpbuf_wdata_outcome [of h b len src] by auto
  have "int (length (take (nat len) src)) = len" using assms by simp
  with w(2,3) assms(2) have "buf_ok h' b' \<and> rview h' b' = rview h b \<and>
       (r = len \<and> eview h' b' = eview h b @ take (nat len) src \<or>
        r = DPE_NOMEM \<and> \<not> may_grow h b \<and> eview h' b' = eview h b)"
    by (auto simp: write_outcome_def appends_def keeps_def)
  with w(1) False show ?thesis by (auto simp: dpbuf_wdata_def)
qed

theorem dpbuf_wdata_contract_witness:
  "\<exists>h' b' r. dpbuf_wdata demo_heap demo_buf (Some [7, 8, 9, 10, 11, 12]) 6 = Some (h', b', r) \<and>
     buf_ok h' b' \<and> r = 6 \<and> eview h' b' = eview demo_heap demo_buf @ [7, 8, 9, 10, 11, 12]"
  using dpbuf_wdata_contract [OF demo_ok, of 6 "[7, 8, 9, 10, 11, 12]"] demo_may_grow
  by (auto simp: demo_buf_eq)

text \<open>
  Compaction never loses data: on a well-formed buffer \<open>_dpbuf_recycle_data\<close> does not
  fault, keeps the bytes of both windows and the writable room, and only lowers the write cursor.
\<close>

theorem dpbuf_recycle_keeps_windows:
  assumes "buf_ok h b"
  shows "\<exists>h' b'. dpbuf_recycle_data h b = Some (h', b') \<and> buf_ok h' b' \<and>
    rview h' b' = rview h b \<and> eview h' b' = eview h b \<and>
    dpbuf_cwsize b' = dpbuf_cwsize b \<and> wbeg b' \<le> wbeg b"
  using dpbuf_recycle_keeps [OF assms] by (auto simp: keeps_def dpbuf_cwsize_def)

theorem dpbuf_recycle_keeps_windows_witness:
  "\<exists>h' b'. dpbuf_recycle_data demo_heap demo_buf = Some (h', b') \<and> buf_ok h' b' \<and>
    rview h' b' = rview demo_heap demo_buf \<and> eview h' b' = eview demo_heap demo_buf \<and>
    dpbuf_cwsize b' = dpbuf_cwsize demo_buf \<and> wbeg b' \<le> wbeg demo_buf"
  by (rule dpbuf_recycle_keeps_windows [OF demo_ok])

text \<open>
  \<open>dpbuf_resizew\<close> guarantees the room it is asked for: when it returns true exactly \<open>s\<close>
  bytes are writable, in every case both windows keep their bytes, and it succeeds whenever the
  block may grow and \<open>s\<close> is positive.
\<close>

theorem dpbuf_resizew_contract:
  assumes "buf_ok h b" and "0 \<le> s" and "wbeg b + s < 2 ^ 30"
  shows "\<exists>h' b' r. dpbuf_resizew h b s = Some (h', b', r) \<and> buf_ok h' b' \<and>
    rview h' b' = rview h b \<and> eview h' b' = eview h b \<and>
    (r \<longrightarrow> dpbuf_cwsize b' = s) \<and> (0 < s \<and> may_grow h b \<longrightarrow> r)"
proof -
  obtain h' b' r where r: "dpbuf_resizew h b s = Some (h', b', r)" "keeps h b h' b'"
    "r \<longrightarrow> bsize b' = wbeg b' + s"
    using dpbuf_resizew_keeps [OF assms] by blast
  moreover have "0 < s \<and> may_grow h b \<longrightarrow> r"
    using dpbuf_resizew_succeeds [of h b s] assms r(1) by auto
  ultimately show ?thesis by (auto simp: keeps_def dpbuf_cwsize_def)
qed

theorem dpbuf_resizew_contract_witness:
  "\<exists>h' b' r. dpbuf_resizew demo_heap demo_buf 9 = Some (h', b', r) \<and> buf_ok h' b' \<and> r \<and>
    dpbuf_cwsize b' = 9"
  using dpbuf_resizew_contract [OF demo_ok, of 9] demo_may_grow by (auto simp: demo_buf_eq)

text \<open>
  \<open>_pow_min_value\<close>: for a request between 1 and 65536 it is the least power of two that
  holds it.
\<close>

theorem pow_min_value_least_power:
  assumes "0 < v" and "v \<le> 65536"
  shows "\<exists>k. pow_min_value v = Some (2 ^ k) \<and> v \<le> 2 ^ k \<and> (\<forall>j. v \<le> 2 ^ j \<longrightarrow> k \<le> j)"
  using assms by (rule pow_min_value_power)

theorem pow_min_value_least_power_witness:
  "\<exists>k. pow_min_value 1000 = Some (2 ^ k) \<and> (1000::int) \<le> 2 ^ k \<and> (\<forall>j. (1000::int) \<le> 2 ^ j \<longrightarrow> k \<le> j)"
  using pow_min_value_least_power [of 1000] by simp

end
