(* ===== verification/Dpevp_State.thy ===== *)
theory Dpevp_State
  imports Dpret Complex_Main
begin

text \<open>
  The state of the event loops: elements (\<open>struct dpele\<close>), the per-thread loop (\<open>struct _dpevp\<close>
  with the fields \<open>worker_t\<close> adds), and the part of the kernel the loops use (eventfd counters,
  epoll interest lists).  Elements live at addresses of the store \<open>eles\<close>; a deque structure
  \<open>&self->f\<close> of the loop with id \<open>i\<close> is named by the constructor \<open>f\<close> applied to \<open>i\<close>.  A null
  pointer is \<open>None\<close>; dereferencing an address that holds no element is the value \<open>None\<close> of the
  option monad.

  A function pointer of an element type is an index into the tables of \<open>env\<close>; a descriptor
  \<open>const dpasc_t*\<close> is the address of its record.  The bytes behind \<open>asc_data\<close> are typed \<open>'d\<close>, with
  \<open>None\<close> for memory just zeroed.  A \<open>double\<close> number of seconds is a rational.
\<close>

named_theorems dq_simps \<open>effect of the queue operations on the fields they leave alone\<close>

section \<open>Elements\<close>

datatype dpele_type_e = DPELE_TYPE_EFD | DPELE_TYPE_USD | DPELE_TYPE_CTC | DPELE_TYPE_TMR

datatype dpaio_type_e =
  DPAIO_TYPE_NAN | DPAIO_TYPE_GFD | DPAIO_TYPE_SKT | DPAIO_TYPE_SSL | DPAIO_TYPE_QIC

primrec type_index :: "dpele_type_e \<Rightarrow> nat" where
  "type_index DPELE_TYPE_EFD = 0"
| "type_index DPELE_TYPE_USD = 1"
| "type_index DPELE_TYPE_CTC = 2"
| "type_index DPELE_TYPE_TMR = 3"

text \<open>The enumeration value; \<open>DPAIO_TYPE_NAN\<close> is \<open>-1\<close>, by which C does not allow a shift.\<close>

primrec iotype_index :: "dpaio_type_e \<Rightarrow> nat option" where
  "iotype_index DPAIO_TYPE_NAN = None"
| "iotype_index DPAIO_TYPE_GFD = Some 0"
| "iotype_index DPAIO_TYPE_SKT = Some 1"
| "iotype_index DPAIO_TYPE_SSL = Some 2"
| "iotype_index DPAIO_TYPE_QIC = Some 3"

record dpele_type =
  ty_name :: string
  ty_type :: dpele_type_e
  ty_size :: nat
  ty_iotype :: dpaio_type_e
  ty_events :: u32
  ty_init :: "nat option"
  ty_copy :: "nat option"
  ty_fini :: "nat option"

datatype dpctc_stat = DPCTC_INITIAL | DPCTC_COMMIT | DPCTC_CANCEL | DPCTC_RUNNING | DPCTC_FINISH

primrec stat_index :: "dpctc_stat \<Rightarrow> nat" where
  "stat_index DPCTC_INITIAL = 0"
| "stat_index DPCTC_COMMIT = 1"
| "stat_index DPCTC_CANCEL = 2"
| "stat_index DPCTC_RUNNING = 3"
| "stat_index DPCTC_FINISH = 4"

record dpele_tmrspec =
  expire :: int
  after :: rat

record 'd dpele =
  etype :: dpele_type
  able_events :: "5 word"
  want_events :: "5 word"
  poll_events :: "5 word"
  is_timing :: bool
  is_close :: bool
  is_detach :: bool
  is_reto :: bool
  ret :: dpret
  tmr_spec :: "dpele_tmrspec option"
  ele_refc :: int
  fd :: int
  toid :: byte
  fromid :: byte
  stat :: dpctc_stat
  prv :: "nat option"
  nxt :: "nat option"
  cop :: "64 word"
  asc_type :: "nat option"
  asc_data :: "(nat \<times> 'd option) option"
  aux_data :: "byte list"

section \<open>Loops\<close>

record dpele_deque =
  dq_head :: "nat option"
  dq_tail :: "nat option"

datatype deque_ref =
  enter_ctcs nat | ready nat |
  accepting_ctcs nat | commiting_ctcs nat | accepted_ctcs nat | commited_ctcs nat

datatype wake_ref = commit_wake nat | accept_wake nat

text \<open>The pointer registered with epoll is an element's or a wake descriptor's.\<close>

datatype ev_ptr = Pele nat | Pwake wake_ref

record epoll_event =
  ev_events :: u32
  ev_ptr :: ev_ptr

record dpevp =
  evp_id :: nat
  evp_type :: int
  epoll_fd :: int
  ev_capacity :: int
  evs :: "epoll_event list"
  ev_index :: int
  ev_count :: int
  timer :: "nat list"
  timer_waitms :: int
  pop_limit :: int
  is_request_ctc :: bool
  is_respond_ctc :: bool

text \<open>
  The whole process.  \<open>gevp\<close> is the thread-local \<open>_gevp\<close>: the id of the
  loop whose thread runs.
  \<open>ext\<close> is the part of the process and the kernel that only the operations of the I/O components
  touch.
  \<open>clock\<close> gives the successive results of \<open>dplog_millis\<close>, \<open>mem_ok\<close> those of the allocator and
  \<open>sys_err\<close> the errno of the successive calls that may fail for a reason outside the model.
\<close>

record ('d, 's) world =
  eles :: "nat \<Rightarrow> 'd dpele option"
  ele_brk :: nat
  deqs :: "deque_ref \<Rightarrow> dpele_deque"
  evps :: "nat \<Rightarrow> dpevp"
  gevp :: "nat option"
  gcount :: int
  type_count :: int
  each_count :: "int list"
  each_ids :: "int list list"
  eventfd :: "wake_ref \<Rightarrow> 64 word"
  interest :: "nat \<Rightarrow> int \<Rightarrow> (u32 \<times> ev_ptr) option"
  wake_interest :: "wake_ref \<Rightarrow> nat option"
  fd_flags :: "int \<Rightarrow> bool option"
  closed :: "int list"
  errno :: int
  clock :: "nat \<Rightarrow> int"
  clock_reads :: nat
  mem_ok :: "nat \<Rightarrow> bool"
  mem_calls :: nat
  sys_err :: "nat \<Rightarrow> int option"
  sys_calls :: nat
  ext :: 's

record dpasc_out =
  out_want :: "16 word"
  out_inva :: "16 word"
  out_able :: "16 word"
  out_data :: bool

text \<open>
  A pointer is an object and a byte offset: \<open>Pobj\<close> into an object of the process, \<open>Pblk\<close> into a
  block of the buffer store.  Variadic arguments carry their types; \<open>va_arg\<close> with another type than
  the one passed, or past the last argument, is undefined.
\<close>

datatype ptr = Pobj nat int | Pblk nat int

datatype va_arg = Vint int | Vw64 "64 word" | Vdbl rat | Vptr "ptr option"

type_synonym va_list = "va_arg list"

fun va_int :: "va_list \<Rightarrow> (int \<times> va_list) option" where
  "va_int (Vint x # va) = Some (x, va)"
| "va_int va = None"

fun va_w64 :: "va_list \<Rightarrow> (64 word \<times> va_list) option" where
  "va_w64 (Vw64 x # va) = Some (x, va)"
| "va_w64 va = None"

fun va_dbl :: "va_list \<Rightarrow> (rat \<times> va_list) option" where
  "va_dbl (Vdbl x # va) = Some (x, va)"
| "va_dbl va = None"

fun va_ptr :: "va_list \<Rightarrow> (ptr option \<times> va_list) option" where
  "va_ptr (Vptr x # va) = Some (x, va)"
| "va_ptr va = None"

lemma va_Some_iff [simp]:
  "va_int va = Some (i, va') \<longleftrightarrow> va = Vint i # va'" "va_w64 va = Some (x, va') \<longleftrightarrow> va = Vw64 x # va'"
  "va_dbl va = Some (d, va') \<longleftrightarrow> va = Vdbl d # va'" "va_ptr va = Some (p, va') \<longleftrightarrow> va = Vptr p # va'"
  by (auto elim: va_int.elims va_w64.elims va_dbl.elims va_ptr.elims)

record ('d, 's) dpasc =
  asc_prep :: "nat \<Rightarrow> va_list \<Rightarrow> dpasc_out \<Rightarrow> ('d, 's) world \<Rightarrow> (('d, 's) world \<times> dpasc_out \<times> dpret) option"
  asc_post :: "(nat \<Rightarrow> dpasc_out \<Rightarrow> ('d, 's) world \<Rightarrow> (('d, 's) world \<times> dpasc_out \<times> dpret) option) option"
  asc_types :: u32
  asc_iotypes :: u32
  asc_datasz :: nat
  asc_flags :: u32

text \<open>
  The code the loop calls back: descriptors by address, and the functions of element types.
  \<open>fn_init a\<close> receives the element's address, its own arguments and the world.
\<close>

record ('d, 's) env =
  ascs :: "nat \<Rightarrow> ('d, 's) dpasc"
  fn_init :: "nat \<Rightarrow> nat \<Rightarrow> va_list \<Rightarrow> ('d, 's) world \<Rightarrow> (('d, 's) world \<times> dpret) option"
  fn_copy :: "nat \<Rightarrow> byte list \<Rightarrow> byte list \<times> dpret"
  fn_fini :: "nat \<Rightarrow> byte list \<Rightarrow> ('d, 's) world \<Rightarrow> ('d, 's) world"

section \<open>Access\<close>

definition put_ele :: "('d, 's) world \<Rightarrow> nat \<Rightarrow> 'd dpele \<Rightarrow> ('d, 's) world" where
  "put_ele w a e = w\<lparr>eles := (eles w)(a \<mapsto> e)\<rparr>"

definition upd_ele :: "('d, 's) world \<Rightarrow> nat \<Rightarrow> ('d dpele \<Rightarrow> 'd dpele) \<Rightarrow> ('d, 's) world option" where
  "upd_ele w a f = do { e \<leftarrow> eles w a; Some (put_ele w a (f e)) }"

definition set_deq :: "('d, 's) world \<Rightarrow> deque_ref \<Rightarrow> dpele_deque \<Rightarrow> ('d, 's) world" where
  "set_deq w q d = w\<lparr>deqs := (deqs w)(q := d)\<rparr>"

definition upd_evp :: "('d, 's) world \<Rightarrow> nat \<Rightarrow> (dpevp \<Rightarrow> dpevp) \<Rightarrow> ('d, 's) world" where
  "upd_evp w i f = w\<lparr>evps := (evps w)(i := f (evps w i))\<rparr>"

definition dplog_millis :: "('d, 's) world \<Rightarrow> ('d, 's) world \<times> int" where
  "dplog_millis w = (w\<lparr>clock_reads := clock_reads w + 1\<rparr>, clock w (clock_reads w))"

definition try_alloc :: "('d, 's) world \<Rightarrow> ('d, 's) world \<times> bool" where
  "try_alloc w = (w\<lparr>mem_calls := mem_calls w + 1\<rparr>, mem_ok w (mem_calls w))"

definition try_sys :: "('d, 's) world \<Rightarrow> ('d, 's) world \<times> int option" where
  "try_sys w = (w\<lparr>sys_calls := sys_calls w + 1\<rparr>, sys_err w (sys_calls w))"

lemma eles_put_ele [simp]: "eles (put_ele w a e) = (eles w)(a \<mapsto> e)"
  by (simp add: put_ele_def)

lemma deqs_set_deq [simp]: "deqs (set_deq w q d) = (deqs w)(q := d)"
  by (simp add: set_deq_def)

lemma evps_upd_evp [simp]: "evps (upd_evp w i f) = (evps w)(i := f (evps w i))"
  by (simp add: upd_evp_def)

lemma set_deq_fields [simp]:
  "eles (set_deq w q d) = eles w" "evps (set_deq w q d) = evps w"
  "eventfd (set_deq w q d) = eventfd w" "gevp (set_deq w q d) = gevp w"
  by (simp_all add: set_deq_def)

lemma put_ele_fields [simp]:
  "deqs (put_ele w a e) = deqs w" "evps (put_ele w a e) = evps w"
  "eventfd (put_ele w a e) = eventfd w" "gevp (put_ele w a e) = gevp w"
  by (simp_all add: put_ele_def)

lemma upd_evp_fields [simp]:
  "eles (upd_evp w i f) = eles w" "deqs (upd_evp w i f) = deqs w"
  "eventfd (upd_evp w i f) = eventfd w" "gevp (upd_evp w i f) = gevp w"
  by (simp_all add: upd_evp_def)

lemma upd_ele_Some_iff [simp]:
  "upd_ele w a f = Some w' \<longleftrightarrow> (\<exists>e. eles w a = Some e \<and> w' = put_ele w a (f e))"
  by (auto simp: upd_ele_def split: bind_splits)

lemma upd_ele_at [simp]: "eles w a = Some e \<Longrightarrow> upd_ele w a f = Some (put_ele w a (f e))"
  by simp

end
