(* ===== verification/Dpele_Deque.thy ===== *)
theory Dpele_Deque
  imports Dpevp_State
begin

text \<open>
  The intrusive doubly linked deque of elements (\<^verbatim>\<open>dpevp_epoll.c\<close>, \<open>_dpele_deque_*\<close>).
  All queues of all loops share the two link fields of an element, so the operations are modelled
  on the store, and the abstraction \<open>queues w L\<close> relates the whole family of queues to lists: each
  queue holds its list, no element is in two queues, and an element in no queue has null links.
  Under it every operation refines the list operation, which the locale \<open>fifo_family\<close> states.
\<close>

section \<open>Operations\<close>

definition dpele_deque_init :: "('d, 's) world \<Rightarrow> deque_ref \<Rightarrow> ('d, 's) world" where
  "dpele_deque_init w q = set_deq w q \<lparr>dq_head = None, dq_tail = None\<rparr>"

definition dpele_deque_push_back :: "('d, 's) world \<Rightarrow> deque_ref \<Rightarrow> nat \<Rightarrow> ('d, 's) world option" where
  "dpele_deque_push_back w q a = do {
     e \<leftarrow> eles w a;
     let dq = deqs w q;
     if prv e \<noteq> None \<or> nxt e \<noteq> None \<or> dq_head dq = Some a then Some w
     else do {
       let w1 = put_ele w a (e\<lparr>nxt := None, prv := dq_tail dq\<rparr>);
       w2 \<leftarrow> (case dq_tail dq of
                Some t \<Rightarrow> upd_ele w1 t (nxt_update (\<lambda>_. Some a))
              | None \<Rightarrow> Some (set_deq w1 q (dq\<lparr>dq_head := Some a\<rparr>)));
       Some (set_deq w2 q ((deqs w2 q)\<lparr>dq_tail := Some a\<rparr>))
     }
   }"

definition dpele_deque_pop_front :: "('d, 's) world \<Rightarrow> deque_ref \<Rightarrow> (('d, 's) world \<times> nat option) option" where
  "dpele_deque_pop_front w q =
     (case dq_head (deqs w q) of
        None \<Rightarrow> Some (w, None)
      | Some a \<Rightarrow> do {
          e \<leftarrow> eles w a;
          let w1 = set_deq w q ((deqs w q)\<lparr>dq_head := nxt e\<rparr>);
          w2 \<leftarrow> (case nxt e of
                   Some b \<Rightarrow> upd_ele w1 b (prv_update (\<lambda>_. None))
                 | None \<Rightarrow> Some (set_deq w1 q ((deqs w1 q)\<lparr>dq_tail := None\<rparr>)));
          w3 \<leftarrow> upd_ele w2 a (\<lambda>e. e\<lparr>prv := None, nxt := None\<rparr>);
          Some (w3, Some a)
        })"

definition dpele_deque_remove :: "('d, 's) world \<Rightarrow> deque_ref \<Rightarrow> nat \<Rightarrow> ('d, 's) world option" where
  "dpele_deque_remove w q a = do {
     e \<leftarrow> eles w a;
     w1 \<leftarrow> (case prv e of
              Some p \<Rightarrow> upd_ele w p (nxt_update (\<lambda>_. nxt e))
            | None \<Rightarrow> Some (set_deq w q ((deqs w q)\<lparr>dq_head := nxt e\<rparr>)));
     e1 \<leftarrow> eles w1 a;
     w2 \<leftarrow> (case nxt e1 of
              Some n \<Rightarrow> upd_ele w1 n (prv_update (\<lambda>_. prv e1))
            | None \<Rightarrow> Some (set_deq w1 q ((deqs w1 q)\<lparr>dq_tail := prv e1\<rparr>)));
     upd_ele w2 a (\<lambda>e. e\<lparr>prv := None, nxt := None\<rparr>)
   }"

definition dpele_deque_pushq :: "('d, 's) world \<Rightarrow> deque_ref \<Rightarrow> deque_ref \<Rightarrow> ('d, 's) world option" where
  "dpele_deque_pushq w dst src =
     (case dq_head (deqs w src) of
        None \<Rightarrow> Some w
      | Some h \<Rightarrow> do {
          w1 \<leftarrow> upd_ele w h (prv_update (\<lambda>_. dq_tail (deqs w dst)));
          w2 \<leftarrow> (case dq_tail (deqs w dst) of
                   Some t \<Rightarrow> do {
                     w' \<leftarrow> upd_ele w1 t (nxt_update (\<lambda>_. Some h));
                     Some (set_deq w' dst ((deqs w' dst)\<lparr>dq_tail := dq_tail (deqs w src)\<rparr>))
                   }
                 | None \<Rightarrow> Some (set_deq w1 dst \<lparr>dq_head = Some h, dq_tail = dq_tail (deqs w src)\<rparr>));
          Some (set_deq w2 src \<lparr>dq_head = None, dq_tail = None\<rparr>)
        })"

definition dpele_deque_move :: "('d, 's) world \<Rightarrow> deque_ref \<Rightarrow> deque_ref \<Rightarrow> ('d, 's) world" where
  "dpele_deque_move w dst src =
     (let w1 = set_deq w dst (deqs w src)
      in set_deq w1 src \<lparr>dq_head = None, dq_tail = None\<rparr>)"

section \<open>Linked segments\<close>

definition first_or :: "'a option \<Rightarrow> 'a list \<Rightarrow> 'a option" where
  "first_or n xs = (if xs = [] then n else Some (hd xs))"

definition last_or :: "'a option \<Rightarrow> 'a list \<Rightarrow> 'a option" where
  "last_or p xs = (if xs = [] then p else Some (last xs))"

lemma first_or_simps [simp]:
  "first_or n [] = n" "first_or n (x # xs) = Some x" "first_or (first_or n ys) xs = first_or n (xs @ ys)"
  by (simp_all add: first_or_def)

lemma last_or_simps [simp]:
  "last_or p [] = p" "last_or p (xs @ [x]) = Some x" "last_or p (x # xs) = last_or (Some x) xs"
  "last_or (last_or p xs) ys = last_or p (xs @ ys)"
  by (auto simp: last_or_def)

primrec linked :: "(nat \<Rightarrow> 'd dpele option) \<Rightarrow> nat option \<Rightarrow> nat list \<Rightarrow> nat option \<Rightarrow> bool" where
  "linked h p [] n \<longleftrightarrow> True"
| "linked h p (x # xs) n \<longleftrightarrow>
     (\<exists>e. h x = Some e \<and> prv e = p \<and> nxt e = first_or n xs) \<and> linked h (Some x) xs n"

lemma linked_append:
  "linked h p (xs @ ys) n \<longleftrightarrow> linked h p xs (first_or n ys) \<and> linked h (last_or p xs) ys n"
  by (induction xs arbitrary: p) (auto simp: first_or_def)

lemma linked_frame: "a \<notin> set xs \<Longrightarrow> linked (h(a := e)) p xs n \<longleftrightarrow> linked h p xs n"
  by (induction xs arbitrary: p) auto

lemma linked_cong: "(\<And>x. x \<in> set xs \<Longrightarrow> h' x = h x) \<Longrightarrow> linked h' p xs n \<longleftrightarrow> linked h p xs n"
  by (induction xs arbitrary: p) auto

lemma linked_alive: "linked h p xs n \<Longrightarrow> a \<in> set xs \<Longrightarrow> h a \<noteq> None"
  by (induction xs arbitrary: p) auto

lemma linked_set_next:
  "linked h p (xs @ [x]) n \<Longrightarrow> x \<notin> set xs \<Longrightarrow> h x = Some e \<Longrightarrow>
     linked (h(x \<mapsto> e\<lparr>nxt := m\<rparr>)) p (xs @ [x]) m"
  by (auto simp: linked_append linked_frame)

lemma linked_set_prev:
  "linked h p (x # xs) n \<Longrightarrow> x \<notin> set xs \<Longrightarrow> h x = Some e \<Longrightarrow>
     linked (h(x \<mapsto> e\<lparr>prv := q\<rparr>)) q (x # xs) n"
  by (auto simp: linked_frame)

section \<open>Queues as lists\<close>

definition deque_is :: "('d, 's) world \<Rightarrow> deque_ref \<Rightarrow> nat list \<Rightarrow> bool" where
  "deque_is w q xs \<longleftrightarrow> distinct xs \<and> linked (eles w) None xs None \<and>
     dq_head (deqs w q) = first_or None xs \<and> dq_tail (deqs w q) = last_or None xs"

definition in_queue :: "(deque_ref \<Rightarrow> nat list) \<Rightarrow> nat \<Rightarrow> bool" where
  "in_queue L a \<longleftrightarrow> (\<exists>q. a \<in> set (L q))"

definition queues :: "('d, 's) world \<Rightarrow> (deque_ref \<Rightarrow> nat list) \<Rightarrow> bool" where
  "queues w L \<longleftrightarrow> (\<forall>q. deque_is w q (L q)) \<and>
     (\<forall>q r. q \<noteq> r \<longrightarrow> set (L q) \<inter> set (L r) = {}) \<and>
     (\<forall>a e. eles w a = Some e \<longrightarrow> \<not> in_queue L a \<longrightarrow> prv e = None \<and> nxt e = None)"

text \<open>Two worlds that differ in the links and the queue heads only.\<close>

definition unlink :: "'d dpele \<Rightarrow> 'd dpele" where
  "unlink e = e\<lparr>prv := None, nxt := None\<rparr>"

definition relinks :: "('d, 's) world \<Rightarrow> ('d, 's) world \<Rightarrow> bool" where
  "relinks w w' \<longleftrightarrow> w'\<lparr>eles := eles w, deqs := deqs w\<rparr> = w \<and>
     (\<forall>a. map_option unlink (eles w' a) = map_option unlink (eles w a))"

lemma queues_deque: "queues w L \<Longrightarrow> deque_is w q (L q)"
  by (simp add: queues_def)

lemma queues_disjoint: "queues w L \<Longrightarrow> q \<noteq> r \<Longrightarrow> set (L q) \<inter> set (L r) = {}"
  by (auto simp: queues_def)

lemma queues_loose:
  "queues w L \<Longrightarrow> eles w a = Some e \<Longrightarrow> \<not> in_queue L a \<Longrightarrow> prv e = None \<and> nxt e = None"
  by (auto simp: queues_def)

lemma queues_member: "queues w L \<Longrightarrow> a \<in> set (L q) \<Longrightarrow> a \<in> set (L r) \<Longrightarrow> q = r"
  by (auto simp: queues_def)

lemma deque_is_alive: "deque_is w q xs \<Longrightarrow> a \<in> set xs \<Longrightarrow> \<exists>e. eles w a = Some e"
  using linked_alive by (fastforce simp: deque_is_def)

lemma deque_is_frame:
  assumes "deque_is w q xs" "deqs w' q = deqs w q" "\<And>a. a \<in> set xs \<Longrightarrow> eles w' a = eles w a"
  shows "deque_is w' q xs"
proof -
  have "linked (eles w') p xs n = linked (eles w) p xs n" for p n
    using assms(3) by (rule linked_cong)
  then show ?thesis using assms(1,2) by (simp add: deque_is_def)
qed

text \<open>
  The queues in \<open>Q\<close> change, the elements in \<open>T\<close> are touched: what is left to show concerns only
  those.
\<close>

lemma queues_update:
  assumes old: "queues w L"
    and new: "\<And>r. r \<in> Q \<Longrightarrow> deque_is w' r (L' r)"
    and same: "\<And>r. r \<notin> Q \<Longrightarrow> L' r = L r \<and> deqs w' r = deqs w r"
    and eles: "\<And>a. a \<notin> T \<Longrightarrow> eles w' a = eles w a"
    and apart: "\<And>a r. a \<in> T \<Longrightarrow> r \<notin> Q \<Longrightarrow> a \<notin> set (L r)"
    and disj: "\<And>r s. r \<noteq> s \<Longrightarrow> r \<in> Q \<Longrightarrow> set (L' r) \<inter> set (L' s) = {}"
    and cover: "\<And>a r. r \<in> Q \<Longrightarrow> a \<in> set (L r) \<Longrightarrow> a \<in> T \<or> in_queue L' a"
    and loose: "\<And>a e. a \<in> T \<Longrightarrow> \<not> in_queue L' a \<Longrightarrow> eles w' a = Some e \<Longrightarrow> prv e = None \<and> nxt e = None"
  shows "queues w' L'"
  unfolding queues_def
proof (intro conjI allI impI)
  show "deque_is w' q (L' q)" for q
  proof (cases "q \<in> Q")
    case False
    then show ?thesis using same [OF False] eles apart
      by (auto intro!: deque_is_frame [OF queues_deque [OF old]])
  qed (rule new)
  show "set (L' q) \<inter> set (L' r) = {}" if "q \<noteq> r" for q r
    using disj [of q r] disj [of r q] same [of q] same [of r] queues_disjoint [OF old that] that
    by (cases "q \<in> Q"; cases "r \<in> Q") auto
  fix a e
  assume a: "eles w' a = Some e" "\<not> in_queue L' a"
  have "prv e = None \<and> nxt e = None"
  proof (cases "a \<in> T")
    case True
    then show ?thesis using loose a by blast
  next
    case False
    have "\<not> in_queue L a"
      using False a(2) cover same unfolding in_queue_def by metis
    then show ?thesis using queues_loose [OF old] eles [OF False] a(1) by auto
  qed
  then show "prv e = None" "nxt e = None" by auto
qed

lemma relinks_refl [simp]: "relinks w w"
  by (simp add: relinks_def)

lemma relinks_trans: "relinks u v \<Longrightarrow> relinks v w \<Longrightarrow> relinks u w"
  by (auto simp: relinks_def) (metis (no_types, lifting) world.surjective world.update_convs(1,3))+

lemma relinks_set_deq: "relinks w (set_deq w q d)"
  by (simp add: relinks_def set_deq_def)

lemma relinks_put_ele: "eles w a = Some e \<Longrightarrow> unlink e' = unlink e \<Longrightarrow> relinks w (put_ele w a e')"
  by (simp add: relinks_def put_ele_def)

lemma unlink_links [simp]: "unlink (e\<lparr>nxt := n\<rparr>) = unlink e" "unlink (e\<lparr>prv := p\<rparr>) = unlink e"
  by (simp_all add: unlink_def)

lemma unlink_links2 [simp]: "unlink (e\<lparr>prv := p, nxt := n\<rparr>) = unlink e"
  by (simp add: unlink_def)

section \<open>Refinement of the list operations\<close>

text \<open>An operation that changed the links of the elements in \<open>T\<close> and the heads of the queues in \<open>Q\<close>.\<close>

definition touches :: "nat set \<Rightarrow> deque_ref set \<Rightarrow> ('d, 's) world \<Rightarrow> ('d, 's) world \<Rightarrow> bool" where
  "touches T Q w w' \<longleftrightarrow> relinks w w' \<and> (\<forall>a. a \<notin> T \<longrightarrow> eles w' a = eles w a) \<and>
     (\<forall>r. r \<notin> Q \<longrightarrow> deqs w' r = deqs w r)"

lemma touches_refl [simp]: "touches T Q w w"
  by (simp add: touches_def)

lemma touches_set_deq [intro]: "touches T Q u w \<Longrightarrow> q \<in> Q \<Longrightarrow> touches T Q u (set_deq w q d)"
  unfolding touches_def using relinks_trans [OF _ relinks_set_deq] by auto

lemma touches_put_ele [intro]:
  "touches T Q u w \<Longrightarrow> a \<in> T \<Longrightarrow> eles w a = Some e \<Longrightarrow> unlink e' = unlink e \<Longrightarrow>
     touches T Q u (put_ele w a e')"
  unfolding touches_def using relinks_trans [OF _ relinks_put_ele] by auto

lemma push_back_deque:
  assumes q: "deque_is w q xs" and a: "a \<notin> set xs" "eles w a = Some e" "prv e = None" "nxt e = None"
  obtains w' where "dpele_deque_push_back w q a = Some w'" "deque_is w' q (xs @ [a])"
    "touches (set (xs @ [a])) {q} w w'"
proof (cases xs rule: rev_cases)
  case Nil
  with q a show ?thesis
    by (intro that [of "set_deq (set_deq (put_ele w a (e\<lparr>nxt := None, prv := None\<rparr>)) q
          ((deqs w q)\<lparr>dq_head := Some a\<rparr>)) q ((deqs w q)\<lparr>dq_head := Some a, dq_tail := Some a\<rparr>)"])
      (auto simp: deque_is_def dpele_deque_push_back_def unlink_def Let_def
        intro!: touches_set_deq touches_put_ele)
next
  case (snoc ys t)
  then obtain et where t: "eles w t = Some et" using deque_is_alive [OF q] by auto
  have at: "a \<noteq> t" using a snoc by auto
  have hd: "hd xs \<noteq> a" using a(1) snoc hd_in_set [of xs] by auto
  let ?w1 = "put_ele w a (e\<lparr>nxt := None, prv := Some t\<rparr>)"
  let ?w2 = "put_ele ?w1 t (et\<lparr>nxt := Some a\<rparr>)"
  let ?w3 = "set_deq ?w2 q ((deqs w q)\<lparr>dq_tail := Some a\<rparr>)"
  have "linked (eles w) None (ys @ [t]) None" "t \<notin> set ys" using q snoc by (auto simp: deque_is_def)
  then have "linked ((eles w)(t \<mapsto> et\<lparr>nxt := Some a\<rparr>)) None (ys @ [t]) (Some a)"
    using t by (rule linked_set_next)
  then have "deque_is ?w3 q (xs @ [a])"
    using q a snoc at by (auto simp: deque_is_def linked_append linked_frame first_or_def fun_upd_twist hd_append last_or_def)
  moreover have "dpele_deque_push_back w q a = Some ?w3"
    using q a snoc t at hd by (auto simp: deque_is_def dpele_deque_push_back_def first_or_def Let_def)
  moreover have "touches (set (xs @ [a])) {q} w ?w3"
    using snoc a t at by (auto intro!: touches_put_ele touches_set_deq simp: unlink_def)
  ultimately show ?thesis by (intro that)
qed

lemma pop_front_deque:
  assumes q: "deque_is w q (a # xs)"
  obtains w' where "dpele_deque_pop_front w q = Some (w', Some a)" "deque_is w' q xs"
    "touches (set (a # xs)) {q} w w'" "\<exists>e. eles w' a = Some e \<and> prv e = None \<and> nxt e = None"
proof (cases xs)
  case Nil
  obtain e where "eles w a = Some e" "nxt e = None" using q Nil by (auto simp: deque_is_def)
  with q Nil show ?thesis
    by (intro that [of "put_ele (set_deq (set_deq w q ((deqs w q)\<lparr>dq_head := None\<rparr>)) q
          ((deqs w q)\<lparr>dq_head := None, dq_tail := None\<rparr>)) a (e\<lparr>prv := None, nxt := None\<rparr>)"])
      (auto simp: deque_is_def dpele_deque_pop_front_def intro!: touches_set_deq touches_put_ele)
next
  case (Cons b ys)
  obtain e eb where e: "eles w a = Some e" "nxt e = Some b" "eles w b = Some eb" "prv eb = Some a"
    using q Cons by (auto simp: deque_is_def)
  have ab: "a \<noteq> b" "b \<notin> set ys" "a \<notin> set ys" using q Cons by (auto simp: deque_is_def)
  let ?w1 = "set_deq w q ((deqs w q)\<lparr>dq_head := Some b\<rparr>)"
  let ?w3 = "put_ele (put_ele ?w1 b (eb\<lparr>prv := None\<rparr>)) a (e\<lparr>prv := None, nxt := None\<rparr>)"
  have "linked (eles w) (Some a) (b # ys) None" using q Cons by (simp add: deque_is_def)
  then have "linked ((eles w)(b \<mapsto> eb\<lparr>prv := None\<rparr>)) None (b # ys) None"
    using ab(2) e(3) by (rule linked_set_prev)
  then have "deque_is ?w3 q xs" using q Cons ab by (auto simp: deque_is_def linked_frame)
  moreover have "dpele_deque_pop_front w q = Some (?w3, Some a)"
    using q e ab Cons by (auto simp: deque_is_def dpele_deque_pop_front_def Let_def)
  moreover have "touches (set (a # xs)) {q} w ?w3"
    using e ab Cons by (auto intro!: touches_put_ele touches_set_deq)
  ultimately show ?thesis by (intro that) auto
qed

lemma push_back_member:
  assumes q: "deque_is w q xs" and a: "a \<in> set xs"
  shows "dpele_deque_push_back w q a = Some w"
proof -
  from a obtain ys zs where xs: "xs = ys @ a # zs" by (meson split_list)
  obtain e where "eles w a = Some e" "prv e = last_or None ys" "nxt e = first_or None zs"
    using q xs by (auto simp: deque_is_def linked_append)
  then show ?thesis using q xs
    by (cases "ys = []"; cases "zs = []")
      (auto simp: dpele_deque_push_back_def deque_is_def first_or_def last_or_def Let_def)
qed

text \<open>Unlinking from the middle: the neighbours are joined.\<close>

lemma linked_unlink:
  assumes "linked h p (ys @ a # zs) n" "distinct (ys @ a # zs)"
    and h': "\<And>x. x \<noteq> a \<Longrightarrow> h' x = (case h x of None \<Rightarrow> None
        | Some e \<Rightarrow> Some (if ys \<noteq> [] \<and> x = last ys then e\<lparr>nxt := first_or n zs\<rparr>
                         else if zs \<noteq> [] \<and> x = hd zs then e\<lparr>prv := last_or p ys\<rparr> else e))"
  shows "linked h' p (ys @ zs) n"
proof -
  have "linked h' p ys (first_or n zs)"
  proof (cases ys rule: rev_cases)
    case (snoc us l)
    have "h' x = h x" if "x \<in> set us" for x
    proof -
      have "x \<noteq> a" "x \<noteq> l" "zs \<noteq> [] \<Longrightarrow> x \<noteq> hd zs" using that assms(2) snoc hd_in_set by auto
      then show ?thesis using h' [of x] snoc by (auto split: option.splits)
    qed
    then have "linked h' q us m = linked h q us m" for q m by (rule linked_cong)
    then show ?thesis using assms(1,2) h' [of l] snoc by (auto simp: linked_append)
  qed simp
  moreover have "linked h' (last_or p ys) zs n"
  proof (cases zs)
    case (Cons z zs')
    have "linked h (Some z) zs' n" "\<exists>e. h z = Some e \<and> nxt e = first_or n zs'"
      using assms(1) Cons by (auto simp: linked_append)
    moreover have "h' x = h x" if "x \<in> set zs'" for x
    proof -
      have "x \<noteq> a" "x \<noteq> z" "ys \<noteq> [] \<Longrightarrow> x \<noteq> last ys" using that assms(2) Cons last_in_set by auto
      then show ?thesis using h' [of x] Cons by (auto split: option.splits)
    qed
    then have "linked h' q zs' n = linked h q zs' n" for q by (rule linked_cong)
    ultimately show ?thesis using h' [of z] assms(2) Cons by auto
  qed simp
  ultimately show ?thesis using assms(1,2) by (auto simp: linked_append)
qed

lemma remove_deque:
  assumes q: "deque_is w q (ys @ a # zs)"
  obtains w' where "dpele_deque_remove w q a = Some w'" "deque_is w' q (ys @ zs)"
    "touches (set (ys @ a # zs)) {q} w w'" "\<exists>e. eles w' a = Some e \<and> prv e = None \<and> nxt e = None"
proof -
  obtain e where e: "eles w a = Some e" "prv e = last_or None ys" "nxt e = first_or None zs"
    using q by (auto simp: deque_is_def linked_append)
  have d: "distinct (ys @ a # zs)" and l: "linked (eles w) None (ys @ a # zs) None"
    using q by (auto simp: deque_is_def)
  obtain w1 where w1: "(case prv e of Some p \<Rightarrow> upd_ele w p (nxt_update (\<lambda>_. nxt e))
        | None \<Rightarrow> Some (set_deq w q ((deqs w q)\<lparr>dq_head := nxt e\<rparr>))) = Some w1"
    "eles w1 a = Some e" "touches (set ys) {q} w w1"
    "\<And>x. eles w1 x = (case eles w x of None \<Rightarrow> None
       | Some e' \<Rightarrow> Some (if ys \<noteq> [] \<and> x = last ys then e'\<lparr>nxt := first_or None zs\<rparr> else e'))"
    "deqs w1 q = (if ys = [] then (deqs w q)\<lparr>dq_head := first_or None zs\<rparr> else deqs w q)"
  proof (cases "ys = []")
    case True
    show ?thesis
      by (rule that [of "set_deq w q ((deqs w q)\<lparr>dq_head := nxt e\<rparr>)"])
        (use True e in \<open>auto intro!: touches_set_deq split: option.splits\<close>)
  next
    case False
    then obtain ep where ep: "eles w (last ys) = Some ep" using deque_is_alive [OF q, of "last ys"] by auto
    have "last ys \<noteq> a" using d False by auto
    then show ?thesis
      by (intro that [of "put_ele w (last ys) (ep\<lparr>nxt := nxt e\<rparr>)"])
        (use False e ep in \<open>auto simp: last_or_def intro!: touches_put_ele split: option.splits\<close>)
  qed
  obtain w2 where w2: "(case nxt e of Some n \<Rightarrow> upd_ele w1 n (prv_update (\<lambda>_. prv e))
        | None \<Rightarrow> Some (set_deq w1 q ((deqs w1 q)\<lparr>dq_tail := prv e\<rparr>))) = Some w2"
    "eles w2 a = Some e" "touches (set (ys @ zs)) {q} w w2"
    "\<And>x. eles w2 x = (case eles w1 x of None \<Rightarrow> None
       | Some e' \<Rightarrow> Some (if zs \<noteq> [] \<and> x = hd zs then e'\<lparr>prv := last_or None ys\<rparr> else e'))"
    "deqs w2 q = (if zs = [] then (deqs w1 q)\<lparr>dq_tail := last_or None ys\<rparr> else deqs w1 q)"
  proof -
    have t: "touches (set (ys @ zs)) {q} w w1" using w1(3) by (auto simp: touches_def)
    show ?thesis
    proof (cases zs)
      case Nil
      show ?thesis
        by (rule that [of "set_deq w1 q ((deqs w1 q)\<lparr>dq_tail := prv e\<rparr>)"])
          (use Nil e w1(2) t in \<open>auto intro!: touches_set_deq split: option.splits\<close>)
    next
      case (Cons z zs')
      then obtain en where "eles w z = Some en" using deque_is_alive [OF q, of z] by auto
      then obtain en' where en: "eles w1 z = Some en'" using w1(4) [of z] by auto
      have "z \<noteq> a" using d Cons by auto
      then show ?thesis
        by (intro that [of "put_ele w1 z (en'\<lparr>prv := prv e\<rparr>)"])
          (use Cons e en t w1(2) in \<open>auto intro!: touches_put_ele split: option.splits\<close>)
    qed
  qed
  let ?w3 = "put_ele w2 a (e\<lparr>prv := None, nxt := None\<rparr>)"
  have "linked (eles ?w3) None (ys @ zs) None"
  proof (rule linked_unlink [OF l d])
    fix x
    assume x: "x \<noteq> a"
    have "\<not> (ys \<noteq> [] \<and> zs \<noteq> [] \<and> x = last ys \<and> x = hd zs)"
      using d by (auto dest: last_in_set hd_in_set)
    then show "eles ?w3 x = (case eles w x of None \<Rightarrow> None
        | Some e \<Rightarrow> Some (if ys \<noteq> [] \<and> x = last ys then e\<lparr>nxt := first_or None zs\<rparr>
                         else if zs \<noteq> [] \<and> x = hd zs then e\<lparr>prv := last_or None ys\<rparr> else e))"
      using x w2(4) [of x] w1(4) [of x] by (cases "eles w x") auto
  qed
  then have "deque_is ?w3 q (ys @ zs)"
    using q d w1(5) w2(5) by (auto simp: deque_is_def first_or_def last_or_def)
  moreover have "touches (set (ys @ a # zs)) {q} w ?w3"
    using w2(2,3) by (auto simp: touches_def intro: relinks_trans [OF _ relinks_put_ele])
  moreover have "dpele_deque_remove w q a = Some ?w3"
    using e(1) w1(1,2) w2(1,2) by (simp add: dpele_deque_remove_def)
  ultimately show ?thesis by (intro that) auto
qed

lemma pushq_deque:
  assumes d: "deque_is w dst xs" and s: "deque_is w src ys" and "dst \<noteq> src" "set xs \<inter> set ys = {}"
  obtains w' where "dpele_deque_pushq w dst src = Some w'" "deque_is w' dst (xs @ ys)"
    "deque_is w' src []" "touches (set (xs @ ys)) {dst, src} w w'"
proof (cases ys)
  case Nil
  with d s show ?thesis by (intro that [of w]) (auto simp: deque_is_def dpele_deque_pushq_def)
next
  case (Cons y ys')
  then obtain e where e: "eles w y = Some e" using deque_is_alive [OF s, of y] by auto
  let ?w1 = "put_ele w y (e\<lparr>prv := last_or None xs\<rparr>)"
  have ys: "linked (eles ?w1) (last_or None xs) ys None"
    using s e Cons linked_set_prev [of "eles w" None y ys' None e] by (auto simp: deque_is_def)
  show ?thesis
  proof (cases xs rule: rev_cases)
    case Nil
    let ?w3 = "set_deq (set_deq ?w1 dst \<lparr>dq_head = Some y, dq_tail = dq_tail (deqs w src)\<rparr>) src
      \<lparr>dq_head = None, dq_tail = None\<rparr>"
    show ?thesis
      by (rule that [of ?w3])
        (use Nil Cons d s e ys assms(3) in
          \<open>auto simp: deque_is_def dpele_deque_pushq_def intro!: touches_set_deq touches_put_ele\<close>)
  next
    case (snoc us t)
    then obtain et where t: "eles w t = Some et" using deque_is_alive [OF d, of t] by auto
    have ty: "t \<noteq> y" using snoc Cons assms(4) by auto
    let ?w2 = "put_ele ?w1 t (et\<lparr>nxt := Some y\<rparr>)"
    let ?w3 = "set_deq (set_deq ?w2 dst ((deqs w dst)\<lparr>dq_tail := dq_tail (deqs w src)\<rparr>)) src
      \<lparr>dq_head = None, dq_tail = None\<rparr>"
    have "linked ((eles w)(t \<mapsto> et\<lparr>nxt := Some y\<rparr>)) None xs (Some y)"
      using d snoc t linked_set_next [of "eles w" None us t None et] by (auto simp: deque_is_def)
    moreover have "linked (eles ?w2) None xs (Some y) =
        linked ((eles w)(t \<mapsto> et\<lparr>nxt := Some y\<rparr>)) None xs (Some y)"
      by (rule linked_cong) (use assms(4) Cons in auto)
    moreover have "linked (eles ?w2) (last_or None xs) ys None"
      using ys linked_frame [of t ys "eles ?w1"] assms(4) snoc by (auto simp: disjoint_iff)
    ultimately have "deque_is ?w3 dst (xs @ ys)"
      using d s assms(3,4) Cons snoc
      by (auto simp: deque_is_def linked_append first_or_def last_or_def hd_append)
    then show ?thesis
      by (rule that [of ?w3, rotated])
        (use snoc Cons d s e t ty assms(3) in
          \<open>auto simp: deque_is_def dpele_deque_pushq_def intro!: touches_set_deq touches_put_ele\<close>)
  qed
qed

lemma move_deque:
  assumes "deque_is w src xs" "dst \<noteq> src"
  shows "deque_is (dpele_deque_move w dst src) dst xs" "deque_is (dpele_deque_move w dst src) src []"
    "touches {} {dst, src} w (dpele_deque_move w dst src)"
  using assms by (auto simp: dpele_deque_move_def deque_is_def Let_def intro!: touches_set_deq)

section \<open>The family of queues\<close>

lemma in_queue_update [simp]:
  "in_queue (L(q := xs)) a \<longleftrightarrow> a \<in> set xs \<or> (\<exists>r. r \<noteq> q \<and> a \<in> set (L r))"
  by (auto simp: in_queue_def)

lemma touches_eles: "touches T Q w w' \<Longrightarrow> a \<notin> T \<Longrightarrow> eles w' a = eles w a"
  by (simp add: touches_def)

lemma touches_deqs: "touches T Q w w' \<Longrightarrow> r \<notin> Q \<Longrightarrow> deqs w' r = deqs w r"
  by (simp add: touches_def)

lemma touches_relinks: "touches T Q w w' \<Longrightarrow> relinks w w'"
  by (simp add: touches_def)

text \<open>One queue changes, with elements \<open>N\<close> that were in no queue.\<close>

lemma queues_update1:
  assumes L: "queues w L" and q: "deque_is w' q xs" and t: "touches (set (L q) \<union> N) {q} w w'"
    and xs: "set xs \<subseteq> set (L q) \<union> N" and N: "\<And>a. a \<in> N \<Longrightarrow> \<not> in_queue L a"
    and out: "\<And>a. a \<in> set (L q) \<union> N \<Longrightarrow> a \<notin> set xs \<Longrightarrow>
      \<exists>e. eles w' a = Some e \<and> prv e = None \<and> nxt e = None"
  shows "queues w' (L(q := xs))"
proof (rule queues_update [OF L, of "{q}" _ _ "set (L q) \<union> N"])
  have apart: "a \<notin> set (L r)" if "a \<in> set (L q) \<union> N" "r \<noteq> q" for a r
    using that N queues_member [OF L] by (auto simp: in_queue_def)
  then show "a \<notin> set (L r)" if "a \<in> set (L q) \<union> N" "r \<notin> {q}" for a r using that by auto
  show "set ((L(q := xs)) r) \<inter> set ((L(q := xs)) s) = {}" if "r \<noteq> s" "r \<in> {q}" for r s
    using that apart xs by auto
  show "prv e = None \<and> nxt e = None"
    if "a \<in> set (L q) \<union> N" "\<not> in_queue (L(q := xs)) a" "eles w' a = Some e" for a e
    using that out [of a] by auto
qed (use q touches_eles [OF t] touches_deqs [OF t] in auto)

lemma queues_push_back:
  assumes L: "queues w L" and a: "eles w a = Some e" "\<not> in_queue L a"
  obtains w' where "dpele_deque_push_back w q a = Some w'" "queues w' (L(q := L q @ [a]))" "relinks w w'"
proof -
  have "a \<notin> set (L q)" "prv e = None" "nxt e = None"
    using a queues_loose [OF L] by (auto simp: in_queue_def)
  then obtain w' where w': "dpele_deque_push_back w q a = Some w'" "deque_is w' q (L q @ [a])"
    and t: "touches (set (L q @ [a])) {q} w w'"
    using push_back_deque [OF queues_deque [OF L]] a(1) by metis
  have "queues w' (L(q := L q @ [a]))"
    by (rule queues_update1 [OF L w'(2), of "{a}"]) (use t a(2) in auto)
  then show ?thesis using w'(1) t by (auto intro: that dest: touches_relinks)
qed

lemma queues_push_member:
  "queues w L \<Longrightarrow> a \<in> set (L q) \<Longrightarrow> dpele_deque_push_back w q a = Some w"
  by (rule push_back_member [OF queues_deque])

lemma queues_pop_front:
  assumes L: "queues w L"
  obtains w' where "dpele_deque_pop_front w q = Some (w', first_or None (L q))"
    "queues w' (L(q := tl (L q)))" "relinks w w'"
proof (cases "L q")
  case Nil
  then have "dpele_deque_pop_front w q = Some (w, None)"
    using queues_deque [OF L, of q] by (simp add: deque_is_def dpele_deque_pop_front_def)
  moreover have "L(q := tl (L q)) = L" using Nil by auto
  ultimately show ?thesis using L Nil by (intro that [of w]) auto
next
  case (Cons a xs)
  then obtain w' where w': "dpele_deque_pop_front w q = Some (w', Some a)" "deque_is w' q xs"
    and t: "touches (set (a # xs)) {q} w w'"
    and e: "\<exists>e. eles w' a = Some e \<and> prv e = None \<and> nxt e = None"
    using pop_front_deque [of w q a xs] queues_deque [OF L, of q] by metis
  have "queues w' (L(q := xs))"
    by (rule queues_update1 [OF L w'(2), of "{}"]) (use t e Cons in auto)
  then show ?thesis using w'(1) t Cons by (intro that [of w']) (auto dest: touches_relinks)
qed

lemma queues_remove:
  assumes L: "queues w L" and a: "a \<in> set (L q)"
  obtains w' where "dpele_deque_remove w q a = Some w'" "queues w' (L(q := remove1 a (L q)))" "relinks w w'"
proof -
  obtain ys zs where xs: "L q = ys @ a # zs" "a \<notin> set ys" using a by (meson split_list_first)
  then obtain w' where w': "dpele_deque_remove w q a = Some w'" "deque_is w' q (ys @ zs)"
    and t: "touches (set (ys @ a # zs)) {q} w w'"
    and e: "\<exists>e. eles w' a = Some e \<and> prv e = None \<and> nxt e = None"
    using remove_deque [of w q ys a zs] queues_deque [OF L, of q] by metis
  have "queues w' (L(q := ys @ zs))"
    by (rule queues_update1 [OF L w'(2), of "{}"]) (use t e xs in auto)
  then show ?thesis using w'(1) t xs by (intro that [of w']) (auto simp: remove1_append dest: touches_relinks)
qed

lemma queues_pushq:
  assumes L: "queues w L" and q: "dst \<noteq> src"
  obtains w' where "dpele_deque_pushq w dst src = Some w'"
    "queues w' (L(dst := L dst @ L src, src := []))" "relinks w w'"
proof -
  obtain w' where w': "dpele_deque_pushq w dst src = Some w'" "deque_is w' dst (L dst @ L src)"
      "deque_is w' src []"
    and t: "touches (set (L dst @ L src)) {dst, src} w w'"
    using pushq_deque [OF queues_deque [OF L] queues_deque [OF L] q queues_disjoint [OF L q]] by metis
  have "queues w' (L(dst := L dst @ L src, src := []))"
  proof (rule queues_update [OF L, of "{dst, src}" _ _ "set (L dst @ L src)"])
    show "a \<notin> set (L r)" if "a \<in> set (L dst @ L src)" "r \<notin> {dst, src}" for a r
      using that queues_member [OF L] by auto
    show "set ((L(dst := L dst @ L src, src := [])) r) \<inter> set ((L(dst := L dst @ L src, src := [])) s) = {}"
      if "r \<noteq> s" "r \<in> {dst, src}" for r s
      using that q queues_disjoint [OF L, of dst s] queues_disjoint [OF L, of src s] by auto
    show "a \<in> set (L dst @ L src) \<or> in_queue (L(dst := L dst @ L src, src := [])) a"
      if "r \<in> {dst, src}" "a \<in> set (L r)" for a r using that by auto
    show "prv e = None \<and> nxt e = None"
      if "a \<in> set (L dst @ L src)" "\<not> in_queue (L(dst := L dst @ L src, src := [])) a" for a e
      using that q by auto
  qed (use w' q touches_eles [OF t] touches_deqs [OF t] in auto)
  then show ?thesis using w'(1) t by (auto intro: that dest: touches_relinks)
qed

lemma queues_move:
  assumes L: "queues w L" and q: "dst \<noteq> src" and e: "L dst = []"
  shows "queues (dpele_deque_move w dst src) (L(dst := L src, src := []))"
    "relinks w (dpele_deque_move w dst src)"
proof -
  note m = move_deque [OF queues_deque [OF L] q]
  show "queues (dpele_deque_move w dst src) (L(dst := L src, src := []))"
  proof (rule queues_update [OF L, of "{dst, src}" _ _ "{}"])
    show "set ((L(dst := L src, src := [])) r) \<inter> set ((L(dst := L src, src := [])) s) = {}"
      if "r \<noteq> s" "r \<in> {dst, src}" for r s
      using that q queues_disjoint [OF L, of src s] by auto
    show "a \<in> {} \<or> in_queue (L(dst := L src, src := [])) a" if "r \<in> {dst, src}" "a \<in> set (L r)" for a r
      using that q e by auto
  qed (use m(1,2) q touches_eles [OF m(3)] touches_deqs [OF m(3)] in auto)
  show "relinks w (dpele_deque_move w dst src)" using m(3) by (rule touches_relinks)
qed

section \<open>The interface of the queues\<close>

primrec push_all :: "('w \<Rightarrow> 'q \<Rightarrow> 'a \<Rightarrow> 'w option) \<Rightarrow> 'w \<Rightarrow> 'q \<Rightarrow> 'a list \<Rightarrow> 'w option" where
  "push_all push w q [] = Some w"
| "push_all push w q (x # xs) = do { w' \<leftarrow> push w q x; push_all push w' q xs }"

primrec pop_n :: "('w \<Rightarrow> 'q \<Rightarrow> ('w \<times> 'a option) option) \<Rightarrow> 'w \<Rightarrow> 'q \<Rightarrow> nat \<Rightarrow> ('w \<times> 'a list) option" where
  "pop_n pop w q 0 = Some (w, [])"
| "pop_n pop w q (Suc n) = do {
     (w1, r) \<leftarrow> pop w q;
     (case r of None \<Rightarrow> Some (w1, [])
      | Some x \<Rightarrow> do { (w2, xs) \<leftarrow> pop_n pop w1 q n; Some (w2, x # xs) })
   }"

locale queue_family =
  fixes lists :: "'w \<Rightarrow> ('q \<Rightarrow> 'a list) \<Rightarrow> bool"
    and live :: "'w \<Rightarrow> 'a \<Rightarrow> bool"
    and push :: "'w \<Rightarrow> 'q \<Rightarrow> 'a \<Rightarrow> 'w option"
    and pop :: "'w \<Rightarrow> 'q \<Rightarrow> ('w \<times> 'a option) option"
    and concat_to :: "'w \<Rightarrow> 'q \<Rightarrow> 'q \<Rightarrow> 'w option"
  assumes push_law: "lists w L \<Longrightarrow> live w a \<Longrightarrow> \<forall>r. a \<notin> set (L r) \<Longrightarrow>
      \<exists>w'. push w q a = Some w' \<and> lists w' (L(q := L q @ [a])) \<and> live w' = live w"
    and pop_law: "lists w L \<Longrightarrow>
      \<exists>w'. pop w q = Some (w', first_or None (L q)) \<and> lists w' (L(q := tl (L q))) \<and> live w' = live w"
    and concat_law: "lists w L \<Longrightarrow> d \<noteq> s \<Longrightarrow>
      \<exists>w'. concat_to w d s = Some w' \<and> lists w' (L(d := L d @ L s, s := [])) \<and> live w' = live w"
begin

lemma push_all_appends:
  "lists w L \<Longrightarrow> distinct xs \<Longrightarrow> \<forall>x \<in> set xs. live w x \<and> (\<forall>r. x \<notin> set (L r)) \<Longrightarrow>
     \<exists>w'. push_all push w q xs = Some w' \<and> lists w' (L(q := L q @ xs)) \<and> live w' = live w"
proof (induction xs arbitrary: w L)
  case (Cons x xs)
  then obtain w1 where w1: "push w q x = Some w1" "lists w1 (L(q := L q @ [x]))" "live w1 = live w"
    using push_law [of w L x q] by auto
  have "\<forall>y \<in> set xs. live w1 y \<and> (\<forall>r. y \<notin> set ((L(q := L q @ [x])) r))"
    using Cons.prems w1(3) by auto
  from Cons.IH [OF w1(2) _ this] obtain w2 where "push_all push w1 q xs = Some w2" "live w2 = live w"
    "lists w2 (L(q := L q @ x # xs))"
    using Cons.prems(2) w1(3) by (auto simp: fun_upd_same simp del: fun_upd_apply)
  then show ?case using w1(1) by (auto simp del: fun_upd_apply)
qed auto

lemma pop_n_takes:
  "lists w L \<Longrightarrow> n \<le> length (L q) \<Longrightarrow>
     \<exists>w'. pop_n pop w q n = Some (w', take n (L q)) \<and> lists w' (L(q := drop n (L q))) \<and> live w' = live w"
proof (induction n arbitrary: w L)
  case (Suc n)
  then obtain x xs where L: "L q = x # xs" by (cases "L q") auto
  obtain w1 where w1: "pop w q = Some (w1, Some x)" "lists w1 (L(q := xs))" "live w1 = live w"
    using pop_law [OF Suc.prems(1), of q] L by auto
  then obtain w2 where "pop_n pop w1 q n = Some (w2, take n xs)" "live w2 = live w"
    "lists w2 (L(q := drop n xs))"
    using Suc.IH [OF w1(2)] Suc.prems(2) L by (auto simp: fun_upd_same simp del: fun_upd_apply)
  then show ?case using w1(1) L by (auto simp del: fun_upd_apply)
qed auto

text \<open>
  Elements pushed on one queue, handed over to another and popped there come out behind what was
  waiting, each once and in the order of the pushes.
\<close>

lemma handover_fifo:
  assumes "lists w L" and "distinct xs" and "\<forall>x \<in> set xs. live w x \<and> (\<forall>r. x \<notin> set (L r))"
    and "d \<noteq> s"
  shows "\<exists>w1 w2 w3. push_all push w s xs = Some w1 \<and> concat_to w1 d s = Some w2 \<and>
    pop_n pop w2 d (length (L d) + length (L s) + length xs) = Some (w3, L d @ L s @ xs) \<and>
    lists w3 (L(d := [], s := [])) \<and> live w3 = live w"
proof -
  obtain w1 where w1: "push_all push w s xs = Some w1" "lists w1 (L(s := L s @ xs))" "live w1 = live w"
    using push_all_appends [OF assms(1-3)] by blast
  obtain w2 where w2: "concat_to w1 d s = Some w2" "live w2 = live w"
    "lists w2 (L(d := L d @ L s @ xs, s := []))"
    using concat_law [OF w1(2) assms(4)] w1(3) assms(4) by (auto simp: fun_upd_twist)
  let ?L = "L(d := L d @ L s @ xs, s := [])"
  have "?L d = L d @ L s @ xs" using assms(4) by simp
  then obtain w3 where "pop_n pop w2 d (length (L d) + length (L s) + length xs) = Some (w3, L d @ L s @ xs)"
    "lists w3 (?L(d := []))" "live w3 = live w"
    using pop_n_takes [OF w2(3), of "length (L d) + length (L s) + length xs" d] w2(2) by auto
  then show ?thesis using w1(1) w2(1) assms(4) by (auto simp: fun_upd_twist)
qed

end

lemma relinks_alive: "relinks w w' \<Longrightarrow> (\<lambda>a. eles w' a \<noteq> None) = (\<lambda>a. eles w a \<noteq> None)"
  unfolding relinks_def by (metis option.map_disc_iff)

interpretation ele_queues: queue_family queues "\<lambda>w a. eles w a \<noteq> None" dpele_deque_push_back
  dpele_deque_pop_front dpele_deque_pushq
proof unfold_locales
  fix w :: "('d, 's) world" and L q
  assume L: "queues w L"
  show "\<exists>w'. dpele_deque_push_back w q a = Some w' \<and> queues w' (L(q := L q @ [a])) \<and>
      (\<lambda>a. eles w' a \<noteq> None) = (\<lambda>a. eles w a \<noteq> None)"
    if "eles w a \<noteq> None" "\<forall>r. a \<notin> set (L r)" for a
  proof -
    from that obtain e where "eles w a = Some e" "\<not> in_queue L a" by (auto simp: in_queue_def)
    with L obtain w' where "dpele_deque_push_back w q a = Some w'" "queues w' (L(q := L q @ [a]))"
      "relinks w w'" by (rule queues_push_back)
    then show ?thesis using relinks_alive by blast
  qed
  obtain w' where "dpele_deque_pop_front w q = Some (w', first_or None (L q))"
    "queues w' (L(q := tl (L q)))" "relinks w w'" using L by (rule queues_pop_front)
  then show "\<exists>w'. dpele_deque_pop_front w q = Some (w', first_or None (L q)) \<and>
      queues w' (L(q := tl (L q))) \<and> (\<lambda>a. eles w' a \<noteq> None) = (\<lambda>a. eles w a \<noteq> None)"
    using relinks_alive by blast
next
  fix w :: "('d, 's) world" and L and d s :: deque_ref
  assume "queues w L" "d \<noteq> s"
  then obtain w' where "dpele_deque_pushq w d s = Some w'" "queues w' (L(d := L d @ L s, s := []))"
    "relinks w w'" by (rule queues_pushq)
  then show "\<exists>w'. dpele_deque_pushq w d s = Some w' \<and> queues w' (L(d := L d @ L s, s := [])) \<and>
      (\<lambda>a. eles w' a \<noteq> None) = (\<lambda>a. eles w a \<noteq> None)"
    using relinks_alive by blast
qed

end
