(* ===== verification/Dptmrset.thy ===== *)
theory Dptmrset
  imports Dpevp_State
begin

text \<open>
  The timer set of a loop (\<^verbatim>\<open>dpevp_epoll.c\<close>, \<open>dptmrset_*\<close>).  The tree generated by
  \<^verbatim>\<open>dprbt.h\<close> is represented by its in-order sequence of elements: \<open>RB_INSERT\<close> descends by the
  comparison and stops at an equal element, \<open>RB_REMOVE\<close> takes a node out, \<open>RB_MIN\<close> is the leftmost
  node and \<open>RB_REINSERT\<close> moves a node whose key changed when its neighbours are out of order.  The
  locale \<open>ordered_seq\<close> holds what those operations promise for a comparison that is a linear order;
  the order of the timers, expiry time and then address, interprets it in every state.

  \<open>tmr_spec->after * 1000.0\<close> is computed exactly; the conversion to \<open>int64_t\<close> truncates and is
  undefined out of range.
\<close>

section \<open>Operations\<close>

definition chk_i64 :: "int \<Rightarrow> int option" where
  "chk_i64 x = (if - (2 ^ 63) \<le> x \<and> x < 2 ^ 63 then Some x else None)"

definition to_i64 :: "rat \<Rightarrow> int option" where
  "to_i64 r = chk_i64 (if 0 \<le> r then \<lfloor>r\<rfloor> else \<lceil>r\<rceil>)"

definition wrap_int :: "int \<Rightarrow> int" where
  "wrap_int x = (x + 2 ^ 31) mod 2 ^ 32 - 2 ^ 31"

definition tmr_expire :: "('d, 's) world \<Rightarrow> nat \<Rightarrow> int option" where
  "tmr_expire w a = do { e \<leftarrow> eles w a; s \<leftarrow> tmr_spec e; Some (expire s) }"

definition dpele_tmrspec_compare :: "('d, 's) world \<Rightarrow> nat \<Rightarrow> nat \<Rightarrow> int option" where
  "dpele_tmrspec_compare w a b = do {
     x \<leftarrow> tmr_expire w a;
     y \<leftarrow> tmr_expire w b;
     c \<leftarrow> chk_i64 (x - y);
     Some (if c = 0 then int a - int b else c)
   }"

text \<open>\<open>Inl\<close> is the equal element that stopped the insertion.\<close>

fun rb_insert :: "('a \<Rightarrow> 'a \<Rightarrow> int option) \<Rightarrow> 'a \<Rightarrow> 'a list \<Rightarrow> ('a + 'a list) option" where
  "rb_insert cmp x [] = Some (Inr [x])"
| "rb_insert cmp x (y # ys) = do {
     c \<leftarrow> cmp x y;
     if c < 0 then Some (Inr (x # y # ys))
     else if c > 0 then do {
       r \<leftarrow> rb_insert cmp x ys;
       Some (case r of Inl z \<Rightarrow> Inl z | Inr zs \<Rightarrow> Inr (y # zs))
     }
     else Some (Inl y)
   }"

definition rb_prev :: "'a \<Rightarrow> 'a list \<Rightarrow> 'a option" where
  "rb_prev x xs = (let ys = takeWhile (\<lambda>y. y \<noteq> x) xs in if ys = [] then None else Some (last ys))"

definition rb_next :: "'a \<Rightarrow> 'a list \<Rightarrow> 'a option" where
  "rb_next x xs = (case dropWhile (\<lambda>y. y \<noteq> x) xs of _ # z # _ \<Rightarrow> Some z | _ \<Rightarrow> None)"

definition rb_reinsert :: "('a \<Rightarrow> 'a \<Rightarrow> int option) \<Rightarrow> 'a \<Rightarrow> 'a list \<Rightarrow> 'a list option" where
  "rb_reinsert cmp x xs = do {
     lo \<leftarrow> (case rb_prev x xs of None \<Rightarrow> Some False | Some p \<Rightarrow> do { c \<leftarrow> cmp p x; Some (c \<ge> 0) });
     hi \<leftarrow> (if lo then Some True
            else case rb_next x xs of None \<Rightarrow> Some False | Some n \<Rightarrow> do { c \<leftarrow> cmp x n; Some (c \<ge> 0) });
     if hi then do {
       r \<leftarrow> rb_insert cmp x (remove1 x xs);
       Some (case r of Inl _ \<Rightarrow> remove1 x xs | Inr ys \<Rightarrow> ys)
     }
     else Some xs
   }"

definition dptmrset_init :: "('d, 's) world \<Rightarrow> nat \<Rightarrow> ('d, 's) world" where
  "dptmrset_init w i = upd_evp w i (timer_update (\<lambda>_. []))"

definition dptmrset_free :: "('d, 's) world \<Rightarrow> nat \<Rightarrow> ('d, 's) world" where
  "dptmrset_free w i = upd_evp w i (timer_update (\<lambda>_. []))"

definition dptmrset_upsert :: "('d, 's) world \<Rightarrow> nat \<Rightarrow> nat \<Rightarrow> (('d, 's) world \<times> dpret) option" where
  "dptmrset_upsert w i a = do {
     e \<leftarrow> eles w a;
     (case tmr_spec e of
        None \<Rightarrow> Some (w, DPE_INVAL)
      | Some s \<Rightarrow>
          if after s < 0 then Some (w, DPE_INVAL)
          else do {
            let (w1, now) = dplog_millis w;
            x \<leftarrow> to_i64 (of_int now + after s * 1000);
            let w2 = put_ele w1 a (e\<lparr>tmr_spec := Some (s\<lparr>expire := x\<rparr>)\<rparr>);
            if is_timing e then do {
              xs \<leftarrow> rb_reinsert (dpele_tmrspec_compare w2) a (timer (evps w2 i));
              Some (upd_evp w2 i (timer_update (\<lambda>_. xs)), DPE_OK)
            }
            else do {
              r \<leftarrow> rb_insert (dpele_tmrspec_compare w2) a (timer (evps w2 i));
              (case r of
                 Inl _ \<Rightarrow> Some (w2, DPE_INTERNAL_ERROR)
               | Inr xs \<Rightarrow> do {
                   w3 \<leftarrow> upd_ele (upd_evp w2 i (timer_update (\<lambda>_. xs))) a (is_timing_update (\<lambda>_. True));
                   Some (w3, DPE_OK)
                 })
            }
          })
   }"

definition dptmrset_remove :: "('d, 's) world \<Rightarrow> nat \<Rightarrow> nat \<Rightarrow> ('d, 's) world option" where
  "dptmrset_remove w i a = do {
     e \<leftarrow> eles w a;
     if is_timing e then
       upd_ele (upd_evp w i (timer_update (remove1 a))) a (is_timing_update (\<lambda>_. False))
     else Some w
   }"

text \<open>The expired element, if any, and the value left in \<open>*waitms\<close>.\<close>

definition dptmrset_expire :: "('d, 's) world \<Rightarrow> nat \<Rightarrow> (('d, 's) world \<times> nat option \<times> int) option" where
  "dptmrset_expire w i =
     (case timer (evps w i) of
        [] \<Rightarrow> Some (w, None, - 1)
      | a # as \<Rightarrow> do {
          let (w1, currts) = dplog_millis w;
          x \<leftarrow> tmr_expire w1 a;
          if x > currts then do {
            nextms \<leftarrow> chk_i64 (x - currts - 10);
            Some (w1, None, wrap_int (if 1 < nextms then nextms else 1))
          }
          else do {
            w2 \<leftarrow> upd_ele (upd_evp w1 i (timer_update (remove1 a))) a (is_timing_update (\<lambda>_. False));
            Some (w2, Some a, 0)
          }
        })"

section \<open>Ordered sequences\<close>

definition seq_sorted :: "('a \<Rightarrow> 'a \<Rightarrow> int) \<Rightarrow> 'a list \<Rightarrow> bool" where
  "seq_sorted cmp = sorted_wrt (\<lambda>x y. cmp x y < 0)"

locale ordered_seq =
  fixes cmp :: "'a \<Rightarrow> 'a \<Rightarrow> int"
  assumes cmp_eq: "cmp x y = 0 \<longleftrightarrow> x = y"
    and cmp_flip: "cmp x y < 0 \<longleftrightarrow> cmp y x > 0"
    and cmp_trans: "cmp x y < 0 \<Longrightarrow> cmp y z < 0 \<Longrightarrow> cmp x z < 0"
begin

lemma cmp_total: "x \<noteq> y \<Longrightarrow> cmp x y < 0 \<or> cmp y x < 0"
  by (metis cmp_eq cmp_flip linorder_neqE)

lemma sorted_distinct: "seq_sorted cmp xs \<Longrightarrow> distinct xs"
  unfolding seq_sorted_def
  by (induction xs) (auto, metis cmp_eq less_irrefl)

lemma insert_fresh:
  assumes "seq_sorted cmp xs" and "x \<notin> set xs"
    and "\<And>y. y \<in> set xs \<Longrightarrow> c x y = Some (cmp x y)"
  obtains zs where "rb_insert c x xs = Some (Inr zs)" "seq_sorted cmp zs" "set zs = insert x (set xs)"
proof -
  have "\<exists>zs. rb_insert c x xs = Some (Inr zs) \<and> seq_sorted cmp zs \<and> set zs = insert x (set xs)"
    using assms
  proof (induction xs)
    case (Cons y ys)
    have y: "c x y = Some (cmp x y)" "cmp x y \<noteq> 0" using Cons.prems by (auto simp: cmp_eq)
    show ?case
    proof (cases "cmp x y < 0")
      case True
      then show ?thesis using Cons.prems(1) y(1) by (auto simp: seq_sorted_def intro: cmp_trans)
    next
      case False
      then have "cmp y x < 0" using y(2) cmp_flip [of y x] by auto
      moreover obtain zs where "rb_insert c x ys = Some (Inr zs)" "seq_sorted cmp zs"
        "set zs = insert x (set ys)"
        using Cons.IH Cons.prems by (auto simp: seq_sorted_def)
      ultimately show ?thesis using Cons.prems(1) False y by (auto simp: seq_sorted_def)
    qed
  qed (auto simp: seq_sorted_def)
  then show ?thesis using that by blast
qed

lemma min_least: "seq_sorted cmp (a # as) \<Longrightarrow> b \<in> set (a # as) \<Longrightarrow> b = a \<or> cmp a b < 0"
  by (auto simp: seq_sorted_def)

text \<open>A node whose key changed: the rest is sorted, the node may be out of place.\<close>

lemma sorted_between:
  assumes "seq_sorted cmp (ys @ zs)" and "ys = [] \<or> cmp (last ys) x < 0" and "zs = [] \<or> cmp x (hd zs) < 0"
  shows "seq_sorted cmp (ys @ x # zs)"
proof -
  have "cmp y x < 0" if "y \<in> set ys" for y
  proof (cases ys rule: rev_cases)
    case (snoc us l)
    then show ?thesis using that assms(1,2) by (auto simp: seq_sorted_def sorted_wrt_append intro: cmp_trans)
  qed (use that in simp)
  moreover have "cmp x z < 0" if "z \<in> set zs" for z
    using that assms(1,3) by (cases zs) (auto simp: seq_sorted_def sorted_wrt_append intro: cmp_trans)
  ultimately show ?thesis using assms(1) by (auto simp: seq_sorted_def sorted_wrt_append)
qed

lemma reinsert_sorts:
  assumes "distinct xs" "x \<in> set xs" "seq_sorted cmp (remove1 x xs)"
    and c: "\<And>y z. y \<in> set xs \<Longrightarrow> z \<in> set xs \<Longrightarrow> c y z = Some (cmp y z)"
  obtains zs where "rb_reinsert c x xs = Some zs" "seq_sorted cmp zs" "set zs = set xs"
proof -
  obtain ys zs where xs: "xs = ys @ x # zs" "x \<notin> set ys" using assms(2) by (meson split_list_first)
  have rm: "remove1 x xs = ys @ zs" using xs by (simp add: remove1_append)
  have nz: "x \<notin> set zs" using assms(1) xs by auto
  have "takeWhile (\<lambda>y. y \<noteq> x) xs = ys"
    unfolding xs(1) by (subst takeWhile_append2) (use xs(2) in auto)
  then have prev: "rb_prev x xs = (if ys = [] then None else Some (last ys))"
    by (simp add: rb_prev_def)
  have "dropWhile (\<lambda>y. y \<noteq> x) xs = x # zs" using xs by (auto simp: dropWhile_append)
  then have "next": "rb_next x xs = (if zs = [] then None else Some (hd zs))"
    by (auto simp: rb_next_def split: list.splits)
  have ins: "\<exists>us. rb_insert c x (ys @ zs) = Some (Inr us) \<and> seq_sorted cmp us \<and> set us = set xs"
    using insert_fresh [of "ys @ zs" x c] assms(3) c xs rm nz by (auto, metis)
  have cl: "ys \<noteq> [] \<Longrightarrow> c (last ys) x = Some (cmp (last ys) x)"
    and ch: "zs \<noteq> [] \<Longrightarrow> c x (hd zs) = Some (cmp x (hd zs))" using c xs(1) by auto
  show ?thesis
  proof (cases "(ys = [] \<or> cmp (last ys) x < 0) \<and> (zs = [] \<or> cmp x (hd zs) < 0)")
    case True
    then have "rb_reinsert c x xs = Some xs"
      using cl ch by (auto simp: rb_reinsert_def prev "next")
    moreover have "seq_sorted cmp xs" using sorted_between [of ys zs x] True assms(3) rm xs(1) by simp
    ultimately show ?thesis using that by blast
  next
    case False
    obtain us where us: "rb_insert c x (ys @ zs) = Some (Inr us)" "seq_sorted cmp us" "set us = set xs"
      using ins by blast
    have "rb_reinsert c x xs = Some us"
      using False us(1) cl ch
      by (cases "ys = []"; cases "zs = []"; cases "cmp (last ys) x < 0")
        (auto simp: rb_reinsert_def prev "next" rm)
    then show ?thesis using that us by blast
  qed
qed

end

section \<open>The timers of a loop\<close>

definition tmr_key :: "('d, 's) world \<Rightarrow> nat \<Rightarrow> int" where
  "tmr_key w a = (case tmr_expire w a of None \<Rightarrow> 0 | Some x \<Rightarrow> x)"

definition tmr_cmp :: "('d, 's) world \<Rightarrow> nat \<Rightarrow> nat \<Rightarrow> int" where
  "tmr_cmp w a b =
     (if tmr_key w a = tmr_key w b then int a - int b else tmr_key w a - tmr_key w b)"

interpretation tmr: ordered_seq "tmr_cmp w" for w
  by unfold_locales (auto simp: tmr_cmp_def split: if_splits)

definition armed :: "('d, 's) world \<Rightarrow> nat \<Rightarrow> bool" where
  "armed w a \<longleftrightarrow> (\<exists>e s. eles w a = Some e \<and> is_timing e \<and> tmr_spec e = Some s \<and>
     0 \<le> expire s \<and> expire s < 2 ^ 63)"

text \<open>
  Every timer sequence is sorted and holds armed elements; an element marked as timing is in
  exactly one of them.
\<close>

definition timers :: "('d, 's) world \<Rightarrow> bool" where
  "timers w \<longleftrightarrow> (\<forall>i. seq_sorted (tmr_cmp w) (timer (evps w i))) \<and>
     (\<forall>i. \<forall>a \<in> set (timer (evps w i)). armed w a) \<and>
     (\<forall>i j. i \<noteq> j \<longrightarrow> set (timer (evps w i)) \<inter> set (timer (evps w j)) = {}) \<and>
     (\<forall>a e. eles w a = Some e \<longrightarrow> is_timing e \<longrightarrow> (\<exists>i. a \<in> set (timer (evps w i))))"

lemma armed_key: "armed w a \<Longrightarrow> tmr_expire w a = Some (tmr_key w a) \<and> 0 \<le> tmr_key w a \<and> tmr_key w a < 2 ^ 63"
  by (auto simp: armed_def tmr_key_def tmr_expire_def)

lemma compare_armed: "armed w a \<Longrightarrow> armed w b \<Longrightarrow> dpele_tmrspec_compare w a b = Some (tmr_cmp w a b)"
  using armed_key [of w a] armed_key [of w b]
  by (auto simp: dpele_tmrspec_compare_def tmr_cmp_def chk_i64_def)

lemma timers_sorted: "timers w \<Longrightarrow> seq_sorted (tmr_cmp w) (timer (evps w i))"
  by (simp add: timers_def)

lemma timers_armed: "timers w \<Longrightarrow> a \<in> set (timer (evps w i)) \<Longrightarrow> armed w a"
  by (auto simp: timers_def)

lemma timers_home:
  "timers w \<Longrightarrow> eles w a = Some e \<Longrightarrow> is_timing e \<Longrightarrow> \<exists>i. a \<in> set (timer (evps w i))"
  unfolding timers_def by blast

lemma timers_distinct: "timers w \<Longrightarrow> distinct (timer (evps w i))"
  by (rule tmr.sorted_distinct [OF timers_sorted])

lemma seq_sorted_cong:
  "(\<And>x y. x \<in> set xs \<Longrightarrow> y \<in> set xs \<Longrightarrow> f x y = g x y) \<Longrightarrow> seq_sorted f xs \<longleftrightarrow> seq_sorted g xs"
  unfolding seq_sorted_def by (induction xs) auto

lemma seq_sorted_remove1: "seq_sorted f xs \<Longrightarrow> seq_sorted f (remove1 a xs)"
  unfolding seq_sorted_def by (induction xs) (auto dest: notin_set_remove1)

text \<open>The set of loop \<open>i\<close> changes; elements other than \<open>a\<close> keep their time and their mark.\<close>

lemma timers_update:
  assumes T: "timers w"
    and other: "\<And>b. b \<noteq> a \<Longrightarrow> eles w' b = eles w b"
    and evp: "\<And>j. j \<noteq> i \<Longrightarrow> timer (evps w' j) = timer (evps w j)"
    and mine: "seq_sorted (tmr_cmp w') (timer (evps w' i))"
    and sub: "set (timer (evps w' i)) - {a} = set (timer (evps w i)) - {a}"
    and out: "\<And>j. j \<noteq> i \<Longrightarrow> a \<notin> set (timer (evps w j))"
    and arm: "a \<in> set (timer (evps w' i)) \<Longrightarrow> armed w' a"
    and mark: "\<And>e. eles w' a = Some e \<Longrightarrow> is_timing e \<Longrightarrow> a \<in> set (timer (evps w' i))"
  shows "timers w'"
  unfolding timers_def
proof (intro conjI allI ballI impI)
  have key: "tmr_key w' b = tmr_key w b" "armed w' b = armed w b" if "b \<noteq> a" for b
    using other [OF that] by (simp_all add: tmr_key_def tmr_expire_def armed_def)
  show "seq_sorted (tmr_cmp w') (timer (evps w' j))" for j
  proof (cases "j = i")
    case False
    have "seq_sorted (tmr_cmp w') (timer (evps w j)) = seq_sorted (tmr_cmp w) (timer (evps w j))"
      by (rule seq_sorted_cong) (use key(1) out [OF False] in \<open>metis tmr_cmp_def\<close>)
    then show ?thesis using evp [OF False] timers_sorted [OF T] by simp
  qed (use mine in simp)
  show "armed w' b" if "b \<in> set (timer (evps w' j))" for j b
  proof (cases "b = a")
    case True
    then show ?thesis using that arm out evp by (cases "j = i") auto
  next
    case False
    then have "b \<in> set (timer (evps w j))" using that sub evp by (cases "j = i") auto
    then show ?thesis using key(2) [OF False] timers_armed [OF T] by simp
  qed
  show "set (timer (evps w' j)) \<inter> set (timer (evps w' k)) = {}" if "j \<noteq> k" for j k
  proof -
    have "set (timer (evps w j)) \<inter> set (timer (evps w k)) = {}" using T that by (auto simp: timers_def)
    then show ?thesis using that evp [of j] evp [of k] out [of j] out [of k] sub
      by (cases "j = i"; cases "k = i") auto
  qed
  show "\<exists>j. b \<in> set (timer (evps w' j))" if te: "eles w' b = Some e" "is_timing e" for b e
  proof (cases "b = a")
    case False
    then obtain j where "b \<in> set (timer (evps w j))" using te other timers_home [OF T] by metis
    then have "b \<in> set (timer (evps w' j))" using False sub evp [of j] by (cases "j = i") auto
    then show ?thesis by blast
  qed (use that mark in auto)
qed

lemma timers_outside:
  "timers w \<Longrightarrow> a \<in> set (timer (evps w i)) \<Longrightarrow> j \<noteq> i \<Longrightarrow> a \<notin> set (timer (evps w j))"
  unfolding timers_def by blast

lemma timers_unmarked:
  "timers w \<Longrightarrow> eles w a = Some e \<Longrightarrow> \<not> is_timing e \<Longrightarrow> a \<notin> set (timer (evps w j))"
  by (auto simp: armed_def dest: timers_armed)

lemma dptmrset_remove_timers:
  assumes T: "timers w" and a: "eles w a = Some e" and home: "is_timing e \<Longrightarrow> a \<in> set (timer (evps w i))"
  obtains w' where "dptmrset_remove w i a = Some w'" "timers w'"
    "timer (evps w' i) = remove1 a (timer (evps w i))" "eles w' = (eles w)(a \<mapsto> e\<lparr>is_timing := False\<rparr>)"
proof (cases "is_timing e")
  case False
  then have "remove1 a (timer (evps w i)) = timer (evps w i)"
    using timers_unmarked [OF T a] by (simp add: remove1_idem)
  moreover have "(eles w)(a \<mapsto> e\<lparr>is_timing := False\<rparr>) = eles w" using a False by auto
  ultimately show ?thesis using False T a by (intro that [of w]) (auto simp: dptmrset_remove_def)
next
  case True
  let ?w = "put_ele (upd_evp w i (timer_update (remove1 a))) a (e\<lparr>is_timing := False\<rparr>)"
  have "tmr_cmp ?w = tmr_cmp w" using a by (auto simp: tmr_cmp_def tmr_key_def tmr_expire_def fun_eq_iff)
  then have "timers ?w"
    by (intro timers_update [OF T, of a _ i])
      (use timers_distinct [OF T, of i] timers_sorted [OF T, of i] timers_outside [OF T home [OF True]] in
        \<open>auto intro!: seq_sorted_remove1\<close>)
  then show ?thesis using a True by (intro that [of ?w]) (auto simp: dptmrset_remove_def)
qed

lemma to_i64_range: "0 \<le> r \<Longrightarrow> r < 2 ^ 63 \<Longrightarrow> to_i64 r = Some \<lfloor>r\<rfloor>"
  by (auto simp: to_i64_def chk_i64_def floor_less_iff)

lemma dptmrset_upsert_timers:
  assumes T: "timers w" and a: "eles w a = Some e" "tmr_spec e = Some s" "0 \<le> after s"
    and home: "is_timing e \<Longrightarrow> a \<in> set (timer (evps w i))"
    and r: "r = of_int (clock w (clock_reads w)) + after s * 1000" "0 \<le> r" "r < 2 ^ 63"
  obtains w' where "dptmrset_upsert w i a = Some (w', DPE_OK)" "timers w'"
    "set (timer (evps w' i)) = insert a (set (timer (evps w i)))"
    "eles w' = (eles w)(a \<mapsto> e\<lparr>tmr_spec := Some (s\<lparr>expire := \<lfloor>r\<rfloor>\<rparr>), is_timing := True\<rparr>)"
proof -
  let ?e = "e\<lparr>tmr_spec := Some (s\<lparr>expire := \<lfloor>r\<rfloor>\<rparr>)\<rparr>"
  let ?w2 = "put_ele (w\<lparr>clock_reads := clock_reads w + 1\<rparr>) a ?e"
  let ?xs = "timer (evps w i)"
  have fl: "0 \<le> \<lfloor>r\<rfloor>" "\<lfloor>r\<rfloor> < 2 ^ 63" using r(2,3) by (auto simp: floor_less_iff)
  have up: "dptmrset_upsert w i a = do {
      let w2 = ?w2;
      if is_timing e then do {
        xs \<leftarrow> rb_reinsert (dpele_tmrspec_compare w2) a ?xs;
        Some (upd_evp w2 i (timer_update (\<lambda>_. xs)), DPE_OK)
      } else do {
        q \<leftarrow> rb_insert (dpele_tmrspec_compare w2) a ?xs;
        (case q of Inl _ \<Rightarrow> Some (w2, DPE_INTERNAL_ERROR)
         | Inr xs \<Rightarrow> do {
             w3 \<leftarrow> upd_ele (upd_evp w2 i (timer_update (\<lambda>_. xs))) a (is_timing_update (\<lambda>_. True));
             Some (w3, DPE_OK)
           })
      }
    }"
    using a r to_i64_range [OF r(2,3)] by (simp add: dptmrset_upsert_def dplog_millis_def Let_def)
  let ?e1 = "?e\<lparr>is_timing := True\<rparr>"
  let ?w1 = "put_ele (w\<lparr>clock_reads := clock_reads w + 1\<rparr>) a ?e1"
  have w1: "tmr_cmp ?w2 = tmr_cmp ?w1" "dpele_tmrspec_compare ?w2 = dpele_tmrspec_compare ?w1"
    by (auto simp: tmr_cmp_def tmr_key_def dpele_tmrspec_compare_def tmr_expire_def fun_eq_iff)
  have key: "tmr_cmp ?w1 b c = tmr_cmp w b c" if "b \<noteq> a" "c \<noteq> a" for b c
    using that by (simp add: tmr_cmp_def tmr_key_def tmr_expire_def)
  have arm: "armed ?w1 b" if "b \<in> insert a (set ?xs)" for b
    using that fl timers_armed [OF T, of b i] by (auto simp: armed_def)
  have rest: "seq_sorted (tmr_cmp ?w1) (remove1 a ?xs)"
  proof -
    have "seq_sorted (tmr_cmp ?w1) (remove1 a ?xs) = seq_sorted (tmr_cmp w) (remove1 a ?xs)"
      by (rule seq_sorted_cong) (use key timers_distinct [OF T, of i] in auto)
    then show ?thesis using seq_sorted_remove1 [OF timers_sorted [OF T]] by simp
  qed
  obtain zs where zs: "seq_sorted (tmr_cmp ?w1) zs" "set zs = insert a (set ?xs)"
    "dptmrset_upsert w i a = Some (upd_evp ?w1 i (timer_update (\<lambda>_. zs)), DPE_OK)"
  proof (cases "is_timing e")
    case True
    then have e1: "?e1 = ?e" by simp
    have "dpele_tmrspec_compare ?w1 y z = Some (tmr_cmp ?w1 y z)" if "y \<in> set ?xs" "z \<in> set ?xs" for y z
      using that arm by (intro compare_armed) auto
    then obtain zs where "rb_reinsert (dpele_tmrspec_compare ?w1) a ?xs = Some zs"
      "seq_sorted (tmr_cmp ?w1) zs" "set zs = set ?xs"
      by (rule tmr.reinsert_sorts [OF timers_distinct [OF T] home [OF True] rest])
    then show ?thesis using that [of zs] True home e1 up w1 by (auto simp: insert_absorb)
  next
    case False
    then have na: "a \<notin> set ?xs" using timers_unmarked [OF T a(1)] by blast
    then have "seq_sorted (tmr_cmp ?w1) ?xs" using rest by (simp add: remove1_idem)
    note sorted = this
    have "dpele_tmrspec_compare ?w1 a y = Some (tmr_cmp ?w1 a y)" if "y \<in> set ?xs" for y
      using that arm by (intro compare_armed) auto
    then obtain zs where "rb_insert (dpele_tmrspec_compare ?w1) a ?xs = Some (Inr zs)"
      "seq_sorted (tmr_cmp ?w1) zs" "set zs = insert a (set ?xs)"
      by (rule tmr.insert_fresh [OF sorted na])
    then show ?thesis using that [of zs] False up w1
      by (auto simp: put_ele_def upd_evp_def)
  qed
  let ?w = "upd_evp ?w1 i (timer_update (\<lambda>_. zs))"
  have "timers ?w"
  proof (rule timers_update [OF T, of a _ i])
    show "a \<notin> set (timer (evps w j))" if "j \<noteq> i" for j
      using that home timers_outside [OF T] timers_unmarked [OF T a(1)] by blast
    have "tmr_cmp ?w = tmr_cmp ?w1" by (auto simp: tmr_cmp_def tmr_key_def tmr_expire_def fun_eq_iff)
    then show "seq_sorted (tmr_cmp ?w) (timer (evps ?w i))" using zs(1) by simp
    show "armed ?w a" using arm [of a] by (simp add: armed_def)
  qed (use zs in \<open>auto simp: put_ele_def\<close>)
  then show ?thesis using zs by (intro that [of ?w]) (auto simp: put_ele_def)
qed

text \<open>
  \<open>dptmrset_expire\<close> takes out the earliest timer when it is due; otherwise it says how long the
  loop may sleep.
\<close>

lemma dptmrset_expire_timers:
  assumes T: "timers w" and now: "now = clock w (clock_reads w)" "0 \<le> now"
  shows "timer (evps w i) = [] \<Longrightarrow> dptmrset_expire w i = Some (w, None, - 1)"
    and "timer (evps w i) = a # as \<Longrightarrow> now < tmr_key w a \<Longrightarrow>
      dptmrset_expire w i = Some (w\<lparr>clock_reads := clock_reads w + 1\<rparr>, None,
        wrap_int (max 1 (tmr_key w a - now - 10)))"
    and "timer (evps w i) = a # as \<Longrightarrow> tmr_key w a \<le> now \<Longrightarrow>
      \<exists>w' e. dptmrset_expire w i = Some (w', Some a, 0) \<and> timers w' \<and> timer (evps w' i) = as \<and>
        eles w a = Some e \<and> eles w' = (eles w)(a \<mapsto> e\<lparr>is_timing := False\<rparr>) \<and> deqs w' = deqs w \<and>
        gevp w' = gevp w"
proof -
  show "timer (evps w i) = [] \<Longrightarrow> dptmrset_expire w i = Some (w, None, - 1)"
    by (simp add: dptmrset_expire_def)
  let ?w1 = "w\<lparr>clock_reads := clock_reads w + 1\<rparr>"
  have key: "tmr_expire ?w1 a = Some (tmr_key w a) \<and> 0 \<le> tmr_key w a \<and> tmr_key w a < 2 ^ 63"
    if "timer (evps w i) = a # as"
  proof -
    have "tmr_expire ?w1 a = tmr_expire w a" by (simp add: tmr_expire_def)
    then show ?thesis using armed_key [OF timers_armed [OF T, of a i]] that by simp
  qed
  show "dptmrset_expire w i = Some (?w1, None, wrap_int (max 1 (tmr_key w a - now - 10)))"
    if "timer (evps w i) = a # as" "now < tmr_key w a"
    using that now key [OF that(1)]
    by (simp add: dptmrset_expire_def dplog_millis_def Let_def chk_i64_def max_def)
  assume a: "timer (evps w i) = a # as" and due: "tmr_key w a \<le> now"
  obtain e where e: "eles w a = Some e" "is_timing e"
    using timers_armed [OF T, of a i] a by (auto simp: armed_def)
  let ?w2 = "put_ele (upd_evp ?w1 i (timer_update (remove1 a))) a (e\<lparr>is_timing := False\<rparr>)"
  have "dptmrset_expire w i = Some (?w2, Some a, 0)"
    using a e due now key [OF a] by (simp add: dptmrset_expire_def dplog_millis_def Let_def)
  moreover have "tmr_cmp ?w2 = tmr_cmp w"
    using e by (auto simp: tmr_cmp_def tmr_key_def tmr_expire_def fun_eq_iff)
  then have "timers ?w2"
    by (intro timers_update [OF T, of a _ i])
      (use a timers_distinct [OF T, of i] timers_sorted [OF T, of i] timers_outside [OF T, of a i] in
        \<open>auto simp: seq_sorted_def\<close>)
  ultimately show "\<exists>w' e. dptmrset_expire w i = Some (w', Some a, 0) \<and> timers w' \<and>
      timer (evps w' i) = as \<and> eles w a = Some e \<and> eles w' = (eles w)(a \<mapsto> e\<lparr>is_timing := False\<rparr>) \<and>
      deqs w' = deqs w \<and> gevp w' = gevp w"
    using a e by auto
qed

lemma wrap_int_id: "0 \<le> x \<Longrightarrow> x \<le> INT_MAX \<Longrightarrow> wrap_int x = x"
  by (simp add: wrap_int_def)

end
