(* ===== verification/Dpele.thy ===== *)
theory Dpele
  imports Dpele_Deque Dptmrset
begin

text \<open>
  Elements (\<^verbatim>\<open>dpevp_epoll.c\<close>): creation, duplication, reference counting and deletion, the
  attributes, registration with epoll, and the loop \<open>_dpefd_wake\<close> that runs the post function of an
  operation while an event it wants is available.

  The union of \<open>fd\<close> with the three bytes \<open>toid\<close>, \<open>fromid\<close>, \<open>stat\<close> of a cross-thread call is
  modelled by separate fields; \<open>union_fd\<close> is what a read of \<open>fd\<close> sees.
\<close>

section \<open>Events\<close>

abbreviation (input) DPEVT_NAN :: "'a :: len word" where "DPEVT_NAN \<equiv> 0"

abbreviation (input) DPEVT_IN :: "'a :: len word" where "DPEVT_IN \<equiv> 1"

abbreviation (input) DPEVT_PRI :: "'a :: len word" where "DPEVT_PRI \<equiv> 2"

abbreviation (input) DPEVT_OUT :: "'a :: len word" where "DPEVT_OUT \<equiv> 4"

abbreviation (input) DPEVT_ERR :: "'a :: len word" where "DPEVT_ERR \<equiv> 8"

abbreviation (input) DPEVT_HUP :: "'a :: len word" where "DPEVT_HUP \<equiv> 16"

abbreviation (input) DPEVT_AIN :: "'a :: len word" where "DPEVT_AIN \<equiv> 3"

abbreviation (input) DPEVT_AIO :: "'a :: len word" where "DPEVT_AIO \<equiv> 7"

abbreviation (input) DPEVT_ALL :: "'a :: len word" where "DPEVT_ALL \<equiv> 31"

abbreviation (input) EPOLLIN :: u32 where "EPOLLIN \<equiv> 1"

abbreviation (input) EPOLLRDHUP :: u32 where "EPOLLRDHUP \<equiv> 8192"

abbreviation (input) EPOLLET :: u32 where "EPOLLET \<equiv> 2147483648"

abbreviation (input) ENOENT :: int where "ENOENT \<equiv> 2"

abbreviation (input) EEXIST :: int where "EEXIST \<equiv> 17"

definition DPEVT_GET_ERR :: "5 word \<Rightarrow> dpret" where
  "DPEVT_GET_ERR events =
     (if events AND DPEVT_HUP \<noteq> 0 then DPE_CONNRESET
      else if events AND DPEVT_ERR \<noteq> 0 then DPE_BADFD
      else DPE_OK)"

section \<open>Kernel calls\<close>

text \<open>Each returns \<open>0\<close>, or \<open>-1\<close> with \<open>errno\<close> set.\<close>

definition epoll_ctl_del :: "('d, 's) world \<Rightarrow> nat \<Rightarrow> int \<Rightarrow> ('d, 's) world \<times> int" where
  "epoll_ctl_del w i f =
     (let (w1, err) = try_sys w in
      case err of
        Some n \<Rightarrow> (w1\<lparr>errno := n\<rparr>, - 1)
      | None \<Rightarrow>
          if interest w1 i f = None then (w1\<lparr>errno := ENOENT\<rparr>, - 1)
          else (w1\<lparr>interest := (interest w1)(i := (interest w1 i)(f := None))\<rparr>, 0))"

definition epoll_ctl_add :: "('d, 's) world \<Rightarrow> nat \<Rightarrow> int \<Rightarrow> u32 \<times> ev_ptr \<Rightarrow> ('d, 's) world \<times> int" where
  "epoll_ctl_add w i f evt =
     (let (w1, err) = try_sys w in
      case err of
        Some n \<Rightarrow> (w1\<lparr>errno := n\<rparr>, - 1)
      | None \<Rightarrow>
          if interest w1 i f \<noteq> None then (w1\<lparr>errno := EEXIST\<rparr>, - 1)
          else (w1\<lparr>interest := (interest w1)(i := (interest w1 i)(f := Some evt))\<rparr>, 0))"

definition epoll_ctl_mod :: "('d, 's) world \<Rightarrow> nat \<Rightarrow> int \<Rightarrow> u32 \<times> ev_ptr \<Rightarrow> ('d, 's) world \<times> int" where
  "epoll_ctl_mod w i f evt =
     (let (w1, err) = try_sys w in
      case err of
        Some n \<Rightarrow> (w1\<lparr>errno := n\<rparr>, - 1)
      | None \<Rightarrow>
          if interest w1 i f = None then (w1\<lparr>errno := ENOENT\<rparr>, - 1)
          else (w1\<lparr>interest := (interest w1)(i := (interest w1 i)(f := Some evt))\<rparr>, 0))"

section \<open>Scratch data\<close>

definition dpele_asc_data_pri :: "('d, 's) env \<Rightarrow> ('d, 's) world \<Rightarrow> nat \<Rightarrow> (('d, 's) world \<times> bool) option" where
  "dpele_asc_data_pri env w a = do {
     e \<leftarrow> eles w a;
     (case asc_type e of
        None \<Rightarrow> Some (w, False)
      | Some t \<Rightarrow>
          let data_size = asc_datasz (ascs env t) in
          if data_size = 0 then Some (w, False)
          else case asc_data e of
            Some (cap, d) \<Rightarrow>
              if cap \<ge> data_size then Some (put_ele w a (e\<lparr>asc_data := Some (cap, None)\<rparr>), True)
              else
                (let (w1, ok) = try_alloc w in
                 if \<not> ok then Some (w1\<lparr>errno := DPE_NOMEM\<rparr>, False)
                 else Some (put_ele w1 a (e\<lparr>asc_data := Some (data_size, None)\<rparr>), True))
          | None \<Rightarrow>
              (let (w1, ok) = try_alloc w in
               if \<not> ok then Some (w1\<lparr>errno := DPE_NOMEM\<rparr>, False)
               else Some (put_ele w1 a (e\<lparr>asc_data := Some (data_size, None)\<rparr>), True)))
   }"

definition dpele_asc_data :: "'d dpele \<Rightarrow> bool" where
  "dpele_asc_data e \<longleftrightarrow> asc_data e \<noteq> None"

section \<open>Registration\<close>

definition dpevp_unwch_efd :: "('d, 's) world \<Rightarrow> nat \<Rightarrow> (('d, 's) world \<times> dpret) option" where
  "dpevp_unwch_efd w a = do {
     e \<leftarrow> eles w a;
     if fd e \<ge> 0 then do {
       g \<leftarrow> gevp w;
       let (w1, r) = epoll_ctl_del w g (fd e);
       if r = 0 then Some (w1, DPE_OK)
       else Some (w1, if errno w1 = ENOENT then DPE_OK else - errno w1)
     }
     else Some (w, DPE_INVAL)
   }"

definition dpevp_watch_efd :: "('d, 's) world \<Rightarrow> nat \<Rightarrow> (('d, 's) world \<times> dpret) option" where
  "dpevp_watch_efd w a = do {
     e \<leftarrow> eles w a;
     let events = (ucast (poll_events e) :: u32);
     let evt = (EPOLLRDHUP OR EPOLLET OR (events AND DPEVT_AIO), Pele a);
     let w0 = (if fd_flags w (fd e) = Some False then w\<lparr>fd_flags := (fd_flags w)(fd e := Some True)\<rparr> else w);
     g \<leftarrow> gevp w0;
     let (w1, r) = epoll_ctl_add w0 g (fd e) evt;
     if r \<noteq> 0 then
       (if errno w1 = EEXIST then
          (let (w2, r2) = epoll_ctl_mod w1 g (fd e) evt in
           Some (w2, if r2 \<noteq> 0 then - errno w2 else r2))
        else Some (w1, - errno w1))
     else Some (w1, r)
   }"

section \<open>Creation and deletion\<close>

definition ele_zero :: "dpele_type \<Rightarrow> 'd dpele" where
  "ele_zero ty = \<lparr>etype = ty, able_events = 0, want_events = 0, poll_events = 0, is_timing = False,
     is_close = False, is_detach = False, is_reto = False, ret = 0, tmr_spec = None, ele_refc = 1,
     fd = 0, toid = 0, fromid = 0, stat = DPCTC_INITIAL, prv = None, nxt = None, cop = 0,
     asc_type = None, asc_data = None, aux_data = replicate (ty_size ty) 0\<rparr>"

definition dpefd_init :: "'d dpele \<Rightarrow> 'd dpele" where
  "dpefd_init e = e\<lparr>is_close := True, fd := - 1, poll_events := ucast (ty_events (etype e))\<rparr>"

definition dpctc_init :: "'d dpele \<Rightarrow> 'd dpele" where
  "dpctc_init e = e\<lparr>toid := - 1, fromid := - 1, stat := DPCTC_INITIAL, ret := 0, is_reto := False,
     is_detach := False\<rparr>"

definition dpele_new_pri :: "('d, 's) world \<Rightarrow> dpele_type \<Rightarrow> ('d, 's) world \<times> nat option" where
  "dpele_new_pri w ty =
     (let (w1, ok) = try_alloc w in
      if \<not> ok then (w1\<lparr>errno := DPE_NOMEM\<rparr>, None)
      else
        let a = ele_brk w1; e = ele_zero ty;
            e1 = (case ty_type ty of
                    DPELE_TYPE_EFD \<Rightarrow> dpefd_init e
                  | DPELE_TYPE_USD \<Rightarrow> e
                  | DPELE_TYPE_TMR \<Rightarrow> e
                  | DPELE_TYPE_CTC \<Rightarrow> dpctc_init e)
        in (put_ele (w1\<lparr>ele_brk := a + 1\<rparr>) a e1, Some a))"

definition dpele_del_pri :: "('d, 's) env \<Rightarrow> ('d, 's) world \<Rightarrow> nat \<Rightarrow> ('d, 's) world option" where
  "dpele_del_pri env w a = do {
     e \<leftarrow> eles w a;
     w1 \<leftarrow> (if ty_type (etype e) = DPELE_TYPE_EFD \<and> fd e \<ge> 0 then do {
              (w', r) \<leftarrow> dpevp_unwch_efd w a;
              let w'' = (if dpret_iserr r then w'\<lparr>errno := r\<rparr> else w');
              if is_close e then
                upd_ele (w''\<lparr>closed := fd e # closed w''\<rparr>) a (fd_update (\<lambda>_. - 1))
              else Some w''
            }
            else Some w);
     let w2 = (case ty_fini (etype e) of None \<Rightarrow> w1 | Some f \<Rightarrow> fn_fini env f (aux_data e) w1);
     _ \<leftarrow> eles w2 a;
     Some (w2\<lparr>eles := (eles w2)(a := None)\<rparr>)
   }"

definition dpele_newv :: "('d, 's) env \<Rightarrow> ('d, 's) world \<Rightarrow> dpele_type option \<Rightarrow> va_list \<Rightarrow> (('d, 's) world \<times> nat option) option" where
  "dpele_newv env w type args =
     (case type of
        None \<Rightarrow> Some (w\<lparr>errno := DPE_INVAL\<rparr>, None)
      | Some ty \<Rightarrow>
          (let (w1, ele) = dpele_new_pri w ty in
           case ele of
             None \<Rightarrow> Some (w1, None)
           | Some a \<Rightarrow>
               (case ty_init ty of
                  None \<Rightarrow> Some (w1, Some a)
                | Some f \<Rightarrow> do {
                    (w2, r) \<leftarrow> fn_init env f a args w1;
                    (w3, r) \<leftarrow> (if dpret_isok r \<and> ty_type ty = DPELE_TYPE_EFD \<and> ty_events ty > 0 then do {
                                 w' \<leftarrow> upd_ele w2 a (fd_update (\<lambda>_. r));
                                 dpevp_watch_efd w' a
                               }
                               else Some (w2, r));
                    if dpret_iserr r then do {
                      w4 \<leftarrow> dpele_del_pri env w3 a;
                      Some (w4, None)
                    }
                    else Some (w3, Some a)
                  })))"

definition dpele_ref :: "('d, 's) world \<Rightarrow> nat \<Rightarrow> ('d, 's) world option" where
  "dpele_ref w a = upd_ele w a (ele_refc_update (\<lambda>n. n + 1))"

text \<open>The result is a \<open>uint32_t\<close>.\<close>

definition dpele_refc :: "'d dpele \<Rightarrow> u32" where
  "dpele_refc e = of_int (ele_refc e)"

definition dpele_del :: "('d, 's) env \<Rightarrow> ('d, 's) world \<Rightarrow> nat option \<Rightarrow> ('d, 's) world option" where
  "dpele_del env w self =
     (case self of
        None \<Rightarrow> Some w
      | Some a \<Rightarrow> do {
          e \<leftarrow> eles w a;
          let w1 = put_ele w a (e\<lparr>ele_refc := ele_refc e - 1\<rparr>);
          if ele_refc e = 1 then
            (if asc_type e \<noteq> None then Some w1 else dpele_del_pri env w1 a)
          else Some w1
        })"

definition dpele_is_doing :: "'d dpele \<Rightarrow> bool" where
  "dpele_is_doing e \<longleftrightarrow> asc_type e \<noteq> None"

definition union_fd :: "'d dpele \<Rightarrow> int" where
  "union_fd e =
     (if ty_type (etype e) = DPELE_TYPE_CTC
      then uint (toid e) + 256 * uint (fromid e) + 65536 * int (stat_index (stat e))
      else fd e)"

text \<open>
  \<open>dup(2)\<close> gives a new descriptor or an error, and is a parameter here.  Its result is stored as
  \<open>fd\<close>: in a cross-thread call that overwrites the three bytes.
\<close>

definition dpele_dup ::
  "('d, 's) env \<Rightarrow> (('d, 's) world \<Rightarrow> int \<Rightarrow> int) \<Rightarrow> ('d, 's) world \<Rightarrow> nat \<Rightarrow> (('d, 's) world \<times> nat option) option" where
  "dpele_dup env dup w a = do {
     e \<leftarrow> eles w a;
     if ty_type (etype e) = DPELE_TYPE_EFD \<and> fd e < 0 then Some (w\<lparr>errno := DPE_PERM\<rparr>, None)
     else if dpele_is_doing e then Some (w\<lparr>errno := DPE_PERM\<rparr>, None)
     else
       (let (w1, ele) = dpele_new_pri w (etype e) in
        case ele of
          None \<Rightarrow> Some (w1, None)
        | Some b \<Rightarrow> do {
            n \<leftarrow> eles w1 b;
            let (aux, r) =
              (if ty_size (etype e) = 0 then (aux_data n, DPE_OK)
               else case ty_copy (etype e) of
                 Some f \<Rightarrow> fn_copy env f (aux_data e)
               | None \<Rightarrow> (aux_data e, DPE_OK));
            if dpret_iserr r then Some (w1\<lparr>eles := (eles w1)(b := None), errno := r\<rparr>, None)
            else do {
              let w2 = put_ele w1 b (n\<lparr>aux_data := aux\<rparr>);
              if union_fd n \<ge> 0 then do {
                let f = dup w2 (union_fd e);
                if f < 0 then Some (w2\<lparr>eles := (eles w2)(b := None), errno := f\<rparr>, None)
                else do {
                  w3 \<leftarrow> upd_ele w2 b (\<lambda>n. n\<lparr>fd := f, poll_events := poll_events e AND NOT DPEVT_AIN\<rparr>);
                  (w4, r) \<leftarrow> dpevp_watch_efd w3 b;
                  if dpret_iserr r then Some (w4\<lparr>eles := (eles w4)(b := None), errno := r\<rparr>, None)
                  else do {
                    w5 \<leftarrow> upd_ele w4 a (\<lambda>e. e\<lparr>poll_events := poll_events e AND NOT DPEVT_OUT\<rparr>);
                    (w6, _) \<leftarrow> dpevp_watch_efd w5 a;
                    e6 \<leftarrow> eles w6 a;
                    w7 \<leftarrow> upd_ele w6 b (\<lambda>n. n\<lparr>want_events := 0,
                             able_events := able_events e6 AND NOT DPEVT_AIN\<rparr>);
                    Some (w7, Some b)
                  }
                }
              }
              else Some (w2, Some b)
            }
          })
   }"

section \<open>Attributes\<close>

definition dpele_ret :: "'d dpele \<Rightarrow> dpret" where
  "dpele_ret e = ret e"

definition dpele_set_ret :: "'d dpele \<Rightarrow> dpret \<Rightarrow> 'd dpele" where
  "dpele_set_ret e r = e\<lparr>ret := r\<rparr>"

definition dpele_set_detach :: "'d dpele \<Rightarrow> bool \<Rightarrow> 'd dpele \<times> dpret" where
  "dpele_set_detach e detach =
     (if dpele_is_doing e then (e, DPE_BUSY) else (e\<lparr>is_detach := detach\<rparr>, DPE_OK))"

definition dpele_is_detach :: "'d dpele \<Rightarrow> bool" where
  "dpele_is_detach e = is_detach e"

definition dpele_set_timeout :: "('d, 's) world \<Rightarrow> nat \<Rightarrow> rat \<Rightarrow> (('d, 's) world \<times> dpret) option" where
  "dpele_set_timeout w a sec = do {
     e \<leftarrow> eles w a;
     if ty_type (etype e) = DPELE_TYPE_CTC then Some (w, DPE_INVAL)
     else
       let r = (if sec < 0 then DPE_BEINITED else DPE_OK) in
       case tmr_spec e of
         Some s \<Rightarrow> Some (put_ele w a (e\<lparr>tmr_spec := Some (s\<lparr>after := sec\<rparr>)\<rparr>), r)
       | None \<Rightarrow>
           if r \<noteq> DPE_OK then Some (w, r)
           else
             let (w1, ok) = try_alloc w in
             if \<not> ok then Some (w1, DPE_NOMEM)
             else Some (put_ele w1 a (e\<lparr>tmr_spec := Some \<lparr>expire = 0, after = sec\<rparr>\<rparr>), r)
   }"

definition dpele_timeout :: "'d dpele \<Rightarrow> rat" where
  "dpele_timeout e = (case tmr_spec e of Some s \<Rightarrow> after s | None \<Rightarrow> - 1)"

definition dpele_wait :: "'d dpele \<Rightarrow> 64 word \<Rightarrow> 'd dpele \<times> bool" where
  "dpele_wait e c =
     (if dpele_is_doing e \<and> \<not> is_detach e then (e\<lparr>cop := c\<rparr>, True) else (e, False))"

definition dpele_set_cop :: "'d dpele \<Rightarrow> 64 word \<Rightarrow> 'd dpele" where
  "dpele_set_cop e c = e\<lparr>cop := c\<rparr>"

definition dpefd_set_close :: "'d dpele \<Rightarrow> bool \<Rightarrow> 'd dpele" where
  "dpefd_set_close e cl = e\<lparr>is_close := cl\<rparr>"

section \<open>Running the post function\<close>

text \<open>\<open>self->able_events &= ~out->inva_events; out->inva_events = 0\<close>, when there are any.\<close>

definition apply_inva :: "('d, 's) world \<Rightarrow> nat \<Rightarrow> dpasc_out \<Rightarrow> (('d, 's) world \<times> dpasc_out) option" where
  "apply_inva w a out = do {
     e \<leftarrow> eles w a;
     Some (if out_inva out \<noteq> 0
           then (put_ele w a (e\<lparr>able_events := able_events e AND NOT (ucast (out_inva out))\<rparr>),
                 out\<lparr>out_inva := 0\<rparr>)
           else (w, out))
   }"

partial_function (option) dpefd_wake_loop ::
  "('d, 's) env \<Rightarrow> ('d, 's) world \<Rightarrow> nat \<Rightarrow> dpasc_out \<Rightarrow> dpret \<Rightarrow> (('d, 's) world \<times> dpasc_out \<times> dpret) option" where
  "dpefd_wake_loop env w a out r =
     Option.bind (eles w a) (\<lambda>e.
       if able_events e AND want_events e = 0 then Some (w, out, r)
       else
         Option.bind (asc_type e) (\<lambda>t.
         Option.bind (asc_post (ascs env t)) (\<lambda>post.
         Option.bind (post a (out\<lparr>out_able := ucast (able_events e)\<rparr>) w) (\<lambda>(w1, out1, r1).
         Option.bind (apply_inva w1 a out1) (\<lambda>(w2, out2).
           if r1 = DPE_WAIT then
             Option.bind
               (if out_want out2 > 0
                then upd_ele w2 a (want_events_update (\<lambda>_. ucast (out_want out2))) else Some w2)
               (\<lambda>w3. dpefd_wake_loop env w3 a out2 r1)
           else
             Option.bind (upd_ele w2 a (want_events_update (\<lambda>_. 0))) (\<lambda>w3. Some (w3, out2, r1)))))))"

definition dpefd_wake ::
  "('d, 's) env \<Rightarrow> ('d, 's) world \<Rightarrow> nat \<Rightarrow> dpasc_out \<Rightarrow> (('d, 's) world \<times> dpasc_out \<times> dpret) option" where
  "dpefd_wake env w a out = do {
     e \<leftarrow> eles w a;
     let r = DPEVT_GET_ERR (able_events e);
     if dpret_iserr r then Some (put_ele w a (e\<lparr>want_events := 0\<rparr>), out, r)
     else do {
       (w1, out1) \<leftarrow> apply_inva w a out;
       w2 \<leftarrow> upd_ele w1 a (want_events_update (\<lambda>_. ucast (out_want out1)));
       dpefd_wake_loop env w2 a out1 DPE_WAIT
     }
   }"

definition dpefd_feed :: "('d, 's) env \<Rightarrow> ('d, 's) world \<Rightarrow> nat \<Rightarrow> u32 \<Rightarrow> (('d, 's) world \<times> bool) option" where
  "dpefd_feed env w a events = do {
     e \<leftarrow> eles w a;
     let e1 = e\<lparr>able_events := able_events e OR ucast events\<rparr>;
     let w1 = put_ele w a e1;
     if want_events e1 = 0 \<or> \<not> dpele_is_doing e1 then Some (w1, False)
     else do {
       (w2, _, r) \<leftarrow> dpefd_wake env w1 a
          \<lparr>out_want = ucast (want_events e1), out_inva = 0, out_able = ucast (able_events e1),
           out_data = dpele_asc_data e1\<rparr>;
       if r = DPE_WAIT then do { w3 \<leftarrow> upd_ele w2 a (ret_update (\<lambda>_. DPE_INPROGRESS)); Some (w3, False) }
       else do { w3 \<leftarrow> upd_ele w2 a (ret_update (\<lambda>_. r)); Some (w3, True) }
     }
   }"

section \<open>Edge-triggered waiting\<close>

text \<open>
  What the loop relies on: on an element in a good state a post function returns and leaves the event
  masks and the operation alone; when it asks to wait it names an event to wait for, and it has
  either made progress, which \<open>fuel\<close> bounds, or spent an available event.
\<close>

locale efd_post =
  fixes post :: "nat \<Rightarrow> dpasc_out \<Rightarrow> ('d, 's) world \<Rightarrow> (('d, 's) world \<times> dpasc_out \<times> dpret) option"
    and good :: "('d, 's) world \<Rightarrow> nat \<Rightarrow> bool"
    and fuel :: "('d, 's) world \<Rightarrow> nat \<Rightarrow> nat"
  assumes good_masks: "good w a \<Longrightarrow> eles w a = Some e \<Longrightarrow>
      good (put_ele w a (e\<lparr>able_events := x, want_events := y, ret := z\<rparr>)) a"
    and fuel_masks: "eles w a = Some e \<Longrightarrow>
      fuel (put_ele w a (e\<lparr>able_events := x, want_events := y, ret := z\<rparr>)) a = fuel w a"
    and post_returns: "good w a \<Longrightarrow> eles w a = Some e \<Longrightarrow> able_events e AND want_events e \<noteq> 0 \<Longrightarrow>
      out_able out = ucast (able_events e) \<Longrightarrow> ucast (out_want out) = want_events e \<Longrightarrow>
      \<exists>w' out' r e'. post a out w = Some (w', out', r) \<and> good w' a \<and> eles w' a = Some e' \<and>
        able_events e' = able_events e \<and> want_events e' = want_events e \<and> asc_type e' = asc_type e \<and>
        (r = DPE_WAIT \<longrightarrow> ucast (out_want out') \<noteq> (0 :: 5 word) \<and>
          (fuel w' a < fuel w a \<or> fuel w' a = fuel w a \<and> able_events e AND ucast (out_inva out') \<noteq> 0))"
begin

lemma spent_less: "(x :: 5 word) AND y \<noteq> 0 \<Longrightarrow> unat (x AND NOT y) < unat x"
proof -
  assume "x AND y \<noteq> 0"
  then have "x AND NOT y \<noteq> x" by (metis bit.conj_cancel_left bit.conj_zero_right and.assoc and.commute)
  moreover have "x AND NOT y \<le> x" by (rule word_and_le2)
  ultimately have "x AND NOT y < x" by simp
  then show ?thesis by (simp add: word_less_nat_alt)
qed

lemma apply_inva_good:
  assumes "good w a" "eles w a = Some e"
  obtains w' e' where "apply_inva w a out = Some (w', out\<lparr>out_inva := 0\<rparr>)" "good w' a"
    "eles w' a = Some e'" "able_events e' = able_events e AND NOT (ucast (out_inva out))"
    "want_events e' = want_events e" "asc_type e' = asc_type e" "fuel w' a = fuel w a"
proof (cases "out_inva out = 0")
  case True
  then have "out\<lparr>out_inva := 0\<rparr> = out" by simp
  with True assms show ?thesis by (intro that [of w e]) (auto simp: apply_inva_def)
next
  case False
  let ?x = "able_events e AND NOT (ucast (out_inva out))"
  have "good (put_ele w a (e\<lparr>able_events := ?x, want_events := want_events e, ret := ret e\<rparr>)) a"
    using assms by (rule good_masks)
  moreover have "fuel (put_ele w a (e\<lparr>able_events := ?x\<rparr>)) a = fuel w a"
    using fuel_masks [OF assms(2), where x = ?x and y = "want_events e" and z = "ret e"] by simp
  ultimately show ?thesis using assms False
    by (intro that [of "put_ele w a (e\<lparr>able_events := ?x\<rparr>)" "e\<lparr>able_events := ?x\<rparr>"])
      (auto simp: apply_inva_def)
qed

lemma set_want_good:
  assumes "good w a" "eles w a = Some e"
  obtains w' e' where "upd_ele w a (want_events_update (\<lambda>_. x)) = Some w'" "good w' a"
    "eles w' a = Some e'" "able_events e' = able_events e" "want_events e' = x" "asc_type e' = asc_type e"
    "fuel w' a = fuel w a"
proof -
  have f: "fuel (put_ele w a (e\<lparr>want_events := x\<rparr>)) a = fuel w a"
    using fuel_masks [OF assms(2), where x = "able_events e" and y = x and z = "ret e"] by simp
  have "good (put_ele w a (e\<lparr>able_events := able_events e, want_events := x, ret := ret e\<rparr>)) a"
    using assms by (rule good_masks)
  then show ?thesis using assms(2) f
    by (intro that [of "put_ele w a (e\<lparr>want_events := x\<rparr>)" "e\<lparr>want_events := x\<rparr>"]) auto
qed

lemma wake_loop_returns:
  assumes "good w a" "eles w a = Some e" "asc_type e = Some t" "asc_post (ascs env t) = Some post"
    "ucast (out_want out) = want_events e"
  shows "\<exists>w' out' r' e'. dpefd_wake_loop env w a out r = Some (w', out', r') \<and> good w' a \<and>
    eles w' a = Some e' \<and> asc_type e' = Some t \<and> able_events e' AND want_events e' = 0 \<and>
    (r = DPE_WAIT \<longrightarrow> r' \<noteq> DPE_WAIT \<longrightarrow> want_events e' = 0)"
  using assms
proof (induction "fuel w a * 32 + unat (able_events e)" arbitrary: w e out r rule: less_induct)
  case less
  show ?case
  proof (cases "able_events e AND want_events e = 0")
    case True
    then show ?thesis using less.prems by (subst dpefd_wake_loop.simps) auto
  next
    case False
    let ?out = "out\<lparr>out_able := ucast (able_events e)\<rparr>"
    obtain w1 out1 r1 e1 where 1: "post a ?out w = Some (w1, out1, r1)" "good w1 a" "eles w1 a = Some e1"
      "able_events e1 = able_events e" "want_events e1 = want_events e" "asc_type e1 = Some t"
      and spent: "r1 = DPE_WAIT \<Longrightarrow> ucast (out_want out1) \<noteq> (0 :: 5 word) \<and>
        (fuel w1 a < fuel w a \<or> fuel w1 a = fuel w a \<and> able_events e AND ucast (out_inva out1) \<noteq> 0)"
      using post_returns [OF less.prems(1,2) False, of ?out] less.prems(3,5) by auto
    obtain w2 e2 where 2: "apply_inva w1 a out1 = Some (w2, out1\<lparr>out_inva := 0\<rparr>)" "good w2 a"
      "eles w2 a = Some e2" "able_events e2 = able_events e1 AND NOT (ucast (out_inva out1))"
      "want_events e2 = want_events e1" "asc_type e2 = asc_type e1" "fuel w2 a = fuel w1 a"
      using apply_inva_good [OF 1(2,3)] by metis
    let ?out2 = "out1\<lparr>out_inva := 0\<rparr>"
    show ?thesis
    proof (cases "r1 = DPE_WAIT")
      case True
      have "out_want ?out2 > 0" using spent [OF True] by (auto simp: word_gt_0)
      moreover obtain w3 e3 where upd: "upd_ele w2 a (want_events_update (\<lambda>_. ucast (out_want ?out2))) = Some w3"
        and e3: "good w3 a" "eles w3 a = Some e3" "able_events e3 = able_events e2"
          "want_events e3 = ucast (out_want ?out2)" "asc_type e3 = asc_type e2" "fuel w3 a = fuel w2 a"
        using 2(2,3) by (rule set_want_good)
      ultimately have 3: "(if out_want ?out2 > 0
          then upd_ele w2 a (want_events_update (\<lambda>_. ucast (out_want ?out2))) else Some w2) = Some w3"
        "good w3 a" "eles w3 a = Some e3" "able_events e3 = able_events e2" "asc_type e3 = asc_type e2"
        by auto
      have less32: "unat (x :: 5 word) < 32" for x
        using unsigned_less [of x, where ?'a = nat] by simp
      have "fuel w3 a * 32 + unat (able_events e3) < fuel w a * 32 + unat (able_events e)"
      proof (cases "fuel w1 a < fuel w a")
        case True
        then have "fuel w3 a + 1 \<le> fuel w a" using 2(7) e3(6) by simp
        then show ?thesis using less32 [of "able_events e3"] by linarith
      next
        case same: False
        then have "unat (able_events e3) < unat (able_events e)"
          using spent [OF True] spent_less [of "able_events e"] 1(4) 2(4) 3(4) by simp
        then show ?thesis using same spent [OF True] 2(7) e3(6) by auto
      qed
      from less.hyps [OF this 3(2,3), of ?out2 r1] obtain w' out' r' e' where
        "dpefd_wake_loop env w3 a ?out2 r1 = Some (w', out', r')" "good w' a" "eles w' a = Some e'"
        "asc_type e' = Some t" "able_events e' AND want_events e' = 0"
        "r' \<noteq> DPE_WAIT \<longrightarrow> want_events e' = 0"
        using 1(6) 2(6) 3(5) e3(4) less.prems(4) True by auto
      moreover have "dpefd_wake_loop env w a out r = dpefd_wake_loop env w3 a ?out2 r1"
        using less.prems False 1(1) 2(1) 3(1) True by (subst dpefd_wake_loop.simps) simp
      ultimately show ?thesis by auto
    next
      case False': False
      obtain w3 e3 where "upd_ele w2 a (want_events_update (\<lambda>_. 0)) = Some w3" "good w3 a"
        "eles w3 a = Some e3" "want_events e3 = 0" "asc_type e3 = asc_type e2"
        using set_want_good [OF 2(2,3)] by metis
      moreover from this(1) have "dpefd_wake_loop env w a out r = Some (w3, ?out2, r1)"
        using less.prems False 1(1) 2(1) False' by (subst dpefd_wake_loop.simps) auto
      ultimately show ?thesis using 1(6) 2(6) by auto
    qed
  qed
qed

text \<open>
  A wake returns.  Afterwards no event is both available and wanted: with edge-triggered epoll a
  wanted event still marked available would never be reported again.
\<close>

lemma wake_returns:
  assumes "good w a" "eles w a = Some e" "asc_type e = Some t" "asc_post (ascs env t) = Some post"
  shows "\<exists>w' out' r e'. dpefd_wake env w a out = Some (w', out', r) \<and> good w' a \<and>
    eles w' a = Some e' \<and> asc_type e' = Some t \<and> able_events e' AND want_events e' = 0 \<and>
    (r \<noteq> DPE_WAIT \<longrightarrow> want_events e' = 0)"
proof (cases "dpret_iserr (DPEVT_GET_ERR (able_events e))")
  case True
  obtain w' e' where "upd_ele w a (want_events_update (\<lambda>_. 0)) = Some w'" "good w' a"
    "eles w' a = Some e'" "want_events e' = 0" "asc_type e' = asc_type e"
    using set_want_good [OF assms(1,2)] by metis
  then show ?thesis using True assms(2,3) by (auto simp: dpefd_wake_def)
next
  case False
  obtain w1 e1 where 1: "apply_inva w a out = Some (w1, out\<lparr>out_inva := 0\<rparr>)" "good w1 a"
    "eles w1 a = Some e1" "asc_type e1 = asc_type e"
    using apply_inva_good [OF assms(1,2)] by metis
  obtain w2 e2 where 2: "upd_ele w1 a (want_events_update (\<lambda>_. ucast (out_want (out\<lparr>out_inva := 0\<rparr>)))) = Some w2"
    "good w2 a" "eles w2 a = Some e2" "asc_type e2 = asc_type e1"
    "want_events e2 = ucast (out_want (out\<lparr>out_inva := 0\<rparr>))"
    using set_want_good [OF 1(2,3)] by metis
  have "dpefd_wake env w a out = dpefd_wake_loop env w2 a (out\<lparr>out_inva := 0\<rparr>) DPE_WAIT"
    using False assms(2) 1(1) 2(1) by (auto simp: dpefd_wake_def)
  moreover have "asc_type e2 = Some t" using 1(4) 2(4) assms(3) by simp
  ultimately show ?thesis
    using wake_loop_returns [OF 2(2,3) _ assms(4), of "out\<lparr>out_inva := 0\<rparr>" "DPE_WAIT"] 2(5) by simp
qed

lemma feed_returns:
  assumes "good w a" "eles w a = Some e" "asc_type e = Some t" "asc_post (ascs env t) = Some post"
  shows "\<exists>w' over e'. dpefd_feed env w a events = Some (w', over) \<and> good w' a \<and>
    eles w' a = Some e' \<and> asc_type e' = Some t \<and> able_events e' AND want_events e' = 0 \<and>
    (over \<longrightarrow> want_events e' = 0 \<and> ret e' \<noteq> DPE_WAIT)"
proof -
  let ?e = "e\<lparr>able_events := able_events e OR ucast events\<rparr>"
  let ?w = "put_ele w a ?e"
  have g: "good ?w a"
    using good_masks [OF assms(1,2), where x = "able_events e OR ucast events" and y = "want_events e"
      and z = "ret e"] by simp
  show ?thesis
  proof (cases "want_events e = 0")
    case True
    then show ?thesis using assms g by (auto simp: dpefd_feed_def Let_def)
  next
    case False
    let ?out = "\<lparr>out_want = ucast (want_events ?e), out_inva = 0, out_able = ucast (able_events ?e),
      out_data = dpele_asc_data ?e\<rparr>"
    have "eles ?w a = Some ?e" "asc_type ?e = Some t" using assms by auto
    then obtain w2 out2 r e2 where 2: "dpefd_wake env ?w a ?out = Some (w2, out2, r)" "good w2 a"
      "eles w2 a = Some e2" "asc_type e2 = Some t" "able_events e2 AND want_events e2 = 0"
      "r \<noteq> DPE_WAIT \<longrightarrow> want_events e2 = 0"
      using wake_returns [OF g _ _ assms(4), of ?e ?out] by auto
    have g2: "good (put_ele w2 a (e2\<lparr>ret := x\<rparr>)) a" for x
      using good_masks [OF 2(2,3), where x = "able_events e2" and y = "want_events e2" and z = x] by simp
    show ?thesis using 2 g2 False assms(2,3)
      by (cases "r = DPE_WAIT") (auto simp: dpefd_feed_def Let_def dpele_is_doing_def)
  qed
qed

end

end
