(* ===== verification/Dpctc.thy ===== *)
theory Dpctc
  imports Dpele
begin

text \<open>
  Cross-thread calls (\<^verbatim>\<open>dpevp_epoll.c\<close> and \<^verbatim>\<open>dpevp_pri.c\<close>): the target of a call,
  the queues through which a worker and the master exchange calls, the two eventfd descriptors that
  carry the tokens of the exchange, and the functions that take calls out of a loop's inbox.

  \<open>*_case\<close> functions are the labels of the \<open>switch\<close> over the call's status, with its fall-through;
  the status that selects the label is loaded before the compare-and-exchange that confirms it.
\<close>

section \<open>Target of a call\<close>

definition ptr_byte :: "64 word \<Rightarrow> nat \<Rightarrow> u32" where
  "ptr_byte p i = ucast (take_bit 8 (drop_bit (8 * i) p))"

definition dpctc_hash_ptr :: "64 word \<Rightarrow> u32 \<Rightarrow> u32 option" where
  "dpctc_hash_ptr p rng =
     (let v = foldl (\<lambda>v i. v * 31 + ptr_byte p i) 0 [0..<8]
      in if rng = 0 then None else Some (v mod rng))"

definition dpctc_resolve_toid :: "('d, 's) world \<Rightarrow> nat \<Rightarrow> int \<Rightarrow> int option" where
  "dpctc_resolve_toid w key t =
     (if t \<ge> 0 \<and> t < gcount w then Some t
      else if t < 0 then do {
        n \<leftarrow> chk_int (- t);
        if n \<ge> type_count w then Some DPE_INVAL
        else do {
          c \<leftarrow> elem_at (each_count w) n;
          if c = 0 then Some DPE_INVAL
          else do {
            idx \<leftarrow> dpctc_hash_ptr (of_nat key) (of_int c);
            ids \<leftarrow> elem_at (each_ids w) n;
            elem_at ids (sint idx)
          }
        }
      }
      else Some DPE_INVAL)"

definition dpctc_set_toid :: "('d, 's) world \<Rightarrow> nat option \<Rightarrow> int \<Rightarrow> (('d, 's) world \<times> dpret) option" where
  "dpctc_set_toid w self t =
     (case self of
        None \<Rightarrow> Some (w, DPE_INVAL)
      | Some a \<Rightarrow> do {
          e \<leftarrow> eles w a;
          if ty_type (etype e) \<noteq> DPELE_TYPE_CTC then Some (w, DPE_INVAL)
          else do {
            t \<leftarrow> dpctc_resolve_toid w a t;
            if dpret_iserr t then Some (w, t)
            else Some (put_ele w a (e\<lparr>toid := of_int t\<rparr>), DPE_OK)
          }
        })"

definition dpctc_type_init :: "nat \<Rightarrow> va_list \<Rightarrow> ('d, 's) world \<Rightarrow> (('d, 's) world \<times> dpret) option" where
  "dpctc_type_init a va w = do {
     (t, va) \<leftarrow> va_int va;
     (detach, _) \<leftarrow> va_int va;
     (w1, r) \<leftarrow> dpctc_set_toid w (Some a) t;
     if dpret_iserr r then Some (w1, r)
     else do {
       e \<leftarrow> eles w1 a;
       let (e1, r1) = dpele_set_detach e (detach \<noteq> 0);
       Some (put_ele w1 a e1, r1)
     }
   }"

definition dptmr_init_type :: dpele_type where
  "dptmr_init_type = \<lparr>ty_name = ''tmr'', ty_type = DPELE_TYPE_TMR, ty_size = 0,
     ty_iotype = DPAIO_TYPE_NAN, ty_events = 0, ty_init = None, ty_copy = None, ty_fini = None\<rparr>"

text \<open>The index of \<open>_dpctc_type_init\<close> in the table of initialisers.\<close>

definition dpctc_init_type :: "nat \<Rightarrow> dpele_type" where
  "dpctc_init_type f = \<lparr>ty_name = ''ctc'', ty_type = DPELE_TYPE_CTC, ty_size = 0,
     ty_iotype = DPAIO_TYPE_NAN, ty_events = 0, ty_init = Some f, ty_copy = None, ty_fini = None\<rparr>"

section \<open>Status\<close>

definition dpctc_ces_stat :: "('d, 's) world \<Rightarrow> nat \<Rightarrow> dpctc_stat \<Rightarrow> dpctc_stat \<Rightarrow> (('d, 's) world \<times> bool) option" where
  "dpctc_ces_stat w a new_stat old_stat = do {
     e \<leftarrow> eles w a;
     Some (if stat e = old_stat then (put_ele w a (e\<lparr>stat := new_stat\<rparr>), True) else (w, False))
   }"

definition dpctc_set_stat :: "('d, 's) world \<Rightarrow> nat \<Rightarrow> dpctc_stat \<Rightarrow> ('d, 's) world option" where
  "dpctc_set_stat w a s = upd_ele w a (stat_update (\<lambda>_. s))"

definition dpctc_del :: "('d, 's) env \<Rightarrow> ('d, 's) world \<Rightarrow> nat \<Rightarrow> (('d, 's) world \<times> bool) option" where
  "dpctc_del env w a = do {
     e \<leftarrow> eles w a;
     if dpele_refc e = 0 then do { w1 \<leftarrow> dpele_del_pri env w a; Some (w1, True) }
     else Some (w, is_detach e)
   }"

section \<open>Wake descriptors\<close>

abbreviation (input) CTC_INCR_FLAG :: "64 word" where "CTC_INCR_FLAG \<equiv> 0x0000000000000001"

abbreviation (input) CTC_TAKE_FLAG :: "64 word" where "CTC_TAKE_FLAG \<equiv> 0x0000000100000000"

abbreviation (input) CTC_TAKE_MASK :: "64 word" where "CTC_TAKE_MASK \<equiv> 0xffffffff00000000"

abbreviation (input) CTC_PUSH_MASK :: "64 word" where "CTC_PUSH_MASK \<equiv> 0x00000000ffffffff"

text \<open>
  \<open>write(2)\<close> on a non-blocking eventfd adds to the counter, or fails where the sum would reach
  \<open>2 ^ 64 - 1\<close>; \<open>read(2)\<close> returns the counter and resets it, or fails where it is zero, leaving the
  variable as it was.
\<close>

definition eventfd_write :: "('d, 's) world \<Rightarrow> wake_ref \<Rightarrow> 64 word \<Rightarrow> ('d, 's) world" where
  "eventfd_write w r v =
     (if unat (eventfd w r) + unat v < 2 ^ 64 - 1
      then w\<lparr>eventfd := (eventfd w)(r := eventfd w r + v)\<rparr> else w)"

definition eventfd_read :: "('d, 's) world \<Rightarrow> wake_ref \<Rightarrow> 64 word \<Rightarrow> ('d, 's) world \<times> 64 word" where
  "eventfd_read w r x =
     (if eventfd w r = 0 then (w, x) else (w\<lparr>eventfd := (eventfd w)(r := 0)\<rparr>, eventfd w r))"

primrec wake_id :: "wake_ref \<Rightarrow> nat" where
  "wake_id (commit_wake i) = i"
| "wake_id (accept_wake i) = i"

section \<open>Exchange of calls\<close>

definition worker_move_accept_ctc :: "('d, 's) world \<Rightarrow> nat \<Rightarrow> ('d, 's) world" where
  "worker_move_accept_ctc w i =
     (let w1 = dpele_deque_move w (accepted_ctcs i) (accepting_ctcs i)
      in if dq_head (deqs w1 (accepted_ctcs i)) \<noteq> None
         then eventfd_write w1 (accept_wake i) CTC_INCR_FLAG
         else upd_evp w1 i (is_respond_ctc_update (\<lambda>_. True)))"

definition worker_move_commit_ctc :: "('d, 's) world \<Rightarrow> nat \<Rightarrow> ('d, 's) world" where
  "worker_move_commit_ctc w i =
     (let w1 = dpele_deque_move w (commited_ctcs i) (commiting_ctcs i)
      in if dq_head (deqs w1 (commited_ctcs i)) \<noteq> None
         then eventfd_write w1 (commit_wake i) CTC_INCR_FLAG
         else upd_evp w1 i (is_request_ctc_update (\<lambda>_. True)))"

definition worker_push_commit_ctc :: "('d, 's) world \<Rightarrow> nat \<Rightarrow> nat \<Rightarrow> ('d, 's) world option" where
  "worker_push_commit_ctc w i a =
     (if is_request_ctc (evps w i) then do {
        let w1 = upd_evp w i (is_request_ctc_update (\<lambda>_. False));
        w2 \<leftarrow> dpele_deque_push_back w1 (commited_ctcs i) a;
        Some (eventfd_write w2 (commit_wake i) CTC_INCR_FLAG)
      }
      else dpele_deque_push_back w (commiting_ctcs i) a)"

definition worker_push_accept_ctc :: "('d, 's) world \<Rightarrow> nat \<Rightarrow> nat \<Rightarrow> ('d, 's) world option" where
  "worker_push_accept_ctc w i a =
     (if is_respond_ctc (evps w i) then do {
        let w1 = upd_evp w i (is_respond_ctc_update (\<lambda>_. False));
        w2 \<leftarrow> dpele_deque_push_back w1 (accepted_ctcs i) a;
        Some (eventfd_write w2 (accept_wake i) CTC_INCR_FLAG)
      }
      else dpele_deque_push_back w (accepting_ctcs i) a)"

definition worker_take_commit_ctc :: "('d, 's) world \<Rightarrow> nat \<Rightarrow> deque_ref \<Rightarrow> ('d, 's) world option" where
  "worker_take_commit_ctc w i ctcs = do {
     w1 \<leftarrow> dpele_deque_pushq w ctcs (commited_ctcs i);
     Some (eventfd_write w1 (accept_wake i) CTC_TAKE_FLAG)
   }"

definition worker_take_accept_ctc :: "('d, 's) world \<Rightarrow> nat \<Rightarrow> deque_ref \<Rightarrow> ('d, 's) world option" where
  "worker_take_accept_ctc w i ctcs = do {
     w1 \<leftarrow> dpele_deque_pushq w ctcs (accepted_ctcs i);
     Some (eventfd_write w1 (commit_wake i) CTC_TAKE_FLAG)
   }"

text \<open>\<open>_gevps.evps[t]\<close>, cast to a worker: the master's own slot is none.\<close>

definition gevps_worker :: "('d, 's) world \<Rightarrow> byte \<Rightarrow> nat option" where
  "gevps_worker w t = (if t \<noteq> 0 \<and> uint t < gcount w then Some (unat t) else None)"

definition worker_finish_ctc :: "('d, 's) world \<Rightarrow> nat \<Rightarrow> nat \<Rightarrow> ('d, 's) world option" where
  "worker_finish_ctc w i a = do {
     e \<leftarrow> eles w a;
     if unat (fromid e) = i then dpele_deque_push_back w (enter_ctcs i) a
     else worker_push_commit_ctc w i a
   }"

definition worker_commit_ctc :: "('d, 's) world \<Rightarrow> nat \<Rightarrow> nat \<Rightarrow> ('d, 's) world option" where
  "worker_commit_ctc w i a = do {
     e \<leftarrow> eles w a;
     if unat (toid e) = i then dpele_deque_push_back w (enter_ctcs i) a
     else worker_push_commit_ctc w i a
   }"

definition master_finish_ctc :: "('d, 's) world \<Rightarrow> nat \<Rightarrow> nat \<Rightarrow> ('d, 's) world option" where
  "master_finish_ctc w i a = do {
     e \<leftarrow> eles w a;
     if unat (fromid e) = i then dpele_deque_push_back w (enter_ctcs i) a
     else do { j \<leftarrow> gevps_worker w (fromid e); worker_push_accept_ctc w j a }
   }"

definition master_commit_ctc :: "('d, 's) world \<Rightarrow> nat \<Rightarrow> nat \<Rightarrow> ('d, 's) world option" where
  "master_commit_ctc w i a = do {
     e \<leftarrow> eles w a;
     if unat (toid e) = i then dpele_deque_push_back w (enter_ctcs i) a
     else do { j \<leftarrow> gevps_worker w (toid e); worker_push_accept_ctc w j a }
   }"

text \<open>The function pointers \<open>commit_ctc_f\<close> and \<open>finish_ctc_f\<close> of loop \<open>i\<close>.\<close>

definition commit_ctc_f :: "('d, 's) world \<Rightarrow> nat \<Rightarrow> nat \<Rightarrow> ('d, 's) world option" where
  "commit_ctc_f w i a = (if i = 0 then master_commit_ctc w i a else worker_commit_ctc w i a)"

definition finish_ctc_f :: "('d, 's) world \<Rightarrow> nat \<Rightarrow> nat \<Rightarrow> ('d, 's) world option" where
  "finish_ctc_f w i a = (if i = 0 then master_finish_ctc w i a else worker_finish_ctc w i a)"

section \<open>Reaping calls\<close>

text \<open>The flag says whether the function returns the call (\<open>True\<close>) or goes on with the next one.\<close>

definition worker_case_default :: "('d, 's) env \<Rightarrow> ('d, 's) world \<Rightarrow> nat \<Rightarrow> nat \<Rightarrow> (('d, 's) world \<times> bool) option" where
  "worker_case_default env w i a = do {
     w1 \<leftarrow> dptmrset_remove w i a;
     (w2, gone) \<leftarrow> dpctc_del env w1 a;
     Some (w2, \<not> gone)
   }"

definition worker_case_running :: "('d, 's) env \<Rightarrow> ('d, 's) world \<Rightarrow> nat \<Rightarrow> nat \<Rightarrow> (('d, 's) world \<times> bool) option" where
  "worker_case_running env w i a = do {
     e \<leftarrow> eles w a;
     (case Option.bind (asc_type e) (\<lambda>t. asc_post (ascs env t)) of
        Some post \<Rightarrow> do {
          (w1, _, r) \<leftarrow> post a \<lparr>out_want = 0, out_inva = 0, out_able = 0, out_data = dpele_asc_data e\<rparr> w;
          w2 \<leftarrow> upd_ele w1 a (\<lambda>e. e\<lparr>ret := r, asc_type := None\<rparr>);
          w3 \<leftarrow> dpctc_set_stat w2 a DPCTC_FINISH;
          w4 \<leftarrow> worker_finish_ctc w3 i a;
          Some (w4, False)
        }
      | None \<Rightarrow> Some (w, True))
   }"

definition worker_case_cancel :: "('d, 's) env \<Rightarrow> ('d, 's) world \<Rightarrow> nat \<Rightarrow> nat \<Rightarrow> (('d, 's) world \<times> bool) option" where
  "worker_case_cancel env w i a = do {
     (w1, ok) \<leftarrow> dpctc_ces_stat w a DPCTC_FINISH DPCTC_CANCEL;
     if ok then do {
       (w2, gone) \<leftarrow> dpctc_del env w1 a;
       w3 \<leftarrow> (if gone then Some w2 else worker_finish_ctc w2 i a);
       Some (w3, False)
     }
     else worker_case_running env w1 i a
   }"

definition worker_case_commit :: "('d, 's) env \<Rightarrow> ('d, 's) world \<Rightarrow> nat \<Rightarrow> nat \<Rightarrow> (('d, 's) world \<times> bool) option" where
  "worker_case_commit env w i a = do {
     (w1, ok) \<leftarrow> dpctc_ces_stat w a DPCTC_RUNNING DPCTC_COMMIT;
     if ok then Some (w1, True) else worker_case_cancel env w1 i a
   }"

definition worker_reap_one ::
  "('d, 's) env \<Rightarrow> ('d, 's) world \<Rightarrow> nat \<Rightarrow> nat \<Rightarrow> dpctc_stat \<Rightarrow> (('d, 's) world \<times> bool) option" where
  "worker_reap_one env w i a s =
     (case s of
        DPCTC_COMMIT \<Rightarrow> worker_case_commit env w i a
      | DPCTC_CANCEL \<Rightarrow> worker_case_cancel env w i a
      | DPCTC_RUNNING \<Rightarrow> worker_case_running env w i a
      | DPCTC_INITIAL \<Rightarrow> worker_case_default env w i a
      | DPCTC_FINISH \<Rightarrow> worker_case_default env w i a)"

definition master_case_default :: "('d, 's) env \<Rightarrow> ('d, 's) world \<Rightarrow> nat \<Rightarrow> nat \<Rightarrow> (('d, 's) world \<times> bool) option" where
  "master_case_default env w i a = do {
     e \<leftarrow> eles w a;
     if fromid e = 0 then do {
       w1 \<leftarrow> dptmrset_remove w i a;
       (w2, gone) \<leftarrow> dpctc_del env w1 a;
       Some (w2, \<not> gone)
     }
     else do {
       j \<leftarrow> gevps_worker w (fromid e);
       w1 \<leftarrow> worker_push_accept_ctc w j a;
       Some (w1, False)
     }
   }"

definition master_case_cancel :: "('d, 's) env \<Rightarrow> ('d, 's) world \<Rightarrow> nat \<Rightarrow> nat \<Rightarrow> (('d, 's) world \<times> bool) option" where
  "master_case_cancel env w i a = do {
     (w1, ok) \<leftarrow> dpctc_ces_stat w a DPCTC_FINISH DPCTC_CANCEL;
     if ok then do {
       (w2, gone) \<leftarrow> dpctc_del env w1 a;
       w3 \<leftarrow> (if gone then Some w2 else master_finish_ctc w2 i a);
       Some (w3, False)
     }
     else master_case_default env w1 i a
   }"

definition master_case_commit :: "('d, 's) env \<Rightarrow> ('d, 's) world \<Rightarrow> nat \<Rightarrow> nat \<Rightarrow> (('d, 's) world \<times> bool) option" where
  "master_case_commit env w i a = do {
     (w1, ok) \<leftarrow> dpctc_ces_stat w a DPCTC_RUNNING DPCTC_COMMIT;
     if ok then do {
       e \<leftarrow> eles w1 a;
       if toid e = 0 then Some (w1, True)
       else do {
         j \<leftarrow> gevps_worker w1 (toid e);
         w2 \<leftarrow> worker_push_accept_ctc w1 j a;
         Some (w2, False)
       }
     }
     else master_case_cancel env w1 i a
   }"

definition master_reap_one ::
  "('d, 's) env \<Rightarrow> ('d, 's) world \<Rightarrow> nat \<Rightarrow> nat \<Rightarrow> dpctc_stat \<Rightarrow> (('d, 's) world \<times> bool) option" where
  "master_reap_one env w i a s =
     (case s of
        DPCTC_COMMIT \<Rightarrow> master_case_commit env w i a
      | DPCTC_CANCEL \<Rightarrow> master_case_cancel env w i a
      | DPCTC_RUNNING \<Rightarrow> master_case_default env w i a
      | DPCTC_INITIAL \<Rightarrow> master_case_default env w i a
      | DPCTC_FINISH \<Rightarrow> master_case_default env w i a)"

partial_function (option) worker_reap_ctc ::
  "('d, 's) env \<Rightarrow> ('d, 's) world \<Rightarrow> nat \<Rightarrow> (('d, 's) world \<times> nat option) option" where
  "worker_reap_ctc env w i =
     Option.bind (dpele_deque_pop_front w (enter_ctcs i)) (\<lambda>(w1, r).
       case r of
         None \<Rightarrow> Some (w1, None)
       | Some a \<Rightarrow>
           Option.bind (eles w1 a) (\<lambda>e.
           Option.bind (worker_reap_one env w1 i a (stat e)) (\<lambda>(w2, done).
             if done then Some (w2, Some a) else worker_reap_ctc env w2 i)))"

partial_function (option) master_reap_ctc ::
  "('d, 's) env \<Rightarrow> ('d, 's) world \<Rightarrow> nat \<Rightarrow> (('d, 's) world \<times> nat option) option" where
  "master_reap_ctc env w i =
     Option.bind (dpele_deque_pop_front w (enter_ctcs i)) (\<lambda>(w1, r).
       case r of
         None \<Rightarrow> Some (w1, None)
       | Some a \<Rightarrow>
           Option.bind (eles w1 a) (\<lambda>e.
           Option.bind (master_reap_one env w1 i a (stat e)) (\<lambda>(w2, done).
             if done then Some (w2, Some a) else master_reap_ctc env w2 i)))"

section \<open>Reaping events\<close>

text \<open>What a loop does with a wake descriptor whose value \<open>ev\<close> it has read.\<close>

definition worker_woken :: "('d, 's) world \<Rightarrow> nat \<Rightarrow> 64 word \<Rightarrow> ('d, 's) world option" where
  "worker_woken w i ev = do {
     let w1 = (if ev AND CTC_TAKE_MASK \<noteq> 0 then worker_move_commit_ctc w i else w);
     if ev AND CTC_PUSH_MASK \<noteq> 0 then worker_take_accept_ctc w1 i (enter_ctcs i) else Some w1
   }"

definition master_woken :: "('d, 's) world \<Rightarrow> nat \<Rightarrow> nat \<Rightarrow> 64 word \<Rightarrow> ('d, 's) world option" where
  "master_woken w i j ev = do {
     let w1 = (if ev AND CTC_TAKE_MASK \<noteq> 0 then worker_move_accept_ctc w j else w);
     if ev AND CTC_PUSH_MASK \<noteq> 0 then worker_take_commit_ctc w1 j (enter_ctcs i) else Some w1
   }"

definition ev_mask :: "epoll_event \<Rightarrow> u32" where
  "ev_mask evd =
     (if ev_events evd AND EPOLLRDHUP \<noteq> 0 then ev_events evd OR DPEVT_HUP else ev_events evd)"

partial_function (option) worker_reap_efd_from ::
  "('d, 's) env \<Rightarrow> ('d, 's) world \<Rightarrow> nat \<Rightarrow> 64 word \<Rightarrow> (('d, 's) world \<times> nat option) option" where
  "worker_reap_efd_from env w i ctc_ev =
     (if ev_index (evps w i) \<ge> ev_count (evps w i) then Some (w, None)
      else
        Option.bind (elem_at (evs (evps w i)) (ev_index (evps w i))) (\<lambda>evd.
          (case ev_ptr evd of
             Pwake r \<Rightarrow>
               Option.bind (Some (eventfd_read (upd_evp w i (ev_index_update (\<lambda>n. n + 1))) r ctc_ev)) (\<lambda>(w1, ev).
               Option.bind (worker_woken w1 i ev) (\<lambda>w2. worker_reap_efd_from env w2 i ev))
           | Pele a \<Rightarrow>
               Option.bind (dpefd_feed env (upd_evp w i (ev_index_update (\<lambda>n. n + 1))) a (ev_mask evd)) (\<lambda>(w1, over).
                 if over then Option.bind (dptmrset_remove w1 i a) (\<lambda>w2. Some (w2, Some a))
                 else worker_reap_efd_from env w1 i ctc_ev))))"

definition worker_reap_efd :: "('d, 's) env \<Rightarrow> ('d, 's) world \<Rightarrow> nat \<Rightarrow> (('d, 's) world \<times> nat option) option" where
  "worker_reap_efd env w i =
     (if ev_index (evps w i) \<ge> ev_count (evps w i) then Some (w, None)
      else worker_reap_efd_from env w i 0)"

partial_function (option) master_reap_efd_from ::
  "('d, 's) env \<Rightarrow> ('d, 's) world \<Rightarrow> nat \<Rightarrow> 64 word \<Rightarrow> (('d, 's) world \<times> nat option) option" where
  "master_reap_efd_from env w i ctc_ev =
     (if ev_index (evps w i) \<ge> ev_count (evps w i) then Some (w, None)
      else
        Option.bind (elem_at (evs (evps w i)) (ev_index (evps w i))) (\<lambda>evd.
          (case ev_ptr evd of
             Pwake r \<Rightarrow>
               Option.bind (Some (eventfd_read (upd_evp w i (ev_index_update (\<lambda>n. n + 1))) r ctc_ev)) (\<lambda>(w1, ev).
               Option.bind (master_woken w1 i (wake_id r) ev) (\<lambda>w2. master_reap_efd_from env w2 i ev))
           | Pele a \<Rightarrow>
               Option.bind (dpefd_feed env (upd_evp w i (ev_index_update (\<lambda>n. n + 1))) a (ev_mask evd)) (\<lambda>(w1, over).
                 if over then Option.bind (dptmrset_remove w1 i a) (\<lambda>w2. Some (w2, Some a))
                 else master_reap_efd_from env w1 i ctc_ev))))"

definition master_reap_efd :: "('d, 's) env \<Rightarrow> ('d, 's) world \<Rightarrow> nat \<Rightarrow> (('d, 's) world \<times> nat option) option" where
  "master_reap_efd env w i =
     (if ev_index (evps w i) \<ge> ev_count (evps w i) then Some (w, None)
      else master_reap_efd_from env w i 0)"

end
