(* ===== verification/Dpctc_Exchange.thy ===== *)
theory Dpctc_Exchange
  imports Dpctc
begin

text \<open>
  The exchange of cross-thread calls between the master and its workers, under any interleaving.

  For each worker there are two directions.  In each, one token says who may touch the shared
  queue: the sender's flag (\<open>is_request_ctc\<close> or \<open>is_respond_ctc\<close>), a push mark on its way to the
  receiver, or a take mark on its way back, in an eventfd counter or in the local variable a thread
  has read it into.  The invariant \<open>exchange\<close> says that the token is in exactly one place, which
  makes the queues race free and bounds the counters; the channel seen by the callers is a reliable
  FIFO, and as long as a call is on its way some thread has a wake-up pending.

  A step is one call of an exchange function.  Before its final write to an eventfd such a call
  touches only queues whose token its thread holds (\<open>exchange_exclusive\<close>), so a coarser or finer
  interleaving observes the same.
\<close>

section \<open>Marks\<close>

definition mark :: "bool \<Rightarrow> bool \<Rightarrow> 64 word" where
  "mark p t = of_bool p + of_bool t * CTC_TAKE_FLAG"

definition pushed :: "64 word \<Rightarrow> bool" where
  "pushed x \<longleftrightarrow> x AND CTC_PUSH_MASK \<noteq> 0"

definition taken :: "64 word \<Rightarrow> bool" where
  "taken x \<longleftrightarrow> x AND CTC_TAKE_MASK \<noteq> 0"

definition marked :: "64 word \<Rightarrow> bool" where
  "marked x \<longleftrightarrow> x = mark (pushed x) (taken x)"

lemma mark_pushed [simp]: "pushed (mark p t) = p"
  by (cases p; cases t; simp add: mark_def pushed_def)

lemma mark_taken [simp]: "taken (mark p t) = t"
  by (cases p; cases t; simp add: mark_def taken_def)

lemma mark_none [simp]: "mark False False = 0"
  by (simp add: mark_def)

lemma marked_mark [simp]: "marked (mark p t)"
  by (simp add: marked_def)

lemma marked_0 [simp]: "marked 0" "\<not> pushed 0" "\<not> taken 0"
  by (simp_all add: marked_def pushed_def taken_def mark_def)

lemma marked_eq_0:
  assumes "marked x"
  shows "x = 0 \<longleftrightarrow> \<not> pushed x \<and> \<not> taken x"
proof
  assume "\<not> pushed x \<and> \<not> taken x"
  then have "x = mark False False" using assms by (simp add: marked_def)
  then show "x = 0" by simp
qed simp

lemma write_push_mark:
  assumes "marked (eventfd w r)" "\<not> pushed (eventfd w r)"
  shows "eventfd_write w r CTC_INCR_FLAG =
    w\<lparr>eventfd := (eventfd w)(r := mark True (taken (eventfd w r)))\<rparr>"
proof -
  have "eventfd w r = mark False (taken (eventfd w r))" using assms by (simp add: marked_def)
  moreover have "eventfd_write w r CTC_INCR_FLAG = w\<lparr>eventfd := (eventfd w)(r := mark True t)\<rparr>"
    if "eventfd w r = mark False t" for t
    using that by (cases t; simp add: eventfd_write_def mark_def)
  ultimately show ?thesis by blast
qed

lemma write_take_mark:
  assumes "marked (eventfd w r)" "\<not> taken (eventfd w r)"
  shows "eventfd_write w r CTC_TAKE_FLAG =
    w\<lparr>eventfd := (eventfd w)(r := mark (pushed (eventfd w r)) True)\<rparr>"
proof -
  have "eventfd w r = mark (pushed (eventfd w r)) False" using assms by (simp add: marked_def)
  moreover have "eventfd_write w r CTC_TAKE_FLAG = w\<lparr>eventfd := (eventfd w)(r := mark p True)\<rparr>"
    if "eventfd w r = mark p False" for p
    using that by (cases p; simp add: eventfd_write_def mark_def)
  ultimately show ?thesis by blast
qed

lemma read_mark: "eventfd_read w r 0 = (w\<lparr>eventfd := (eventfd w)(r := 0)\<rparr>, eventfd w r)"
  by (auto simp: eventfd_read_def fun_upd_idem)

section \<open>Token invariant\<close>

definition one_of :: "bool list \<Rightarrow> bool" where
  "one_of bs \<longleftrightarrow> sum_list (map of_bool bs) = (1 :: nat)"

lemma one_of_5 [simp]:
  "one_of [a, b, c, d, e] \<longleftrightarrow>
     (a \<and> \<not> b \<and> \<not> c \<and> \<not> d \<and> \<not> e) \<or> (\<not> a \<and> b \<and> \<not> c \<and> \<not> d \<and> \<not> e) \<or> (\<not> a \<and> \<not> b \<and> c \<and> \<not> d \<and> \<not> e) \<or>
     (\<not> a \<and> \<not> b \<and> \<not> c \<and> d \<and> \<not> e) \<or> (\<not> a \<and> \<not> b \<and> \<not> c \<and> \<not> d \<and> e)"
  by (cases a; cases b; cases c; cases d; cases e) (simp_all add: one_of_def)

text \<open>
  One direction: \<open>flag\<close> is the sender's, \<open>p\<close> and \<open>p'\<close> are push marks in the counter and in the
  receiver's variable, \<open>t\<close> and \<open>t'\<close> take marks in the counter and in the sender's variable.
\<close>

definition channel :: "bool \<Rightarrow> bool \<Rightarrow> bool \<Rightarrow> bool \<Rightarrow> bool \<Rightarrow> 'a list \<Rightarrow> 'a list \<Rightarrow> bool" where
  "channel flag p p' t t' shared private \<longleftrightarrow> one_of [flag, p, p', t, t'] \<and>
     (shared \<noteq> [] \<longleftrightarrow> p \<or> p') \<and> (flag \<longrightarrow> private = [])"

text \<open>\<open>rw i\<close> is the \<open>ctc_ev\<close> of worker \<open>i\<close>, \<open>rm i\<close> the one of the master for that worker.\<close>

definition exchange_at ::
  "('d, 's) world \<Rightarrow> (nat \<Rightarrow> 64 word) \<Rightarrow> (nat \<Rightarrow> 64 word) \<Rightarrow> (deque_ref \<Rightarrow> nat list) \<Rightarrow> nat \<Rightarrow> bool" where
  "exchange_at w rw rm L i \<longleftrightarrow>
     marked (eventfd w (commit_wake i)) \<and> marked (rm i) \<and> marked (eventfd w (accept_wake i)) \<and> marked (rw i) \<and>
     channel (is_request_ctc (evps w i)) (pushed (eventfd w (commit_wake i))) (pushed (rm i))
       (taken (eventfd w (accept_wake i))) (taken (rw i)) (L (commited_ctcs i)) (L (commiting_ctcs i)) \<and>
     channel (is_respond_ctc (evps w i)) (pushed (eventfd w (accept_wake i))) (pushed (rw i))
       (taken (eventfd w (commit_wake i))) (taken (rm i)) (L (accepted_ctcs i)) (L (accepting_ctcs i))"

definition exchange ::
  "('d, 's) world \<Rightarrow> (nat \<Rightarrow> 64 word) \<Rightarrow> (nat \<Rightarrow> 64 word) \<Rightarrow> (deque_ref \<Rightarrow> nat list) \<Rightarrow> bool" where
  "exchange w rw rm L \<longleftrightarrow> queues w L \<and> (\<forall>i. 0 < i \<longrightarrow> exchange_at w rw rm L i)"

text \<open>The calls on their way from worker \<open>i\<close> to the master and back, oldest first.\<close>

definition up_channel :: "(deque_ref \<Rightarrow> nat list) \<Rightarrow> nat \<Rightarrow> nat list" where
  "up_channel L i = L (commited_ctcs i) @ L (commiting_ctcs i)"

definition down_channel :: "(deque_ref \<Rightarrow> nat list) \<Rightarrow> nat \<Rightarrow> nat list" where
  "down_channel L i = L (accepted_ctcs i) @ L (accepting_ctcs i)"

section \<open>Effect of the operations\<close>

lemma queues_fields:
  assumes "queues w L" "eles w' = eles w" "deqs w' = deqs w"
  shows "queues w' L"
  using assms by (simp add: queues_def deque_is_def)

lemma relinks_fields:
  assumes "relinks w w'"
  shows "evps w' = evps w" "eventfd w' = eventfd w" "gevp w' = gevp w" "gcount w' = gcount w"
proof -
  have "w'\<lparr>eles := eles w, deqs := deqs w\<rparr> = w" using assms by (simp add: relinks_def)
  then show "evps w' = evps w" "eventfd w' = eventfd w" "gevp w' = gevp w" "gcount w' = gcount w"
    by (metis world.select_convs world.simps world.surjective world.update_convs)+
qed

text \<open>What concerns worker \<open>i\<close>: its two wake descriptors, flags, variables and four queues.\<close>

definition unaffected ::
  "('d, 's) world \<Rightarrow> ('d, 's) world \<Rightarrow> (deque_ref \<Rightarrow> nat list) \<Rightarrow> (deque_ref \<Rightarrow> nat list) \<Rightarrow> nat \<Rightarrow> bool" where
  "unaffected w w' L L' i \<longleftrightarrow> eventfd w' (commit_wake i) = eventfd w (commit_wake i) \<and>
     eventfd w' (accept_wake i) = eventfd w (accept_wake i) \<and>
     is_request_ctc (evps w' i) = is_request_ctc (evps w i) \<and>
     is_respond_ctc (evps w' i) = is_respond_ctc (evps w i) \<and>
     L' (commited_ctcs i) = L (commited_ctcs i) \<and> L' (commiting_ctcs i) = L (commiting_ctcs i) \<and>
     L' (accepted_ctcs i) = L (accepted_ctcs i) \<and> L' (accepting_ctcs i) = L (accepting_ctcs i)"

lemma exchange_at_unaffected:
  "exchange_at w rw rm L i \<Longrightarrow> unaffected w w' L L' i \<Longrightarrow> rw' i = rw i \<Longrightarrow> rm' i = rm i \<Longrightarrow>
     exchange_at w' rw' rm' L' i"
  by (simp add: exchange_at_def unaffected_def)

lemma exchangeI:
  assumes "exchange w rw rm L" "queues w' L'" "exchange_at w' rw' rm' L' i"
    and "\<And>j. 0 < j \<Longrightarrow> j \<noteq> i \<Longrightarrow> unaffected w w' L L' j \<and> rw' j = rw j \<and> rm' j = rm j"
  shows "exchange w' rw' rm' L'"
  using assms exchange_at_unaffected unfolding exchange_def by metis

lemma exchange_queues: "exchange w rw rm L \<Longrightarrow> queues w L"
  by (simp add: exchange_def)

lemma exchange_atD: "exchange w rw rm L \<Longrightarrow> 0 < i \<Longrightarrow> exchange_at w rw rm L i"
  by (simp add: exchange_def)

lemma eventfd_write_fields [simp]:
  "eles (eventfd_write w r v) = eles w" "deqs (eventfd_write w r v) = deqs w"
  "evps (eventfd_write w r v) = evps w" "gevp (eventfd_write w r v) = gevp w"
  by (simp_all add: eventfd_write_def)

lemma push_commit_effect:
  assumes X: "exchange w rw rm L" and i: "0 < i" and a: "eles w a = Some e" "\<not> in_queue L a"
  obtains w' q where "worker_push_commit_ctc w i a = Some w'" "q \<in> {commited_ctcs i, commiting_ctcs i}"
    "exchange w' rw rm (L(q := L q @ [a]))" "q = commited_ctcs i \<Longrightarrow> L (commiting_ctcs i) = []"
proof (cases "is_request_ctc (evps w i)")
  case True
  let ?w1 = "upd_evp w i (is_request_ctc_update (\<lambda>_. False))"
  let ?L = "L(commited_ctcs i := L (commited_ctcs i) @ [a])"
  note at_i = exchange_atD [OF X i, unfolded exchange_at_def]
  have "queues ?w1 L" by (rule queues_fields [OF exchange_queues [OF X]]) simp_all
  then obtain w2 where w2: "dpele_deque_push_back ?w1 (commited_ctcs i) a = Some w2" "queues w2 ?L"
    "relinks ?w1 w2"
    using a by (auto intro: queues_push_back [of ?w1 L a e "commited_ctcs i"])
  note f = relinks_fields(1,2) [OF w2(3)]
  have idle: "L (commited_ctcs i) = []" "L (commiting_ctcs i) = []"
    "\<not> pushed (eventfd w (commit_wake i))"
    using at_i True by (auto simp: channel_def)
  let ?w3 = "w2\<lparr>eventfd := (eventfd w2)(commit_wake i := mark True (taken (eventfd w2 (commit_wake i))))\<rparr>"
  have w3: "eventfd_write w2 (commit_wake i) CTC_INCR_FLAG = ?w3"
    using at_i idle f by (intro write_push_mark) simp_all
  have "exchange_at ?w3 rw rm ?L i" using at_i f idle True by (simp add: exchange_at_def channel_def)
  moreover have "queues ?w3 ?L" by (rule queues_fields [OF w2(2)]) simp_all
  ultimately have "exchange ?w3 rw rm ?L" using f by (intro exchangeI [OF X]) (simp_all add: unaffected_def)
  moreover have "worker_push_commit_ctc w i a = Some ?w3"
    using True w2(1) w3 by (simp add: worker_push_commit_ctc_def)
  ultimately show ?thesis using that [of ?w3 "commited_ctcs i"] idle by simp
next
  case False
  let ?L = "L(commiting_ctcs i := L (commiting_ctcs i) @ [a])"
  obtain w2 where w2: "dpele_deque_push_back w (commiting_ctcs i) a = Some w2" "queues w2 ?L" "relinks w w2"
    using a by (auto intro: queues_push_back [OF exchange_queues [OF X], of a e "commiting_ctcs i"])
  note f = relinks_fields(1,2) [OF w2(3)]
  have "exchange_at w2 rw rm ?L i"
    using exchange_atD [OF X i] f False by (simp add: exchange_at_def channel_def)
  then have "exchange w2 rw rm ?L" using f by (intro exchangeI [OF X w2(2)]) (simp_all add: unaffected_def)
  moreover have "worker_push_commit_ctc w i a = Some w2"
    using False w2(1) by (simp add: worker_push_commit_ctc_def)
  ultimately show ?thesis using that [of w2 "commiting_ctcs i"] by simp
qed

lemma push_accept_effect:
  assumes X: "exchange w rw rm L" and i: "0 < i" and a: "eles w a = Some e" "\<not> in_queue L a"
  obtains w' q where "worker_push_accept_ctc w i a = Some w'" "q \<in> {accepted_ctcs i, accepting_ctcs i}"
    "exchange w' rw rm (L(q := L q @ [a]))" "q = accepted_ctcs i \<Longrightarrow> L (accepting_ctcs i) = []"
proof (cases "is_respond_ctc (evps w i)")
  case True
  let ?w1 = "upd_evp w i (is_respond_ctc_update (\<lambda>_. False))"
  let ?L = "L(accepted_ctcs i := L (accepted_ctcs i) @ [a])"
  note at_i = exchange_atD [OF X i, unfolded exchange_at_def]
  have "queues ?w1 L" by (rule queues_fields [OF exchange_queues [OF X]]) simp_all
  then obtain w2 where w2: "dpele_deque_push_back ?w1 (accepted_ctcs i) a = Some w2" "queues w2 ?L"
    "relinks ?w1 w2"
    using a by (auto intro: queues_push_back [of ?w1 L a e "accepted_ctcs i"])
  note f = relinks_fields(1,2) [OF w2(3)]
  have idle: "L (accepted_ctcs i) = []" "L (accepting_ctcs i) = []"
    "\<not> pushed (eventfd w (accept_wake i))"
    using at_i True by (auto simp: channel_def)
  let ?w3 = "w2\<lparr>eventfd := (eventfd w2)(accept_wake i := mark True (taken (eventfd w2 (accept_wake i))))\<rparr>"
  have w3: "eventfd_write w2 (accept_wake i) CTC_INCR_FLAG = ?w3"
    using at_i idle f by (intro write_push_mark) simp_all
  have "exchange_at ?w3 rw rm ?L i" using at_i f idle True by (simp add: exchange_at_def channel_def)
  moreover have "queues ?w3 ?L" by (rule queues_fields [OF w2(2)]) simp_all
  ultimately have "exchange ?w3 rw rm ?L" using f by (intro exchangeI [OF X]) (simp_all add: unaffected_def)
  moreover have "worker_push_accept_ctc w i a = Some ?w3"
    using True w2(1) w3 by (simp add: worker_push_accept_ctc_def)
  ultimately show ?thesis using that [of ?w3 "accepted_ctcs i"] idle by simp
next
  case False
  let ?L = "L(accepting_ctcs i := L (accepting_ctcs i) @ [a])"
  obtain w2 where w2: "dpele_deque_push_back w (accepting_ctcs i) a = Some w2" "queues w2 ?L" "relinks w w2"
    using a by (auto intro: queues_push_back [OF exchange_queues [OF X], of a e "accepting_ctcs i"])
  note f = relinks_fields(1,2) [OF w2(3)]
  have "exchange_at w2 rw rm ?L i"
    using exchange_atD [OF X i] f False by (simp add: exchange_at_def channel_def)
  then have "exchange w2 rw rm ?L" using f by (intro exchangeI [OF X w2(2)]) (simp_all add: unaffected_def)
  moreover have "worker_push_accept_ctc w i a = Some w2"
    using False w2(1) by (simp add: worker_push_accept_ctc_def)
  ultimately show ?thesis using that [of w2 "accepting_ctcs i"] by simp
qed


text \<open>The receiver takes the shared queue and sends the token back.\<close>

lemma take_commit_effect:
  assumes X: "exchange w rw rm L" and i: "0 < i" and p: "pushed (rm i)" "\<not> taken (rm i)"
    and q: "\<And>j. q \<noteq> commited_ctcs j \<and> q \<noteq> commiting_ctcs j \<and> q \<noteq> accepted_ctcs j \<and> q \<noteq> accepting_ctcs j"
  obtains w' where "worker_take_commit_ctc w i q = Some w'"
    "exchange w' rw (rm(i := 0)) (L(q := L q @ L (commited_ctcs i), commited_ctcs i := []))"
proof -
  let ?L = "L(q := L q @ L (commited_ctcs i), commited_ctcs i := [])"
  note at_i = exchange_atD [OF X i, unfolded exchange_at_def]
  obtain w2 where w2: "dpele_deque_pushq w q (commited_ctcs i) = Some w2" "queues w2 ?L" "relinks w w2"
    using queues_pushq [OF exchange_queues [OF X], of q "commited_ctcs i"] q by metis
  note f = relinks_fields(1,2) [OF w2(3)]
  let ?w3 = "w2\<lparr>eventfd := (eventfd w2)(accept_wake i := mark (pushed (eventfd w2 (accept_wake i))) True)\<rparr>"
  have w3: "eventfd_write w2 (accept_wake i) CTC_TAKE_FLAG = ?w3"
    using at_i p f by (intro write_take_mark) (auto simp: channel_def)
  have "exchange_at ?w3 rw (rm(i := 0)) ?L i" using at_i f p q by (auto simp: exchange_at_def channel_def)
  moreover have "queues ?w3 ?L" by (rule queues_fields [OF w2(2)]) simp_all
  ultimately have "exchange ?w3 rw (rm(i := 0)) ?L"
    using f q by (intro exchangeI [OF X]) (auto simp: unaffected_def)
  moreover have "worker_take_commit_ctc w i q = Some ?w3"
    using w2(1) w3 by (simp add: worker_take_commit_ctc_def)
  ultimately show ?thesis by (rule that [rotated])
qed

lemma take_accept_effect:
  assumes X: "exchange w rw rm L" and i: "0 < i" and p: "pushed (rw i)" "\<not> taken (rw i)"
    and q: "\<And>j. q \<noteq> accepted_ctcs j \<and> q \<noteq> accepting_ctcs j \<and> q \<noteq> commited_ctcs j \<and> q \<noteq> commiting_ctcs j"
  obtains w' where "worker_take_accept_ctc w i q = Some w'"
    "exchange w' (rw(i := 0)) rm (L(q := L q @ L (accepted_ctcs i), accepted_ctcs i := []))"
proof -
  let ?L = "L(q := L q @ L (accepted_ctcs i), accepted_ctcs i := [])"
  note at_i = exchange_atD [OF X i, unfolded exchange_at_def]
  obtain w2 where w2: "dpele_deque_pushq w q (accepted_ctcs i) = Some w2" "queues w2 ?L" "relinks w w2"
    using queues_pushq [OF exchange_queues [OF X], of q "accepted_ctcs i"] q by metis
  note f = relinks_fields(1,2) [OF w2(3)]
  let ?w3 = "w2\<lparr>eventfd := (eventfd w2)(commit_wake i := mark (pushed (eventfd w2 (commit_wake i))) True)\<rparr>"
  have w3: "eventfd_write w2 (commit_wake i) CTC_TAKE_FLAG = ?w3"
    using at_i p f by (intro write_take_mark) (auto simp: channel_def)
  have "exchange_at ?w3 (rw(i := 0)) rm ?L i" using at_i f p q by (auto simp: exchange_at_def channel_def)
  moreover have "queues ?w3 ?L" by (rule queues_fields [OF w2(2)]) simp_all
  ultimately have "exchange ?w3 (rw(i := 0)) rm ?L"
    using f q by (intro exchangeI [OF X]) (auto simp: unaffected_def)
  moreover have "worker_take_accept_ctc w i q = Some ?w3"
    using w2(1) w3 by (simp add: worker_take_accept_ctc_def)
  ultimately show ?thesis by (rule that [rotated])
qed


text \<open>The token is back: the sender hands over what it kept, or keeps the token.\<close>

lemma move_commit_effect:
  assumes X: "exchange w rw rm L" and i: "0 < i" and t: "taken (rw i)"
  shows "exchange (worker_move_commit_ctc w i) (rw(i := mark (pushed (rw i)) False)) rm
      (L(commited_ctcs i := L (commiting_ctcs i), commiting_ctcs i := []))" (is "exchange ?w' ?rw _ ?L")
    and "L (commited_ctcs i) = []"
proof -
  note at_i = exchange_atD [OF X i, unfolded exchange_at_def]
  show e: "L (commited_ctcs i) = []" using at_i t by (auto simp: channel_def)
  let ?w1 = "dpele_deque_move w (commited_ctcs i) (commiting_ctcs i)"
  have w1: "queues ?w1 ?L" "relinks w ?w1"
    using queues_move [OF exchange_queues [OF X], of "commited_ctcs i" "commiting_ctcs i"] e by simp_all
  note f = relinks_fields(1,2) [OF w1(2)]
  have hd: "dq_head (deqs ?w1 (commited_ctcs i)) \<noteq> None \<longleftrightarrow> L (commiting_ctcs i) \<noteq> []"
    using queues_deque [OF w1(1), of "commited_ctcs i"] by (simp add: deque_is_def first_or_def)
  show "exchange ?w' ?rw rm ?L"
  proof (cases "L (commiting_ctcs i) = []")
    case True
    then have w': "?w' = upd_evp ?w1 i (is_request_ctc_update (\<lambda>_. True))"
      using hd by (simp add: worker_move_commit_ctc_def)
    have "exchange_at ?w' ?rw rm ?L i"
      using at_i f t e True unfolding w' by (auto simp: exchange_at_def channel_def)
    moreover have "queues ?w' ?L" unfolding w' by (rule queues_fields [OF w1(1)]) simp_all
    ultimately show ?thesis
      using f unfolding w' by (intro exchangeI [OF X]) (auto simp: unaffected_def)
  next
    case False
    let ?w3 = "?w1\<lparr>eventfd := (eventfd ?w1)(commit_wake i := mark True (taken (eventfd ?w1 (commit_wake i))))\<rparr>"
    have "eventfd_write ?w1 (commit_wake i) CTC_INCR_FLAG = ?w3"
      using at_i t f by (intro write_push_mark) (auto simp: channel_def)
    then have w': "?w' = ?w3" using hd False by (simp add: worker_move_commit_ctc_def Let_def)
    have "exchange_at ?w' ?rw rm ?L i"
      using at_i f t e False unfolding w' by (auto simp: exchange_at_def channel_def)
    moreover have "queues ?w' ?L" unfolding w' by (rule queues_fields [OF w1(1)]) simp_all
    ultimately show ?thesis
      using f unfolding w' by (intro exchangeI [OF X]) (auto simp: unaffected_def)
  qed
qed

lemma move_accept_effect:
  assumes X: "exchange w rw rm L" and i: "0 < i" and t: "taken (rm i)"
  shows "exchange (worker_move_accept_ctc w i) rw (rm(i := mark (pushed (rm i)) False))
      (L(accepted_ctcs i := L (accepting_ctcs i), accepting_ctcs i := []))" (is "exchange ?w' _ ?rm ?L")
    and "L (accepted_ctcs i) = []"
proof -
  note at_i = exchange_atD [OF X i, unfolded exchange_at_def]
  show e: "L (accepted_ctcs i) = []" using at_i t by (auto simp: channel_def)
  let ?w1 = "dpele_deque_move w (accepted_ctcs i) (accepting_ctcs i)"
  have w1: "queues ?w1 ?L" "relinks w ?w1"
    using queues_move [OF exchange_queues [OF X], of "accepted_ctcs i" "accepting_ctcs i"] e by simp_all
  note f = relinks_fields(1,2) [OF w1(2)]
  have hd: "dq_head (deqs ?w1 (accepted_ctcs i)) \<noteq> None \<longleftrightarrow> L (accepting_ctcs i) \<noteq> []"
    using queues_deque [OF w1(1), of "accepted_ctcs i"] by (simp add: deque_is_def first_or_def)
  show "exchange ?w' rw ?rm ?L"
  proof (cases "L (accepting_ctcs i) = []")
    case True
    then have w': "?w' = upd_evp ?w1 i (is_respond_ctc_update (\<lambda>_. True))"
      using hd by (simp add: worker_move_accept_ctc_def)
    have "exchange_at ?w' rw ?rm ?L i"
      using at_i f t e True unfolding w' by (auto simp: exchange_at_def channel_def)
    moreover have "queues ?w' ?L" unfolding w' by (rule queues_fields [OF w1(1)]) simp_all
    ultimately show ?thesis
      using f unfolding w' by (intro exchangeI [OF X]) (auto simp: unaffected_def)
  next
    case False
    let ?w3 = "?w1\<lparr>eventfd := (eventfd ?w1)(accept_wake i := mark True (taken (eventfd ?w1 (accept_wake i))))\<rparr>"
    have "eventfd_write ?w1 (accept_wake i) CTC_INCR_FLAG = ?w3"
      using at_i t f by (intro write_push_mark) (auto simp: channel_def)
    then have w': "?w' = ?w3" using hd False by (simp add: worker_move_accept_ctc_def Let_def)
    have "exchange_at ?w' rw ?rm ?L i"
      using at_i f t e False unfolding w' by (auto simp: exchange_at_def channel_def)
    moreover have "queues ?w' ?L" unfolding w' by (rule queues_fields [OF w1(1)]) simp_all
    ultimately show ?thesis
      using f unfolding w' by (intro exchangeI [OF X]) (auto simp: unaffected_def)
  qed
qed

section \<open>Everything else a thread does\<close>

text \<open>
  A change that leaves the queues, wake descriptors and flags alone: elements may be created,
  changed outside their links and, when they are in no queue, freed.
\<close>

definition same_links :: "'d dpele \<Rightarrow> 'd dpele \<Rightarrow> bool" where
  "same_links e e' \<longleftrightarrow> prv e' = prv e \<and> nxt e' = nxt e"

definition quiet :: "('d, 's) world \<Rightarrow> ('d, 's) world \<Rightarrow> bool" where
  "quiet w w' \<longleftrightarrow> deqs w' = deqs w \<and> eventfd w' = eventfd w \<and>
     (\<forall>i. is_request_ctc (evps w' i) = is_request_ctc (evps w i) \<and>
          is_respond_ctc (evps w' i) = is_respond_ctc (evps w i)) \<and>
     (\<forall>a. case eles w a of
        None \<Rightarrow> (case eles w' a of None \<Rightarrow> True | Some e' \<Rightarrow> prv e' = None \<and> nxt e' = None)
      | Some e \<Rightarrow> (case eles w' a of
            None \<Rightarrow> prv e = None \<and> nxt e = None \<and> (\<forall>q. dq_head (deqs w q) \<noteq> Some a)
          | Some e' \<Rightarrow> same_links e e'))"

lemma linked_same_links:
  "linked h p xs n \<Longrightarrow> (\<And>x e. x \<in> set xs \<Longrightarrow> h x = Some e \<Longrightarrow> \<exists>e'. h' x = Some e' \<and> same_links e e') \<Longrightarrow>
     linked h' p xs n"
  by (induction xs arbitrary: p) (fastforce simp: same_links_def)+

lemma quiet_queued:
  assumes L: "queues w L" and quiet: "quiet w w'" and a: "a \<in> set (L q)" "eles w a = Some e"
  shows "\<exists>e'. eles w' a = Some e' \<and> same_links e e'"
proof (cases "eles w' a")
  case None
  have n: "prv e = None" "nxt e = None" "dq_head (deqs w q) \<noteq> Some a"
    using quiet a(2) None unfolding quiet_def by (auto split: option.splits dest: spec [of _ a])
  obtain ys zs where "L q = ys @ a # zs" using a(1) by (meson split_list)
  then have "ys = []" "dq_head (deqs w q) = first_or None (ys @ a # zs)"
    using queues_deque [OF L, of q] a(2) n(1)
    by (auto simp: deque_is_def linked_append last_or_def split: if_splits)
  then show ?thesis using n(3) by simp
next
  case (Some e')
  then have "same_links e e'" using quiet a(2) unfolding quiet_def by (auto split: option.splits dest: spec [of _ a])
  with Some show ?thesis by simp
qed

lemma quiet_queues:
  assumes L: "queues w L" and quiet: "quiet w w'"
  shows "queues w' L"
  unfolding queues_def
proof (intro conjI allI impI)
  show "deque_is w' q (L q)" for q
    using queues_deque [OF L, of q] quiet quiet_queued [OF L quiet, of _ q]
    by (auto simp: deque_is_def quiet_def intro: linked_same_links)
  show "set (L q) \<inter> set (L r) = {}" if "q \<noteq> r" for q r using that by (rule queues_disjoint [OF L])
  fix a e'
  assume a: "eles w' a = Some e'" "\<not> in_queue L a"
  have "prv e' = None \<and> nxt e' = None"
  proof (cases "eles w a")
    case None
    then show ?thesis using quiet a(1) unfolding quiet_def by (auto split: option.splits dest: spec [of _ a])
  next
    case (Some e)
    then have "same_links e e'" using quiet a(1) unfolding quiet_def by (auto split: option.splits dest: spec [of _ a])
    then show ?thesis using queues_loose [OF L Some a(2)] by (simp add: same_links_def)
  qed
  then show "prv e' = None" "nxt e' = None" by auto
qed

lemma quiet_exchange: "exchange w rw rm L \<Longrightarrow> quiet w w' \<Longrightarrow> exchange w' rw rm L"
  using quiet_queues [of w L w']
  by (auto simp: exchange_def exchange_at_def quiet_def)

text \<open>Queues other than the four of a worker may change freely.\<close>

lemma exchange_inbox:
  assumes X: "exchange w rw rm L" and w': "queues w' (L(q := xs))" "evps w' = evps w" "eventfd w' = eventfd w"
    and q: "\<And>j. q \<noteq> commited_ctcs j \<and> q \<noteq> commiting_ctcs j \<and> q \<noteq> accepted_ctcs j \<and> q \<noteq> accepting_ctcs j"
  shows "exchange w' rw rm (L(q := xs))"
proof -
  have "L(q := xs) = (\<lambda>r. if r = q then xs else L r)" by auto
  then show ?thesis using X w' q by (simp add: exchange_def exchange_at_def) metis
qed

section \<open>Steps\<close>

type_synonym ('d, 's) xstate = "('d, 's) world \<times> (nat \<Rightarrow> 64 word) \<times> (nat \<Rightarrow> 64 word)"

definition loose :: "('d, 's) world \<Rightarrow> nat \<Rightarrow> bool" where
  "loose w a \<longleftrightarrow> eles w a \<noteq> None \<and> (\<forall>L. queues w L \<longrightarrow> \<not> in_queue L a)"

inductive ctc_step :: "('d, 's) xstate \<Rightarrow> ('d, 's) xstate \<Rightarrow> bool" where
  worker_push: "0 < i \<Longrightarrow> loose w a \<Longrightarrow> worker_push_commit_ctc w i a = Some w' \<Longrightarrow>
    ctc_step (w, rw, rm) (w', rw, rm)"
| master_push: "0 < i \<Longrightarrow> loose w a \<Longrightarrow> worker_push_accept_ctc w i a = Some w' \<Longrightarrow>
    ctc_step (w, rw, rm) (w', rw, rm)"
| local_push: "loose w a \<Longrightarrow> dpele_deque_push_back w (enter_ctcs i) a = Some w' \<Longrightarrow>
    ctc_step (w, rw, rm) (w', rw, rm)"
| worker_read: "0 < i \<Longrightarrow> rw i = 0 \<Longrightarrow> eventfd_read w (accept_wake i) 0 = (w', ev) \<Longrightarrow>
    ctc_step (w, rw, rm) (w', rw(i := ev), rm)"
| master_read: "0 < i \<Longrightarrow> rm i = 0 \<Longrightarrow> eventfd_read w (commit_wake i) 0 = (w', ev) \<Longrightarrow>
    ctc_step (w, rw, rm) (w', rw, rm(i := ev))"
| worker_move: "0 < i \<Longrightarrow> taken (rw i) \<Longrightarrow>
    ctc_step (w, rw, rm) (worker_move_commit_ctc w i, rw(i := rw i AND CTC_PUSH_MASK), rm)"
| master_move: "0 < i \<Longrightarrow> taken (rm i) \<Longrightarrow>
    ctc_step (w, rw, rm) (worker_move_accept_ctc w i, rw, rm(i := rm i AND CTC_PUSH_MASK))"
| worker_take: "0 < i \<Longrightarrow> pushed (rw i) \<Longrightarrow> \<not> taken (rw i) \<Longrightarrow>
    worker_take_accept_ctc w i (enter_ctcs i) = Some w' \<Longrightarrow> ctc_step (w, rw, rm) (w', rw(i := 0), rm)"
| master_take: "0 < i \<Longrightarrow> pushed (rm i) \<Longrightarrow> \<not> taken (rm i) \<Longrightarrow>
    worker_take_commit_ctc w i (enter_ctcs 0) = Some w' \<Longrightarrow> ctc_step (w, rw, rm) (w', rw, rm(i := 0))"
| pop_call: "dpele_deque_pop_front w (enter_ctcs i) = Some (w', r) \<Longrightarrow> ctc_step (w, rw, rm) (w', rw, rm)"
| other: "quiet w w' \<Longrightarrow> ctc_step (w, rw, rm) (w', rw, rm)"

definition exchange_start :: "('d, 's) world \<Rightarrow> bool" where
  "exchange_start w \<longleftrightarrow> (\<forall>q. deqs w q = \<lparr>dq_head = None, dq_tail = None\<rparr>) \<and> (\<forall>r. eventfd w r = 0) \<and>
     (\<forall>i. is_request_ctc (evps w i) \<and> is_respond_ctc (evps w i)) \<and>
     (\<forall>a e. eles w a = Some e \<longrightarrow> prv e = None \<and> nxt e = None)"

inductive ctc_reach :: "('d, 's) xstate \<Rightarrow> bool" where
  start: "exchange_start w \<Longrightarrow> ctc_reach (w, \<lambda>_. 0, \<lambda>_. 0)"
| step: "ctc_reach s \<Longrightarrow> ctc_step s t \<Longrightarrow> ctc_reach t"

text \<open>The channels as the callers see them: sent upwards, sent downwards, and the inboxes.\<close>

type_synonym channels = "(nat \<Rightarrow> nat list) \<times> (nat \<Rightarrow> nat list) \<times> (nat \<Rightarrow> nat list)"

definition view :: "(deque_ref \<Rightarrow> nat list) \<Rightarrow> channels" where
  "view L = (up_channel L, down_channel L, \<lambda>i. L (enter_ctcs i))"

inductive fifo_step :: "channels \<Rightarrow> channels \<Rightarrow> bool" where
  send_up: "fifo_step (u, d, b) (u(i := u i @ [a]), d, b)"
| send_down: "fifo_step (u, d, b) (u, d(i := d i @ [a]), b)"
| send_self: "fifo_step (u, d, b) (u, d, b(i := b i @ [a]))"
| deliver_up: "u i = xs @ ys \<Longrightarrow> fifo_step (u, d, b) (u(i := ys), d, b(0 := b 0 @ xs))"
| deliver_down: "d i = xs @ ys \<Longrightarrow> fifo_step (u, d, b) (u, d(i := ys), b(i := b i @ xs))"
| receive: "fifo_step (u, d, b) (u, d, b(i := tl (b i)))"
| idle: "fifo_step c c"

section \<open>Refinement of the channels\<close>

lemma marked_push_part:
  assumes "marked x"
  shows "x AND CTC_PUSH_MASK = mark (pushed x) False"
proof -
  have "mark p t AND CTC_PUSH_MASK = mark p False" for p t
    by (cases p; cases t; simp add: mark_def)
  from this [of "pushed x" "taken x"] show ?thesis using assms by (simp add: marked_def)
qed

lemma loose_free:
  "exchange w rw rm L \<Longrightarrow> loose w a \<Longrightarrow> \<exists>e. eles w a = Some e \<and> \<not> in_queue L a"
  using exchange_queues by (fastforce simp: loose_def)

lemma view_simps:
  "view (L(commited_ctcs i := xs)) = ((up_channel L)(i := xs @ L (commiting_ctcs i)), down_channel L, \<lambda>i. L (enter_ctcs i))"
  "view (L(commiting_ctcs i := xs)) = ((up_channel L)(i := L (commited_ctcs i) @ xs), down_channel L, \<lambda>i. L (enter_ctcs i))"
  "view (L(accepted_ctcs i := xs)) = (up_channel L, (down_channel L)(i := xs @ L (accepting_ctcs i)), \<lambda>i. L (enter_ctcs i))"
  "view (L(accepting_ctcs i := xs)) = (up_channel L, (down_channel L)(i := L (accepted_ctcs i) @ xs), \<lambda>i. L (enter_ctcs i))"
  "view (L(enter_ctcs i := xs)) = (up_channel L, down_channel L, (\<lambda>i. L (enter_ctcs i))(i := xs))"
  by (auto simp: view_def up_channel_def down_channel_def fun_eq_iff)

lemma read_exchange:
  assumes X: "exchange w rw rm L" and i: "0 < i"
  shows "rw i = 0 \<Longrightarrow> exchange (w\<lparr>eventfd := (eventfd w)(accept_wake i := 0)\<rparr>)
      (rw(i := eventfd w (accept_wake i))) rm L"
    and "rm i = 0 \<Longrightarrow> exchange (w\<lparr>eventfd := (eventfd w)(commit_wake i := 0)\<rparr>) rw
      (rm(i := eventfd w (commit_wake i))) L"
proof -
  note at_i = exchange_atD [OF X i, unfolded exchange_at_def]
  assume 0: "rw i = 0"
  let ?w = "w\<lparr>eventfd := (eventfd w)(accept_wake i := 0)\<rparr>"
  have "exchange_at ?w (rw(i := eventfd w (accept_wake i))) rm L i"
    using at_i 0 by (auto simp: exchange_at_def channel_def)
  moreover have "queues ?w L" by (rule queues_fields [OF exchange_queues [OF X]]) simp_all
  ultimately show "exchange ?w (rw(i := eventfd w (accept_wake i))) rm L"
    by (intro exchangeI [OF X]) (auto simp: unaffected_def)
next
  note at_i = exchange_atD [OF X i, unfolded exchange_at_def]
  assume 0: "rm i = 0"
  let ?w = "w\<lparr>eventfd := (eventfd w)(commit_wake i := 0)\<rparr>"
  have "exchange_at ?w rw (rm(i := eventfd w (commit_wake i))) L i"
    using at_i 0 by (auto simp: exchange_at_def channel_def)
  moreover have "queues ?w L" by (rule queues_fields [OF exchange_queues [OF X]]) simp_all
  ultimately show "exchange ?w rw (rm(i := eventfd w (commit_wake i))) L"
    by (intro exchangeI [OF X]) (auto simp: unaffected_def)
qed

lemma exchange_push_inbox:
  assumes X: "exchange w rw rm L" and a: "eles w a = Some e" "\<not> in_queue L a"
  obtains w' where "dpele_deque_push_back w (enter_ctcs i) a = Some w'"
    "exchange w' rw rm (L(enter_ctcs i := L (enter_ctcs i) @ [a]))"
proof -
  obtain w' where w': "dpele_deque_push_back w (enter_ctcs i) a = Some w'"
    "queues w' (L(enter_ctcs i := L (enter_ctcs i) @ [a]))" "relinks w w'"
    using queues_push_back [OF exchange_queues [OF X] a] by metis
  have "exchange w' rw rm (L(enter_ctcs i := L (enter_ctcs i) @ [a]))"
    by (rule exchange_inbox [OF X w'(2) relinks_fields(1,2) [OF w'(3)]]) simp
  with w'(1) show ?thesis by (rule that)
qed

lemma exchange_pop_inbox:
  assumes X: "exchange w rw rm L"
  obtains w' where "dpele_deque_pop_front w (enter_ctcs i) = Some (w', first_or None (L (enter_ctcs i)))"
    "exchange w' rw rm (L(enter_ctcs i := tl (L (enter_ctcs i))))"
proof -
  obtain w' where w': "dpele_deque_pop_front w (enter_ctcs i) = Some (w', first_or None (L (enter_ctcs i)))"
    "queues w' (L(enter_ctcs i := tl (L (enter_ctcs i))))" "relinks w w'"
    using queues_pop_front [OF exchange_queues [OF X]] by metis
  have "exchange w' rw rm (L(enter_ctcs i := tl (L (enter_ctcs i))))"
    by (rule exchange_inbox [OF X w'(2) relinks_fields(1,2) [OF w'(3)]]) simp
  with w'(1) show ?thesis by (rule that)
qed

lemma ctc_step_simulates:
  assumes "ctc_step (w, rw, rm) (w', rw', rm')" and X: "exchange w rw rm L"
  shows "\<exists>L'. exchange w' rw' rm' L' \<and> fifo_step (view L) (view L')"
  using assms(1)
proof cases
  case (worker_push i a)
  obtain e where "eles w a = Some e" "\<not> in_queue L a" using loose_free [OF X worker_push(4)] by blast
  then obtain w'' q where q: "worker_push_commit_ctc w i a = Some w''" "q \<in> {commited_ctcs i, commiting_ctcs i}"
    "exchange w'' rw rm (L(q := L q @ [a]))" "q = commited_ctcs i \<Longrightarrow> L (commiting_ctcs i) = []"
    using push_commit_effect [OF X worker_push(3)] by metis
  have "view (L(q := L q @ [a])) = ((up_channel L)(i := up_channel L i @ [a]), down_channel L, \<lambda>i. L (enter_ctcs i))"
    using q(2,4) by (auto simp: view_simps up_channel_def)
  then have "fifo_step (view L) (view (L(q := L q @ [a])))" by (simp add: view_def fifo_step.send_up)
  then show ?thesis using q(1,3) worker_push by auto
next
  case (master_push i a)
  obtain e where "eles w a = Some e" "\<not> in_queue L a" using loose_free [OF X master_push(4)] by blast
  then obtain w'' q where q: "worker_push_accept_ctc w i a = Some w''" "q \<in> {accepted_ctcs i, accepting_ctcs i}"
    "exchange w'' rw rm (L(q := L q @ [a]))" "q = accepted_ctcs i \<Longrightarrow> L (accepting_ctcs i) = []"
    using push_accept_effect [OF X master_push(3)] by metis
  have "view (L(q := L q @ [a])) = (up_channel L, (down_channel L)(i := down_channel L i @ [a]), \<lambda>i. L (enter_ctcs i))"
    using q(2,4) by (auto simp: view_simps down_channel_def)
  then have "fifo_step (view L) (view (L(q := L q @ [a])))" by (simp add: view_def fifo_step.send_down)
  then show ?thesis using q(1,3) master_push by auto
next
  case (local_push a i)
  obtain e where "eles w a = Some e" "\<not> in_queue L a" using loose_free [OF X local_push(3)] by blast
  then have "exchange w' rw rm (L(enter_ctcs i := L (enter_ctcs i) @ [a]))"
    using exchange_push_inbox [OF X] local_push(4) by (metis option.inject)
  moreover have "fifo_step (view L) (view (L(enter_ctcs i := L (enter_ctcs i) @ [a])))"
    unfolding view_simps using fifo_step.send_self [where b = "\<lambda>i. L (enter_ctcs i)"]
    by (simp add: view_def)
  ultimately show ?thesis using local_push by blast
next
  case (worker_read i ev)
  then show ?thesis using read_exchange(1) [OF X worker_read(3,4)]
    by (auto simp: read_mark intro!: exI [of _ L] fifo_step.idle)
next
  case (master_read i ev)
  then show ?thesis using read_exchange(2) [OF X master_read(3,4)]
    by (auto simp: read_mark intro!: exI [of _ L] fifo_step.idle)
next
  case (worker_move i)
  note m = move_commit_effect [OF X worker_move(4,5)]
  have "marked (rw i)" using exchange_atD [OF X worker_move(4)] by (simp add: exchange_at_def)
  then have "exchange w' rw' rm' (L(commited_ctcs i := L (commiting_ctcs i), commiting_ctcs i := []))"
    using m(1) worker_move by (simp add: marked_push_part)
  moreover have "view (L(commited_ctcs i := L (commiting_ctcs i), commiting_ctcs i := [])) = view L"
    using m(2) by (auto simp: view_def up_channel_def down_channel_def fun_eq_iff)
  ultimately show ?thesis using fifo_step.idle by metis
next
  case (master_move i)
  note m = move_accept_effect [OF X master_move(4,5)]
  have "marked (rm i)" using exchange_atD [OF X master_move(4)] by (simp add: exchange_at_def)
  then have "exchange w' rw' rm' (L(accepted_ctcs i := L (accepting_ctcs i), accepting_ctcs i := []))"
    using m(1) master_move by (simp add: marked_push_part)
  moreover have "view (L(accepted_ctcs i := L (accepting_ctcs i), accepting_ctcs i := [])) = view L"
    using m(2) by (auto simp: view_def up_channel_def down_channel_def fun_eq_iff)
  ultimately show ?thesis using fifo_step.idle by metis
next
  case (worker_take i)
  let ?L = "L(enter_ctcs i := L (enter_ctcs i) @ L (accepted_ctcs i), accepted_ctcs i := [])"
  have "exchange w' rw' rm' ?L"
    using take_accept_effect [OF X worker_take(3-5), of "enter_ctcs i"] worker_take
    by (metis deque_ref.distinct option.inject)
  moreover have "view ?L = (up_channel L, (down_channel L)(i := L (accepting_ctcs i)),
      (\<lambda>i. L (enter_ctcs i))(i := L (enter_ctcs i) @ L (accepted_ctcs i)))"
    by (auto simp: view_def up_channel_def down_channel_def fun_eq_iff)
  then have "fifo_step (view L) (view ?L)"
    using fifo_step.deliver_down [of "down_channel L" i "L (accepted_ctcs i)" "L (accepting_ctcs i)"
        "up_channel L" "\<lambda>i. L (enter_ctcs i)"] by (simp add: view_def down_channel_def)
  ultimately show ?thesis by blast
next
  case (master_take i)
  let ?L = "L(enter_ctcs 0 := L (enter_ctcs 0) @ L (commited_ctcs i), commited_ctcs i := [])"
  have "exchange w' rw' rm' ?L"
    using take_commit_effect [OF X master_take(3-5), of "enter_ctcs 0"] master_take
    by (metis deque_ref.distinct option.inject)
  moreover have "view ?L = ((up_channel L)(i := L (commiting_ctcs i)), down_channel L,
      (\<lambda>i. L (enter_ctcs i))(0 := L (enter_ctcs 0) @ L (commited_ctcs i)))"
    by (auto simp: view_def up_channel_def down_channel_def fun_eq_iff)
  then have "fifo_step (view L) (view ?L)"
    using fifo_step.deliver_up [of "up_channel L" i "L (commited_ctcs i)" "L (commiting_ctcs i)"
        "down_channel L" "\<lambda>i. L (enter_ctcs i)"] by (simp add: view_def up_channel_def)
  ultimately show ?thesis by blast
next
  case (pop_call i r)
  have "exchange w' rw rm (L(enter_ctcs i := tl (L (enter_ctcs i))))"
    using exchange_pop_inbox [OF X, of i] pop_call(3) by (metis option.inject prod.inject)
  moreover have "fifo_step (view L) (view (L(enter_ctcs i := tl (L (enter_ctcs i)))))"
    unfolding view_simps using fifo_step.receive [where b = "\<lambda>i. L (enter_ctcs i)"]
    by (simp add: view_def)
  ultimately show ?thesis using pop_call by blast
next
  case other
  then show ?thesis using quiet_exchange [OF X] fifo_step.idle by blast
qed

section \<open>Reachable states\<close>

lemma exchange_start_inv:
  assumes "exchange_start w"
  shows "exchange w (\<lambda>_. 0) (\<lambda>_. 0) (\<lambda>_. [])"
  using assms
  by (auto simp: exchange_start_def exchange_def exchange_at_def queues_def deque_is_def channel_def)

lemma ctc_reach_exchange:
  "ctc_reach s \<Longrightarrow> \<exists>L. exchange (fst s) (fst (snd s)) (snd (snd s)) L"
proof (induction rule: ctc_reach.induct)
  case (start w)
  then show ?case using exchange_start_inv by auto
next
  case (step s t)
  then obtain L where L: "exchange (fst s) (fst (snd s)) (snd (snd s)) L" by blast
  have "ctc_step (fst s, fst (snd s), snd (snd s)) (fst t, fst (snd t), snd (snd t))" using step.hyps by simp
  from ctc_step_simulates [OF this L] show ?case by blast
qed

text \<open>Who may touch the shared queues: the token holder only.\<close>

lemma exchange_exclusive:
  assumes "exchange w rw rm L" "0 < i"
  shows "\<not> ((is_request_ctc (evps w i) \<or> taken (rw i)) \<and> pushed (rm i))"
    and "\<not> ((is_respond_ctc (evps w i) \<or> taken (rm i)) \<and> pushed (rw i))"
  using exchange_atD [OF assms] by (auto simp: exchange_at_def channel_def)

lemma exchange_counters:
  assumes "exchange w rw rm L" "0 < i"
  shows "eventfd w (commit_wake i) \<in> {0, 1, CTC_TAKE_FLAG, CTC_TAKE_FLAG + 1}"
    and "eventfd w (accept_wake i) \<in> {0, 1, CTC_TAKE_FLAG, CTC_TAKE_FLAG + 1}"
proof -
  have "x \<in> {0, 1, CTC_TAKE_FLAG, CTC_TAKE_FLAG + 1}" if "marked x" for x
  proof -
    have "mark p t \<in> {0, 1, CTC_TAKE_FLAG, CTC_TAKE_FLAG + 1}" for p t
      by (cases p; cases t) (simp_all add: mark_def)
    from this [of "pushed x" "taken x"] show ?thesis using that by (simp add: marked_def)
  qed
  then show "eventfd w (commit_wake i) \<in> {0, 1, CTC_TAKE_FLAG, CTC_TAKE_FLAG + 1}"
    "eventfd w (accept_wake i) \<in> {0, 1, CTC_TAKE_FLAG, CTC_TAKE_FLAG + 1}"
    using exchange_atD [OF assms] by (auto simp: exchange_at_def)
qed

text \<open>A call on its way implies a pending wake-up or a thread in the middle of serving one.\<close>

lemma exchange_no_lost_wakeup:
  assumes "exchange w rw rm L" "0 < i" "up_channel L i \<noteq> [] \<or> down_channel L i \<noteq> []"
  shows "eventfd w (commit_wake i) \<noteq> 0 \<or> eventfd w (accept_wake i) \<noteq> 0 \<or> rm i \<noteq> 0 \<or> rw i \<noteq> 0"
proof (rule ccontr)
  assume "\<not> ?thesis"
  then show False using exchange_atD [OF assms(1,2)] assms(3)
    by (auto simp: exchange_at_def channel_def up_channel_def down_channel_def)
qed

section \<open>Delivery\<close>

definition master_round :: "('d, 's) world \<Rightarrow> nat \<Rightarrow> ('d, 's) world option" where
  "master_round w i = (let (w1, ev) = eventfd_read w (commit_wake i) 0 in master_woken w1 0 i ev)"

definition worker_round :: "('d, 's) world \<Rightarrow> nat \<Rightarrow> ('d, 's) world option" where
  "worker_round w i = (let (w1, ev) = eventfd_read w (accept_wake i) 0 in worker_woken w1 i ev)"

lemma fun_upd_back: "f i = x \<Longrightarrow> (f(i := y))(i := x) = f"
  by auto

lemma woken_marks: "x AND CTC_TAKE_MASK \<noteq> 0 \<longleftrightarrow> taken x" "x AND CTC_PUSH_MASK \<noteq> 0 \<longleftrightarrow> pushed x"
  by (simp_all add: taken_def pushed_def)

lemma master_round_effect:
  assumes X: "exchange w rw rm L" and i: "0 < i" and r: "rm i = 0"
  obtains w' L' where "master_round w i = Some w'" "exchange w' rw rm L'"
    "\<not> pushed (eventfd w' (commit_wake i))" "L' (commiting_ctcs i) = L (commiting_ctcs i)"
    "L' (enter_ctcs 0) @ L' (commited_ctcs i) = L (enter_ctcs 0) @ L (commited_ctcs i)"
    "L' (commited_ctcs i) = []"
proof -
  let ?ev = "eventfd w (commit_wake i)"
  let ?w1 = "w\<lparr>eventfd := (eventfd w)(commit_wake i := 0)\<rparr>"
  let ?w2 = "if taken ?ev then worker_move_accept_ctc ?w1 i else ?w1"
  let ?L2 = "if taken ?ev then L(accepted_ctcs i := L (accepting_ctcs i), accepting_ctcs i := []) else L"
  have X1: "exchange ?w1 rw (rm(i := ?ev)) L" using read_exchange(2) [OF X i r] .
  have mk: "marked ?ev" using exchange_atD [OF X i] by (simp add: exchange_at_def)
  have X2: "exchange ?w2 rw (rm(i := mark (pushed ?ev) False)) ?L2"
  proof (cases "taken ?ev")
    case True
    then show ?thesis using move_accept_effect(1) [OF X1 i] by simp
  next
    case False
    then have "mark (pushed ?ev) False = ?ev" using mk by (simp add: marked_def)
    with False show ?thesis using X1 by simp
  qed
  have L2: "?L2 (commiting_ctcs i) = L (commiting_ctcs i)" "?L2 (commited_ctcs i) = L (commited_ctcs i)"
    "?L2 (enter_ctcs 0) = L (enter_ctcs 0)" by auto
  show ?thesis
  proof (cases "pushed ?ev")
    case False
    then have "exchange ?w2 rw rm ?L2" using X2 r by (simp add: fun_upd_idem)
    moreover have "master_round w i = Some ?w2"
      using False by (simp add: master_round_def read_mark master_woken_def woken_marks)
    moreover have "?L2 (commited_ctcs i) = []"
      using exchange_atD [OF X i] False r L2 by (simp add: exchange_at_def channel_def)
    moreover have "\<not> pushed (eventfd ?w2 (commit_wake i))"
      using exchange_atD [OF \<open>exchange ?w2 rw rm ?L2\<close> i] calculation(3) r
      by (auto simp: exchange_at_def channel_def)
    ultimately show ?thesis using L2 by (intro that [of ?w2 ?L2]) simp_all
  next
    case True
    let ?L3 = "?L2(enter_ctcs 0 := ?L2 (enter_ctcs 0) @ ?L2 (commited_ctcs i), commited_ctcs i := [])"
    obtain w' where w': "worker_take_commit_ctc ?w2 i (enter_ctcs 0) = Some w'"
      "exchange w' rw ((rm(i := mark (pushed ?ev) False))(i := 0)) ?L3"
      by (rule take_commit_effect [OF X2 i, of "enter_ctcs 0"]) (use True in simp_all)
    then have "exchange w' rw rm ?L3" using r by (simp add: fun_upd_idem)
    moreover have "master_round w i = Some w'"
      using True w'(1) by (simp add: master_round_def read_mark master_woken_def woken_marks)
    moreover have "\<not> pushed (eventfd w' (commit_wake i))"
      using exchange_atD [OF \<open>exchange w' rw rm ?L3\<close> i] r by (auto simp: exchange_at_def channel_def)
    ultimately show ?thesis using L2 by (intro that [of w' ?L3]) simp_all
  qed
qed

lemma worker_round_effect:
  assumes X: "exchange w rw rm L" and i: "0 < i" and r: "rw i = 0" "rm i = 0"
    and idle: "\<not> pushed (eventfd w (commit_wake i))"
  obtains w' L' where "worker_round w i = Some w'" "exchange w' rw rm L'"
    "L' (commiting_ctcs i) = []" "L' (commited_ctcs i) = L (commiting_ctcs i)"
    "L' (enter_ctcs 0) = L (enter_ctcs 0)"
proof -
  let ?ev = "eventfd w (accept_wake i)"
  let ?w1 = "w\<lparr>eventfd := (eventfd w)(accept_wake i := 0)\<rparr>"
  let ?w2 = "if taken ?ev then worker_move_commit_ctc ?w1 i else ?w1"
  let ?L2 = "if taken ?ev then L(commited_ctcs i := L (commiting_ctcs i), commiting_ctcs i := []) else L"
  have X1: "exchange ?w1 (rw(i := ?ev)) rm L" using read_exchange(1) [OF X i r(1)] .
  have mk: "marked ?ev" using exchange_atD [OF X i] by (simp add: exchange_at_def)
  have X2: "exchange ?w2 (rw(i := mark (pushed ?ev) False)) rm ?L2"
  proof (cases "taken ?ev")
    case True
    then show ?thesis using move_commit_effect(1) [OF X1 i] by simp
  next
    case False
    then have "mark (pushed ?ev) False = ?ev" using mk by (simp add: marked_def)
    with False show ?thesis using X1 by simp
  qed
  have "L (commited_ctcs i) = []" "\<not> taken ?ev \<Longrightarrow> L (commiting_ctcs i) = []"
    using exchange_atD [OF X i] r idle by (auto simp: exchange_at_def channel_def)
  then have L2: "?L2 (commiting_ctcs i) = []" "?L2 (commited_ctcs i) = L (commiting_ctcs i)"
    "?L2 (enter_ctcs 0) = L (enter_ctcs 0)" by auto
  show ?thesis
  proof (cases "pushed ?ev")
    case False
    then have "exchange ?w2 rw rm ?L2" using X2 r by (simp add: fun_upd_idem)
    moreover have "worker_round w i = Some ?w2"
      using False by (simp add: worker_round_def read_mark worker_woken_def woken_marks)
    ultimately show ?thesis using L2 by (intro that [of ?w2 ?L2])
  next
    case True
    let ?L3 = "?L2(enter_ctcs i := ?L2 (enter_ctcs i) @ ?L2 (accepted_ctcs i), accepted_ctcs i := [])"
    obtain w' where w': "worker_take_accept_ctc ?w2 i (enter_ctcs i) = Some w'"
      "exchange w' ((rw(i := mark (pushed ?ev) False))(i := 0)) rm ?L3"
      by (rule take_accept_effect [OF X2 i, of "enter_ctcs i"]) (use True in simp_all)
    then have "exchange w' rw rm ?L3" using r by (simp add: fun_upd_idem)
    moreover have "worker_round w i = Some w'"
      using True w'(1) by (simp add: worker_round_def read_mark worker_woken_def woken_marks)
    ultimately show ?thesis using L2 i by (intro that [of w' ?L3]) simp_all
  qed
qed

lemma exchange_delivers:
  assumes X: "exchange w rw rm L" and i: "0 < i" and r: "rw i = 0" "rm i = 0"
  shows "\<exists>w1 w2 w3 L'. master_round w i = Some w1 \<and> worker_round w1 i = Some w2 \<and>
    master_round w2 i = Some w3 \<and> exchange w3 rw rm L' \<and> up_channel L' i = [] \<and>
    L' (enter_ctcs 0) = L (enter_ctcs 0) @ up_channel L i"
proof -
  obtain w1 L1 where 1: "master_round w i = Some w1" "exchange w1 rw rm L1"
    "\<not> pushed (eventfd w1 (commit_wake i))" "L1 (commiting_ctcs i) = L (commiting_ctcs i)"
    "L1 (enter_ctcs 0) @ L1 (commited_ctcs i) = L (enter_ctcs 0) @ L (commited_ctcs i)"
    "L1 (commited_ctcs i) = []" using X i r(2) by (rule master_round_effect)
  obtain w2 L2 where 2: "worker_round w1 i = Some w2" "exchange w2 rw rm L2" "L2 (commiting_ctcs i) = []"
    "L2 (commited_ctcs i) = L1 (commiting_ctcs i)" "L2 (enter_ctcs 0) = L1 (enter_ctcs 0)"
    using 1(2) i r 1(3) by (rule worker_round_effect)
  obtain w3 L3 where 3: "master_round w2 i = Some w3" "exchange w3 rw rm L3"
    "L3 (commiting_ctcs i) = L2 (commiting_ctcs i)"
    "L3 (enter_ctcs 0) @ L3 (commited_ctcs i) = L2 (enter_ctcs 0) @ L2 (commited_ctcs i)"
    "L3 (commited_ctcs i) = []" using 2(2) i r(2) by (rule master_round_effect)
  have "up_channel L3 i = []" "L3 (enter_ctcs 0) = L (enter_ctcs 0) @ up_channel L i"
    using 1(4-6) 2(3-5) 3(3-5) by (simp_all add: up_channel_def)
  then show ?thesis using 1(1) 2(1) 3(1,2) by blast
qed

end
