(* ===== verification/Dpevp.thy ===== *)
theory Dpevp
  imports Dpctc_Exchange
begin

text \<open>
  The event loop (\<^verbatim>\<open>dpevp_epoll.c\<close>): creation of the master and the workers, submission of an
  operation (\<open>dpevp_addv\<close>), early completion (\<open>dpevp_end\<close>), delivery of finished elements
  (\<open>dpevp_pop\<close>) and the life of a cross-thread call.  \<open>epoll_create\<close> and \<open>epoll_wait\<close> are
  parameters; a loop that calls back into user code is a \<open>partial_function\<close>, whose value \<open>None\<close> also
  stands for not returning.
\<close>

abbreviation (input) DPASC_FLAG_ALLOW_DOING :: u32 where "DPASC_FLAG_ALLOW_DOING \<equiv> 2"

abbreviation (input) DPEVP_REAP_LIMIT :: int where "DPEVP_REAP_LIMIT \<equiv> 32"

section \<open>Creation\<close>

definition dpevp_zero :: dpevp where
  "dpevp_zero = \<lparr>evp_id = 0, evp_type = 0, epoll_fd = 0, ev_capacity = 0, evs = [], ev_index = 0,
     ev_count = 0, timer = [], timer_waitms = 0, pop_limit = 0, is_request_ctc = False,
     is_respond_ctc = False\<rparr>"

partial_function (option) dpele_deque_clear_from ::
  "('d, 's) env \<Rightarrow> ('d, 's) world \<Rightarrow> nat option \<Rightarrow> ('d, 's) world option" where
  "dpele_deque_clear_from env w ele =
     (case ele of
        None \<Rightarrow> Some w
      | Some a \<Rightarrow>
          Option.bind (eles w a) (\<lambda>e.
          Option.bind (dpele_del env w (Some a)) (\<lambda>w1. dpele_deque_clear_from env w1 (nxt e))))"

definition dpele_deque_clear :: "('d, 's) env \<Rightarrow> ('d, 's) world \<Rightarrow> deque_ref \<Rightarrow> ('d, 's) world option" where
  "dpele_deque_clear env w q = do {
     w1 \<leftarrow> dpele_deque_clear_from env w (dq_head (deqs w q));
     Some (dpele_deque_init w1 q)
   }"

definition dpele_wake_init :: "('d, 's) world \<Rightarrow> wake_ref \<Rightarrow> ('d, 's) world" where
  "dpele_wake_init w r = w\<lparr>eventfd := (eventfd w)(r := 0), wake_interest := (wake_interest w)(r := None)\<rparr>"

definition dpevp_free :: "('d, 's) env \<Rightarrow> ('d, 's) world \<Rightarrow> nat \<Rightarrow> ('d, 's) world option" where
  "dpevp_free env w i = do {
     let w0 = (if epoll_fd (evps w i) > 0 then w\<lparr>closed := epoll_fd (evps w i) # closed w\<rparr> else w);
     w1 \<leftarrow> dpele_deque_clear env w0 (enter_ctcs i);
     let w2 = dptmrset_free w1 i;
     let w3 = dpele_deque_init (dpele_deque_init w2 (enter_ctcs i)) (ready i);
     Some (upd_evp w3 i (\<lambda>_. dpevp_zero))
   }"

definition dpevp_init ::
  "('d, 's) env \<Rightarrow> (('d, 's) world \<Rightarrow> int) \<Rightarrow> ('d, 's) world \<Rightarrow> nat \<Rightarrow> int \<Rightarrow> (('d, 's) world \<times> bool) option" where
  "dpevp_init env epoll_create w i type = do {
     let w0 = dpele_deque_init (dpele_deque_init w (enter_ctcs i)) (ready i);
     let f = epoll_create w0;
     let w1 = upd_evp w0 i (\<lambda>_. dpevp_zero\<lparr>evp_id := i, evp_type := type, epoll_fd := f\<rparr>);
     if f < 0 then do { w2 \<leftarrow> dpevp_free env w1 i; Some (w2, False) }
     else
       let (w2, ok) = try_alloc w1 in
       if \<not> ok then do { w3 \<leftarrow> dpevp_free env w2 i; Some (w3, False) }
       else
         let w3 = upd_evp w2 i (ev_capacity_update (\<lambda>_. 256));
             w4 = dpele_deque_init w3 (enter_ctcs i)
         in Some (dptmrset_init w4 i, True)
   }"

definition worker_new ::
  "('d, 's) env \<Rightarrow> (('d, 's) world \<Rightarrow> int) \<Rightarrow> ('d, 's) world \<Rightarrow> int \<Rightarrow> nat \<Rightarrow> (('d, 's) world \<times> bool) option" where
  "worker_new env epoll_create w type i =
     (let (w0, ok) = try_alloc w in
      if \<not> ok then Some (w0, False)
      else do {
        (w1, ok) \<leftarrow> dpevp_init env epoll_create w0 i type;
        if \<not> ok then Some (w1, False)
        else
          let w2 = dpele_deque_init w1 (accepting_ctcs i);
              w3 = dpele_deque_init w2 (commiting_ctcs i);
              w4 = dpele_deque_init w3 (commited_ctcs i);
              w5 = dpele_deque_init w4 (accepted_ctcs i);
              w6 = upd_evp w5 i (\<lambda>p. p\<lparr>is_respond_ctc := True, is_request_ctc := True\<rparr>);
              w7 = dpele_wake_init w6 (accept_wake i);
              w8 = dpele_wake_init w7 (commit_wake i)
          in Some (w8, True)
      })"

definition worker_del :: "('d, 's) env \<Rightarrow> ('d, 's) world \<Rightarrow> nat \<Rightarrow> ('d, 's) world option" where
  "worker_del env w i = do {
     w1 \<leftarrow> dpevp_free env w i;
     w2 \<leftarrow> dpele_deque_clear env w1 (accepting_ctcs i);
     w3 \<leftarrow> dpele_deque_clear env w2 (commiting_ctcs i);
     w4 \<leftarrow> dpele_deque_clear env w3 (accepted_ctcs i);
     w5 \<leftarrow> dpele_deque_clear env w4 (commited_ctcs i);
     Some (dpele_wake_init (dpele_wake_init w5 (accept_wake i)) (commit_wake i))
   }"

text \<open>Registration of a wake descriptor with the epoll instance of loop \<open>i\<close>.\<close>

definition epoll_ctl_add_wake :: "('d, 's) world \<Rightarrow> nat \<Rightarrow> wake_ref \<Rightarrow> ('d, 's) world \<times> int" where
  "epoll_ctl_add_wake w i r =
     (let (w1, err) = try_sys w in
      case err of
        Some n \<Rightarrow> (w1\<lparr>errno := n\<rparr>, - 1)
      | None \<Rightarrow>
          if wake_interest w1 r \<noteq> None then (w1\<lparr>errno := EEXIST\<rparr>, - 1)
          else (w1\<lparr>wake_interest := (wake_interest w1)(r := Some i)\<rparr>, 0))"

definition worker_start :: "('d, 's) world \<Rightarrow> nat \<Rightarrow> ('d, 's) world \<times> bool" where
  "worker_start w i = (let (w1, r) = epoll_ctl_add_wake w i (accept_wake i) in (w1, r = 0))"

definition master_new ::
  "('d, 's) env \<Rightarrow> (('d, 's) world \<Rightarrow> int) \<Rightarrow> ('d, 's) world \<Rightarrow> nat \<Rightarrow> (('d, 's) world \<times> bool) option" where
  "master_new env epoll_create w i =
     (let (w0, ok) = try_alloc w in
      if \<not> ok then Some (w0, False) else dpevp_init env epoll_create w0 i 0)"

definition master_del :: "('d, 's) env \<Rightarrow> ('d, 's) world \<Rightarrow> nat \<Rightarrow> ('d, 's) world option" where
  "master_del env w i = dpevp_free env w i"

fun master_start_from :: "('d, 's) world \<Rightarrow> nat \<Rightarrow> nat list \<Rightarrow> ('d, 's) world \<times> bool" where
  "master_start_from w i [] = (w, True)"
| "master_start_from w i (j # js) =
     (let (w1, r) = epoll_ctl_add_wake w i (commit_wake j) in
      if r \<noteq> 0 then (w1, False) else master_start_from w1 i js)"

definition master_start :: "('d, 's) world \<Rightarrow> nat \<Rightarrow> ('d, 's) world \<times> bool" where
  "master_start w i = master_start_from w i [1..<nat (gcount w)]"

definition dpevp_new ::
  "('d, 's) env \<Rightarrow> (('d, 's) world \<Rightarrow> int) \<Rightarrow> ('d, 's) world \<Rightarrow> int \<Rightarrow> nat \<Rightarrow> (('d, 's) world \<times> bool) option" where
  "dpevp_new env epoll_create w type i =
     (if i = 0 then master_new env epoll_create w i else worker_new env epoll_create w type i)"

definition dpevp_del :: "('d, 's) env \<Rightarrow> ('d, 's) world \<Rightarrow> nat \<Rightarrow> ('d, 's) world option" where
  "dpevp_del env w i = (if evp_id (evps w i) = 0 then master_del env w i else worker_del env w i)"

definition dpevp_start :: "('d, 's) world \<Rightarrow> nat \<Rightarrow> (('d, 's) world \<Rightarrow> ('d, 's) world option) \<Rightarrow> ('d, 's) world option" where
  "dpevp_start w i start_fun =
     (let w1 = w\<lparr>gevp := Some i\<rparr>;
          (w2, _) = (if evp_id (evps w1 i) = 0 then master_start w1 i else worker_start w1 i)
      in start_fun w2)"

definition dpevp_id :: "('d, 's) world \<Rightarrow> int" where
  "dpevp_id w = (case gevp w of Some i \<Rightarrow> int (evp_id (evps w i)) | None \<Rightarrow> - 1)"

definition dpevp_type :: "('d, 's) world \<Rightarrow> int" where
  "dpevp_type w = (case gevp w of Some i \<Rightarrow> evp_type (evps w i) | None \<Rightarrow> - 1)"

section \<open>Delivery\<close>

definition dpevp_reap_usd :: "('d, 's) world \<Rightarrow> nat \<Rightarrow> (('d, 's) world \<times> nat option) option" where
  "dpevp_reap_usd w i = dpele_deque_pop_front w (ready i)"

partial_function (option) dpevp_reap_tmr :: "('d, 's) world \<Rightarrow> nat \<Rightarrow> (('d, 's) world \<times> nat option) option" where
  "dpevp_reap_tmr w i =
     Option.bind (dptmrset_expire w i) (\<lambda>(w0, r, waitms).
     Option.bind (Some (upd_evp w0 i (timer_waitms_update (\<lambda>_. waitms)))) (\<lambda>w1.
       case r of
         None \<Rightarrow> Some (w1, None)
       | Some a \<Rightarrow>
           Option.bind (eles w1 a) (\<lambda>e.
             if ty_type (etype e) = DPELE_TYPE_CTC then
               Option.bind (dpctc_ces_stat w1 a DPCTC_CANCEL DPCTC_COMMIT) (\<lambda>(w2, ok).
               Option.bind (if ok then upd_ele w2 a (ret_update (\<lambda>_. DPE_TIME)) else Some w2) (\<lambda>w3.
                 dpevp_reap_tmr w3 i))
             else Option.bind (upd_ele w1 a (ret_update (\<lambda>_. DPE_TIME))) (\<lambda>w2. Some (w2, Some a)))))"

text \<open>The label \<open>OVER\<close>: an element nobody refers to is freed, a detached one is not delivered.\<close>

definition asc_over_end :: "('d, 's) env \<Rightarrow> ('d, 's) world \<Rightarrow> nat \<Rightarrow> (('d, 's) world \<times> bool) option" where
  "asc_over_end env w a = do {
     e \<leftarrow> eles w a;
     if dpele_refc e = 0 then do { w1 \<leftarrow> dpele_del_pri env w a; Some (w1, False) }
     else Some (w, \<not> dpele_is_detach e)
   }"

definition dpele_asc_over :: "('d, 's) env \<Rightarrow> ('d, 's) world \<Rightarrow> nat \<Rightarrow> (('d, 's) world \<times> bool) option" where
  "dpele_asc_over env w a = do {
     e \<leftarrow> eles w a;
     if ty_type (etype e) = DPELE_TYPE_EFD \<or> ty_iotype (etype e) \<noteq> DPAIO_TYPE_NAN then
       asc_over_end env (put_ele w a (e\<lparr>want_events := 0, asc_type := None\<rparr>)) a
     else
       (let post = Option.bind (asc_type e) (\<lambda>t. asc_post (ascs env t)) in
        if ty_type (etype e) = DPELE_TYPE_CTC \<and> stat e = DPCTC_RUNNING \<and> asc_type e \<noteq> None \<and> post = None
        then Some (w, True)
        else do {
          let w1 = put_ele w a (e\<lparr>want_events := 0, asc_type := None\<rparr>);
          w2 \<leftarrow> (case post of
                   None \<Rightarrow> Some w1
                 | Some f \<Rightarrow> do {
                     (w', _, r) \<leftarrow> f a \<lparr>out_want = 0, out_inva = 0, out_able = 0,
                        out_data = dpele_asc_data e\<rparr> w1;
                     upd_ele w' a (ret_update (\<lambda>_. r))
                   });
          asc_over_end env w2 a
        })
   }"

definition reap_func :: "('d, 's) env \<Rightarrow> dpele_type_e \<Rightarrow> ('d, 's) world \<Rightarrow> nat \<Rightarrow> (('d, 's) world \<times> nat option) option" where
  "reap_func env k w i =
     (case k of
        DPELE_TYPE_EFD \<Rightarrow> if i = 0 then master_reap_efd env w i else worker_reap_efd env w i
      | DPELE_TYPE_USD \<Rightarrow> dpevp_reap_usd w i
      | DPELE_TYPE_CTC \<Rightarrow> if i = 0 then master_reap_ctc env w i else worker_reap_ctc env w i
      | DPELE_TYPE_TMR \<Rightarrow> dpevp_reap_tmr w i)"

partial_function (option) dpevp_reap_ele ::
  "('d, 's) env \<Rightarrow> dpele_type_e \<Rightarrow> ('d, 's) world \<Rightarrow> nat \<Rightarrow> (('d, 's) world \<times> nat option) option" where
  "dpevp_reap_ele env k w i =
     Option.bind (reap_func env k w i) (\<lambda>(w1, r).
       case r of
         None \<Rightarrow> Some (w1, None)
       | Some a \<Rightarrow>
           Option.bind (dpele_asc_over env w1 a) (\<lambda>(w2, deliver).
             if deliver then Some (w2, Some a) else dpevp_reap_ele env k w2 i))"

primrec dpevp_reap_others ::
  "('d, 's) env \<Rightarrow> dpele_type_e list \<Rightarrow> ('d, 's) world \<Rightarrow> nat \<Rightarrow> (('d, 's) world \<times> nat option) option" where
  "dpevp_reap_others env [] w i = Some (w, None)"
| "dpevp_reap_others env (k # ks) w i =
     (if pop_limit (evps w i) < DPEVP_REAP_LIMIT then do {
        (w1, r) \<leftarrow> dpevp_reap_ele env k w i;
        (case r of
           Some a \<Rightarrow> Some (upd_evp w1 i (\<lambda>p. p\<lparr>pop_limit := pop_limit p + 1\<rparr>), Some a)
         | None \<Rightarrow> dpevp_reap_others env ks w1 i)
      }
      else Some (w, None))"

definition epoll_timeout :: "('d, 's) world \<Rightarrow> nat \<Rightarrow> int \<Rightarrow> int" where
  "epoll_timeout w i timeout_ms =
     (let p = evps w i in
      if pop_limit p \<ge> DPEVP_REAP_LIMIT \<or> dq_head (deqs w (ready i)) \<noteq> None then 0
      else if timer_waitms p \<ge> 0 \<and> (timeout_ms < 0 \<or> timer_waitms p < timeout_ms) then timer_waitms p
      else timeout_ms)"

text \<open>\<open>epoll_wait\<close> fills the buffer with at most the given number of events, or fails (\<open>None\<close>).\<close>

definition dpevp_pop ::
  "('d, 's) env \<Rightarrow> (nat \<Rightarrow> int \<Rightarrow> int \<Rightarrow> ('d, 's) world \<Rightarrow> ('d, 's) world \<times> epoll_event list option) \<Rightarrow>
     ('d, 's) world \<Rightarrow> int \<Rightarrow> (('d, 's) world \<times> nat option) option" where
  "dpevp_pop env epoll_wait w timeout_ms = do {
     i \<leftarrow> gevp w;
     (w1, r) \<leftarrow> dpevp_reap_ele env DPELE_TYPE_EFD w i;
     (case r of
        Some a \<Rightarrow> Some (w1, Some a)
      | None \<Rightarrow> do {
          (w2, r) \<leftarrow> dpevp_reap_others env [DPELE_TYPE_USD, DPELE_TYPE_CTC, DPELE_TYPE_TMR] w1 i;
          (case r of
             Some a \<Rightarrow> Some (w2, Some a)
           | None \<Rightarrow>
               let t = epoll_timeout w2 i timeout_ms;
                   w3 = upd_evp w2 i (\<lambda>p. p\<lparr>pop_limit := 0, ev_index := 0\<rparr>);
                   (w4, res) = epoll_wait i (ev_capacity (evps w3 i)) t w3
               in Some (case res of
                    Some l \<Rightarrow> upd_evp w4 i (\<lambda>p. p\<lparr>evs := l, ev_count := int (length l)\<rparr>)
                  | None \<Rightarrow> upd_evp w4 i (\<lambda>p. p\<lparr>ev_count := - 1\<rparr>), None))
        })
   }"

section \<open>Submission\<close>

definition accepts_type :: "u32 \<Rightarrow> dpele_type_e \<Rightarrow> bool" where
  "accepts_type types k \<longleftrightarrow> types AND push_bit (type_index k) 1 \<noteq> 0"

text \<open>\<open>None\<close> is the shift by \<open>-1\<close> that an element without I/O type leads to.\<close>

definition accepts_iotype :: "u32 \<Rightarrow> dpaio_type_e \<Rightarrow> bool option" where
  "accepts_iotype iotypes k =
     (if iotypes = 0 then Some True
      else do { n \<leftarrow> iotype_index k; Some (iotypes AND push_bit n 1 \<noteq> 0) })"

definition add_finish :: "('d, 's) world \<Rightarrow> nat \<Rightarrow> nat \<Rightarrow> dpret \<Rightarrow> (('d, 's) world \<times> dpret) option" where
  "add_finish w i a r = do {
     w1 \<leftarrow> upd_ele w a (ret_update (\<lambda>_. r));
     if dpret_isok r then do {
       w2 \<leftarrow> dpele_deque_push_back w1 (ready i) a;
       e \<leftarrow> eles w2 a;
       Some (w2, if is_detach e then r else DPE_WAIT)
     }
     else if r = DPE_WAIT then do {
       w2 \<leftarrow> upd_ele w1 a (ret_update (\<lambda>_. DPE_INPROGRESS));
       (w3, _) \<leftarrow> dptmrset_upsert w2 i a;
       e \<leftarrow> eles w3 a;
       Some (w3, if is_detach e then DPE_OK else DPE_WAIT)
     }
     else do {
       w2 \<leftarrow> upd_ele w1 a (asc_type_update (\<lambda>_. None));
       Some (w2, r)
     }
   }"

definition dpevp_addv ::
  "('d, 's) env \<Rightarrow> ('d, 's) world \<Rightarrow> nat option \<Rightarrow> nat option \<Rightarrow> va_list \<Rightarrow> (('d, 's) world \<times> dpret) option" where
  "dpevp_addv env w ele asc vargs =
     (case (ele, asc) of
        (Some a, Some t) \<Rightarrow> do {
          e \<leftarrow> eles w a;
          let d = ascs env t;
          ok \<leftarrow> (if accepts_type (asc_types d) (ty_type (etype e))
                 then accepts_iotype (asc_iotypes d) (ty_iotype (etype e)) else Some False);
          if \<not> ok then Some (w, DPE_INVAL)
          else if dpele_is_doing e \<and> asc_flags d AND DPASC_FLAG_ALLOW_DOING = 0 then Some (w, DPE_PERM)
          else do {
            let w0 = put_ele w a (e\<lparr>asc_type := Some t\<rparr>);
            (w1, has_data) \<leftarrow> dpele_asc_data_pri env w0 a;
            (w2, out, r) \<leftarrow> asc_prep d a vargs
               \<lparr>out_want = 0, out_inva = 0, out_able = ucast (able_events e), out_data = has_data\<rparr> w1;
            i \<leftarrow> gevp w2;
            if r \<noteq> DPE_CONTINUE then add_finish w2 i a r
            else do {
              e2 \<leftarrow> eles w2 a;
              (w3, r) \<leftarrow> (case ty_type (etype e2) of
                  DPELE_TYPE_EFD \<Rightarrow> do { (w', _, r) \<leftarrow> dpefd_wake env w2 a out; Some (w', r) }
                | DPELE_TYPE_CTC \<Rightarrow> do {
                    w' \<leftarrow> dpctc_set_stat w2 a DPCTC_COMMIT;
                    w'' \<leftarrow> upd_ele w' a (\<lambda>e. e\<lparr>nxt := None, fromid := of_nat (evp_id (evps w i)),
                              is_reto := False, cop := 0\<rparr>);
                    w''' \<leftarrow> commit_ctc_f w'' i a;
                    Some (w''', DPE_WAIT)
                  }
                | DPELE_TYPE_USD \<Rightarrow> Some (w2, DPE_WAIT)
                | DPELE_TYPE_TMR \<Rightarrow> Some (w2, DPE_WAIT));
              add_finish w3 i a r
            }
          }
        }
      | _ \<Rightarrow> Some (w, DPE_INVAL))"

definition dpevp_end :: "('d, 's) world \<Rightarrow> nat \<Rightarrow> dpret \<Rightarrow> (('d, 's) world \<times> dpret) option" where
  "dpevp_end w a r = do {
     e \<leftarrow> eles w a;
     if \<not> dpele_is_doing e then Some (w, DPE_OK)
     else do {
       i \<leftarrow> gevp w;
       if ty_type (etype e) = DPELE_TYPE_CTC \<and> unat (fromid e) \<noteq> evp_id (evps w i) then Some (w, DPE_PERM)
       else do {
         w1 \<leftarrow> dptmrset_remove w i a;
         w2 \<leftarrow> (case ty_type (etype e) of
                  DPELE_TYPE_EFD \<Rightarrow> do {
                    w' \<leftarrow> upd_ele w1 a (\<lambda>e. e\<lparr>want_events := DPEVT_NAN, ret := r\<rparr>);
                    dpele_deque_push_back w' (ready i) a
                  }
                | DPELE_TYPE_USD \<Rightarrow> do {
                    w' \<leftarrow> upd_ele w1 a (ret_update (\<lambda>_. r));
                    dpele_deque_push_back w' (ready i) a
                  }
                | DPELE_TYPE_CTC \<Rightarrow> do {
                    (w', ok) \<leftarrow> dpctc_ces_stat w1 a DPCTC_CANCEL DPCTC_COMMIT;
                    if ok then upd_ele w' a (ret_update (\<lambda>_. r)) else Some w'
                  }
                | DPELE_TYPE_TMR \<Rightarrow> do {
                    w' \<leftarrow> upd_ele w1 a (ret_update (\<lambda>_. r));
                    dpele_deque_push_back w' (ready i) a
                  });
         Some (w2, DPE_OK)
       }
     }
   }"

section \<open>Cross-thread calls\<close>

definition dpctc_reto :: "('d, 's) world \<Rightarrow> nat option \<Rightarrow> int \<Rightarrow> (('d, 's) world \<times> dpret) option" where
  "dpctc_reto w self t =
     (case self of
        None \<Rightarrow> Some (w, DPE_INVAL)
      | Some a \<Rightarrow> do {
          e \<leftarrow> eles w a;
          if ty_type (etype e) \<noteq> DPELE_TYPE_CTC then Some (w, DPE_INVAL)
          else do {
            t \<leftarrow> dpctc_resolve_toid w a t;
            if dpret_iserr t then Some (w, t)
            else if stat e \<noteq> DPCTC_RUNNING then Some (w, DPE_PERM)
            else Some (put_ele w a (e\<lparr>toid := of_int t, is_reto := True\<rparr>), DPE_OK)
          }
        })"

text \<open>\<open>slots\<close> is the representation of the two stored arguments in the scratch data.\<close>

definition dpctc_submit_prep ::
  "(64 word \<Rightarrow> 64 word \<Rightarrow> 'd) \<Rightarrow> nat \<Rightarrow> va_list \<Rightarrow> dpasc_out \<Rightarrow> ('d, 's) world \<Rightarrow>
     (('d, 's) world \<times> dpasc_out \<times> dpret) option" where
  "dpctc_submit_prep slots a va out w = do {
     e \<leftarrow> eles w a;
     if ty_type (etype e) \<noteq> DPELE_TYPE_CTC then Some (w, out, DPE_INVAL)
     else if stat_index (stat e) > stat_index DPCTC_INITIAL \<and> stat_index (stat e) < stat_index DPCTC_FINISH
     then Some (w, out, DPE_REPEAT)
     else if \<not> out_data out then Some (w, out, DPE_INVAL)
     else do {
       (x, va) \<leftarrow> va_w64 va;
       (y, _) \<leftarrow> va_w64 va;
       w1 \<leftarrow> upd_ele w a (asc_data_update (map_option (\<lambda>(cap, _). (cap, Some (slots x y)))));
       Some (w1, out, DPE_CONTINUE)
     }
   }"

definition dpctc_submit :: "(64 word \<Rightarrow> 64 word \<Rightarrow> 'd) \<Rightarrow> ('d, 's) dpasc" where
  "dpctc_submit slots = \<lparr>asc_prep = dpctc_submit_prep slots, asc_post = None,
     asc_types = push_bit (type_index DPELE_TYPE_CTC) 1, asc_iotypes = 0, asc_datasz = 16, asc_flags = 0\<rparr>"

definition dpevp_end_ctc :: "('d, 's) env \<Rightarrow> ('d, 's) world \<Rightarrow> nat option \<Rightarrow> dpret \<Rightarrow> (('d, 's) world \<times> dpret) option" where
  "dpevp_end_ctc env w ctc err =
     (case ctc of
        None \<Rightarrow> Some (w, DPE_INVAL)
      | Some a \<Rightarrow> do {
          e \<leftarrow> eles w a;
          if ty_type (etype e) \<noteq> DPELE_TYPE_CTC \<or> \<not> dpele_is_doing e then Some (w, DPE_INVAL)
          else do {
            i \<leftarrow> gevp w;
            let w1 = put_ele w a (e\<lparr>ret := err\<rparr>);
            if is_reto e then do {
              w2 \<leftarrow> upd_ele w1 a (\<lambda>e. e\<lparr>is_reto := False, stat := DPCTC_COMMIT\<rparr>);
              w3 \<leftarrow> commit_ctc_f w2 i a;
              Some (w3, DPE_OK)
            }
            else do {
              w2 \<leftarrow> dpctc_set_stat w1 a DPCTC_FINISH;
              if is_detach e then
                (if dpele_refc e = 0 then do { w3 \<leftarrow> dpele_del_pri env w2 a; Some (w3, DPE_OK) }
                 else Some (w2, DPE_OK))
              else do { w3 \<leftarrow> finish_ctc_f w2 i a; Some (w3, DPE_OK) }
            }
          }
        })"

end
