(* ===== verification/Dpctc_Life.thy ===== *)
theory Dpctc_Life
  imports Dpevp
begin

text \<open>
  The life of a cross-thread call, step by step, over the exchange invariant: submission by a
  worker, forwarding by the master, the decision between running and cancelling, completion, and
  the way back to the caller.  The master is loop \<open>0\<close>.
\<close>

section \<open>Quiet changes\<close>

lemma quiet_put_ele: "eles w a = Some e \<Longrightarrow> same_links e e' \<Longrightarrow> quiet w (put_ele w a e')"
  by (auto simp: quiet_def same_links_def split: option.splits)

lemma quiet_refl: "quiet w w"
  by (auto simp: quiet_def same_links_def split: option.splits)

lemma same_links_refl [simp]: "same_links e e"
  by (simp add: same_links_def)

lemma head_in_queue: "queues w L \<Longrightarrow> dq_head (deqs w q) = Some a \<Longrightarrow> in_queue L a"
  using queues_deque [of w L q]
  by (auto simp: deque_is_def first_or_def in_queue_def split: if_splits intro!: exI [of _ q])

lemma exchange_put:
  "exchange w rw rm L \<Longrightarrow> eles w a = Some e \<Longrightarrow> same_links e e' \<Longrightarrow> exchange (put_ele w a e') rw rm L"
  by (rule quiet_exchange [OF _ quiet_put_ele])

lemma exchange_free:
  assumes X: "exchange w rw rm L" and a: "eles w a = Some e" "\<not> in_queue L a"
  shows "exchange (w\<lparr>eles := (eles w)(a := None)\<rparr>) rw rm L"
proof (rule quiet_exchange [OF X])
  have "prv e = None" "nxt e = None" using queues_loose [OF exchange_queues [OF X] a] by auto
  moreover have "dq_head (deqs w q) \<noteq> Some a" for q
    using head_in_queue [OF exchange_queues [OF X]] a(2) by blast
  ultimately show "quiet w (w\<lparr>eles := (eles w)(a := None)\<rparr>)"
    using a(1) by (auto simp: quiet_def same_links_def split: option.splits)
qed

text \<open>Bookkeeping that is not part of the exchange.\<close>

lemma exchange_outer:
  fixes w w' :: "('d, 's) world"
  assumes "exchange w rw rm L" "eles w' = eles w" "deqs w' = deqs w" "eventfd w' = eventfd w"
    "\<And>i. is_request_ctc (evps w' i) = is_request_ctc (evps w i)"
    "\<And>i. is_respond_ctc (evps w' i) = is_respond_ctc (evps w i)"
  shows "exchange w' rw rm L"
  by (rule quiet_exchange [OF assms(1)])
    (use assms(2-6) in \<open>auto simp: quiet_def split: option.splits\<close>)

section \<open>Sending\<close>

text \<open>Where a loop puts a call that goes to loop \<open>t\<close>: its own inbox, or a channel.\<close>

definition sent_to :: "nat \<Rightarrow> nat \<Rightarrow> deque_ref \<Rightarrow> bool" where
  "sent_to i t q \<longleftrightarrow>
     (if t = i then q = enter_ctcs i
      else if i = 0 then q \<in> {accepted_ctcs t, accepting_ctcs t}
      else q \<in> {commited_ctcs i, commiting_ctcs i})"

text \<open>After a push an element differs in its links only.\<close>

lemma relinks_ele: "relinks w w' \<Longrightarrow> eles w a = Some e \<Longrightarrow> \<exists>e'. eles w' a = Some e' \<and> unlink e' = unlink e"
  unfolding relinks_def by (metis map_option_eq_Some)

lemma push_links_only:
  assumes "dpele_deque_push_back w q a = Some w'" "eles w a = Some e" "queues w L" "\<not> in_queue L a"
  shows "\<exists>e'. eles w' a = Some e' \<and> unlink e' = unlink e"
  using queues_push_back [OF assms(3,2,4), of q] assms(1,2) relinks_ele by (metis option.inject)

lemma unlink_fields:
  assumes "unlink e' = unlink e"
  shows "etype e' = etype e" "stat e' = stat e" "ret e' = ret e" "fromid e' = fromid e" "toid e' = toid e"
    "is_detach e' = is_detach e" "is_reto e' = is_reto e" "asc_type e' = asc_type e" "asc_data e' = asc_data e"
    "is_timing e' = is_timing e" "tmr_spec e' = tmr_spec e" "ele_refc e' = ele_refc e" "cop e' = cop e"
  using assms by (cases e; cases e'; simp add: unlink_def)+

lemma worker_push_links_only:
  fixes w w' :: "('d, 's) world"
  assumes "queues w L" "eles w a = Some e" "\<not> in_queue L a"
    and "worker_push_commit_ctc w i a = Some w' \<or> worker_push_accept_ctc w i a = Some w'"
  shows "\<exists>e'. eles w' a = Some e' \<and> unlink e' = unlink e"
proof -
  obtain w0 w1 :: "('d, 's) world" and q where w: "eles w0 = eles w" "deqs w0 = deqs w" "dpele_deque_push_back w0 q a = Some w1"
    "eles w' = eles w1"
  proof (cases "is_request_ctc (evps w i) \<and> worker_push_commit_ctc w i a = Some w' \<or>
      is_respond_ctc (evps w i) \<and> worker_push_accept_ctc w i a = Some w'")
    case True
    then show ?thesis
      using that [of "upd_evp w i (is_request_ctc_update (\<lambda>_. False))" "commited_ctcs i"]
        that [of "upd_evp w i (is_respond_ctc_update (\<lambda>_. False))" "accepted_ctcs i"]
      by (auto simp: worker_push_commit_ctc_def worker_push_accept_ctc_def bind_eq_Some_conv)
  next
    case False
    then show ?thesis using assms(4) that [of w "commiting_ctcs i" w'] that [of w "accepting_ctcs i" w']
      by (auto simp: worker_push_commit_ctc_def worker_push_accept_ctc_def split: if_splits)
  qed
  have "queues w0 L" by (rule queues_fields [OF assms(1) w(1,2)])
  then show ?thesis using push_links_only [OF w(3) _ _ assms(3)] assms(2) w(1,4) by auto
qed

text \<open>Both ways of sending: \<open>commit_ctc_f\<close> goes to \<open>toid\<close>, \<open>finish_ctc_f\<close> back to \<open>fromid\<close>.\<close>

definition send :: "('d, 's) world \<Rightarrow> nat \<Rightarrow> byte \<Rightarrow> nat \<Rightarrow> ('d, 's) world option" where
  "send w i t a =
     (if unat t = i then dpele_deque_push_back w (enter_ctcs i) a
      else if i = 0 then do { j \<leftarrow> gevps_worker w t; worker_push_accept_ctc w j a }
      else worker_push_commit_ctc w i a)"

lemma commit_ctc_f_send: "eles w a = Some e \<Longrightarrow> commit_ctc_f w i a = send w i (toid e) a"
  by (auto simp: commit_ctc_f_def send_def master_commit_ctc_def worker_commit_ctc_def)

lemma finish_ctc_f_send: "eles w a = Some e \<Longrightarrow> finish_ctc_f w i a = send w i (fromid e) a"
  by (auto simp: finish_ctc_f_def send_def master_finish_ctc_def worker_finish_ctc_def)

lemma send_effect:
  assumes X: "exchange w rw rm L" and a: "eles w a = Some e" "\<not> in_queue L a"
    and t: "uint t < gcount w"
  obtains w' q e' where "send w i t a = Some w'" "sent_to i (unat t) q"
    "exchange w' rw rm (L(q := L q @ [a]))" "eles w' a = Some e'" "unlink e' = unlink e"
proof -
  consider (self) "unat t = i" | (down) "unat t \<noteq> i" "i = 0" | (up) "unat t \<noteq> i" "0 < i" by blast
  then show ?thesis
  proof cases
    case self
    obtain w' where w': "dpele_deque_push_back w (enter_ctcs i) a = Some w'"
      "exchange w' rw rm (L(enter_ctcs i := L (enter_ctcs i) @ [a]))"
      using X a by (rule exchange_push_inbox)
    have "\<exists>e'. eles w' a = Some e' \<and> unlink e' = unlink e"
      by (rule push_links_only [OF w'(1) a(1) exchange_queues [OF X] a(2)])
    then show ?thesis using that [of w' "enter_ctcs i"] w' self by (auto simp: sent_to_def send_def)
  next
    case down
    then have g: "gevps_worker w t = Some (unat t)" "0 < unat t"
      using t by (auto simp: gevps_worker_def unat_gt_0)
    obtain w' q where w': "worker_push_accept_ctc w (unat t) a = Some w'"
      "q \<in> {accepted_ctcs (unat t), accepting_ctcs (unat t)}" "exchange w' rw rm (L(q := L q @ [a]))"
      using push_accept_effect [OF X g(2) a] by metis
    have "\<exists>e'. eles w' a = Some e' \<and> unlink e' = unlink e"
      using worker_push_links_only [OF exchange_queues [OF X] a] w'(1) by blast
    then show ?thesis using that [of w' q] w' g(1) down by (auto simp: sent_to_def send_def)
  next
    case up
    obtain w' q where w': "worker_push_commit_ctc w i a = Some w'" "q \<in> {commited_ctcs i, commiting_ctcs i}"
      "exchange w' rw rm (L(q := L q @ [a]))"
      using push_commit_effect [OF X up(2) a] by metis
    have "\<exists>e'. eles w' a = Some e' \<and> unlink e' = unlink e"
      using worker_push_links_only [OF exchange_queues [OF X] a] w'(1) by blast
    then show ?thesis using that [of w' q] w' up by (auto simp: sent_to_def send_def)
  qed
qed

section \<open>Submission\<close>

lemma dpele_asc_data_effect:
  assumes a: "eles w a = Some e" "asc_type e = Some t" "0 < asc_datasz (ascs env t)"
    and m: "mem_ok w (mem_calls w) \<or> (\<exists>cap d. asc_data e = Some (cap, d) \<and> asc_datasz (ascs env t) \<le> cap)"
  obtains w' cap where "dpele_asc_data_pri env w a = Some (w', True)"
    "eles w' = (eles w)(a \<mapsto> e\<lparr>asc_data := Some (cap, None)\<rparr>)" "deqs w' = deqs w" "evps w' = evps w"
    "eventfd w' = eventfd w" "gevp w' = gevp w" "gcount w' = gcount w"
proof (cases "\<exists>cap d. asc_data e = Some (cap, d) \<and> asc_datasz (ascs env t) \<le> cap")
  case True
  then obtain cap d where d: "asc_data e = Some (cap, d)" "asc_datasz (ascs env t) \<le> cap" by blast
  show ?thesis
    by (rule that [of "put_ele w a (e\<lparr>asc_data := Some (cap, None)\<rparr>)" cap])
      (use a d in \<open>auto simp: dpele_asc_data_pri_def Let_def put_ele_def\<close>)
next
  case False
  then have ok: "mem_ok w (mem_calls w)" using m by blast
  let ?w = "put_ele (fst (try_alloc w)) a (e\<lparr>asc_data := Some (asc_datasz (ascs env t), None)\<rparr>)"
  have "dpele_asc_data_pri env w a = Some (?w, True)"
    using a ok False
    by (cases "asc_data e") (auto simp: dpele_asc_data_pri_def Let_def try_alloc_def put_ele_def)
  then show ?thesis by (rule that) (auto simp: try_alloc_def put_ele_def)
qed

lemma upsert_no_spec: "eles w a = Some e \<Longrightarrow> tmr_spec e = None \<Longrightarrow> dptmrset_upsert w i a = Some (w, DPE_INVAL)"
  by (simp add: dptmrset_upsert_def)

lemma relinks_gevp: "relinks w w' \<Longrightarrow> gevp w' = gevp w \<and> gcount w' = gcount w"
  using relinks_fields by blast

lemma dpctc_submit_effect:
  assumes X: "exchange w rw rm L" and a: "eles w a = Some e" "\<not> in_queue L a"
    and e: "ty_type (etype e) = DPELE_TYPE_CTC" "asc_type e = None" "stat e \<in> {DPCTC_INITIAL, DPCTC_FINISH}"
      "tmr_spec e = None" "uint (toid e) < gcount w"
    and t: "ascs env t = dpctc_submit slots"
    and m: "mem_ok w (mem_calls w) \<or> (\<exists>cap d. asc_data e = Some (cap, d) \<and> 16 \<le> cap)"
    and g: "gevp w = Some i" "evp_id (evps w i) = i" "i < 256"
  shows "\<exists>w' q e' cap. dpevp_addv env w (Some a) (Some t) [Vw64 x, Vw64 y] =
      Some (w', if is_detach e then DPE_OK else DPE_WAIT) \<and>
    sent_to i (unat (toid e)) q \<and> exchange w' rw rm (L(q := L q @ [a])) \<and> eles w' a = Some e' \<and>
    stat e' = DPCTC_COMMIT \<and> unat (fromid e') = i \<and> toid e' = toid e \<and> ret e' = DPE_INPROGRESS \<and>
    asc_type e' = Some t \<and> asc_data e' = Some (cap, Some (slots x y))"
proof -
  let ?e0 = "e\<lparr>asc_type := Some t\<rparr>"
  have sz: "asc_datasz (ascs env t) = 16" by (simp add: t dpctc_submit_def)
  obtain w1 cap where 1: "dpele_asc_data_pri env (put_ele w a ?e0) a = Some (w1, True)"
    "eles w1 = (eles (put_ele w a ?e0))(a \<mapsto> ?e0\<lparr>asc_data := Some (cap, None)\<rparr>)"
    "deqs w1 = deqs (put_ele w a ?e0)" "evps w1 = evps (put_ele w a ?e0)"
    "eventfd w1 = eventfd (put_ele w a ?e0)" "gevp w1 = gevp (put_ele w a ?e0)"
    "gcount w1 = gcount (put_ele w a ?e0)"
    by (rule dpele_asc_data_effect [of "put_ele w a ?e0" a ?e0 t env]) (use m sz in \<open>auto simp: put_ele_def\<close>)
  let ?e2 = "?e0\<lparr>asc_data := Some (cap, Some (slots x y))\<rparr>"
  let ?w2 = "put_ele w1 a ?e2"
  let ?e3 = "?e2\<lparr>stat := DPCTC_COMMIT, nxt := None, fromid := of_nat i, is_reto := False, cop := 0\<rparr>"
  let ?w3 = "put_ele ?w2 a ?e3"
  have loose: "prv e = None" "nxt e = None" using queues_loose [OF exchange_queues [OF X] a] by auto
  have "exchange (put_ele w a (?e0\<lparr>asc_data := Some (cap, None)\<rparr>)) rw rm L"
    using X a(1) by (rule exchange_put) (simp add: same_links_def)
  then have "exchange w1 rw rm L" by (rule exchange_outer) (use 1 in auto)
  then have X2: "exchange ?w2 rw rm L"
    by (rule exchange_put [where e = "?e0\<lparr>asc_data := Some (cap, None)\<rparr>"])
      (use 1(2) in \<open>auto simp: same_links_def\<close>)
  have X3: "exchange ?w3 rw rm L"
    by (rule exchange_put [OF X2, where e = ?e2]) (use loose in \<open>auto simp: same_links_def\<close>)
  have "uint (toid ?e3) < gcount ?w3" using e(5) 1(7) by (simp add: put_ele_def)
  then obtain w4 q e4 where 4: "send ?w3 i (toid ?e3) a = Some w4" "sent_to i (unat (toid ?e3)) q"
    "exchange w4 rw rm (L(q := L q @ [a]))" "eles w4 a = Some e4" "unlink e4 = unlink ?e3"
    using send_effect [OF X3 _ a(2), of ?e3 "toid ?e3" i] by (metis eles_put_ele fun_upd_same)
  have commit: "commit_ctc_f ?w3 i a = Some w4" using 4(1) commit_ctc_f_send [of ?w3 a ?e3 i] by simp
  let ?e5 = "e4\<lparr>ret := DPE_INPROGRESS\<rparr>"
  let ?w5 = "put_ele (put_ele w4 a (e4\<lparr>ret := DPE_WAIT\<rparr>)) a ?e5"
  have fin: "add_finish w4 i a DPE_WAIT = Some (?w5, if is_detach e then DPE_OK else DPE_WAIT)"
    using 4(4) unlink_fields [OF 4(5)] e(4)
    by (simp add: add_finish_def dpret_isok_def upsert_no_spec [of _ _ ?e5])
  have prep: "asc_prep (ascs env t) a [Vw64 x, Vw64 y] \<lparr>out_want = 0, out_inva = 0, out_able = ucast (able_events e),
      out_data = True\<rparr> w1 = Some (?w2, \<lparr>out_want = 0, out_inva = 0, out_able = ucast (able_events e),
      out_data = True\<rparr>, DPE_CONTINUE)"
    using e(1,3) 1(2) by (auto simp: t dpctc_submit_def dpctc_submit_prep_def comp_def)
  have ty: "accepts_type (asc_types (ascs env t)) (ty_type (etype e))"
    "accepts_iotype (asc_iotypes (ascs env t)) (ty_iotype (etype e)) = Some True"
    by (simp_all add: t dpctc_submit_def accepts_type_def accepts_iotype_def e(1))
  have set: "dpctc_set_stat ?w2 a DPCTC_COMMIT = Some (put_ele ?w2 a (?e2\<lparr>stat := DPCTC_COMMIT\<rparr>))"
    by (simp add: dpctc_set_stat_def)
  have "dpevp_addv env w (Some a) (Some t) [Vw64 x, Vw64 y] = Some (?w5, if is_detach e then DPE_OK else DPE_WAIT)"
    using a(1) e(1,2) ty 1(1,4,6) prep set commit fin g
    by (simp add: dpevp_addv_def dpele_is_doing_def Let_def put_ele_def)
  moreover have "exchange ?w5 rw rm (L(q := L q @ [a]))"
    by (rule exchange_put [OF exchange_put [OF 4(3,4)], where e = "e4\<lparr>ret := DPE_WAIT\<rparr>"])
      (simp_all add: same_links_def)
  ultimately show ?thesis
    using 4(2) unlink_fields [OF 4(5)] g(3)
    by (intro exI [of _ ?w5] exI [of _ q] exI [of _ ?e5] exI [of _ cap]) (simp add: unat_of_nat)
qed

section \<open>Running or cancelling\<close>

text \<open>What loop \<open>i\<close> does with a call taken from its inbox whose status it has loaded as \<open>s\<close>.\<close>

definition reap_one :: "('d, 's) env \<Rightarrow> ('d, 's) world \<Rightarrow> nat \<Rightarrow> nat \<Rightarrow> dpctc_stat \<Rightarrow> (('d, 's) world \<times> bool) option" where
  "reap_one env w i a s = (if i = 0 then master_reap_one env w i a s else worker_reap_one env w i a s)"

lemma dpele_del_ctc:
  assumes "eles w a = Some e" "ty_type (etype e) = DPELE_TYPE_CTC" "ty_fini (etype e) = None"
  shows "dpele_del_pri env w a = Some (w\<lparr>eles := (eles w)(a := None)\<rparr>)"
  using assms by (simp add: dpele_del_pri_def)

lemma reap_commit:
  assumes X: "exchange w rw rm L" and a: "eles w a = Some e" "\<not> in_queue L a"
    and s: "stat e = DPCTC_COMMIT" and t: "uint (toid e) < gcount w"
  shows "\<exists>w' e'. eles w' a = Some e' \<and> stat e' = DPCTC_RUNNING \<and> toid e' = toid e \<and> fromid e' = fromid e \<and>
    (if i = 0 \<and> toid e \<noteq> 0
     then \<exists>q. reap_one env w i a DPCTC_COMMIT = Some (w', False) \<and> sent_to 0 (unat (toid e)) q \<and>
       exchange w' rw rm (L(q := L q @ [a]))
     else reap_one env w i a DPCTC_COMMIT = Some (w', True) \<and> exchange w' rw rm L)"
proof -
  let ?e = "e\<lparr>stat := DPCTC_RUNNING\<rparr>"
  let ?w = "put_ele w a ?e"
  have X1: "exchange ?w rw rm L" by (rule exchange_put [OF X a(1)]) (simp add: same_links_def)
  have cas: "dpctc_ces_stat w a DPCTC_RUNNING DPCTC_COMMIT = Some (?w, True)"
    using a(1) s by (simp add: dpctc_ces_stat_def)
  show ?thesis
  proof (cases "i = 0 \<and> toid e \<noteq> 0")
    case True
    have "uint (toid ?e) < gcount ?w" using t by (simp add: put_ele_def)
    then obtain w' q e' where 1: "send ?w 0 (toid ?e) a = Some w'" "sent_to 0 (unat (toid ?e)) q"
      "exchange w' rw rm (L(q := L q @ [a]))" "eles w' a = Some e'" "unlink e' = unlink ?e"
      using send_effect [OF X1 _ a(2), of ?e "toid ?e" 0] by (metis eles_put_ele fun_upd_same)
    have "unat (toid e) \<noteq> 0" using True by (simp add: unat_eq_0)
    then obtain j where "gevps_worker ?w (toid e) = Some j" "worker_push_accept_ctc ?w j a = Some w'"
      using 1(1) by (auto simp: send_def bind_eq_Some_conv)
    then have "master_case_commit env w 0 a = Some (w', False)"
      using cas True by (simp add: master_case_commit_def)
    then show ?thesis using True 1 unlink_fields [OF 1(5)]
      by (auto simp: reap_one_def master_reap_one_def intro!: exI [of _ w'] exI [of _ e'])
  next
    case False
    then have "reap_one env w i a DPCTC_COMMIT = Some (?w, True)"
      using cas by (auto simp: reap_one_def master_reap_one_def worker_reap_one_def
        master_case_commit_def worker_case_commit_def)
    then show ?thesis using False X1 by (intro exI [of _ ?w] exI [of _ ?e]) auto
  qed
qed

text \<open>A cancelled call, even when its status was loaded before it was cancelled.\<close>

lemma reap_cancelled:
  assumes X: "exchange w rw rm L" and a: "eles w a = Some e" "\<not> in_queue L a"
    and s: "stat e = DPCTC_CANCEL" "s \<in> {DPCTC_COMMIT, DPCTC_CANCEL}" and f: "uint (fromid e) < gcount w"
    and ty: "ty_type (etype e) = DPELE_TYPE_CTC" "ty_fini (etype e) = None"
  shows "\<exists>w'. reap_one env w i a s = Some (w', False) \<and>
    (if dpele_refc e = 0 then eles w' a = None \<and> exchange w' rw rm L
     else if is_detach e then eles w' a = Some (e\<lparr>stat := DPCTC_FINISH\<rparr>) \<and> exchange w' rw rm L
     else \<exists>q e'. sent_to i (unat (fromid e)) q \<and> exchange w' rw rm (L(q := L q @ [a])) \<and>
       eles w' a = Some e' \<and> stat e' = DPCTC_FINISH \<and> ret e' = ret e)"
proof -
  let ?e = "e\<lparr>stat := DPCTC_FINISH\<rparr>"
  let ?w = "put_ele w a ?e"
  have X1: "exchange ?w rw rm L" by (rule exchange_put [OF X a(1)]) (simp add: same_links_def)
  have cas: "dpctc_ces_stat w a DPCTC_RUNNING DPCTC_COMMIT = Some (w, False)"
    "dpctc_ces_stat w a DPCTC_FINISH DPCTC_CANCEL = Some (?w, True)"
    using a(1) s by (simp_all add: dpctc_ces_stat_def)
  have refc: "dpele_refc ?e = dpele_refc e" by (simp add: dpele_refc_def)
  have one: "reap_one env w i a s = do {
      (w2, gone) \<leftarrow> dpctc_del env ?w a;
      w3 \<leftarrow> (if gone then Some w2 else finish_ctc_f w2 i a);
      Some (w3, False)
    }"
    using s(2) cas by (auto simp: reap_one_def master_reap_one_def worker_reap_one_def
      master_case_commit_def worker_case_commit_def master_case_cancel_def worker_case_cancel_def
      finish_ctc_f_def cong: if_cong)
  consider (free) "dpele_refc e = 0" | (keep) "dpele_refc e \<noteq> 0" "is_detach e"
    | (home) "dpele_refc e \<noteq> 0" "\<not> is_detach e" by blast
  then show ?thesis
  proof cases
    case free
    let ?w' = "?w\<lparr>eles := (eles ?w)(a := None)\<rparr>"
    have "dpctc_del env ?w a = Some (?w', True)"
      using free refc dpele_del_ctc [of ?w a ?e env] ty by (simp add: dpctc_del_def)
    moreover have "exchange ?w' rw rm L" by (rule exchange_free [OF X1 _ a(2), of ?e]) simp
    ultimately show ?thesis using one free by (intro exI [of _ ?w']) simp
  next
    case keep
    then have "dpctc_del env ?w a = Some (?w, True)" using refc by (simp add: dpctc_del_def)
    then show ?thesis using one keep X1 by (intro exI [of _ ?w]) simp
  next
    case home
    have "uint (fromid ?e) < gcount ?w" using f by (simp add: put_ele_def)
    then obtain w' q e' where 1: "send ?w i (fromid ?e) a = Some w'" "sent_to i (unat (fromid ?e)) q"
      "exchange w' rw rm (L(q := L q @ [a]))" "eles w' a = Some e'" "unlink e' = unlink ?e"
      using send_effect [OF X1 _ a(2), of ?e "fromid ?e" i] by (metis eles_put_ele fun_upd_same)
    have "finish_ctc_f ?w i a = Some w'" using 1(1) finish_ctc_f_send [of ?w a ?e i] by simp
    moreover have "dpctc_del env ?w a = Some (?w, False)" using home refc by (simp add: dpctc_del_def)
    ultimately show ?thesis using one home 1 unlink_fields [OF 1(5)] by (intro exI [of _ w']) auto
  qed
qed

section \<open>Completion\<close>

lemma dpevp_end_ctc_effect:
  assumes X: "exchange w rw rm L" and a: "eles w a = Some e" "\<not> in_queue L a"
    and e: "ty_type (etype e) = DPELE_TYPE_CTC" "ty_fini (etype e) = None" "asc_type e \<noteq> None"
    and g: "gevp w = Some i" "uint (fromid e) < gcount w" "uint (toid e) < gcount w"
  shows "\<exists>w'. dpevp_end_ctc env w (Some a) r = Some (w', DPE_OK) \<and>
    (if is_reto e then \<exists>q e'. sent_to i (unat (toid e)) q \<and> exchange w' rw rm (L(q := L q @ [a])) \<and>
       eles w' a = Some e' \<and> stat e' = DPCTC_COMMIT \<and> ret e' = r \<and> \<not> is_reto e'
     else if \<not> is_detach e then \<exists>q e'. sent_to i (unat (fromid e)) q \<and> exchange w' rw rm (L(q := L q @ [a])) \<and>
       eles w' a = Some e' \<and> stat e' = DPCTC_FINISH \<and> ret e' = r
     else if dpele_refc e = 0 then eles w' a = None \<and> exchange w' rw rm L
     else eles w' a = Some (e\<lparr>ret := r, stat := DPCTC_FINISH\<rparr>) \<and> exchange w' rw rm L)"
proof -
  have put: "exchange (put_ele w a e') rw rm L" if "same_links e e'" for e'
    using X a(1) that by (rule exchange_put)
  have twice: "put_ele (put_ele w a e') a e'' = put_ele w a e''" for e' e''
    by (simp add: put_ele_def)
  obtain t where doing: "asc_type e = Some t" using e(3) by blast
  have start: "dpevp_end_ctc env w (Some a) r =
      (if is_reto e then do {
         w3 \<leftarrow> commit_ctc_f (put_ele w a (e\<lparr>ret := r, is_reto := False, stat := DPCTC_COMMIT\<rparr>)) i a;
         Some (w3, DPE_OK)
       }
       else do {
         let w2 = put_ele w a (e\<lparr>ret := r, stat := DPCTC_FINISH\<rparr>);
         if is_detach e then
           (if dpele_refc e = 0 then do { w3 \<leftarrow> dpele_del_pri env w2 a; Some (w3, DPE_OK) } else Some (w2, DPE_OK))
         else do { w3 \<leftarrow> finish_ctc_f w2 i a; Some (w3, DPE_OK) }
       })"
    using a(1) e(1) doing g(1)
    by (simp add: dpevp_end_ctc_def dpele_is_doing_def dpctc_set_stat_def Let_def twice put_ele_def)
  consider (reto) "is_reto e" | (home) "\<not> is_reto e" "\<not> is_detach e"
    | (free) "\<not> is_reto e" "is_detach e" "dpele_refc e = 0" | (keep) "\<not> is_reto e" "is_detach e" "dpele_refc e \<noteq> 0"
    by blast
  then show ?thesis
  proof cases
    case reto
    let ?e = "e\<lparr>ret := r, is_reto := False, stat := DPCTC_COMMIT\<rparr>"
    have X1: "exchange (put_ele w a ?e) rw rm L" by (rule put) (simp add: same_links_def)
    have "uint (toid ?e) < gcount (put_ele w a ?e)" using g(3) by (simp add: put_ele_def)
    then obtain w' q e' where 1: "send (put_ele w a ?e) i (toid ?e) a = Some w'" "sent_to i (unat (toid ?e)) q"
      "exchange w' rw rm (L(q := L q @ [a]))" "eles w' a = Some e'" "unlink e' = unlink ?e"
      using send_effect [OF X1 _ a(2), of ?e "toid ?e" i] by (metis eles_put_ele fun_upd_same)
    have "commit_ctc_f (put_ele w a ?e) i a = Some w'"
      using 1(1) commit_ctc_f_send [of "put_ele w a ?e" a ?e i] by simp
    then show ?thesis using start reto 1 unlink_fields [OF 1(5)] by (intro exI [of _ w']) auto
  next
    case home
    let ?e = "e\<lparr>ret := r, stat := DPCTC_FINISH\<rparr>"
    have X1: "exchange (put_ele w a ?e) rw rm L" by (rule put) (simp add: same_links_def)
    have "uint (fromid ?e) < gcount (put_ele w a ?e)" using g(2) by (simp add: put_ele_def)
    then obtain w' q e' where 1: "send (put_ele w a ?e) i (fromid ?e) a = Some w'" "sent_to i (unat (fromid ?e)) q"
      "exchange w' rw rm (L(q := L q @ [a]))" "eles w' a = Some e'" "unlink e' = unlink ?e"
      using send_effect [OF X1 _ a(2), of ?e "fromid ?e" i] by (metis eles_put_ele fun_upd_same)
    have "finish_ctc_f (put_ele w a ?e) i a = Some w'"
      using 1(1) finish_ctc_f_send [of "put_ele w a ?e" a ?e i] by simp
    then show ?thesis using start home 1 unlink_fields [OF 1(5)] by (intro exI [of _ w']) (auto simp: Let_def)
  next
    case free
    let ?e = "e\<lparr>ret := r, stat := DPCTC_FINISH\<rparr>"
    let ?w = "put_ele w a ?e"
    have "exchange ?w rw rm L" by (rule put) (simp add: same_links_def)
    then have "exchange (?w\<lparr>eles := (eles ?w)(a := None)\<rparr>) rw rm L"
      by (rule exchange_free [OF _ _ a(2), of _ rw rm ?e]) simp
    moreover have "dpele_del_pri env ?w a = Some (?w\<lparr>eles := (eles ?w)(a := None)\<rparr>)"
      by (rule dpele_del_ctc [of _ _ ?e]) (use e in simp_all)
    ultimately show ?thesis using start free by (intro exI [of _ "?w\<lparr>eles := (eles ?w)(a := None)\<rparr>"]) (simp add: Let_def)
  next
    case keep
    let ?w = "put_ele w a (e\<lparr>ret := r, stat := DPCTC_FINISH\<rparr>)"
    have "exchange ?w rw rm L" by (rule put) (simp add: same_links_def)
    then show ?thesis using start keep by (intro exI [of _ ?w]) (simp add: Let_def)
  qed
qed

end
