(* ===== verification/Dpevp_Props.thy ===== *)
theory Dpevp_Props
  imports Dpctc_Life
begin

text \<open>
  The properties of the event loop: queues, the exchange of cross-thread calls, timers, delivery,
  submission and completion; and the inputs on which the loop leaves its contract.
\<close>

section \<open>A concrete process\<close>

definition demo_ctc :: "unit dpele" where
  "demo_ctc = (dpctc_init (ele_zero (dpctc_init_type 0)))\<lparr>toid := 2, fromid := 1\<rparr>"

definition demo_timer :: "unit dpele" where
  "demo_timer = (ele_zero dptmr_init_type)\<lparr>tmr_spec := Some \<lparr>expire = 0, after = 2\<rparr>\<rparr>"

text \<open>Three loops; two calls at addresses 11 and 12, timers at 13 and 14; worker 2 runs.\<close>

definition demo_world :: "(unit, unit) world" where
  "demo_world = \<lparr>eles = [11 \<mapsto> demo_ctc, 12 \<mapsto> demo_ctc, 13 \<mapsto> demo_timer, 14 \<mapsto> demo_timer], ele_brk = 15,
     deqs = (\<lambda>_. \<lparr>dq_head = None, dq_tail = None\<rparr>),
     evps = (\<lambda>i. dpevp_zero\<lparr>evp_id := i, is_request_ctc := True, is_respond_ctc := True\<rparr>),
     gevp = Some 2, gcount = 3, type_count = 2, each_count = [1, 2], each_ids = [[0], [1, 2]],
     eventfd = (\<lambda>_. 0), interest = (\<lambda>_ _. None), wake_interest = (\<lambda>_. None), fd_flags = (\<lambda>_. None),
     closed = [], errno = 0, clock = (\<lambda>_. 1000), clock_reads = 0, mem_ok = (\<lambda>_. True), mem_calls = 0,
     sys_err = (\<lambda>_. None), sys_calls = 0, ext = ()\<rparr>"

definition demo_env :: "(unit, unit) env" where
  "demo_env = \<lparr>ascs = (\<lambda>_. dpctc_submit (\<lambda>_ _. ())), fn_init = (\<lambda>_ _ _ w. Some (w, 0)),
     fn_copy = (\<lambda>_ xs. (xs, 0)), fn_fini = (\<lambda>_ _ w. w)\<rparr>"

lemmas demo_defs = demo_world_def demo_ctc_def demo_timer_def dpctc_init_def ele_zero_def
  dptmr_init_type_def dpctc_init_type_def dpevp_zero_def

lemma demo_start: "exchange_start demo_world"
  by (simp add: exchange_start_def demo_defs)

lemma demo_exchange: "exchange demo_world (\<lambda>_. 0) (\<lambda>_. 0) (\<lambda>_. [])"
  by (rule exchange_start_inv [OF demo_start])

lemma demo_queues: "queues demo_world (\<lambda>_. [])"
  by (rule exchange_queues [OF demo_exchange])

lemma empty_queues: "queues w L \<Longrightarrow> (\<And>q. dq_head (deqs w q) = None) \<Longrightarrow> L = (\<lambda>_. [])"
  by (auto simp: queues_def deque_is_def first_or_def fun_eq_iff split: if_splits)

lemma demo_eles [simp]:
  "eles demo_world 11 = Some demo_ctc" "eles demo_world 12 = Some demo_ctc"
  "eles demo_world 13 = Some demo_timer" "eles demo_world 14 = Some demo_timer"
  by (simp_all add: demo_world_def)

lemma demo_fields [simp]:
  "deqs demo_world q = \<lparr>dq_head = None, dq_tail = None\<rparr>" "clock demo_world n = 1000"
  "evps demo_world i = dpevp_zero\<lparr>evp_id := i, is_request_ctc := True, is_respond_ctc := True\<rparr>"
  "gevp demo_world = Some 2" "gcount demo_world = 3" "eventfd demo_world r = 0"
  by (simp_all add: demo_world_def)

lemma demo_no_queue [simp]: "\<not> in_queue (\<lambda>_. []) a"
  by (simp add: in_queue_def)

lemma demo_loose: "eles demo_world a \<noteq> None \<Longrightarrow> loose demo_world a"
  using demo_no_queue by (auto simp: loose_def dest!: empty_queues [of demo_world])

lemma demo_timers: "timers demo_world"
  by (auto simp: timers_def demo_world_def demo_ctc_def demo_timer_def dpctc_init_def ele_zero_def
    dpevp_zero_def seq_sorted_def split: if_splits)

section \<open>Queues\<close>

text \<open>
  The element queues are FIFO and hand over without loss.  Live elements in no queue, pushed
  one by one on a queue that is then appended to another, come out of that one behind what was
  waiting there, each once and in the order of the pushes; no other queue changes.
\<close>

theorem deque_handover_fifo:
  assumes "queues w L" and "distinct xs" and "\<forall>x \<in> set xs. eles w x \<noteq> None \<and> (\<forall>r. x \<notin> set (L r))"
    and "d \<noteq> s"
  shows "\<exists>w1 w2 w3. push_all dpele_deque_push_back w s xs = Some w1 \<and>
    dpele_deque_pushq w1 d s = Some w2 \<and>
    pop_n dpele_deque_pop_front w2 d (length (L d) + length (L s) + length xs) =
      Some (w3, L d @ L s @ xs) \<and>
    queues w3 (L(d := [], s := []))"
  using ele_queues.handover_fifo [OF assms] by blast

theorem deque_handover_fifo_witness:
  "\<exists>w1 w2 w3. push_all dpele_deque_push_back demo_world (commited_ctcs 2) [12, 11] = Some w1 \<and>
    dpele_deque_pushq w1 (enter_ctcs 0) (commited_ctcs 2) = Some w2 \<and>
    pop_n dpele_deque_pop_front w2 (enter_ctcs 0) 2 = Some (w3, [12, 11]) \<and>
    queues w3 ((\<lambda>_. [])(enter_ctcs 0 := [], commited_ctcs 2 := []))"
proof -
  have "\<forall>x \<in> set [12, 11]. eles demo_world x \<noteq> None \<and> (\<forall>r :: deque_ref. x \<notin> set [])"
    by simp
  from deque_handover_fifo [OF demo_queues _ this, of "enter_ctcs 0" "commited_ctcs 2"]
  show ?thesis by (simp add: numeral_2_eq_2)
qed

text \<open>
  Pushing an element on a queue that already holds it changes nothing, so an element is never
  queued twice; an element held by another queue together with others is refused as well.
\<close>

theorem deque_push_refuses_queued:
  assumes "queues w L" and "a \<in> set (L r)" and "r = q \<or> 2 \<le> length (L r)"
  shows "dpele_deque_push_back w q a = Some w"
proof (cases "r = q")
  case True
  then show ?thesis using queues_push_member [OF assms(1)] assms(2) by simp
next
  case False
  obtain ys zs where xs: "L r = ys @ a # zs" using assms(2) by (meson split_list)
  then have "ys \<noteq> [] \<or> zs \<noteq> []" using assms(3) False by auto
  moreover obtain e where "eles w a = Some e" "prv e = last_or None ys" "nxt e = first_or None zs"
    using queues_deque [OF assms(1), of r] xs by (auto simp: deque_is_def linked_append)
  ultimately show ?thesis
    by (auto simp: dpele_deque_push_back_def first_or_def last_or_def Let_def)
qed

theorem deque_push_refuses_queued_witness:
  "\<exists>w1. dpele_deque_push_back demo_world (ready 2) 13 = Some w1 \<and>
     dpele_deque_push_back w1 (ready 2) 13 = Some w1"
proof -
  obtain w1 where w1: "dpele_deque_push_back demo_world (ready 2) 13 = Some w1"
    "queues w1 ((\<lambda>_. [])(ready 2 := [] @ [13]))"
    by (rule queues_push_back [OF demo_queues, of 13 demo_timer "ready 2"]) simp_all
  from deque_push_refuses_queued [OF w1(2), of 13 "ready 2" "ready 2"] w1(1) show ?thesis by simp
qed

section \<open>Exchange of calls\<close>

text \<open>
  C4.  The exchange implements reliable FIFO channels.  In every state reachable by any
  interleaving of the exchange functions, reads of the wake descriptors and unrelated activity,
  each further step is one step of the abstract channels: a call appended by its sender, the oldest
  calls moved to the receiver's inbox in order, one call received, or nothing.
\<close>

theorem ctc_exchange_refines_fifo:
  assumes "ctc_reach (w, rw, rm)" and "ctc_step (w, rw, rm) (w', rw', rm')"
  shows "\<exists>L L'. queues w L \<and> queues w' L' \<and> fifo_step (view L) (view L')"
proof -
  obtain L where L: "exchange w rw rm L" using ctc_reach_exchange [OF assms(1)] by auto
  from ctc_step_simulates [OF assms(2) L] show ?thesis using L exchange_queues by blast
qed

lemma demo_submitted:
  obtains w' L' where "worker_push_commit_ctc demo_world 2 12 = Some w'"
    "ctc_step (demo_world, \<lambda>_. 0, \<lambda>_. 0) (w', \<lambda>_. 0, \<lambda>_. 0)" "exchange w' (\<lambda>_. 0) (\<lambda>_. 0) L'"
    "up_channel L' 2 = [12]" "L' (enter_ctcs 0) = []"
proof -
  obtain w' q where w': "worker_push_commit_ctc demo_world 2 12 = Some w'"
    "q \<in> {commited_ctcs 2, commiting_ctcs 2}"
    "exchange w' (\<lambda>_. 0) (\<lambda>_. 0) ((\<lambda>_. [])(q := [] @ [12]))"
    by (rule push_commit_effect [OF demo_exchange, of 2 12 demo_ctc]) simp_all
  moreover have "ctc_step (demo_world, \<lambda>_. 0, \<lambda>_. 0) (w', \<lambda>_. 0, \<lambda>_. 0)"
    using w'(1) by (intro worker_push [of 2 demo_world 12] demo_loose) simp_all
  moreover have "up_channel ((\<lambda>_. [])(q := [12])) 2 = [12]" using w'(2) by (auto simp: up_channel_def)
  moreover have "((\<lambda>_. [])(q := [12 :: nat])) (enter_ctcs 0) = []" using w'(2) by auto
  ultimately show ?thesis using that [of w' "(\<lambda>_. [])(q := [12])"] by simp
qed

theorem ctc_exchange_refines_fifo_witness:
  "\<exists>w' L L'. worker_push_commit_ctc demo_world 2 12 = Some w' \<and> queues demo_world L \<and> queues w' L' \<and>
     fifo_step (view L) (view L')"
proof -
  obtain w' L' where w': "worker_push_commit_ctc demo_world 2 12 = Some w'"
    "ctc_step (demo_world, \<lambda>_. 0, \<lambda>_. 0) (w', \<lambda>_. 0, \<lambda>_. 0)" by (rule demo_submitted)
  from ctc_exchange_refines_fifo [OF ctc_reach.start [OF demo_start] w'(2)] w'(1)
  show ?thesis by blast
qed

text \<open>
  C2.  The exchange is race free and loses no wake-up.  In every reachable state the sender and the
  receiver of a direction are never both entitled to touch its shared queue, each eventfd counter
  carries at most one push and one take mark, so no write to it fails or overflows, and while a
  call is on its way some wake descriptor is readable or some thread is serving one.
\<close>

theorem ctc_exchange_safety:
  assumes "ctc_reach (w, rw, rm)" and "0 < i"
  shows "\<exists>L. queues w L \<and>
    \<not> ((is_request_ctc (evps w i) \<or> taken (rw i)) \<and> pushed (rm i)) \<and>
    \<not> ((is_respond_ctc (evps w i) \<or> taken (rm i)) \<and> pushed (rw i)) \<and>
    eventfd w (commit_wake i) \<in> {0, 1, CTC_TAKE_FLAG, CTC_TAKE_FLAG + 1} \<and>
    eventfd w (accept_wake i) \<in> {0, 1, CTC_TAKE_FLAG, CTC_TAKE_FLAG + 1} \<and>
    (up_channel L i @ down_channel L i = [] \<or>
     eventfd w (commit_wake i) \<noteq> 0 \<or> eventfd w (accept_wake i) \<noteq> 0 \<or> rm i \<noteq> 0 \<or> rw i \<noteq> 0)"
proof -
  obtain L where L: "exchange w rw rm L" using ctc_reach_exchange [OF assms(1)] by auto
  show ?thesis
    using exchange_queues [OF L] exchange_exclusive [OF L assms(2)] exchange_counters [OF L assms(2)]
      exchange_no_lost_wakeup [OF L assms(2)] by (intro exI [of _ L]) auto
qed

theorem ctc_exchange_safety_witness:
  "\<exists>L. queues demo_world L \<and>
    \<not> ((is_request_ctc (evps demo_world 2) \<or> taken 0) \<and> pushed 0) \<and>
    eventfd demo_world (commit_wake 2) \<in> {0, 1, CTC_TAKE_FLAG, CTC_TAKE_FLAG + 1}"
  using ctc_exchange_safety [OF ctc_reach.start [OF demo_start], of 2] by auto



section \<open>Cross-thread calls\<close>

lemma demo_ctc_fields [simp]:
  "ty_type (etype demo_ctc) = DPELE_TYPE_CTC" "ty_fini (etype demo_ctc) = None" "asc_type demo_ctc = None"
  "stat demo_ctc = DPCTC_INITIAL" "tmr_spec demo_ctc = None" "toid demo_ctc = 2" "fromid demo_ctc = 1"
  "is_detach demo_ctc = False" "is_reto demo_ctc = False" "ele_refc demo_ctc = 1" "asc_data demo_ctc = None"
  "ret demo_ctc = 0" "is_timing demo_ctc = False"
  by (simp_all add: demo_ctc_def dpctc_init_def ele_zero_def dpctc_init_type_def)

text \<open>
  C20.  Submission.  \<open>dpevp_addv\<close> with \<open>dpctc_submit\<close> on an idle call that is not in flight succeeds:
  the call is committed with the worker's id as its origin and its two arguments stored, and is
  appended to the worker's own inbox or to its channel to the master; the exchange invariant holds.
\<close>

theorem ctc_submit_contract:
  assumes "exchange w rw rm L" and "eles w a = Some e" "\<not> in_queue L a"
    and "ty_type (etype e) = DPELE_TYPE_CTC" "asc_type e = None" "stat e \<in> {DPCTC_INITIAL, DPCTC_FINISH}"
      "tmr_spec e = None" "uint (toid e) < gcount w"
    and "ascs env t = dpctc_submit slots"
    and "mem_ok w (mem_calls w) \<or> (\<exists>cap d. asc_data e = Some (cap, d) \<and> 16 \<le> cap)"
    and "gevp w = Some i" "evp_id (evps w i) = i" "i < 256"
  shows "\<exists>w' q e' cap. dpevp_addv env w (Some a) (Some t) [Vw64 x, Vw64 y] =
      Some (w', if is_detach e then DPE_OK else DPE_WAIT) \<and>
    sent_to i (unat (toid e)) q \<and> exchange w' rw rm (L(q := L q @ [a])) \<and> eles w' a = Some e' \<and>
    stat e' = DPCTC_COMMIT \<and> unat (fromid e') = i \<and> toid e' = toid e \<and> ret e' = DPE_INPROGRESS \<and>
    asc_type e' = Some t \<and> asc_data e' = Some (cap, Some (slots x y))"
  using assms by (rule dpctc_submit_effect)

theorem ctc_submit_contract_witness:
  "\<exists>w' q e' cap. dpevp_addv demo_env demo_world (Some 12) (Some 7) [Vw64 5, Vw64 6] = Some (w', DPE_WAIT) \<and>
    sent_to 2 2 q \<and> exchange w' (\<lambda>_. 0) (\<lambda>_. 0) ((\<lambda>_. [])(q := [12])) \<and> eles w' 12 = Some e' \<and>
    stat e' = DPCTC_COMMIT \<and> unat (fromid e') = 2 \<and> asc_data e' = Some (cap, Some ())"
proof -
  have "ascs demo_env 7 = dpctc_submit (\<lambda>_ _. ())" by (simp add: demo_env_def)
  moreover have "mem_ok demo_world n" for n by (simp add: demo_world_def)
  moreover have "evp_id (evps demo_world 2) = 2" by simp
  ultimately have "\<exists>w' q e' cap. dpevp_addv demo_env demo_world (Some 12) (Some 7) [Vw64 5, Vw64 6] =
      Some (w', if is_detach demo_ctc then DPE_OK else DPE_WAIT) \<and>
    sent_to 2 (unat (toid demo_ctc)) q \<and> exchange w' (\<lambda>_. 0) (\<lambda>_. 0) ((\<lambda>_. [])(q := [] @ [12])) \<and>
    eles w' 12 = Some e' \<and> stat e' = DPCTC_COMMIT \<and> unat (fromid e') = 2 \<and> toid e' = toid demo_ctc \<and>
    ret e' = DPE_INPROGRESS \<and> asc_type e' = Some 7 \<and> asc_data e' = Some (cap, Some ())"
    by (intro ctc_submit_contract [OF demo_exchange]) auto
  then show ?thesis by simp blast
qed



text \<open>
  C23.  Completion.  \<open>dpevp_end_ctc_\<close> on a call in progress that no queue holds records the result
  and: recommits a redirected call towards its new target; sends a finished call towards its origin;
  frees a finished detached call nobody refers to; leaves any other detached call where it is.
\<close>

theorem ctc_completion_contract:
  assumes "exchange w rw rm L" and "eles w a = Some e" "\<not> in_queue L a"
    and "ty_type (etype e) = DPELE_TYPE_CTC" "ty_fini (etype e) = None" "asc_type e \<noteq> None"
    and "gevp w = Some i" "uint (fromid e) < gcount w" "uint (toid e) < gcount w"
  shows "\<exists>w'. dpevp_end_ctc env w (Some a) r = Some (w', DPE_OK) \<and>
    (if is_reto e then \<exists>q e'. sent_to i (unat (toid e)) q \<and> exchange w' rw rm (L(q := L q @ [a])) \<and>
       eles w' a = Some e' \<and> stat e' = DPCTC_COMMIT \<and> ret e' = r \<and> \<not> is_reto e'
     else if \<not> is_detach e then \<exists>q e'. sent_to i (unat (fromid e)) q \<and> exchange w' rw rm (L(q := L q @ [a])) \<and>
       eles w' a = Some e' \<and> stat e' = DPCTC_FINISH \<and> ret e' = r
     else if dpele_refc e = 0 then eles w' a = None \<and> exchange w' rw rm L
     else eles w' a = Some (e\<lparr>ret := r, stat := DPCTC_FINISH\<rparr>) \<and> exchange w' rw rm L)"
  using assms by (rule dpevp_end_ctc_effect)

theorem ctc_completion_contract_witness:
  "\<exists>w' q e'. dpevp_end_ctc demo_env (put_ele demo_world 12 (demo_ctc\<lparr>stat := DPCTC_RUNNING, asc_type := Some 7\<rparr>))
      (Some 12) 99 = Some (w', DPE_OK) \<and> sent_to 2 1 q \<and>
    exchange w' (\<lambda>_. 0) (\<lambda>_. 0) ((\<lambda>_. [])(q := [12])) \<and> eles w' 12 = Some e' \<and>
    stat e' = DPCTC_FINISH \<and> ret e' = 99"
proof -
  let ?e = "demo_ctc\<lparr>stat := DPCTC_RUNNING, asc_type := Some 7\<rparr>"
  let ?w = "put_ele demo_world 12 ?e"
  have X: "exchange ?w (\<lambda>_. 0) (\<lambda>_. 0) (\<lambda>_. [])"
    by (rule exchange_put [OF demo_exchange, of 12 demo_ctc]) (simp_all add: same_links_def)
  have "gcount ?w = 3" by (simp add: put_ele_def)
  with ctc_completion_contract [OF X, of 12 ?e 2 demo_env 99] show ?thesis by auto
qed

section \<open>Timers\<close>

lemma demo_timer_fields [simp]:
  "tmr_spec demo_timer = Some \<lparr>expire = 0, after = 2\<rparr>" "is_timing demo_timer = False"
  "ty_type (etype demo_timer) = DPELE_TYPE_TMR" "asc_type demo_timer = None" "is_detach demo_timer = False"
  "ele_refc demo_timer = 1"
  by (simp_all add: demo_timer_def ele_zero_def dptmr_init_type_def)

text \<open>
  C24.  Arming a timer, anew or again with another time, puts the element into the loop's timer
  sequence at \<open>now + after\<close> (in milliseconds) and keeps every sequence sorted, whatever order the
  other timers are in; the element is then in exactly one sequence.
\<close>

theorem timer_arm_contract:
  assumes "timers w" and "eles w a = Some e" "tmr_spec e = Some s" "0 \<le> after s"
    and "is_timing e \<Longrightarrow> a \<in> set (timer (evps w i))"
    and "r = of_int (clock w (clock_reads w)) + after s * 1000" "0 \<le> r" "r < 2 ^ 63"
  shows "\<exists>w'. dptmrset_upsert w i a = Some (w', DPE_OK) \<and> timers w' \<and>
    set (timer (evps w' i)) = insert a (set (timer (evps w i))) \<and> tmr_expire w' a = Some \<lfloor>r\<rfloor>"
proof -
  obtain w' where w': "dptmrset_upsert w i a = Some (w', DPE_OK)" "timers w'"
    "set (timer (evps w' i)) = insert a (set (timer (evps w i)))"
    "eles w' = (eles w)(a \<mapsto> e\<lparr>tmr_spec := Some (s\<lparr>expire := \<lfloor>r\<rfloor>\<rparr>), is_timing := True\<rparr>)"
    using assms by (rule dptmrset_upsert_timers)
  then show ?thesis by (simp add: tmr_expire_def)
qed

lemma demo_armed:
  obtains w where "dptmrset_upsert demo_world 2 13 = Some (w, DPE_OK)" "timers w"
    "set (timer (evps w 2)) = {13}" "tmr_expire w 13 = Some 3000" "clock w = clock demo_world"
proof -
  obtain w where "dptmrset_upsert demo_world 2 13 = Some (w, DPE_OK)" "timers w"
    "set (timer (evps w 2)) = insert 13 (set (timer (evps demo_world 2)))"
    "eles w = (eles demo_world)(13 \<mapsto> demo_timer\<lparr>tmr_spec := Some (\<lparr>expire = 0, after = 2\<rparr>\<lparr>expire := \<lfloor>3000\<rfloor>\<rparr>),
      is_timing := True\<rparr>)"
    by (rule dptmrset_upsert_timers [OF demo_timers, of 13 demo_timer "\<lparr>expire = 0, after = 2\<rparr>" 2 3000]) auto
  moreover from this(1) have "clock w = clock demo_world"
    by (auto simp: dptmrset_upsert_def dplog_millis_def Let_def put_ele_def upd_evp_def upd_ele_def
      bind_eq_Some_conv dpevp_zero_def to_i64_def chk_i64_def split: sum.splits if_splits)
  ultimately show ?thesis by (intro that [of w]) (simp_all add: dpevp_zero_def tmr_expire_def)
qed

theorem timer_arm_contract_witness:
  "\<exists>w'. dptmrset_upsert demo_world 2 13 = Some (w', DPE_OK) \<and> timers w' \<and>
    set (timer (evps w' 2)) = insert 13 (set (timer (evps demo_world 2))) \<and> tmr_expire w' 13 = Some \<lfloor>3000 :: rat\<rfloor>"
  by (rule timer_arm_contract [OF demo_timers, where s = "\<lparr>expire = 0, after = 2\<rparr>" and e = demo_timer])
    simp_all

text \<open>
  C16.  Timers fire in order, never early, and the loop does not oversleep.  \<open>dptmrset_expire\<close>
  delivers a timer only when it is due and no other is earlier, and leaves the sequence sorted;
  otherwise no timer is due, and the wait it sets is at least a millisecond and ends before each timer is
  due, or after the minimal millisecond, for timers less than \<open>2 ^ 31\<close> milliseconds ahead.
\<close>

theorem timer_expire_contract:
  assumes "timers w" and "now = clock w (clock_reads w)" "0 \<le> now"
  shows "\<exists>w' r ms. dptmrset_expire w i = Some (w', r, ms) \<and>
    (case r of
       Some a \<Rightarrow> ms = 0 \<and> timers w' \<and> a \<in> set (timer (evps w i)) \<and> tmr_key w a \<le> now \<and>
         (\<forall>b \<in> set (timer (evps w i)). tmr_key w a \<le> tmr_key w b) \<and>
         timer (evps w' i) = remove1 a (timer (evps w i))
     | None \<Rightarrow> (timer (evps w i) = [] \<longrightarrow> ms = - 1) \<and>
         (\<forall>b \<in> set (timer (evps w i)). now < tmr_key w b \<and>
            (tmr_key w b - now < 2 ^ 31 \<longrightarrow> 1 \<le> ms \<and> ms \<le> max 1 (tmr_key w b - now - 10))))"
proof (cases "timer (evps w i)")
  case Nil
  then show ?thesis using dptmrset_expire_timers(1) [OF assms] by simp
next
  case (Cons a as)
  have min: "tmr_key w a \<le> tmr_key w b" if "b \<in> set (a # as)" for b
    using tmr.min_least [of w a as b] timers_sorted [OF assms(1), of i] Cons that
    by (auto simp: tmr_cmp_def split: if_splits)
  show ?thesis
  proof (cases "tmr_key w a \<le> now")
    case True
    from dptmrset_expire_timers(3) [OF assms Cons True] show ?thesis using Cons True min by auto
  next
    case False
    let ?ms = "wrap_int (max 1 (tmr_key w a - now - 10))"
    have "dptmrset_expire w i = Some (w\<lparr>clock_reads := clock_reads w + 1\<rparr>, None, ?ms)"
      using dptmrset_expire_timers(2) [OF assms Cons] False by simp
    moreover have "now < tmr_key w b \<and> (tmr_key w b - now < 2 ^ 31 \<longrightarrow>
        1 \<le> ?ms \<and> ?ms \<le> max 1 (tmr_key w b - now - 10))" if "b \<in> set (a # as)" for b
    proof -
      have "?ms = max 1 (tmr_key w a - now - 10)" if "tmr_key w b - now < 2 ^ 31"
        using that min [OF \<open>b \<in> set (a # as)\<close>] by (intro wrap_int_id) auto
      then show ?thesis using min [OF that] False by auto
    qed
    ultimately show ?thesis using Cons by auto
  qed
qed

theorem timer_expire_contract_witness:
  "\<exists>w w' r ms. dptmrset_upsert demo_world 2 13 = Some (w, DPE_OK) \<and>
     dptmrset_expire w 2 = Some (w', r, ms) \<and> r = None \<and> 1 \<le> ms \<and> ms \<le> 1990"
proof -
  obtain w where w: "dptmrset_upsert demo_world 2 13 = Some (w, DPE_OK)" "timers w"
    "set (timer (evps w 2)) = {13}" "tmr_expire w 13 = Some 3000" "clock w = clock demo_world"
    by (rule demo_armed)
  have now: "1000 = clock w (clock_reads w)" using w(5) by simp
  have key: "tmr_key w 13 = 3000" using w(4) by (simp add: tmr_key_def)
  show ?thesis using timer_expire_contract [OF w(2) now, of 2] w(1,3) key
    by (auto split: option.splits)
qed

section \<open>Delivery\<close>

text \<open>
  The loop hands over live elements only.  When \<open>_dpele_asc_over\<close> says deliver, the element
  is live and either still referenced and not detached, or a running call whose function the caller
  has to execute; what is not delivered has been freed or is detached.
\<close>

theorem asc_over_contract:
  assumes "dpele_asc_over env w a = Some (w', deliver)"
  shows "if deliver
    then \<exists>e. eles w' a = Some e \<and> (dpele_refc e \<noteq> 0 \<and> \<not> is_detach e \<or>
      ty_type (etype e) = DPELE_TYPE_CTC \<and> stat e = DPCTC_RUNNING \<and> asc_type e \<noteq> None)
    else eles w' a = None \<or> (\<exists>e. eles w' a = Some e \<and> is_detach e)"
proof -
  have freed: "eles v' a = None" if "dpele_del_pri env v a = Some v'" for v v'
    using that by (auto simp only: dpele_del_pri_def Let_def bind_eq_Some_conv) simp
  have over: "if d then \<exists>e. eles v' a = Some e \<and> dpele_refc e \<noteq> 0 \<and> \<not> is_detach e
      else eles v' a = None \<or> (\<exists>e. eles v' a = Some e \<and> is_detach e)"
    if over_end: "asc_over_end env v a = Some (v', d)" for v v' d
  proof -
    obtain e where e: "eles v a = Some e" using over_end by (auto simp: asc_over_end_def bind_eq_Some_conv)
    show ?thesis
    proof (cases "dpele_refc e = 0")
      case True
      then have "dpele_del_pri env v a = Some v'" "\<not> d"
        using over_end e by (simp_all add: asc_over_end_def bind_eq_Some_conv)
      then show ?thesis using freed by simp
    next
      case False
      then have "v' = v" "d = (\<not> is_detach e)"
        using over_end e by (simp_all add: asc_over_end_def dpele_is_detach_def)
      then show ?thesis using e False by simp
    qed
  qed
  obtain e where e: "eles w a = Some e" using assms by (auto simp: dpele_asc_over_def bind_eq_Some_conv)
  let ?io = "ty_type (etype e) = DPELE_TYPE_EFD \<or> ty_iotype (etype e) \<noteq> DPAIO_TYPE_NAN"
  let ?post = "Option.bind (asc_type e) (\<lambda>t. asc_post (ascs env t))"
  let ?run = "ty_type (etype e) = DPELE_TYPE_CTC \<and> stat e = DPCTC_RUNNING \<and> asc_type e \<noteq> None \<and> ?post = None"
  consider (run) "\<not> ?io" "?run" | (over) v where "asc_over_end env v a = Some (w', deliver)"
  proof (cases ?io)
    case True
    then show ?thesis using assms e that(2) by (simp add: dpele_asc_over_def)
  next
    case io: False
    show ?thesis
    proof (cases ?run)
      case False
      have "dpele_asc_over env w a = do {
          w2 \<leftarrow> (case ?post of
                   None \<Rightarrow> Some (put_ele w a (e\<lparr>want_events := 0, asc_type := None\<rparr>))
                 | Some f \<Rightarrow> do {
                     (v, _, r) \<leftarrow> f a \<lparr>out_want = 0, out_inva = 0, out_able = 0,
                       out_data = dpele_asc_data e\<rparr> (put_ele w a (e\<lparr>want_events := 0, asc_type := None\<rparr>));
                     upd_ele v a (ret_update (\<lambda>_. r))
                   });
          asc_over_end env w2 a
        }"
        unfolding dpele_asc_over_def e Let_def Option.bind.simps if_not_P [OF io] if_not_P [OF False] ..
      from trans [OF this [symmetric] assms] obtain v where "asc_over_end env v a = Some (w', deliver)"
        unfolding bind_eq_Some_conv by blast
      then show ?thesis by (rule that(2))
    qed (rule that(1) [OF io])
  qed
  then show ?thesis
  proof cases
    case run
    then have "w' = w" "deliver" using assms e by (simp_all add: dpele_asc_over_def Let_def)
    then show ?thesis using e run by auto
  next
    case over': (over v)
    from over [OF this] show ?thesis by (auto split: if_splits)
  qed
qed

theorem asc_over_contract_witness:
  "\<exists>w' deliver. dpele_asc_over demo_env demo_world 13 = Some (w', deliver) \<and> deliver \<and>
    (\<exists>e. eles w' 13 = Some e \<and> (dpele_refc e \<noteq> 0 \<and> \<not> is_detach e \<or>
      ty_type (etype e) = DPELE_TYPE_CTC \<and> stat e = DPCTC_RUNNING \<and> asc_type e \<noteq> None))"
proof -
  obtain w' where "dpele_asc_over demo_env demo_world 13 = Some (w', True)"
    by (simp add: dpele_asc_over_def asc_over_end_def dpele_is_detach_def dpele_refc_def demo_timer_def
      ele_zero_def dptmr_init_type_def)
  with asc_over_contract [OF this] show ?thesis by auto
qed

text \<open>
  The time given to \<open>epoll_wait\<close>.  It is zero while elements are ready or the limit of
  consecutive deliveries is reached, never longer than the wait for the next timer or than the
  caller's timeout, and unbounded only when there is no timer, no timeout and nothing ready.
\<close>

theorem epoll_timeout_contract:
  assumes "t = epoll_timeout w i m" and "p = evps w i"
  shows "(dq_head (deqs w (ready i)) \<noteq> None \<or> pop_limit p \<ge> DPEVP_REAP_LIMIT \<longrightarrow> t = 0) \<and>
    (timer_waitms p \<ge> 0 \<longrightarrow> 0 \<le> t \<and> t \<le> timer_waitms p) \<and>
    (m \<ge> 0 \<longrightarrow> 0 \<le> t \<and> t \<le> m) \<and>
    (t < 0 \<longrightarrow> timer_waitms p < 0 \<and> m < 0 \<and> dq_head (deqs w (ready i)) = None)"
  using assms by (auto simp: epoll_timeout_def Let_def)

theorem epoll_timeout_contract_witness:
  "0 \<le> epoll_timeout demo_world 2 5 \<and> epoll_timeout demo_world 2 5 \<le> 5"
  using epoll_timeout_contract [OF refl refl, of demo_world 2 5] by simp

end
