(* ===== verification/Dpio.thy ===== *)
theory Dpio
  imports Dpbuf Dpevp
begin

text \<open>
  The machine the I/O operations run on: the objects they are given pointers to, the buffer store,
  and the kernel side of the descriptors they read and write.  A readable descriptor holds the
  segments that have arrived, each data, the end of the stream or an error; when none is left a read
  fails with \<open>EAGAIN\<close>.  A writable one holds the room the kernel has, in the same way.  A read takes
  from the first segment only, so every way a stream can be cut into short reads is an instance.
  The other system calls are numbered and answered by the oracle \<open>sys_answer\<close>; the machine keeps
  the list of the calls made.
\<close>

named_theorems io_simps \<open>fields of the machine the kernel calls leave alone\<close>

section \<open>Data\<close>

datatype rx = Rdata "byte list" | Reof | Rerr int

datatype tx = Tacc nat | Terr int

record iovec =
  iov_base :: ptr
  iov_len :: int

record msghdr =
  msg_iov :: "iovec list"
  msg_namelen :: int
  msg_controllen :: int
  msg_flags :: int

record dpsockaddr =
  sa_addr :: "byte list"
  sa_real :: int

datatype obj = Obytes "byte list" | Obuf dpbuf | Oiov "iovec list" | Omsg msghdr | Osock dpsockaddr

text \<open>The system calls that only carry their arguments to the kernel; \<open>None\<close> is a null pointer.\<close>

datatype sysreq =
  Sys_accept int "dpsockaddr option" | Sys_connect int dpsockaddr |
  Sys_splice int int int int | Sys_tee int int int int |
  Sys_fsync int | Sys_fdatasync int | Sys_shutdown int int | Sys_fallocate int int "64 word" "64 word" |
  Sys_posix_fadvise int "64 word" int int | Sys_sync_file_range int "64 word" u32 int |
  Sys_close int | Sys_madvise "ptr option" "64 word" int |
  Sys_openat int "ptr option" int int | Sys_openat2 int "ptr option" "ptr option" |
  Sys_statx int "ptr option" int u32 "ptr option" | Sys_unlinkat int "ptr option" int |
  Sys_renameat2 int "ptr option" int "ptr option" u32 | Sys_mkdirat int "ptr option" int |
  Sys_symlinkat "ptr option" int "ptr option" |
  Sys_linkat int "ptr option" int "ptr option" int |
  Sys_getxattr "ptr option" "ptr option" "ptr option" "64 word" |
  Sys_setxattr "ptr option" "ptr option" "ptr option" "64 word" int |
  Sys_fgetxattr int "ptr option" "ptr option" "64 word" |
  Sys_fsetxattr int "ptr option" "ptr option" "64 word" int

text \<open>\<open>sys_answer n r\<close> is the result of the \<open>n\<close>-th call and the value it leaves in \<open>errno\<close>, if any.\<close>

record machine =
  objs :: "nat \<Rightarrow> obj option"
  bstore :: store
  rxq :: "int \<Rightarrow> rx list"
  txq :: "int \<Rightarrow> tx list"
  sent :: "int \<Rightarrow> byte list"
  kerrno :: int
  sys_log :: "sysreq list"
  sys_answer :: "nat \<Rightarrow> sysreq \<Rightarrow> int \<times> int option"

record dpaio_arg =
  io_ptr :: "ptr option"
  io_len :: int
  io_flag :: int
  io_total :: int
  io_fd2 :: int

abbreviation (input) EAGAIN :: int where "EAGAIN \<equiv> 11"
abbreviation (input) MSG_PEEK :: int where "MSG_PEEK \<equiv> 2"

section \<open>Memory\<close>

definition padd :: "ptr \<Rightarrow> int \<Rightarrow> ptr" where
  "padd p k = (case p of Pobj a off \<Rightarrow> Pobj a (off + k) | Pblk b off \<Rightarrow> Pblk b (off + k))"

definition region :: "machine \<Rightarrow> ptr \<Rightarrow> (int \<times> byte list) option" where
  "region m p =
     (case p of
        Pobj a off \<Rightarrow> (case objs m a of Some (Obytes bs) \<Rightarrow> Some (off, bs) | _ \<Rightarrow> None)
      | Pblk b off \<Rightarrow> map_option (\<lambda>d. (off, dbytes d)) (blocks (bstore m) b))"

definition mload :: "machine \<Rightarrow> ptr \<Rightarrow> int \<Rightarrow> byte list option" where
  "mload m p n = do { (off, bs) \<leftarrow> region m p; mem_read off n bs }"

definition set_region :: "machine \<Rightarrow> ptr \<Rightarrow> byte list \<Rightarrow> machine option" where
  "set_region m p bs =
     (case p of
        Pobj a off \<Rightarrow> Some (m\<lparr>objs := (objs m)(a \<mapsto> Obytes bs)\<rparr>)
      | Pblk b off \<Rightarrow> do {
          d \<leftarrow> blocks (bstore m) b;
          Some (m\<lparr>bstore := set_block (bstore m) b (d\<lparr>dbytes := bs\<rparr>)\<rparr>)
        })"

definition mstore :: "machine \<Rightarrow> ptr \<Rightarrow> byte list \<Rightarrow> machine option" where
  "mstore m p xs = do { (off, bs) \<leftarrow> region m p; bs' \<leftarrow> mem_write off xs bs; set_region m p bs' }"

definition buf_at :: "machine \<Rightarrow> ptr option \<Rightarrow> (nat \<times> dpbuf) option" where
  "buf_at m p =
     (case p of Some (Pobj a off) \<Rightarrow>
        (case objs m a of Some (Obuf b) \<Rightarrow> if off = 0 then Some (a, b) else None | _ \<Rightarrow> None)
      | _ \<Rightarrow> None)"

definition set_buf :: "machine \<Rightarrow> nat \<Rightarrow> dpbuf \<Rightarrow> machine" where
  "set_buf m a b = m\<lparr>objs := (objs m)(a \<mapsto> Obuf b)\<rparr>"

definition iov_at :: "machine \<Rightarrow> ptr option \<Rightarrow> int \<Rightarrow> iovec list option" where
  "iov_at m p n =
     (case p of Some (Pobj a off) \<Rightarrow>
        (case objs m a of Some (Oiov vs) \<Rightarrow>
           if off = 0 \<and> 0 \<le> n \<and> n \<le> int (length vs) then Some (take (nat n) vs) else None
         | _ \<Rightarrow> None)
      | _ \<Rightarrow> None)"

definition msg_at :: "machine \<Rightarrow> ptr option \<Rightarrow> (nat \<times> msghdr) option" where
  "msg_at m p =
     (case p of Some (Pobj a off) \<Rightarrow>
        (case objs m a of Some (Omsg h) \<Rightarrow> if off = 0 then Some (a, h) else None | _ \<Rightarrow> None)
      | _ \<Rightarrow> None)"

definition sock_at :: "machine \<Rightarrow> ptr option \<Rightarrow> (nat \<times> dpsockaddr) option" where
  "sock_at m p =
     (case p of Some (Pobj a off) \<Rightarrow>
        (case objs m a of Some (Osock s) \<Rightarrow> if off = 0 then Some (a, s) else None | _ \<Rightarrow> None)
      | _ \<Rightarrow> None)"

section \<open>Kernel calls\<close>

text \<open>A call gives its return value; one that fails gives \<open>-1\<close> and sets \<open>errno\<close>.\<close>

definition kfail :: "machine \<Rightarrow> int \<Rightarrow> machine \<times> int" where
  "kfail m e = (m\<lparr>kerrno := e\<rparr>, - 1)"

text \<open>The bytes a read of at most \<open>n\<close> takes from the segments, and the segments after it.\<close>

fun rx_take :: "nat \<Rightarrow> rx list \<Rightarrow> byte list \<times> rx list" where
  "rx_take n (Rdata bs # q) =
     (take n bs, if length bs \<le> n then q else Rdata (drop n bs) # q)"
| "rx_take n q = ([], q)"

definition krecv :: "bool \<Rightarrow> int \<Rightarrow> (byte list \<Rightarrow> machine \<Rightarrow> machine option) \<Rightarrow> int \<Rightarrow> machine \<Rightarrow>
    (machine \<times> int) option" where
  "krecv keep f put n m =
     (if n < 0 then None
      else case rxq m f of
        [] \<Rightarrow> Some (kfail m EAGAIN)
      | Reof # _ \<Rightarrow> Some (m, 0)
      | Rerr e # q \<Rightarrow> Some (kfail (m\<lparr>rxq := (rxq m)(f := q)\<rparr>) e)
      | Rdata _ # _ \<Rightarrow>
          (let (got, q) = rx_take (nat n) (rxq m f) in do {
             m1 \<leftarrow> put got m;
             Some (if keep then m1 else m1\<lparr>rxq := (rxq m1)(f := q)\<rparr>, int (length got))
           }))"

definition ksend :: "int \<Rightarrow> byte list \<Rightarrow> machine \<Rightarrow> machine \<times> int" where
  "ksend f xs m =
     (case txq m f of
        [] \<Rightarrow> kfail m EAGAIN
      | Terr e # q \<Rightarrow> kfail (m\<lparr>txq := (txq m)(f := q)\<rparr>) e
      | Tacc n # q \<Rightarrow>
          (let k = min n (length xs) in
           (m\<lparr>txq := (txq m)(f := if n \<le> k then q else Tacc (n - k) # q),
              sent := (sent m)(f := sent m f @ take k xs)\<rparr>, int k)))"

text \<open>\<open>read\<close>, \<open>write\<close>, \<open>recv\<close> and \<open>send\<close>.\<close>

definition sys_recv :: "int \<Rightarrow> ptr \<Rightarrow> int \<Rightarrow> int \<Rightarrow> machine \<Rightarrow> (machine \<times> int) option" where
  "sys_recv f p n flag m = krecv (flag AND MSG_PEEK \<noteq> 0) f (\<lambda>xs m. mstore m p xs) n m"

definition sys_send :: "int \<Rightarrow> ptr \<Rightarrow> int \<Rightarrow> machine \<Rightarrow> (machine \<times> int) option" where
  "sys_send f p n m = do { xs \<leftarrow> mload m p n; Some (ksend f xs m) }"

text \<open>\<open>readv\<close>, \<open>writev\<close>, and the data part of \<open>recvmsg\<close> and \<open>sendmsg\<close>.\<close>

fun scatter :: "iovec list \<Rightarrow> byte list \<Rightarrow> machine \<Rightarrow> machine option" where
  "scatter [] xs m = Some m"
| "scatter (v # vs) xs m = do {
     m1 \<leftarrow> mstore m (iov_base v) (take (nat (iov_len v)) xs);
     scatter vs (drop (nat (iov_len v)) xs) m1
   }"

fun gather :: "iovec list \<Rightarrow> machine \<Rightarrow> byte list option" where
  "gather [] m = Some []"
| "gather (v # vs) m = do {
     xs \<leftarrow> mload m (iov_base v) (iov_len v);
     ys \<leftarrow> gather vs m;
     Some (xs @ ys)
   }"

definition iov_sum :: "iovec list \<Rightarrow> int" where
  "iov_sum vs = sum_list (map iov_len vs)"

definition sys_readv :: "int \<Rightarrow> iovec list \<Rightarrow> int \<Rightarrow> machine \<Rightarrow> (machine \<times> int) option" where
  "sys_readv f vs flag m = krecv (flag AND MSG_PEEK \<noteq> 0) f (scatter vs) (iov_sum vs) m"

definition sys_writev :: "int \<Rightarrow> iovec list \<Rightarrow> machine \<Rightarrow> (machine \<times> int) option" where
  "sys_writev f vs m = do { xs \<leftarrow> gather vs m; Some (ksend f xs m) }"

definition sys_call :: "sysreq \<Rightarrow> machine \<Rightarrow> machine \<times> int" where
  "sys_call r m =
     (let (res, err) = sys_answer m (length (sys_log m)) r;
          m1 = m\<lparr>sys_log := sys_log m @ [r]\<rparr>
      in (case err of None \<Rightarrow> m1 | Some e \<Rightarrow> m1\<lparr>kerrno := e\<rparr>, res))"

section \<open>Laws of the memory\<close>

lemma padd_0 [simp]: "padd p 0 = p"
  by (simp add: padd_def split: ptr.splits)

lemma padd_padd [simp]: "padd (padd p i) j = padd p (i + j)"
  by (simp add: padd_def split: ptr.splits)

lemma region_padd: "region m (padd p k) = map_option (\<lambda>(off, bs). (off + k, bs)) (region m p)"
  by (auto simp: region_def padd_def map_option.compositionality comp_def split: ptr.splits option.splits obj.splits)

lemma region_set:
  assumes "region m p = Some (off, bs)"
  obtains m' where "set_region m p bs' = Some m'" "region m' p = Some (off, bs')"
    "rxq m' = rxq m" "txq m' = txq m" "sent m' = sent m" "sys_log m' = sys_log m" "kerrno m' = kerrno m"
  using assms by (cases p) (auto simp: region_def set_region_def set_block_def split: option.splits obj.splits)

lemma region_fields [io_simps]:
  "region (m\<lparr>rxq := a\<rparr>) p = region m p" "region (m\<lparr>txq := b\<rparr>) p = region m p"
  "region (m\<lparr>sent := c\<rparr>) p = region m p" "region (m\<lparr>kerrno := d\<rparr>) p = region m p"
  "region (m\<lparr>sys_log := e\<rparr>) p = region m p"
  by (simp_all add: region_def split: ptr.splits)

lemma mload_region: "region m' p = region m p \<Longrightarrow> mload m' p n = mload m p n"
  by (simp add: mload_def)

lemmas mload_fields [io_simps] =
  region_fields(1) [THEN mload_region] region_fields(2) [THEN mload_region]
  region_fields(3) [THEN mload_region] region_fields(4) [THEN mload_region]
  region_fields(5) [THEN mload_region]

text \<open>A store at an offset replaces these bytes of the region and nothing else.\<close>

lemma mstore_region:
  assumes "region m p = Some (off, bs)" "0 \<le> off + k" "off + k + int (length xs) \<le> int (length bs)"
  obtains m' where "mstore m (padd p k) xs = Some m'"
    "region m' p = Some (off, poke (nat (off + k)) xs bs)"
    "rxq m' = rxq m" "txq m' = txq m" "sent m' = sent m" "sys_log m' = sys_log m" "kerrno m' = kerrno m"
proof -
  let ?bs = "poke (nat (off + k)) xs bs"
  have r: "region m (padd p k) = Some (off + k, bs)" using assms(1) by (simp add: region_padd)
  then obtain m' where m': "set_region m (padd p k) ?bs = Some m'" "region m' (padd p k) = Some (off + k, ?bs)"
    "rxq m' = rxq m" "txq m' = txq m" "sent m' = sent m" "sys_log m' = sys_log m" "kerrno m' = kerrno m"
    by (rule region_set [where bs' = ?bs])
  have "mstore m (padd p k) xs = Some m'"
    using r m'(1) assms(2,3) by (simp add: mstore_def mem_write_def)
  moreover have "region m' p = Some (off, ?bs)" using m'(2) by (auto simp: region_padd)
  ultimately show ?thesis using m'(3-7) by (rule that)
qed

lemma mload_Some_iff:
  "mload m p n = Some ys \<longleftrightarrow> (\<exists>off bs. region m p = Some (off, bs) \<and> 0 \<le> off \<and> 0 \<le> n \<and>
     off + n \<le> int (length bs) \<and> ys = seg off (off + n) bs)"
  by (auto simp: mload_def bind_eq_Some_conv mem_simps)

text \<open>Two stores one after the other are one.\<close>

lemma poke_append:
  "i + length xs + length ys \<le> length bs \<Longrightarrow> poke (i + length xs) ys (poke i xs bs) = poke i (xs @ ys) bs"
  by (simp add: poke_def min_absorb1 add.commute add.left_commute)

lemma mload_append:
  assumes "mload m p k = Some xs" "mload m (padd p k) j = Some ys"
  shows "mload m p (k + j) = Some (xs @ ys)"
proof -
  obtain off bs where r: "region m p = Some (off, bs)" using assms(1) by (auto simp: mload_def bind_eq_Some_conv)
  have k: "0 \<le> off" "0 \<le> k" "xs = seg off (off + k) bs" "0 \<le> j" "off + k + j \<le> int (length bs)"
    "ys = seg (off + k) (off + k + j) bs"
    using assms r by (auto simp: mload_def region_padd mem_simps)
  then have "xs @ ys = seg off (off + k + j) bs" by (auto simp: seg_append)
  then show ?thesis using r k by (simp add: mload_def mem_read_def add.assoc)
qed

lemma mload_prefix:
  assumes "mload m p n = Some ys" "0 \<le> k" "k \<le> n"
  shows "mload m p k = Some (take (nat k) ys)"
  using assms by (auto simp: mload_def bind_eq_Some_conv mem_simps take_seg)

lemma mload_suffix:
  assumes "mload m p n = Some ys" "0 \<le> k" "k \<le> n"
  shows "mload m (padd p k) (n - k) = Some (drop (nat k) ys)"
proof -
  obtain off bs where "region m p = Some (off, bs)" "mem_read off n bs = Some ys"
    using assms(1) by (auto simp: mload_def bind_eq_Some_conv)
  then show ?thesis using assms(2,3)
    by (auto simp: mload_def region_padd mem_simps drop_seg)
qed

lemma mload_length: "mload m p n = Some ys \<Longrightarrow> int (length ys) = n \<and> 0 \<le> n"
  by (auto simp: mload_def bind_eq_Some_conv mem_simps)

section \<open>Laws of the streams\<close>

text \<open>All the bytes a descriptor still has to deliver, whatever their segmentation.\<close>

definition rx_bytes :: "rx list \<Rightarrow> byte list" where
  "rx_bytes q = concat (map (\<lambda>s. case s of Rdata bs \<Rightarrow> bs | Reof \<Rightarrow> [] | Rerr e \<Rightarrow> []) q)"

lemma rx_bytes_simps [simp]:
  "rx_bytes [] = []" "rx_bytes (Rdata bs # q) = bs @ rx_bytes q"
  "rx_bytes (Reof # q) = rx_bytes q" "rx_bytes (Rerr e # q) = rx_bytes q"
  by (simp_all add: rx_bytes_def)

lemma rx_take_bytes: "rx_take n q = (got, q') \<Longrightarrow> rx_bytes q = got @ rx_bytes q' \<and> length got \<le> n"
  by (cases "(n, q)" rule: rx_take.cases) (auto split: if_splits)

end
