(* ===== verification/Dpasc_Gfd.thy ===== *)
theory Dpasc_Gfd
  imports Dpio
begin

text \<open>
  Reading and writing descriptors (the first half of \<^verbatim>\<open>dpasc_epoll.c\<close>).  An operation has a prep
  function, which takes the arguments of the caller into the scratch record \<open>dpaio_arg\<close>, and a post
  function, which the loop calls when the descriptor is ready.  The post functions of one family
  share a loop that repeats the kernel call until the length asked for has been moved or the kernel
  gives no more; the call is an argument of the loop.  A loop that does not end is \<open>None\<close>; under the
  laws of the locale \<open>data_io\<close> it ends, and the interpretations give these laws for \<open>read\<close>, \<open>recv\<close>,
  \<open>write\<close> and \<open>send\<close>.
\<close>

type_synonym io_result = "(machine \<times> dpaio_arg \<times> dpasc_out \<times> dpret) option"

type_synonym data_fun = "int \<Rightarrow> dpaio_arg \<Rightarrow> int \<Rightarrow> machine \<Rightarrow> (machine \<times> int) option"

section \<open>Vectors\<close>

fun dpioc_iov_advance :: "iovec list \<Rightarrow> int \<Rightarrow> iovec list" where
  "dpioc_iov_advance [] n = []"
| "dpioc_iov_advance (v # vs) n =
     (if n > 0 then
        (if n < iov_len v then v\<lparr>iov_base := padd (iov_base v) n, iov_len := iov_len v - n\<rparr> # vs
         else dpioc_iov_advance vs (n - iov_len v))
      else v # vs)"

text \<open>The sum is a \<open>size_t\<close>; a vector of length zero or less, or a null pointer, counts nothing.\<close>

definition dpioc_iov_total :: "machine \<Rightarrow> ptr option \<Rightarrow> int \<Rightarrow> int option" where
  "dpioc_iov_total m p n =
     (if p = None \<or> n \<le> 0 then Some 0
      else do { vs \<leftarrow> iov_at m p n; Some (iov_sum vs mod 2 ^ 64) })"

definition msg_iov_total :: "msghdr \<Rightarrow> int" where
  "msg_iov_total h = iov_sum (msg_iov h) mod 2 ^ 64"

section \<open>The kernel calls of the loops\<close>

definition dpaio_read :: data_fun where
  "dpaio_read f io off m = do { p \<leftarrow> io_ptr io; sys_recv f (padd p off) (io_len io - off) 0 m }"

definition dpaio_write :: data_fun where
  "dpaio_write f io off m = do { p \<leftarrow> io_ptr io; sys_send f (padd p off) (io_len io - off) m }"

definition dpaio_recv :: data_fun where
  "dpaio_recv f io off m =
     do { p \<leftarrow> io_ptr io; sys_recv f (padd p off) (io_len io - off) (io_flag io) m }"

definition dpaio_send :: data_fun where
  "dpaio_send f io off m = do { p \<leftarrow> io_ptr io; sys_send f (padd p off) (io_len io - off) m }"

section \<open>The loops\<close>

partial_function (option) dpaio_buf_loop ::
  "data_fun \<Rightarrow> int \<Rightarrow> dpaio_arg \<Rightarrow> dpasc_out \<Rightarrow> int \<Rightarrow> machine \<Rightarrow> (machine \<times> dpasc_out \<times> dpret) option"
where
  "dpaio_buf_loop iofun f io out got m =
     Option.bind (iofun f io got m) (\<lambda>(m1, res).
       if res > 0 then
         Option.bind (chk_int (got + res)) (\<lambda>got'.
           if got' = io_len io then Some (m1, out, got')
           else dpaio_buf_loop iofun f io out got' m1)
       else if res = 0 then Some (m1, out\<lparr>out_inva := out_want out\<rparr>, DPE_EOF)
       else Some (m1, out\<lparr>out_inva := out_want out\<rparr>, if got > 0 then got else - kerrno m1))"

definition dpaio_buf_post :: "data_fun \<Rightarrow> 'd dpele \<Rightarrow> dpasc_out \<Rightarrow> dpaio_arg \<Rightarrow> machine \<Rightarrow> io_result" where
  "dpaio_buf_post iofun e out io m = do {
     (m1, out1, r) \<leftarrow> dpaio_buf_loop iofun (fd e) io out 0 m;
     Some (m1, io, out1, r)
   }"

partial_function (option) dpaio_iov_loop ::
  "(int \<Rightarrow> iovec list \<Rightarrow> machine \<Rightarrow> (machine \<times> int) option) \<Rightarrow> int \<Rightarrow> int \<Rightarrow> iovec list \<Rightarrow>
     dpasc_out \<Rightarrow> int \<Rightarrow> machine \<Rightarrow> (machine \<times> dpasc_out \<times> dpret) option"
where
  "dpaio_iov_loop iofun f total_len iov out got m =
     Option.bind (iofun f iov m) (\<lambda>(m1, res).
       if res > 0 then
         Option.bind (chk_int (got + res)) (\<lambda>got'.
           let iov' = dpioc_iov_advance iov res in
           if got' = total_len then Some (m1, out, got')
           else dpaio_iov_loop iofun f total_len iov' out got' m1)
       else if res = 0 then Some (m1, out\<lparr>out_inva := out_want out\<rparr>, DPE_EOF)
       else Some (m1, out\<lparr>out_inva := out_want out\<rparr>, if got > 0 then got else - kerrno m1))"

text \<open>The loop works on a copy of the caller's vector.\<close>

definition dpaio_iov_post ::
  "(int \<Rightarrow> iovec list \<Rightarrow> machine \<Rightarrow> (machine \<times> int) option) \<Rightarrow> 'd dpele \<Rightarrow> dpasc_out \<Rightarrow> dpaio_arg \<Rightarrow>
     machine \<Rightarrow> io_result"
where
  "dpaio_iov_post iofun e out io m = do {
     iov \<leftarrow> iov_at m (io_ptr io) (io_len io);
     (m1, out1, r) \<leftarrow> dpaio_iov_loop iofun (fd e) (io_total io) iov out 0 m;
     Some (m1, io, out1, r)
   }"

text \<open>The message variant also returns the header the kernel has written its fields to.\<close>

partial_function (option) dpaio_msg_loop ::
  "(int \<Rightarrow> msghdr \<Rightarrow> int \<Rightarrow> machine \<Rightarrow> (machine \<times> msghdr \<times> int) option) \<Rightarrow> int \<Rightarrow> dpaio_arg \<Rightarrow> msghdr \<Rightarrow>
     dpasc_out \<Rightarrow> int \<Rightarrow> machine \<Rightarrow> (machine \<times> msghdr \<times> dpasc_out \<times> dpret) option"
where
  "dpaio_msg_loop iofun f io msg out got m =
     Option.bind (iofun f msg (io_flag io) m) (\<lambda>(m1, msg1, res).
       if res > 0 then
         Option.bind (chk_int (got + res)) (\<lambda>got'.
           let msg2 = msg1\<lparr>msg_iov := dpioc_iov_advance (msg_iov msg1) res\<rparr> in
           if got' = io_total io then Some (m1, msg2, out, got')
           else dpaio_msg_loop iofun f io msg2 out got' m1)
       else if res = 0 then
         Some (m1, msg1, out\<lparr>out_inva := out_want out\<rparr>, if got > 0 then got else DPE_EOF)
       else
         Some (m1, msg1, out\<lparr>out_inva := out_want out\<rparr>, if got > 0 then got else - kerrno m1))"

definition dpaio_msg_post ::
  "(int \<Rightarrow> msghdr \<Rightarrow> int \<Rightarrow> machine \<Rightarrow> (machine \<times> msghdr \<times> int) option) \<Rightarrow> 'd dpele \<Rightarrow> dpasc_out \<Rightarrow>
     dpaio_arg \<Rightarrow> machine \<Rightarrow> io_result"
where
  "dpaio_msg_post iofun e out io m = do {
     (a, h) \<leftarrow> msg_at m (io_ptr io);
     (m1, msg, out1, r) \<leftarrow> dpaio_msg_loop iofun (fd e) io h out 0 m;
     (_, h1) \<leftarrow> msg_at m1 (io_ptr io);
     let h2 = h1\<lparr>msg_flags := msg_flags msg, msg_namelen := msg_namelen msg,
                msg_controllen := msg_controllen msg\<rparr>;
     Some (m1\<lparr>objs := (objs m1)(a \<mapsto> Omsg h2)\<rparr>, io, out1, r)
   }"

section \<open>Operations on any descriptor\<close>

definition want :: "dpasc_out \<Rightarrow> 16 word \<Rightarrow> dpasc_out" where
  "want out x = out\<lparr>out_want := x, out_inva := 0\<rparr>"

definition dpgfd_read_prep :: "va_list \<Rightarrow> dpasc_out \<Rightarrow> dpaio_arg \<Rightarrow> machine \<Rightarrow> io_result" where
  "dpgfd_read_prep va out io m = do {
     let out1 = want out DPEVT_IN;
     (buf, va) \<leftarrow> va_ptr va;
     (len, _) \<leftarrow> va_int va;
     let io1 = io\<lparr>io_ptr := buf, io_len := len, io_flag := 0\<rparr>;
     Some (m, io1, out1, if buf = None \<or> len \<le> 0 then DPE_INVAL else DPE_CONTINUE)
   }"

definition dpgfd_read_post :: "'d dpele \<Rightarrow> dpasc_out \<Rightarrow> dpaio_arg \<Rightarrow> machine \<Rightarrow> io_result" where
  "dpgfd_read_post = dpaio_buf_post dpaio_read"

definition dpgfd_write_prep :: "va_list \<Rightarrow> dpasc_out \<Rightarrow> dpaio_arg \<Rightarrow> machine \<Rightarrow> io_result" where
  "dpgfd_write_prep va out io m = do {
     let out1 = want out DPEVT_OUT;
     (buf, va) \<leftarrow> va_ptr va;
     (len, _) \<leftarrow> va_int va;
     let io1 = io\<lparr>io_ptr := buf, io_len := len, io_flag := 0\<rparr>;
     Some (m, io1, out1, if buf = None \<or> len \<le> 0 then DPE_INVAL else DPE_CONTINUE)
   }"

definition dpgfd_write_post :: "'d dpele \<Rightarrow> dpasc_out \<Rightarrow> dpaio_arg \<Rightarrow> machine \<Rightarrow> io_result" where
  "dpgfd_write_post = dpaio_buf_post dpaio_write"

text \<open>The total is converted from \<open>size_t\<close> to \<open>int\<close>.\<close>

definition dpgfd_readv_prep :: "va_list \<Rightarrow> dpasc_out \<Rightarrow> dpaio_arg \<Rightarrow> machine \<Rightarrow> io_result" where
  "dpgfd_readv_prep va out io m = do {
     let out1 = want out DPEVT_IN;
     (iov, va) \<leftarrow> va_ptr va;
     (len, _) \<leftarrow> va_int va;
     t \<leftarrow> dpioc_iov_total m iov len;
     let io1 = io\<lparr>io_ptr := iov, io_len := len, io_total := wrap_int t\<rparr>;
     Some (m, io1, out1, if io_total io1 = 0 then DPE_INVAL else DPE_CONTINUE)
   }"

definition dpgfd_readv_post :: "'d dpele \<Rightarrow> dpasc_out \<Rightarrow> dpaio_arg \<Rightarrow> machine \<Rightarrow> io_result" where
  "dpgfd_readv_post = dpaio_iov_post (\<lambda>f vs. sys_readv f vs 0)"

definition dpgfd_writev_prep :: "va_list \<Rightarrow> dpasc_out \<Rightarrow> dpaio_arg \<Rightarrow> machine \<Rightarrow> io_result" where
  "dpgfd_writev_prep va out io m = do {
     let out1 = want out DPEVT_OUT;
     (iov, va) \<leftarrow> va_ptr va;
     (len, _) \<leftarrow> va_int va;
     t \<leftarrow> dpioc_iov_total m iov len;
     let io1 = io\<lparr>io_ptr := iov, io_len := len, io_total := wrap_int t\<rparr>;
     Some (m, io1, out1, if io_total io1 = 0 then DPE_INVAL else DPE_CONTINUE)
   }"

definition dpgfd_writev_post :: "'d dpele \<Rightarrow> dpasc_out \<Rightarrow> dpaio_arg \<Rightarrow> machine \<Rightarrow> io_result" where
  "dpgfd_writev_post = dpaio_iov_post sys_writev"

section \<open>Operations on sockets\<close>

definition dpskt_recv_prep :: "va_list \<Rightarrow> dpasc_out \<Rightarrow> dpaio_arg \<Rightarrow> machine \<Rightarrow> io_result" where
  "dpskt_recv_prep va out io m = do {
     let out1 = want out DPEVT_IN;
     (buf, va) \<leftarrow> va_ptr va;
     (len, va) \<leftarrow> va_int va;
     (flag, _) \<leftarrow> va_int va;
     let io1 = io\<lparr>io_ptr := buf, io_len := len, io_flag := flag\<rparr>;
     Some (m, io1, out1, if buf = None \<or> len \<le> 0 then DPE_INVAL else DPE_CONTINUE)
   }"

definition dpskt_recv_post :: "'d dpele \<Rightarrow> dpasc_out \<Rightarrow> dpaio_arg \<Rightarrow> machine \<Rightarrow> io_result" where
  "dpskt_recv_post = dpaio_buf_post dpaio_recv"

definition dpskt_recv2_prep :: "va_list \<Rightarrow> dpasc_out \<Rightarrow> dpaio_arg \<Rightarrow> machine \<Rightarrow> io_result" where
  "dpskt_recv2_prep va out io m = do {
     let out1 = want out DPEVT_IN;
     (buf, va) \<leftarrow> va_ptr va;
     (len, _) \<leftarrow> va_int va;
     let io1 = io\<lparr>io_ptr := buf, io_len := len, io_flag := 0\<rparr>;
     Some (m, io1, out1, if buf = None \<or> len \<le> 0 then DPE_INVAL else DPE_CONTINUE)
   }"

definition dpskt_send_prep :: "va_list \<Rightarrow> dpasc_out \<Rightarrow> dpaio_arg \<Rightarrow> machine \<Rightarrow> io_result" where
  "dpskt_send_prep va out io m = do {
     let out1 = want out DPEVT_OUT;
     (buf, va) \<leftarrow> va_ptr va;
     (len, va) \<leftarrow> va_int va;
     (flag, _) \<leftarrow> va_int va;
     let io1 = io\<lparr>io_ptr := buf, io_len := len, io_flag := flag\<rparr>;
     Some (m, io1, out1, if buf = None \<or> len \<le> 0 then DPE_INVAL else DPE_CONTINUE)
   }"

definition dpskt_send_post :: "'d dpele \<Rightarrow> dpasc_out \<Rightarrow> dpaio_arg \<Rightarrow> machine \<Rightarrow> io_result" where
  "dpskt_send_post = dpaio_buf_post dpaio_send"

definition dpskt_send2_prep :: "va_list \<Rightarrow> dpasc_out \<Rightarrow> dpaio_arg \<Rightarrow> machine \<Rightarrow> io_result" where
  "dpskt_send2_prep va out io m = do {
     let out1 = want out DPEVT_OUT;
     (buf, va) \<leftarrow> va_ptr va;
     (len, _) \<leftarrow> va_int va;
     let io1 = io\<lparr>io_ptr := buf, io_len := len, io_flag := 0\<rparr>;
     Some (m, io1, out1, if buf = None \<or> len \<le> 0 then DPE_INVAL else DPE_CONTINUE)
   }"

text \<open>
  \<open>recvmsg\<close> and \<open>sendmsg\<close> move the data of the vector; what the kernel writes to the other fields
  of the header is a parameter.
\<close>

definition sys_recvmsg :: "(msghdr \<Rightarrow> msghdr) \<Rightarrow> int \<Rightarrow> msghdr \<Rightarrow> int \<Rightarrow> machine \<Rightarrow> (machine \<times> msghdr \<times> int) option" where
  "sys_recvmsg upd f h flag m = do {
     (m1, r) \<leftarrow> sys_readv f (msg_iov h) flag m;
     Some (m1, if r < 0 then h else (upd h)\<lparr>msg_iov := msg_iov h\<rparr>, r)
   }"

definition sys_sendmsg :: "int \<Rightarrow> msghdr \<Rightarrow> int \<Rightarrow> machine \<Rightarrow> (machine \<times> msghdr \<times> int) option" where
  "sys_sendmsg f h flag m = do { (m1, r) \<leftarrow> sys_writev f (msg_iov h) m; Some (m1, h, r) }"

definition dpskt_recvmsg_prep :: "va_list \<Rightarrow> dpasc_out \<Rightarrow> dpaio_arg \<Rightarrow> machine \<Rightarrow> io_result" where
  "dpskt_recvmsg_prep va out io m = do {
     (msg, va) \<leftarrow> va_ptr va;
     (flag, _) \<leftarrow> va_int va;
     let io1 = io\<lparr>io_ptr := msg, io_flag := flag\<rparr>;
     let out1 = want out DPEVT_IN;
     if msg = None then Some (m, io1, out1, DPE_INVAL)
     else do {
       (_, h) \<leftarrow> msg_at m msg;
       let io2 = io1\<lparr>io_total := wrap_int (msg_iov_total h)\<rparr>;
       Some (m, io2, out1, if io_total io2 = 0 then DPE_INVAL else DPE_CONTINUE)
     }
   }"

definition dpskt_recvmsg_post ::
  "(msghdr \<Rightarrow> msghdr) \<Rightarrow> 'd dpele \<Rightarrow> dpasc_out \<Rightarrow> dpaio_arg \<Rightarrow> machine \<Rightarrow> io_result" where
  "dpskt_recvmsg_post upd = dpaio_msg_post (sys_recvmsg upd)"

definition dpskt_sendmsg_prep :: "va_list \<Rightarrow> dpasc_out \<Rightarrow> dpaio_arg \<Rightarrow> machine \<Rightarrow> io_result" where
  "dpskt_sendmsg_prep va out io m = do {
     (msg, va) \<leftarrow> va_ptr va;
     (flag, _) \<leftarrow> va_int va;
     let io1 = io\<lparr>io_ptr := msg, io_flag := flag\<rparr>;
     let out1 = want out DPEVT_OUT;
     if msg = None then Some (m, io1, out1, DPE_INVAL)
     else do {
       (_, h) \<leftarrow> msg_at m msg;
       let io2 = io1\<lparr>io_total := wrap_int (msg_iov_total h)\<rparr>;
       Some (m, io2, out1, if io_total io2 = 0 then DPE_INVAL else DPE_CONTINUE)
     }
   }"

definition dpskt_sendmsg_post :: "'d dpele \<Rightarrow> dpasc_out \<Rightarrow> dpaio_arg \<Rightarrow> machine \<Rightarrow> io_result" where
  "dpskt_sendmsg_post = dpaio_msg_post sys_sendmsg"

end
