(* ===== verification/Dpasc_Xfer.thy ===== *)
theory Dpasc_Xfer
  imports Dpasc_Gfd
begin

text \<open>
  What the shared transfer loop promises for any kernel call that keeps the laws of \<open>data_io\<close>, and
  those laws for \<open>read\<close>, \<open>recv\<close>, \<open>write\<close> and \<open>send\<close>.  \<open>moved f io i k m m'\<close> says that \<open>k\<close> bytes went
  between the descriptor and the buffer, from the offset \<open>i\<close> of the buffer on.
\<close>

section \<open>The contract of a kernel call\<close>

locale data_io =
  fixes iofun :: data_fun
    and room :: "int \<Rightarrow> dpaio_arg \<Rightarrow> machine \<Rightarrow> bool"
    and moved :: "int \<Rightarrow> dpaio_arg \<Rightarrow> int \<Rightarrow> int \<Rightarrow> machine \<Rightarrow> machine \<Rightarrow> bool"
  assumes call: "room f io m \<Longrightarrow> 0 \<le> i \<Longrightarrow> i < io_len io \<Longrightarrow>
      \<exists>m' res. iofun f io i m = Some (m', res) \<and> room f io m' \<and> res \<le> io_len io - i \<and>
        moved f io i (max 0 res) m m' \<and> (res < 0 \<longrightarrow> kerrno m' > 0)"
    and moved_trans: "0 \<le> i \<Longrightarrow> 0 \<le> k \<Longrightarrow> 0 \<le> j \<Longrightarrow> moved f io i k m m1 \<Longrightarrow>
      moved f io (i + k) j m1 m2 \<Longrightarrow> moved f io i (k + j) m m2"
begin

text \<open>The three ways a transfer ends: with a count, at the end of the stream, with an error.\<close>

lemma buf_loop_returns:
  assumes "room f io m" "0 \<le> i" "i < io_len io" "io_len io \<le> INT_MAX"
  shows "\<exists>m' out' r k. dpaio_buf_loop iofun f io out i m = Some (m', out', r) \<and> room f io m' \<and>
    i \<le> k \<and> k \<le> io_len io \<and> moved f io i (k - i) m m' \<and> out_want out' = out_want out \<and>
    (r = k \<and> 0 < k \<and> out_inva out' = (if k < io_len io then out_want out else out_inva out) \<or>
     r = DPE_EOF \<and> out_inva out' = out_want out \<and> k < io_len io \<or>
     r < 0 \<and> k = 0 \<and> r = - kerrno m' \<and> out_inva out' = out_want out)"
  using assms
proof (induction "nat (io_len io - i)" arbitrary: i m rule: less_induct)
  case less
  obtain m1 res where c: "iofun f io i m = Some (m1, res)" "room f io m1" "res \<le> io_len io - i"
    "moved f io i (max 0 res) m m1" "res < 0 \<longrightarrow> kerrno m1 > 0"
    using call [OF less.prems(1-3)] by blast
  note loop = dpaio_buf_loop.simps [of iofun f io out i m]
  consider (some) "res > 0" | (eof) "res = 0" | (fail) "res < 0" by linarith
  then show ?case
  proof cases
    case some
    then have mv: "moved f io i res m m1" using c(4) by simp
    show ?thesis
    proof (cases "i + res = io_len io")
      case True
      then have "dpaio_buf_loop iofun f io out i m = Some (m1, out, i + res)"
        using loop c(1) some less.prems(2,4) by simp
      moreover have "io_len io > 0" using less.prems by linarith
      moreover have "moved f io i (io_len io - i) m m1" using mv True by (metis add_diff_cancel_left')
      ultimately show ?thesis using True c(2) less.prems
        by (intro exI [of _ m1] exI [of _ out] exI [of _ "i + res"]) auto
    next
      case False
      then have lt: "i + res < io_len io" using c(3) by simp
      obtain m' out' r k where ih: "dpaio_buf_loop iofun f io out (i + res) m1 = Some (m', out', r)"
        "room f io m'" "i + res \<le> k" "k \<le> io_len io" "moved f io (i + res) (k - (i + res)) m1 m'"
        "out_want out' = out_want out"
        "r = k \<and> 0 < k \<and> out_inva out' = (if k < io_len io then out_want out else out_inva out) \<or>
         r = DPE_EOF \<and> out_inva out' = out_want out \<and> k < io_len io \<or>
         r < 0 \<and> k = 0 \<and> r = - kerrno m' \<and> out_inva out' = out_want out"
        using less.hyps [OF _ c(2) _ lt less.prems(4)] some less.prems(2) lt by (auto simp: nat_mono_iff)
      have "dpaio_buf_loop iofun f io out i m = Some (m', out', r)"
        using loop c(1) some less.prems(2,4) lt ih(1) False by simp
      moreover have "moved f io i (res + (k - (i + res))) m m'"
        using moved_trans [OF less.prems(2) _ _ mv ih(5)] some ih(3) by simp
      then have "moved f io i (k - i) m m'" by (simp add: algebra_simps)
      ultimately show ?thesis using ih(2,3,4,6,7) some by (intro exI [of _ m'] exI [of _ out'] exI [of _ r] exI [of _ k]) auto
    qed
  next
    case eof
    then have "dpaio_buf_loop iofun f io out i m = Some (m1, out\<lparr>out_inva := out_want out\<rparr>, DPE_EOF)"
      using loop c(1) by simp
    then show ?thesis using c(2,4) eof less.prems
      by (intro exI [of _ m1] exI [of _ "out\<lparr>out_inva := out_want out\<rparr>"] exI [of _ "DPE_EOF"] exI [of _ i]) auto
  next
    case fail
    then have "dpaio_buf_loop iofun f io out i m =
        Some (m1, out\<lparr>out_inva := out_want out\<rparr>, if i > 0 then i else - kerrno m1)"
      using loop c(1) by simp
    then show ?thesis using c(2,4,5) fail less.prems
      by (intro exI [of _ m1] exI [of _ "out\<lparr>out_inva := out_want out\<rparr>"]
          exI [of _ "if i > 0 then i else - kerrno m1"] exI [of _ i]) auto
  qed
qed

lemma buf_post_returns:
  assumes "room (fd e) io m" "0 < io_len io" "io_len io \<le> INT_MAX"
  shows "\<exists>m' out' r k. dpaio_buf_post iofun e out io m = Some (m', io, out', r) \<and> room (fd e) io m' \<and>
    0 \<le> k \<and> k \<le> io_len io \<and> moved (fd e) io 0 k m m' \<and> out_want out' = out_want out \<and>
    (r = k \<and> 0 < k \<and> out_inva out' = (if k < io_len io then out_want out else out_inva out) \<or>
     r = DPE_EOF \<and> out_inva out' = out_want out \<and> k < io_len io \<or>
     r < 0 \<and> k = 0 \<and> r = - kerrno m' \<and> out_inva out' = out_want out)"
  using buf_loop_returns [OF assms(1) _ assms(2,3), of out] by (fastforce simp: dpaio_buf_post_def)

end

section \<open>Reading\<close>

definition errors_positive :: "machine \<Rightarrow> int \<Rightarrow> bool" where
  "errors_positive m f \<longleftrightarrow> (\<forall>e. (Rerr e \<in> set (rxq m f) \<longrightarrow> e > 0) \<and> (Terr e \<in> set (txq m f) \<longrightarrow> e > 0))"

definition has_room :: "int \<Rightarrow> dpaio_arg \<Rightarrow> machine \<Rightarrow> bool" where
  "has_room f io m \<longleftrightarrow>
     (\<exists>p ys. io_ptr io = Some p \<and> mload m p (io_len io) = Some ys) \<and> errors_positive m f"

definition read_moved :: "int \<Rightarrow> dpaio_arg \<Rightarrow> int \<Rightarrow> int \<Rightarrow> machine \<Rightarrow> machine \<Rightarrow> bool" where
  "read_moved f io i k m m' \<longleftrightarrow>
     (\<exists>p off b0 bs. io_ptr io = Some p \<and> int (length bs) = k \<and>
        rx_bytes (rxq m f) = bs @ rx_bytes (rxq m' f) \<and>
        region m p = Some (off, b0) \<and> 0 \<le> off + i \<and> off + i + k \<le> int (length b0) \<and>
        region m' p = Some (off, poke (nat (off + i)) bs b0))"

lemma read_moved_trans:
  assumes "read_moved f io i k m m1" "read_moved f io (i + k) j m1 m2"
  shows "read_moved f io i (k + j) m m2"
proof -
  obtain p off b0 xs where 1: "io_ptr io = Some p" "int (length xs) = k"
    "rx_bytes (rxq m f) = xs @ rx_bytes (rxq m1 f)" "region m p = Some (off, b0)" "0 \<le> off + i"
    "off + i + k \<le> int (length b0)" "region m1 p = Some (off, poke (nat (off + i)) xs b0)"
    using assms(1) by (auto simp: read_moved_def)
  obtain ys where 2: "int (length ys) = j" "rx_bytes (rxq m1 f) = ys @ rx_bytes (rxq m2 f)"
    "off + (i + k) + j \<le> int (length (poke (nat (off + i)) xs b0))"
    "region m2 p = Some (off, poke (nat (off + (i + k))) ys (poke (nat (off + i)) xs b0))"
    using assms(2) 1(1,7) by (auto simp: read_moved_def)
  have n: "nat (off + (i + k)) = nat (off + i) + length xs" using 1(2,5) by linarith
  have len: "length (poke (nat (off + i)) xs b0) = length b0"
    using 1(2,5,6) by (intro length_poke) linarith
  have "poke (nat (off + (i + k))) ys (poke (nat (off + i)) xs b0) = poke (nat (off + i)) (xs @ ys) b0"
    using poke_append [of "nat (off + i)" xs ys b0] n 1(2,5) 2(1,3) len by simp
  then show ?thesis using 1 2 len
    by (auto simp: read_moved_def algebra_simps intro!: exI [of _ off] exI [of _ b0] exI [of _ "xs @ ys"])
qed

lemma read_movedI:
  "io_ptr io = Some p \<Longrightarrow> rx_bytes (rxq m f) = bs @ rx_bytes (rxq m' f) \<Longrightarrow> region m p = Some (off, b0) \<Longrightarrow>
    0 \<le> off + i \<Longrightarrow> off + i + int (length bs) \<le> int (length b0) \<Longrightarrow>
    region m' p = Some (off, poke (nat (off + i)) bs b0) \<Longrightarrow> read_moved f io i (int (length bs)) m m'"
  unfolding read_moved_def by blast

lemma read_moved_none: "io_ptr io = Some p \<Longrightarrow> region m p = Some (off, b0) \<Longrightarrow> 0 \<le> off + i \<Longrightarrow>
    off + i \<le> int (length b0) \<Longrightarrow> region m' p = region m p \<Longrightarrow> rx_bytes (rxq m' f) = rx_bytes (rxq m f) \<Longrightarrow>
    read_moved f io i 0 m m'"
  by (simp add: read_moved_def poke_def)

lemma recv_call:
  assumes room: "has_room f io m" and i: "0 \<le> i" "i < io_len io" and p: "io_ptr io = Some p"
    and flag: "flag AND MSG_PEEK = 0"
  shows "\<exists>m' res. sys_recv f (padd p i) (io_len io - i) flag m = Some (m', res) \<and> has_room f io m' \<and>
    res \<le> io_len io - i \<and> read_moved f io i (max 0 res) m m' \<and> (res < 0 \<longrightarrow> kerrno m' > 0)"
proof -
  obtain off b0 where r: "region m p = Some (off, b0)" "0 \<le> off" "off + io_len io \<le> int (length b0)"
    and ep: "errors_positive m f"
    using room p by (auto simp: has_room_def mload_Some_iff)
  have none: "read_moved f io i 0 m m'" if "region m' p = region m p" "rx_bytes (rxq m' f) = rx_bytes (rxq m f)" for m'
    using p r(1) _ _ that by (rule read_moved_none) (use r i in linarith)+
  have room': "has_room f io m'" if "region m' p = Some (off, b1)" "length b1 = length b0" "errors_positive m' f" for m' b1
    using that p r i by (auto simp: has_room_def mload_Some_iff)
  show ?thesis
  proof (cases "rxq m f")
    case Nil
    let ?m = "m\<lparr>kerrno := EAGAIN\<rparr>"
    have "sys_recv f (padd p i) (io_len io - i) flag m = Some (?m, - 1)"
      using Nil flag i by (simp add: sys_recv_def krecv_def kfail_def)
    moreover have "has_room f io ?m" using r(1) ep by (intro room') (auto simp: errors_positive_def io_simps)
    moreover have "read_moved f io i 0 m ?m" by (rule none) (simp_all add: io_simps)
    ultimately show ?thesis using i by auto
  next
    case (Cons s q)
    show ?thesis
    proof (cases s)
      case (Rdata bs)
      let ?got = "take (nat (io_len io - i)) bs"
      let ?q = "if length bs \<le> nat (io_len io - i) then q else Rdata (drop (nat (io_len io - i)) bs) # q"
      have len: "i + int (length ?got) \<le> io_len io" using i by simp
      have bnd: "0 \<le> off + i" "off + i + int (length ?got) \<le> int (length b0)" using len r i by linarith+
      then obtain m1 where m1: "mstore m (padd p i) ?got = Some m1"
        "region m1 p = Some (off, poke (nat (off + i)) ?got b0)" "rxq m1 = rxq m" "txq m1 = txq m"
        using mstore_region [OF r(1)] by blast
      let ?m = "m1\<lparr>rxq := (rxq m1)(f := ?q)\<rparr>"
      have call: "sys_recv f (padd p i) (io_len io - i) flag m = Some (?m, int (length ?got))"
        using Cons Rdata flag i m1(1) by (simp add: sys_recv_def krecv_def)
      have "length (poke (nat (off + i)) ?got b0) = length b0"
        using len r i by (intro length_poke) linarith
      moreover have "errors_positive ?m f" using ep Cons Rdata m1(3,4) by (auto simp: errors_positive_def)
      moreover have reg: "region ?m p = Some (off, poke (nat (off + i)) ?got b0)" using m1(2) by (simp only: io_simps)
      ultimately have "has_room f io ?m" by (intro room')
      moreover have "rx_bytes (rxq m f) = ?got @ rx_bytes (rxq ?m f)" using Cons Rdata by simp
      then have "read_moved f io i (int (length ?got)) m ?m"
        using read_movedI [OF p _ r(1) bnd(1) bnd(2) reg] by simp
      then have "read_moved f io i (max 0 (int (length ?got))) m ?m" by (simp only: max_def) simp
      ultimately show ?thesis using call len by (intro exI [of _ ?m] exI [of _ "int (length ?got)"]) auto
    next
      case Reof
      then have "sys_recv f (padd p i) (io_len io - i) flag m = Some (m, 0)"
        using Cons flag i by (simp add: sys_recv_def krecv_def)
      then show ?thesis using room i none [of m] by auto
    next
      case (Rerr e)
      let ?m = "m\<lparr>rxq := (rxq m)(f := q), kerrno := e\<rparr>"
      have "sys_recv f (padd p i) (io_len io - i) flag m = Some (?m, - 1)"
        using Cons Rerr flag i by (simp add: sys_recv_def krecv_def kfail_def)
      moreover have "has_room f io ?m"
        using r(1) ep Cons by (intro room') (auto simp: errors_positive_def io_simps)
      moreover have "read_moved f io i 0 m ?m" using Cons Rerr by (intro none) (simp_all add: io_simps)
      moreover have "e > 0" using ep Cons Rerr by (simp add: errors_positive_def)
      ultimately show ?thesis using i by auto
    qed
  qed
qed

interpretation rd: data_io dpaio_read has_room read_moved
proof unfold_locales
  fix f io m i
  assume "has_room f io m" "0 \<le> i" "i < io_len io"
  moreover from this(1) obtain p where "io_ptr io = Some p" by (auto simp: has_room_def)
  ultimately show "\<exists>m' res. dpaio_read f io i m = Some (m', res) \<and> has_room f io m' \<and> res \<le> io_len io - i \<and>
      read_moved f io i (max 0 res) m m' \<and> (res < 0 \<longrightarrow> kerrno m' > 0)"
    using recv_call [of f io m i p 0] by (simp add: dpaio_read_def)
qed (rule read_moved_trans)

text \<open>\<open>recv\<close> keeps the laws as long as its flags do not ask to peek.\<close>

definition recv_room :: "int \<Rightarrow> dpaio_arg \<Rightarrow> machine \<Rightarrow> bool" where
  "recv_room f io m \<longleftrightarrow> has_room f io m \<and> io_flag io AND MSG_PEEK = 0"

interpretation rc: data_io dpaio_recv recv_room read_moved
proof unfold_locales
  fix f io m i
  assume room: "recv_room f io m" and i: "0 \<le> i" "i < io_len io"
  then obtain p where "io_ptr io = Some p" by (auto simp: recv_room_def has_room_def)
  with room i recv_call [of f io m i p "io_flag io"]
  show "\<exists>m' res. dpaio_recv f io i m = Some (m', res) \<and> recv_room f io m' \<and> res \<le> io_len io - i \<and>
      read_moved f io i (max 0 res) m m' \<and> (res < 0 \<longrightarrow> kerrno m' > 0)"
    by (auto simp: recv_room_def dpaio_recv_def)
qed (rule read_moved_trans)

section \<open>Writing\<close>

definition write_moved :: "int \<Rightarrow> dpaio_arg \<Rightarrow> int \<Rightarrow> int \<Rightarrow> machine \<Rightarrow> machine \<Rightarrow> bool" where
  "write_moved f io i k m m' \<longleftrightarrow>
     (\<exists>p bs. io_ptr io = Some p \<and> mload m (padd p i) k = Some bs \<and> sent m' f = sent m f @ bs \<and>
        objs m' = objs m \<and> bstore m' = bstore m)"

lemma mload_same: "objs m' = objs m \<Longrightarrow> bstore m' = bstore m \<Longrightarrow> mload m' p n = mload m p n"
  by (rule mload_region) (simp add: region_def split: ptr.splits)

lemma write_moved_trans:
  assumes "write_moved f io i k m m1" "write_moved f io (i + k) j m1 m2"
  shows "write_moved f io i (k + j) m m2"
proof -
  obtain p xs where 1: "io_ptr io = Some p" "mload m (padd p i) k = Some xs" "sent m1 f = sent m f @ xs"
    "objs m1 = objs m" "bstore m1 = bstore m"
    using assms(1) by (auto simp: write_moved_def)
  obtain ys where 2: "mload m1 (padd p (i + k)) j = Some ys" "sent m2 f = sent m1 f @ ys"
    "objs m2 = objs m1" "bstore m2 = bstore m1"
    using assms(2) 1(1) by (auto simp: write_moved_def)
  have "mload m (padd p (i + k)) j = Some ys" using 2(1) mload_same [OF 1(4,5)] by simp
  then have "mload m (padd p i) (k + j) = Some (xs @ ys)"
    using mload_append [OF 1(2), of j ys] by simp
  then show ?thesis using 1 2 by (auto simp: write_moved_def)
qed

lemma send_call:
  assumes room: "has_room f io m" and i: "0 \<le> i" "i < io_len io" and p: "io_ptr io = Some p"
  shows "\<exists>m' res. sys_send f (padd p i) (io_len io - i) m = Some (m', res) \<and> has_room f io m' \<and>
    res \<le> io_len io - i \<and> write_moved f io i (max 0 res) m m' \<and> (res < 0 \<longrightarrow> kerrno m' > 0)"
proof -
  obtain ys where ys: "mload m p (io_len io) = Some ys" and ep: "errors_positive m f"
    using room p by (auto simp: has_room_def)
  let ?xs = "drop (nat i) ys"
  have xs: "mload m (padd p i) (io_len io - i) = Some ?xs" using mload_suffix [OF ys] i by simp
  have pre: "mload m (padd p i) k = Some (take (nat k) ?xs)" if "0 \<le> k" "k \<le> io_len io - i" for k
    using mload_prefix [OF xs] that by simp
  have lenx: "int (length ?xs) = io_len io - i" using mload_length [OF xs] by simp
  show ?thesis
  proof (cases "txq m f")
    case Nil
    then show ?thesis using xs i p ys ep pre [of 0]
      by (auto simp: sys_send_def ksend_def kfail_def has_room_def write_moved_def errors_positive_def io_simps)
  next
    case (Cons s q)
    show ?thesis
    proof (cases s)
      case (Tacc n)
      let ?k = "min n (length ?xs)"
      let ?m = "m\<lparr>txq := (txq m)(f := if n \<le> ?k then q else Tacc (n - ?k) # q),
        sent := (sent m)(f := sent m f @ take ?k ?xs)\<rparr>"
      have call: "sys_send f (padd p i) (io_len io - i) m = Some (?m, int ?k)"
        using Cons Tacc xs by (simp add: sys_send_def ksend_def Let_def)
      have "has_room f io ?m"
        using p ys ep Cons Tacc by (auto simp: has_room_def errors_positive_def io_simps)
      moreover have "write_moved f io i (max 0 (int ?k)) m ?m"
        using p pre [of "int ?k"] lenx by (auto simp: write_moved_def)
      ultimately show ?thesis using call lenx by (intro exI [of _ ?m] exI [of _ "int ?k"]) auto
    next
      case (Terr e)
      then show ?thesis using Cons xs i p ys ep pre [of 0]
        by (auto simp: sys_send_def ksend_def kfail_def has_room_def write_moved_def errors_positive_def io_simps)
    qed
  qed
qed

interpretation wr: data_io dpaio_write has_room write_moved
proof unfold_locales
  fix f io m i
  assume "has_room f io m" "0 \<le> i" "i < io_len io"
  moreover from this(1) obtain p where "io_ptr io = Some p" by (auto simp: has_room_def)
  ultimately show "\<exists>m' res. dpaio_write f io i m = Some (m', res) \<and> has_room f io m' \<and> res \<le> io_len io - i \<and>
      write_moved f io i (max 0 res) m m' \<and> (res < 0 \<longrightarrow> kerrno m' > 0)"
    using send_call [of f io m i p] by (simp add: dpaio_write_def)
qed (rule write_moved_trans)

lemma dpaio_send_is_write: "dpaio_send = dpaio_write"
  by (simp add: fun_eq_iff dpaio_send_def dpaio_write_def)

interpretation sd: data_io dpaio_send has_room write_moved
  unfolding dpaio_send_is_write by (rule wr.data_io_axioms)

end
