(* ===== verification/Dpasc_Stm.thy ===== *)
theory Dpasc_Stm
  imports Dpasc_Xfer
begin

text \<open>
  The stream operations over buffers (the \<open>dpaio_\<close> functions of \<^verbatim>\<open>dpasc.c\<close>).  Each runs the read or
  the write operation of the element's I/O type as a step of its own: the scratch record
  \<open>dpaio_stm\<close> begins with the step's \<open>dpaio_arg\<close>, whose pointer and length the operation redirects
  into the \<open>dpbuf\<close>.  The operations of TLS and QUIC elements are the argument \<open>tls\<close>.
\<close>

record dpaio_stm =
  stm_io :: dpaio_arg
  stm_buf :: "ptr option"
  stm_len :: int
  stm_until_len :: int
  stm_until :: "ptr option"

type_synonym stm_result = "(machine \<times> dpaio_stm \<times> dpasc_out \<times> dpret) option"

record 'd io_asc =
  sub_prep :: "va_list \<Rightarrow> dpasc_out \<Rightarrow> dpaio_arg \<Rightarrow> machine \<Rightarrow> io_result"
  sub_post :: "'d dpele \<Rightarrow> dpasc_out \<Rightarrow> dpaio_arg \<Rightarrow> machine \<Rightarrow> io_result"

type_synonym 'd tls_ascs = "dpaio_type_e \<Rightarrow> nat \<Rightarrow> 'd io_asc option"

abbreviation (input) DPAIO_BATCH_SIZE :: int where
  "DPAIO_BATCH_SIZE \<equiv> 8192"

text \<open>The table of sub-operations; without an I/O type the index is negative.\<close>

definition dpaio_get_asc :: "'d tls_ascs \<Rightarrow> 'd dpele \<Rightarrow> nat \<Rightarrow> 'd io_asc option" where
  "dpaio_get_asc tls e idx =
     (case ty_iotype (etype e) of
        DPAIO_TYPE_NAN \<Rightarrow> None
      | DPAIO_TYPE_GFD \<Rightarrow>
          Some (if idx = 0 then \<lparr>sub_prep = dpgfd_read_prep, sub_post = dpgfd_read_post\<rparr>
                else \<lparr>sub_prep = dpgfd_write_prep, sub_post = dpgfd_write_post\<rparr>)
      | DPAIO_TYPE_SKT \<Rightarrow>
          Some (if idx = 0 then \<lparr>sub_prep = dpskt_recv2_prep, sub_post = dpskt_recv_post\<rparr>
                else \<lparr>sub_prep = dpskt_send2_prep, sub_post = dpskt_send_post\<rparr>)
      | DPAIO_TYPE_SSL \<Rightarrow> tls DPAIO_TYPE_SSL idx
      | DPAIO_TYPE_QIC \<Rightarrow> tls DPAIO_TYPE_QIC idx)"

section \<open>Buffers of the machine\<close>

definition buf_get :: "machine \<Rightarrow> ptr option \<Rightarrow> dpbuf option" where
  "buf_get m p = map_option snd (buf_at m p)"

definition buf_seek ::
  "(dpbuf \<Rightarrow> int \<Rightarrow> seek \<Rightarrow> (dpbuf \<times> int) option) \<Rightarrow> machine \<Rightarrow> ptr option \<Rightarrow> int \<Rightarrow> seek \<Rightarrow> (machine \<times> int) option"
where
  "buf_seek seek_fun m p off whence = do {
     (a, b) \<leftarrow> buf_at m p;
     (b1, n) \<leftarrow> seek_fun b off whence;
     Some (set_buf m a b1, n)
   }"

definition buf_resizew :: "machine \<Rightarrow> ptr option \<Rightarrow> int \<Rightarrow> (machine \<times> bool) option" where
  "buf_resizew m p n = do {
     (a, b) \<leftarrow> buf_at m p;
     (h, b1, ok) \<leftarrow> dpbuf_resizew (bstore m) b n;
     Some (set_buf (m\<lparr>bstore := h\<rparr>) a b1, ok)
   }"

text \<open>The pointers \<open>dpbuf_cwdata\<close> and \<open>dpbuf_crdata\<close> return.\<close>

definition buf_cwdata :: "machine \<Rightarrow> ptr option \<Rightarrow> ptr option" where
  "buf_cwdata m p = do { (a, b) \<leftarrow> buf_at m p; (k, d) \<leftarrow> get_block (bstore m) b; Some (Pblk k (wbeg b)) }"

definition buf_crdata :: "machine \<Rightarrow> ptr option \<Rightarrow> ptr option" where
  "buf_crdata m p = do { (a, b) \<leftarrow> buf_at m p; (k, d) \<leftarrow> get_block (bstore m) b; Some (Pblk k (rbeg b)) }"

text \<open>The memory from a pointer on, for the search functions.\<close>

definition mfrom :: "machine \<Rightarrow> ptr \<Rightarrow> byte list option" where
  "mfrom m p = do {
     (off, bs) \<leftarrow> region m p;
     if 0 \<le> off \<and> off \<le> int (length bs) then Some (drop (nat off) bs) else None
   }"

definition buf_cfind :: "machine \<Rightarrow> ptr option \<Rightarrow> ptr \<Rightarrow> int \<Rightarrow> int \<Rightarrow> int option" where
  "buf_cfind m p sub len from = do {
     b \<leftarrow> buf_get m p;
     pat \<leftarrow> mfrom m sub;
     dpbuf_cfind (bstore m) (Some b) (Some pat) len from
   }"

section \<open>The common parts\<close>

text \<open>Preparation of the step; when it goes on, the buffer and the length move out of its record.\<close>

definition stm_begin ::
  "'d tls_ascs \<Rightarrow> 'd dpele \<Rightarrow> nat \<Rightarrow> va_list \<Rightarrow> dpasc_out \<Rightarrow> dpaio_stm \<Rightarrow> machine \<Rightarrow> stm_result" where
  "stm_begin tls e idx va out stm m = do {
     sub \<leftarrow> dpaio_get_asc tls e idx;
     (m1, io, out1, r) \<leftarrow> sub_prep sub va out (stm_io stm) m;
     Some (m1,
       if r \<noteq> DPE_CONTINUE then stm\<lparr>stm_io := io\<rparr>
       else stm\<lparr>stm_buf := io_ptr io, stm_len := io_len io, stm_io := io\<lparr>io_total := 0\<rparr>\<rparr>,
       out1, r)
   }"

definition stm_post ::
  "'d tls_ascs \<Rightarrow> 'd dpele \<Rightarrow> nat \<Rightarrow> dpasc_out \<Rightarrow> dpaio_stm \<Rightarrow> machine \<Rightarrow> stm_result" where
  "stm_post tls e idx out stm m = do {
     sub \<leftarrow> dpaio_get_asc tls e idx;
     (m1, io, out1, r) \<leftarrow> sub_post sub e out (stm_io stm) m;
     Some (m1, stm\<lparr>stm_io := io\<rparr>, out1, r)
   }"

definition batch :: "int \<Rightarrow> int" where
  "batch n = (if n > DPAIO_BATCH_SIZE then DPAIO_BATCH_SIZE else n)"

definition aim :: "ptr option \<Rightarrow> int \<Rightarrow> dpaio_stm \<Rightarrow> dpaio_stm" where
  "aim p n stm = stm\<lparr>stm_io := (stm_io stm)\<lparr>io_ptr := p, io_len := n\<rparr>\<rparr>"

definition set_total :: "int \<Rightarrow> dpaio_stm \<Rightarrow> dpaio_stm" where
  "set_total n stm = stm\<lparr>stm_io := (stm_io stm)\<lparr>io_total := n\<rparr>\<rparr>"

lemma aim_fields [simp]:
  "stm_io (aim p n stm) = (stm_io stm)\<lparr>io_ptr := p, io_len := n\<rparr>" "stm_len (aim p n stm) = stm_len stm"
  "stm_buf (aim p n stm) = stm_buf stm" "stm_until_len (aim p n stm) = stm_until_len stm"
  "stm_until (aim p n stm) = stm_until stm"
  by (simp_all add: aim_def)

lemma set_total_fields [simp]:
  "stm_io (set_total n stm) = (stm_io stm)\<lparr>io_total := n\<rparr>" "stm_len (set_total n stm) = stm_len stm"
  "stm_buf (set_total n stm) = stm_buf stm" "stm_until_len (set_total n stm) = stm_until_len stm"
  "stm_until (set_total n stm) = stm_until stm"
  by (simp_all add: set_total_def)

abbreviation (input) "tot stm \<equiv> io_total (stm_io stm)"

text \<open>On an event-driven descriptor the operation names the event it waits for.\<close>

definition rewant :: "'d dpele \<Rightarrow> 16 word \<Rightarrow> dpasc_out \<Rightarrow> dpasc_out" where
  "rewant e x out = (if ty_type (etype e) = DPELE_TYPE_EFD then out\<lparr>out_want := x\<rparr> else out)"

section \<open>Reading at most a number of bytes\<close>

definition dpaio_read_some_prep ::
  "'d tls_ascs \<Rightarrow> 'd dpele \<Rightarrow> va_list \<Rightarrow> dpasc_out \<Rightarrow> dpaio_stm \<Rightarrow> machine \<Rightarrow> stm_result" where
  "dpaio_read_some_prep tls e va out stm0 m0 = do {
     (m, stm, out, r) \<leftarrow> stm_begin tls e 0 va out stm0 m0;
     if r \<noteq> DPE_CONTINUE then Some (m, stm, out, r)
     else do {
       (m, esz) \<leftarrow> buf_seek dpbuf_eseek m (stm_buf stm) 0 SEEK_END;
       if esz \<ge> stm_len stm then Some (m, stm, out, esz)
       else do {
         (m, ok) \<leftarrow> buf_resizew m (stm_buf stm) (batch (stm_len stm - esz));
         if \<not> ok then Some (m, stm, out, DPE_NOMEM)
         else do {
           b \<leftarrow> buf_get m (stm_buf stm);
           p \<leftarrow> buf_cwdata m (stm_buf stm);
           Some (m, aim (Some p) (dpbuf_cwsize b) stm, out, r)
         }
       }
     }
   }"

definition dpaio_read_some_post ::
  "'d tls_ascs \<Rightarrow> 'd dpele \<Rightarrow> dpasc_out \<Rightarrow> dpaio_stm \<Rightarrow> machine \<Rightarrow> stm_result" where
  "dpaio_read_some_post tls e out0 stm0 m0 = do {
     (m, stm, out, r) \<leftarrow> stm_post tls e 0 out0 stm0 m0;
     if r \<le> 0 then Some (m, stm, out, if tot stm > 0 then tot stm else r)
     else do {
       t \<leftarrow> chk_int (tot stm + r);
       let stm = set_total t stm;
       (m, _) \<leftarrow> buf_seek dpbuf_wseek m (stm_buf stm) r SEEK_CUR;
       (m, _) \<leftarrow> buf_seek dpbuf_eseek m (stm_buf stm) 0 SEEK_END;
       if r < io_len (stm_io stm) \<or> t \<ge> stm_len stm then Some (m, stm, out, t)
       else do {
         (m, ok) \<leftarrow> buf_resizew m (stm_buf stm) (batch (stm_len stm - t));
         if \<not> ok then Some (m, stm, out, if t > 0 then t else DPE_NOMEM)
         else do {
           b \<leftarrow> buf_get m (stm_buf stm);
           p \<leftarrow> buf_cwdata m (stm_buf stm);
           Some (m, aim (Some p) (dpbuf_cwsize b) stm, out, DPE_WAIT)
         }
       }
     }
   }"

section \<open>Writing at least a number of bytes\<close>

definition dpaio_write_some_prep ::
  "'d tls_ascs \<Rightarrow> 'd dpele \<Rightarrow> va_list \<Rightarrow> dpasc_out \<Rightarrow> dpaio_stm \<Rightarrow> machine \<Rightarrow> stm_result" where
  "dpaio_write_some_prep tls e va out stm0 m0 = do {
     (m, stm, out, r) \<leftarrow> stm_begin tls e 1 va out stm0 m0;
     if r \<noteq> DPE_CONTINUE then Some (m, stm, out, r)
     else do {
       b \<leftarrow> buf_get m (stm_buf stm);
       p \<leftarrow> buf_crdata m (stm_buf stm);
       Some (m, aim (Some p) (dpbuf_crsize b) stm, out, r)
     }
   }"

definition dpaio_write_some_post ::
  "'d tls_ascs \<Rightarrow> 'd dpele \<Rightarrow> dpasc_out \<Rightarrow> dpaio_stm \<Rightarrow> machine \<Rightarrow> stm_result" where
  "dpaio_write_some_post tls e out0 stm0 m0 = do {
     (m, stm, out, r) \<leftarrow> stm_post tls e 1 out0 stm0 m0;
     if r \<le> 0 then Some (m, stm, out, if tot stm \<ge> stm_len stm then tot stm else r)
     else do {
       t \<leftarrow> chk_int (tot stm + r);
       let stm = set_total t stm;
       (m, _) \<leftarrow> buf_seek dpbuf_rseek m (stm_buf stm) r SEEK_CUR;
       if t \<ge> stm_len stm then Some (m, stm, out, t)
       else do {
         p \<leftarrow> io_ptr (stm_io stm);
         n \<leftarrow> chk_int (io_len (stm_io stm) - r);
         Some (m, aim (Some (padd p r)) n stm, rewant e DPEVT_OUT out, DPE_WAIT)
       }
     }
   }"

section \<open>Reading and writing an exact number of bytes\<close>

definition dpaio_read_must_prep ::
  "'d tls_ascs \<Rightarrow> 'd dpele \<Rightarrow> va_list \<Rightarrow> dpasc_out \<Rightarrow> dpaio_stm \<Rightarrow> machine \<Rightarrow> stm_result" where
  "dpaio_read_must_prep tls e va out stm0 m0 = do {
     (m, stm, out, r) \<leftarrow> stm_begin tls e 0 va out stm0 m0;
     if r \<noteq> DPE_CONTINUE then Some (m, stm, out, r)
     else do {
       b \<leftarrow> buf_get m (stm_buf stm);
       let esz = dpbuf_cesize b;
       if esz \<ge> stm_len stm then do {
         (m, n) \<leftarrow> buf_seek dpbuf_eseek m (stm_buf stm) (stm_len stm) SEEK_CUR;
         Some (m, stm, out, n)
       }
       else do {
         let bytes = stm_len stm - esz;
         (m, ok) \<leftarrow> buf_resizew m (stm_buf stm) bytes;
         if \<not> ok then Some (m, stm, out, DPE_NOMEM)
         else do {
           p \<leftarrow> buf_cwdata m (stm_buf stm);
           Some (m, aim (Some p) bytes stm, out, r)
         }
       }
     }
   }"

definition dpaio_read_must_post ::
  "'d tls_ascs \<Rightarrow> 'd dpele \<Rightarrow> dpasc_out \<Rightarrow> dpaio_stm \<Rightarrow> machine \<Rightarrow> stm_result" where
  "dpaio_read_must_post tls e out0 stm0 m0 = do {
     (m, stm, out, r) \<leftarrow> stm_post tls e 0 out0 stm0 m0;
     if r \<le> 0 then Some (m, stm, out, if tot stm > 0 then tot stm else r)
     else do {
       t \<leftarrow> chk_int (tot stm + r);
       let stm = set_total t stm;
       (m, _) \<leftarrow> buf_seek dpbuf_wseek m (stm_buf stm) r SEEK_CUR;
       if t \<ge> io_len (stm_io stm) then Some (m, stm, out, t)
       else do {
         p \<leftarrow> buf_cwdata m (stm_buf stm);
         n \<leftarrow> chk_int (io_len (stm_io stm) - r);
         Some (m, aim (Some p) n stm, rewant e DPEVT_IN out, DPE_WAIT)
       }
     }
   }"

definition dpaio_write_must_prep ::
  "'d tls_ascs \<Rightarrow> 'd dpele \<Rightarrow> va_list \<Rightarrow> dpasc_out \<Rightarrow> dpaio_stm \<Rightarrow> machine \<Rightarrow> stm_result" where
  "dpaio_write_must_prep tls e va out stm0 m0 = do {
     (m, stm, out, r) \<leftarrow> stm_begin tls e 1 va out stm0 m0;
     if r \<noteq> DPE_CONTINUE then Some (m, stm, out, r)
     else do {
       p \<leftarrow> buf_crdata m (stm_buf stm);
       Some (m, aim (Some p) (stm_len stm) stm, out, r)
     }
   }"

definition dpaio_write_must_post ::
  "'d tls_ascs \<Rightarrow> 'd dpele \<Rightarrow> dpasc_out \<Rightarrow> dpaio_stm \<Rightarrow> machine \<Rightarrow> stm_result" where
  "dpaio_write_must_post tls e out0 stm0 m0 = do {
     (m, stm, out, r) \<leftarrow> stm_post tls e 1 out0 stm0 m0;
     if r \<le> 0 then Some (m, stm, out, if tot stm > 0 then tot stm else r)
     else do {
       t \<leftarrow> chk_int (tot stm + r);
       let stm = set_total t stm;
       (m, _) \<leftarrow> buf_seek dpbuf_rseek m (stm_buf stm) r SEEK_CUR;
       if t \<ge> io_len (stm_io stm) then Some (m, stm, out, t)
       else do {
         p \<leftarrow> io_ptr (stm_io stm);
         n \<leftarrow> chk_int (io_len (stm_io stm) - r);
         Some (m, aim (Some (padd p r)) n stm, rewant e DPEVT_OUT out, DPE_WAIT)
       }
     }
   }"

section \<open>Reading up to a delimiter\<close>

definition dpaio_read_until_prep ::
  "'d tls_ascs \<Rightarrow> 'd dpele \<Rightarrow> va_list \<Rightarrow> dpasc_out \<Rightarrow> dpaio_stm \<Rightarrow> machine \<Rightarrow> stm_result" where
  "dpaio_read_until_prep tls e va0 out0 stm0 m0 = do {
     (until, va) \<leftarrow> va_ptr va0;
     (n, va) \<leftarrow> va_int va;
     let stm1 = stm0\<lparr>stm_until := until, stm_until_len := n\<rparr>;
     case until of None \<Rightarrow> Some (m0, stm1, out0, DPE_INVAL)
     | Some pat \<Rightarrow>
       if n < 1 then Some (m0, stm1, out0, DPE_INVAL)
       else do {
         (m, stm, out, r) \<leftarrow> stm_begin tls e 0 va out0 stm1 m0;
         if r \<noteq> DPE_CONTINUE then Some (m, stm, out, r)
         else do {
           b \<leftarrow> buf_get m (stm_buf stm);
           (m, hit, flag) \<leftarrow>
             (if dpbuf_cesize b > 0 then do {
                (m, _) \<leftarrow> buf_seek dpbuf_eseek m (stm_buf stm) 0 SEEK_END;
                idx \<leftarrow> buf_cfind m (stm_buf stm) pat n 0;
                if idx \<ge> 0 then do {
                  k \<leftarrow> chk_int (idx + n);
                  (m, _) \<leftarrow> buf_seek dpbuf_eseek m (stm_buf stm) k SEEK_SET;
                  Some (m, Some k, 0)
                }
                else do {
                  b \<leftarrow> buf_get m (stm_buf stm);
                  Some (m, None, dpbuf_crsize b)
                }
              }
              else Some (m, None, 0));
           case hit of Some k \<Rightarrow> Some (m, stm, out, k)
           | None \<Rightarrow> do {
               let stm = stm\<lparr>stm_io := (stm_io stm)\<lparr>io_flag := flag\<rparr>\<rparr>;
               (m, ok) \<leftarrow> buf_resizew m (stm_buf stm) (batch (stm_len stm));
               if \<not> ok then Some (m, stm, out, DPE_NOMEM)
               else do {
                 b \<leftarrow> buf_get m (stm_buf stm);
                 p \<leftarrow> buf_cwdata m (stm_buf stm);
                 Some (m, aim (Some p) (dpbuf_cwsize b) stm, out, r)
               }
             }
         }
       }
   }"

definition dpaio_read_until_post ::
  "'d tls_ascs \<Rightarrow> 'd dpele \<Rightarrow> dpasc_out \<Rightarrow> dpaio_stm \<Rightarrow> machine \<Rightarrow> stm_result" where
  "dpaio_read_until_post tls e out0 stm0 m0 = do {
     (m, stm, out, r) \<leftarrow> stm_post tls e 0 out0 stm0 m0;
     if r \<le> 0 then Some (m, stm, out, if tot stm > 0 then tot stm else r)
     else do {
       t \<leftarrow> chk_int (tot stm + r);
       let stm = set_total t stm;
       (m, _) \<leftarrow> buf_seek dpbuf_wseek m (stm_buf stm) r SEEK_CUR;
       (m, _) \<leftarrow> buf_seek dpbuf_eseek m (stm_buf stm) 0 SEEK_END;
       left \<leftarrow> chk_int (io_flag (stm_io stm) - stm_until_len stm + 1);
       let left = (if left < 0 then 0 else left);
       pat \<leftarrow> stm_until stm;
       idx \<leftarrow> buf_cfind m (stm_buf stm) pat (stm_until_len stm) left;
       if idx \<ge> 0 then do {
         k \<leftarrow> chk_int (idx + stm_until_len stm);
         (m, _) \<leftarrow> buf_seek dpbuf_eseek m (stm_buf stm) k SEEK_SET;
         Some (m, stm, out, k)
       }
       else do {
         let stm = stm\<lparr>stm_io := (stm_io stm)\<lparr>io_flag := t\<rparr>\<rparr>;
         if t \<ge> stm_len stm then Some (m, stm, out, DPE_CONTINUE)
         else do {
           (m, ok) \<leftarrow> buf_resizew m (stm_buf stm) (batch (stm_len stm - t));
           if \<not> ok then Some (m, stm, out, if t > 0 then t else DPE_NOMEM)
           else do {
             b \<leftarrow> buf_get m (stm_buf stm);
             p \<leftarrow> buf_cwdata m (stm_buf stm);
             Some (m, aim (Some p) (dpbuf_cwsize b) stm, rewant e DPEVT_IN out, DPE_WAIT)
           }
         }
       }
     }
   }"

section \<open>Raw memory\<close>

definition dpaio_read_data_prep ::
  "'d tls_ascs \<Rightarrow> 'd dpele \<Rightarrow> va_list \<Rightarrow> dpasc_out \<Rightarrow> dpaio_stm \<Rightarrow> machine \<Rightarrow> stm_result" where
  "dpaio_read_data_prep tls e va out stm0 m0 = do {
     (m, stm, out, r) \<leftarrow> stm_begin tls e 0 va out stm0 m0;
     Some (m, if r \<noteq> DPE_CONTINUE then stm else stm\<lparr>stm_buf := None\<rparr>, out, r)
   }"

definition dpaio_read_data_post ::
  "'d tls_ascs \<Rightarrow> 'd dpele \<Rightarrow> dpasc_out \<Rightarrow> dpaio_stm \<Rightarrow> machine \<Rightarrow> stm_result" where
  "dpaio_read_data_post tls e out0 stm0 m0 = do {
     (m, stm, out, r) \<leftarrow> stm_post tls e 0 out0 stm0 m0;
     if r \<le> 0 then Some (m, stm, out, if tot stm > 0 then tot stm else r)
     else do {
       t \<leftarrow> chk_int (tot stm + r);
       let stm = set_total t stm;
       if t \<ge> stm_len stm then Some (m, stm, out, t)
       else do {
         p \<leftarrow> io_ptr (stm_io stm);
         n \<leftarrow> chk_int (io_len (stm_io stm) - r);
         Some (m, aim (Some (padd p r)) n stm, rewant e DPEVT_IN out, DPE_WAIT)
       }
     }
   }"

definition dpaio_write_data_prep ::
  "'d tls_ascs \<Rightarrow> 'd dpele \<Rightarrow> va_list \<Rightarrow> dpasc_out \<Rightarrow> dpaio_stm \<Rightarrow> machine \<Rightarrow> stm_result" where
  "dpaio_write_data_prep tls e va out stm0 m0 = do {
     (m, stm, out, r) \<leftarrow> stm_begin tls e 1 va out stm0 m0;
     Some (m, if r \<noteq> DPE_CONTINUE then stm else stm\<lparr>stm_buf := None\<rparr>, out, r)
   }"

definition dpaio_write_data_post ::
  "'d tls_ascs \<Rightarrow> 'd dpele \<Rightarrow> dpasc_out \<Rightarrow> dpaio_stm \<Rightarrow> machine \<Rightarrow> stm_result" where
  "dpaio_write_data_post tls e out0 stm0 m0 = do {
     (m, stm, out, r) \<leftarrow> stm_post tls e 1 out0 stm0 m0;
     if r \<le> 0 then Some (m, stm, out, if tot stm > 0 then tot stm else r)
     else do {
       t \<leftarrow> chk_int (tot stm + r);
       let stm = set_total t stm;
       if t \<ge> stm_len stm then Some (m, stm, out, t)
       else do {
         p \<leftarrow> io_ptr (stm_io stm);
         n \<leftarrow> chk_int (io_len (stm_io stm) - r);
         Some (m, aim (Some (padd p r)) n stm, rewant e DPEVT_OUT out, DPE_WAIT)
       }
     }
   }"

end
