(* ===== verification/Dpasc_Run.thy ===== *)
theory Dpasc_Run
  imports Dpasc_Stm
begin

text \<open>
  Runs of \<open>dpaio_read_data\<close> and \<open>dpaio_write_data\<close> on descriptors and sockets.  Between the posts of
  an operation anything may arrive on the descriptor, and the rest of the process may change as long
  as it leaves the caller's memory alone.  The ghost argument \<open>h\<close> of a reading run is all the
  stream has carried since the operation began.
\<close>

section \<open>One step of the sub-operation\<close>

definition plain_io :: "'d dpele \<Rightarrow> bool" where
  "plain_io e \<longleftrightarrow> ty_iotype (etype e) = DPAIO_TYPE_GFD \<or> ty_iotype (etype e) = DPAIO_TYPE_SKT"

lemma plain_read:
  assumes "plain_io e" "has_room (fd e) io m" "0 < io_len io" "io_len io \<le> INT_MAX" "io_flag io = 0"
  shows "\<exists>sub m' out' r k. dpaio_get_asc tls e 0 = Some sub \<and> sub_post sub e out io m = Some (m', io, out', r) \<and>
    has_room (fd e) io m' \<and> 0 \<le> k \<and> k \<le> io_len io \<and> read_moved (fd e) io 0 k m m' \<and>
    out_want out' = out_want out \<and>
    (r = k \<and> 0 < k \<and> out_inva out' = (if k < io_len io then out_want out else out_inva out) \<or>
     r = DPE_EOF \<and> out_inva out' = out_want out \<and> k < io_len io \<or>
     r < 0 \<and> k = 0 \<and> r = - kerrno m' \<and> out_inva out' = out_want out)"
proof (cases "ty_iotype (etype e) = DPAIO_TYPE_GFD")
  case True
  with rd.buf_post_returns [of e io m out] assms show ?thesis
    by (fastforce simp: dpaio_get_asc_def dpgfd_read_post_def)
next
  case False
  with rc.buf_post_returns [of e io m out] assms show ?thesis
    by (fastforce simp: dpaio_get_asc_def dpskt_recv_post_def recv_room_def plain_io_def)
qed

lemma plain_write:
  assumes "plain_io e" "has_room (fd e) io m" "0 < io_len io" "io_len io \<le> INT_MAX"
  shows "\<exists>sub m' out' r k. dpaio_get_asc tls e 1 = Some sub \<and> sub_post sub e out io m = Some (m', io, out', r) \<and>
    has_room (fd e) io m' \<and> 0 \<le> k \<and> k \<le> io_len io \<and> write_moved (fd e) io 0 k m m' \<and>
    out_want out' = out_want out \<and>
    (r = k \<and> 0 < k \<and> out_inva out' = (if k < io_len io then out_want out else out_inva out) \<or>
     r = DPE_EOF \<and> out_inva out' = out_want out \<and> k < io_len io \<or>
     r < 0 \<and> k = 0 \<and> r = - kerrno m' \<and> out_inva out' = out_want out)"
proof (cases "ty_iotype (etype e) = DPAIO_TYPE_GFD")
  case True
  with wr.buf_post_returns [of e io m out] assms show ?thesis
    by (fastforce simp: dpaio_get_asc_def dpgfd_write_post_def)
next
  case False
  with sd.buf_post_returns [of e io m out] assms show ?thesis
    by (fastforce simp: dpaio_get_asc_def dpskt_send_post_def plain_io_def)
qed

section \<open>Reading\<close>

inductive read_run ::
  "'d tls_ascs \<Rightarrow> 'd dpele \<Rightarrow> ptr \<Rightarrow> int \<Rightarrow> byte list \<Rightarrow> machine \<Rightarrow> dpaio_stm \<Rightarrow> bool"
  for tls e p n where
  start: "dpaio_read_data_prep tls e [Vptr (Some p), Vint n] out0 stm0 m0 = Some (m, stm, out, DPE_CONTINUE) \<Longrightarrow>
    mload m p n = Some old \<Longrightarrow> n \<le> INT_MAX \<Longrightarrow> errors_positive m (fd e) \<Longrightarrow>
    read_run tls e p n (rx_bytes (rxq m (fd e))) m stm"
| arrive: "read_run tls e p n h m stm \<Longrightarrow> region m' p = region m p \<Longrightarrow> rxq m' (fd e) = rxq m (fd e) @ q \<Longrightarrow>
    errors_positive m' (fd e) \<Longrightarrow> read_run tls e p n (h @ rx_bytes q) m' stm"
| wait: "read_run tls e p n h m stm \<Longrightarrow>
    dpaio_read_data_post tls e out stm m = Some (m', stm', out', DPE_WAIT) \<Longrightarrow> read_run tls e p n h m' stm'"

text \<open>What has been read so far lies in front of the pointer, and the rest is still to come.\<close>

definition read_inv :: "int \<Rightarrow> ptr \<Rightarrow> int \<Rightarrow> byte list \<Rightarrow> machine \<Rightarrow> dpaio_stm \<Rightarrow> int \<Rightarrow> bool" where
  "read_inv f p n h m stm k \<longleftrightarrow>
     0 \<le> k \<and> k < n \<and> n \<le> INT_MAX \<and> stm_len stm = n \<and> tot stm = k \<and>
     io_ptr (stm_io stm) = Some (padd p k) \<and> io_len (stm_io stm) = n - k \<and> io_flag (stm_io stm) = 0 \<and>
     (\<exists>off bs xs. region m p = Some (off, bs) \<and> 0 \<le> off \<and> off + n \<le> int (length bs) \<and>
        xs = seg off (off + k) bs \<and> h = xs @ rx_bytes (rxq m f)) \<and>
     errors_positive m f"

lemma read_inv_room: "read_inv f p n h m stm k \<Longrightarrow> has_room f (stm_io stm) m"
  by (auto simp: read_inv_def has_room_def mload_Some_iff region_padd)

lemma read_inv_arrive:
  assumes "read_inv f p n h m stm k" "region m' p = region m p" "rxq m' f = rxq m f @ q" "errors_positive m' f"
  shows "read_inv f p n (h @ rx_bytes q) m' stm k"
proof -
  have "rx_bytes (rxq m' f) = rx_bytes (rxq m f) @ rx_bytes q" using assms(3) by (simp add: rx_bytes_def)
  then show ?thesis using assms by (auto simp: read_inv_def)
qed

text \<open>A read of \<open>j\<close> more bytes at the pointer.\<close>

lemma read_inv_moved:
  assumes inv: "read_inv f p n h m stm k" and mv: "read_moved f (stm_io stm) 0 j m m'" and j: "j \<le> n - k"
  shows "\<exists>off bs. region m' p = Some (off, bs) \<and> 0 \<le> off \<and> off + n \<le> int (length bs) \<and>
    h = seg off (off + (k + j)) bs @ rx_bytes (rxq m' f) \<and> 0 \<le> j"
proof -
  obtain off b0 where r: "region m p = Some (off, b0)" "0 \<le> off" "off + n \<le> int (length b0)"
    "h = seg off (off + k) b0 @ rx_bytes (rxq m f)" and k: "0 \<le> k" "k < n"
    and ptr: "io_ptr (stm_io stm) = Some (padd p k)"
    using inv by (auto simp: read_inv_def)
  obtain ys where ys: "int (length ys) = j" "rx_bytes (rxq m f) = ys @ rx_bytes (rxq m' f)"
    "region m' (padd p k) = Some (off + k, poke (nat (off + k)) ys b0)"
    using mv ptr r(1) by (auto simp: read_moved_def region_padd)
  let ?bs = "poke (nat (off + k)) ys b0"
  have reg: "region m' p = Some (off, ?bs)" using ys(3) by (auto simp: region_padd)
  have fit: "off + k + int (length ys) \<le> int (length b0)" using ys(1) j r(3) by linarith
  have len: "length ?bs = length b0" using fit r(2) k by (intro length_poke) linarith
  have "seg off (off + k) ?bs = seg off (off + k) b0"
    using fit r(2) k by (intro seg_poke_before) linarith+
  moreover have "seg (off + k) (off + k + j) ?bs = ys"
    using fit r(2) k ys(1) len by (intro seg_poke_same) linarith+
  moreover have "seg off (off + k) ?bs @ seg (off + k) (off + k + j) ?bs = seg off (off + k + j) ?bs"
    using r(2) k ys(1) by (intro seg_append) linarith+
  ultimately show ?thesis using reg r(2-4) ys(1,2) len by (auto simp: add.assoc)
qed

text \<open>A post in such a state returns, and keeps the state when it asks to wait.\<close>

lemma read_post_cases:
  assumes io: "plain_io e" and inv: "read_inv (fd e) p n h m stm k"
  shows "\<exists>m' stm' out' r j. dpaio_read_data_post tls e out stm m = Some (m', stm', out', r) \<and>
    (if r = DPE_WAIT \<and> stm' \<noteq> stm then read_inv (fd e) p n h m' stm' j \<and> k < j
     else if r = DPE_WAIT then k = 0 \<and> read_inv (fd e) p n h m' stm 0
     else if r > 0 then 0 < r \<and> r \<le> n \<and> mload m' p r = Some (take (nat r) h) \<and>
       (r < n \<longrightarrow> out_inva out' = out_want out)
     else k = 0 \<and> (r = DPE_EOF \<or> r = - kerrno m'))"
proof -
  have k: "0 \<le> k" "k < n" "n \<le> INT_MAX" "stm_len stm = n" "tot stm = k" "io_len (stm_io stm) = n - k"
    "io_flag (stm_io stm) = 0" "io_ptr (stm_io stm) = Some (padd p k)"
    using inv by (auto simp: read_inv_def)
  have len: "0 < io_len (stm_io stm)" "io_len (stm_io stm) \<le> INT_MAX" using k by auto
  obtain sub m' out' r j where s: "dpaio_get_asc tls e 0 = Some sub"
    "sub_post sub e out (stm_io stm) m = Some (m', stm_io stm, out', r)"
    "has_room (fd e) (stm_io stm) m'" "0 \<le> j" "j \<le> io_len (stm_io stm)" "read_moved (fd e) (stm_io stm) 0 j m m'"
    "out_want out' = out_want out"
    and r: "r = j \<and> 0 < j \<and> out_inva out' = (if j < io_len (stm_io stm) then out_want out else out_inva out) \<or>
      r = DPE_EOF \<and> out_inva out' = out_want out \<and> j < io_len (stm_io stm) \<or>
      r < 0 \<and> j = 0 \<and> r = - kerrno m' \<and> out_inva out' = out_want out"
    using plain_read [OF io read_inv_room [OF inv] len k(7), of tls out] by blast
  obtain off bs where b: "region m' p = Some (off, bs)" "0 \<le> off" "off + n \<le> int (length bs)"
    "h = seg off (off + (k + j)) bs @ rx_bytes (rxq m' (fd e))"
    using read_inv_moved [OF inv s(6)] s(5) k(6) by auto
  have ep: "errors_positive m' (fd e)" using s(3) by (simp add: has_room_def)
  have bytes: "mload m' p i = Some (take (nat i) h)" if "0 \<le> i" "i \<le> k + j" for i
  proof -
    have "length (seg off (off + (k + j)) bs) = nat (k + j)" using b(2,3) k s(4,5) by simp
    then have "take (nat i) h = seg off (off + i) bs"
      using b(2,4) that by (simp add: take_seg)
    then show ?thesis using b(1-3) that k(2,6) s(5) by (simp add: mload_Some_iff)
  qed
  have post: "stm_post tls e 0 out stm m = Some (m', stm, out', r)" using s(1,2) by (simp add: stm_post_def)
  consider (some) "r = j" "0 < j" | (none) "r < 0" using r by auto
  then show ?thesis
  proof cases
    case some
    let ?stm = "set_total (k + j) stm"
    show ?thesis
    proof (cases "k + j = n")
      case True
      then have "dpaio_read_data_post tls e out stm m = Some (m', ?stm, out', n)"
        using post some k by (simp add: dpaio_read_data_post_def Let_def)
      then show ?thesis using True some bytes [of n] k by auto
    next
      case False
      let ?stm2 = "aim (Some (padd (padd p k) j)) (n - k - j) ?stm"
      let ?out = "rewant e DPEVT_IN out'"
      have res: "dpaio_read_data_post tls e out stm m = Some (m', ?stm2, ?out, DPE_WAIT)"
        using post some k s(5) False
        by (simp add: dpaio_read_data_post_def Let_def set_total_def)
      have "?stm2 \<noteq> stm"
      proof
        assume "?stm2 = stm"
        then have "tot ?stm2 = k" using k(5) by simp
        then show False using some by simp
      qed
      moreover have "read_inv (fd e) p n h m' ?stm2 (k + j)"
        using b ep k s(5) some False by (auto simp: read_inv_def aim_def set_total_def)
      ultimately show ?thesis using res some by (intro exI [of _ m'] exI [of _ ?stm2] exI [of _ ?out]
            exI [of _ "DPE_WAIT"] exI [of _ "k + j"]) simp
    qed
  next
    case none
    then have res: "dpaio_read_data_post tls e out stm m = Some (m', stm, out', if k > 0 then k else r)"
      using post k by (simp add: dpaio_read_data_post_def)
    have inva: "out_inva out' = out_want out" using r none by auto
    show ?thesis
    proof (cases "k > 0")
      case True
      then show ?thesis using res inva bytes [of k] k s(4) by auto
    next
      case False
      then have "k = 0" using k by simp
      moreover have "read_inv (fd e) p n h m' stm 0" if "r = DPE_WAIT"
      proof -
        have "j = 0" using r none that by auto
        then show ?thesis using b ep k \<open>k = 0\<close> by (auto simp: read_inv_def)
      qed
      ultimately show ?thesis using res r none by auto
    qed
  qed
qed

lemma plain_begin:
  assumes "plain_io e"
    and "stm_begin tls e idx [Vptr (Some p), Vint n] out0 stm0 m0 = Some (m, stm, out, DPE_CONTINUE)"
  shows "m = m0 \<and> 0 < n \<and> stm_len stm = n \<and> tot stm = 0 \<and> io_ptr (stm_io stm) = Some p \<and>
    io_len (stm_io stm) = n \<and> io_flag (stm_io stm) = 0"
  using assms
  by (auto simp: stm_begin_def dpaio_get_asc_def plain_io_def bind_eq_Some_conv dpgfd_read_prep_def
      dpgfd_write_prep_def dpskt_recv2_prep_def dpskt_send2_prep_def split: if_splits)

lemma read_run_inv:
  assumes "read_run tls e p n h m stm" "plain_io e"
  shows "\<exists>k. read_inv (fd e) p n h m stm k"
  using assms(1)
proof induction
  case (start out0 stm0 m0 m stm out old)
  then obtain stm1 where b: "stm_begin tls e 0 [Vptr (Some p), Vint n] out0 stm0 m0 = Some (m, stm1, out, DPE_CONTINUE)"
    "stm = stm1\<lparr>stm_buf := None\<rparr>"
    by (auto simp: dpaio_read_data_prep_def bind_eq_Some_conv)
  from plain_begin [OF assms(2) b(1)] start(2-4) b(2) have "read_inv (fd e) p n (rx_bytes (rxq m (fd e))) m stm 0"
    by (auto simp: read_inv_def mload_Some_iff)
  then show ?case ..
next
  case (arrive h m stm m' q)
  then show ?case using read_inv_arrive by blast
next
  case (wait h m stm out m' stm' out')
  then obtain k where "read_inv (fd e) p n h m stm k" by blast
  from read_post_cases [OF assms(2) this, of tls out] wait(2) show ?case
    by (auto split: if_splits)
qed

section \<open>Writing\<close>

inductive write_run ::
  "'d tls_ascs \<Rightarrow> 'd dpele \<Rightarrow> ptr \<Rightarrow> int \<Rightarrow> byte list \<Rightarrow> byte list \<Rightarrow> machine \<Rightarrow> dpaio_stm \<Rightarrow> bool"
  for tls e p n data where
  start: "dpaio_write_data_prep tls e [Vptr (Some p), Vint n] out0 stm0 m0 = Some (m, stm, out, DPE_CONTINUE) \<Longrightarrow>
    mload m p n = Some data \<Longrightarrow> n \<le> INT_MAX \<Longrightarrow> errors_positive m (fd e) \<Longrightarrow>
    write_run tls e p n data (sent m (fd e)) m stm"
| room: "write_run tls e p n data s m stm \<Longrightarrow> region m' p = region m p \<Longrightarrow> sent m' (fd e) = sent m (fd e) \<Longrightarrow>
    errors_positive m' (fd e) \<Longrightarrow> write_run tls e p n data s m' stm"
| wait: "write_run tls e p n data s m stm \<Longrightarrow>
    dpaio_write_data_post tls e out stm m = Some (m', stm', out', DPE_WAIT) \<Longrightarrow> write_run tls e p n data s m' stm'"

definition write_inv :: "int \<Rightarrow> ptr \<Rightarrow> int \<Rightarrow> byte list \<Rightarrow> byte list \<Rightarrow> machine \<Rightarrow> dpaio_stm \<Rightarrow> int \<Rightarrow> bool" where
  "write_inv f p n data s m stm k \<longleftrightarrow>
     0 \<le> k \<and> k < n \<and> n \<le> INT_MAX \<and> stm_len stm = n \<and> tot stm = k \<and>
     io_ptr (stm_io stm) = Some (padd p k) \<and> io_len (stm_io stm) = n - k \<and>
     mload m p n = Some data \<and> sent m f = s @ take (nat k) data \<and> errors_positive m f"

lemma write_inv_room: "write_inv f p n data s m stm k \<Longrightarrow> has_room f (stm_io stm) m"
  using mload_suffix [of m p n data k] by (auto simp: write_inv_def has_room_def)

lemma write_inv_moved:
  assumes inv: "write_inv f p n data s m stm k" and mv: "write_moved f (stm_io stm) 0 j m m'"
    and j: "0 \<le> j" "j \<le> n - k"
  shows "mload m' p n = Some data \<and> sent m' f = s @ take (nat (k + j)) data"
proof -
  have k: "0 \<le> k" "k < n" "mload m p n = Some data" "sent m f = s @ take (nat k) data"
    "io_ptr (stm_io stm) = Some (padd p k)"
    using inv by (auto simp: write_inv_def)
  obtain bs where bs: "mload m (padd p k) j = Some bs" "sent m' f = sent m f @ bs"
    "objs m' = objs m" "bstore m' = bstore m"
    using mv k(5) by (auto simp: write_moved_def)
  have "mload m p (k + j) = Some (take (nat k) data @ bs)"
    using mload_append [OF mload_prefix [OF k(3,1)] bs(1)] k(2) by simp
  moreover have "mload m p (k + j) = Some (take (nat (k + j)) data)"
    using mload_prefix [OF k(3), of "k + j"] k(1) j by simp
  ultimately show ?thesis using bs k mload_same [OF bs(3,4)] by simp
qed

lemma write_post_cases:
  assumes io: "plain_io e" and inv: "write_inv (fd e) p n data s m stm k"
  shows "\<exists>m' stm' out' r j. dpaio_write_data_post tls e out stm m = Some (m', stm', out', r) \<and>
    (if r = DPE_WAIT \<and> stm' \<noteq> stm then write_inv (fd e) p n data s m' stm' j \<and> k < j
     else if r = DPE_WAIT then k = 0 \<and> write_inv (fd e) p n data s m' stm 0
     else r \<le> j \<and> j \<le> n \<and> sent m' (fd e) = s @ take (nat j) data \<and>
       (if r > 0 then r < n \<longrightarrow> out_inva out' = out_want out
        else k = 0 \<and> (r = DPE_EOF \<or> r = - kerrno m' \<and> j = 0)))"
proof -
  have k: "0 \<le> k" "k < n" "n \<le> INT_MAX" "stm_len stm = n" "tot stm = k" "io_len (stm_io stm) = n - k"
    "io_ptr (stm_io stm) = Some (padd p k)"
    using inv by (auto simp: write_inv_def)
  have len: "0 < io_len (stm_io stm)" "io_len (stm_io stm) \<le> INT_MAX" using k by auto
  obtain sub m' out' r j where w: "dpaio_get_asc tls e 1 = Some sub"
    "sub_post sub e out (stm_io stm) m = Some (m', stm_io stm, out', r)"
    "has_room (fd e) (stm_io stm) m'" "0 \<le> j" "j \<le> io_len (stm_io stm)" "write_moved (fd e) (stm_io stm) 0 j m m'"
    "out_want out' = out_want out"
    and r: "r = j \<and> 0 < j \<and> out_inva out' = (if j < io_len (stm_io stm) then out_want out else out_inva out) \<or>
      r = DPE_EOF \<and> out_inva out' = out_want out \<and> j < io_len (stm_io stm) \<or>
      r < 0 \<and> j = 0 \<and> r = - kerrno m' \<and> out_inva out' = out_want out"
    using plain_write [OF io write_inv_room [OF inv] len, of tls out] by blast
  have mv: "mload m' p n = Some data" "sent m' (fd e) = s @ take (nat (k + j)) data"
    using write_inv_moved [OF inv w(6,4)] w(5) k(6) by auto
  have ep: "errors_positive m' (fd e)" using w(3) by (simp add: has_room_def)
  have post: "stm_post tls e 1 out stm m = Some (m', stm, out', r)" using w(1,2) by (simp add: stm_post_def)
  consider (some) "r = j" "0 < j" | (none) "r < 0" using r by auto
  then show ?thesis
  proof cases
    case some
    let ?stm = "set_total (k + j) stm"
    show ?thesis
    proof (cases "k + j = n")
      case True
      then have "dpaio_write_data_post tls e out stm m = Some (m', ?stm, out', n)"
        using post some k by (simp add: dpaio_write_data_post_def Let_def)
      then show ?thesis using True some mv k by (intro exI [of _ m'] exI [of _ ?stm] exI [of _ out']
            exI [of _ n]) auto
    next
      case False
      let ?stm2 = "aim (Some (padd (padd p k) j)) (n - k - j) ?stm"
      let ?out = "rewant e DPEVT_OUT out'"
      have res: "dpaio_write_data_post tls e out stm m = Some (m', ?stm2, ?out, DPE_WAIT)"
        using post some k w(5) False
        by (simp add: dpaio_write_data_post_def Let_def set_total_def)
      have "?stm2 \<noteq> stm"
      proof
        assume "?stm2 = stm"
        then have "tot ?stm2 = k" using k(5) by simp
        then show False using some by simp
      qed
      moreover have "write_inv (fd e) p n data s m' ?stm2 (k + j)"
        using mv ep k w(5) some False by (auto simp: write_inv_def aim_def set_total_def)
      ultimately show ?thesis using res some by (intro exI [of _ m'] exI [of _ ?stm2] exI [of _ ?out]
            exI [of _ "DPE_WAIT"] exI [of _ "k + j"]) simp
    qed
  next
    case none
    then have res: "dpaio_write_data_post tls e out stm m = Some (m', stm, out', if k > 0 then k else r)"
      using post k by (simp add: dpaio_write_data_post_def)
    have inva: "out_inva out' = out_want out" using r none by auto
    show ?thesis
    proof (cases "k > 0")
      case True
      then show ?thesis using res inva mv k w(4,5) by (intro exI [of _ m'] exI [of _ stm] exI [of _ out']
            exI [of _ k] exI [of _ "k + j"]) auto
    next
      case False
      then have "k = 0" using k by simp
      moreover have "write_inv (fd e) p n data s m' stm 0" if "r = DPE_WAIT"
      proof -
        have "j = 0" using r none that by auto
        then show ?thesis using mv ep k \<open>k = 0\<close> by (auto simp: write_inv_def)
      qed
      ultimately show ?thesis using res r none mv w(4,5) k by (intro exI [of _ m'] exI [of _ stm] exI [of _ out']
            exI [of _ r] exI [of _ j]) auto
    qed
  qed
qed

lemma write_run_inv:
  assumes "write_run tls e p n data s m stm" "plain_io e"
  shows "\<exists>k. write_inv (fd e) p n data s m stm k"
  using assms(1)
proof induction
  case (start out0 stm0 m0 m stm out)
  then obtain stm1 where b: "stm_begin tls e 1 [Vptr (Some p), Vint n] out0 stm0 m0 = Some (m, stm1, out, DPE_CONTINUE)"
    "stm = stm1\<lparr>stm_buf := None\<rparr>"
    by (auto simp: dpaio_write_data_prep_def bind_eq_Some_conv)
  from plain_begin [OF assms(2) b(1)] start(2-4) b(2) have "write_inv (fd e) p n data (sent m (fd e)) m stm 0"
    by (auto simp: write_inv_def)
  then show ?case ..
next
  case (room s m stm m')
  then show ?case using mload_region [of m' p m n] by (auto simp: write_inv_def)
next
  case (wait s m stm out m' stm' out')
  then obtain k where "write_inv (fd e) p n data s m stm k" by blast
  from write_post_cases [OF assms(2) this, of tls out] wait(2) show ?case
    by (auto split: if_splits)
qed

end
