(* ===== verification/Dpasc_Syc.thy ===== *)
theory Dpasc_Syc
  imports Dpasc_Gfd
begin

text \<open>
  The operations of \<^verbatim>\<open>dpasc_epoll.c\<close> that carry a system call.  The control operations on a
  descriptor make it in their prep function.  A \<open>dpsyc_\<close> operation belongs to a cross-thread call: its
  prep runs on the thread that submits and keeps the arguments in the scratch record
  \<open>dpsyc_arg\<close>, its post runs on the thread the call is sent to and makes the system call from that
  record.  The Linux branches of the conditional compilation are modelled.
\<close>

abbreviation (input) AT_FDCWD :: int where "AT_FDCWD \<equiv> - 100"
abbreviation (input) EINPROGRESS :: int where "EINPROGRESS \<equiv> 115"

section \<open>Results\<close>

definition dpsyc_ret_fd :: "machine \<times> int \<Rightarrow> machine \<times> dpret" where
  "dpsyc_ret_fd = (\<lambda>(m, r). (m, if r \<ge> 0 then r else - kerrno m))"

definition dpsyc_ret_ok :: "machine \<times> int \<Rightarrow> machine \<times> dpret" where
  "dpsyc_ret_ok = (\<lambda>(m, r). (m, if r = 0 then DPE_OK else - kerrno m))"

section \<open>Control operations on a descriptor\<close>

type_synonym 'd ctl_prep = "'d dpele \<Rightarrow> va_list \<Rightarrow> machine \<Rightarrow> (machine \<times> dpret) option"

definition dpefd_fsync_prep :: "'d ctl_prep" where
  "dpefd_fsync_prep e va m = do {
     (flags, _) \<leftarrow> va_int va;
     Some (dpsyc_ret_ok (sys_call (if flags AND 1 \<noteq> 0 then Sys_fdatasync (fd e) else Sys_fsync (fd e)) m))
   }"

definition dpskt_shutdown_prep :: "'d ctl_prep" where
  "dpskt_shutdown_prep e va m = do {
     (how, _) \<leftarrow> va_int va;
     Some (dpsyc_ret_ok (sys_call (Sys_shutdown (fd e) how) m))
   }"

definition dpefd_fallocate_prep :: "'d ctl_prep" where
  "dpefd_fallocate_prep e va m = do {
     (mode, va) \<leftarrow> va_int va;
     (offset, va) \<leftarrow> va_w64 va;
     (len, _) \<leftarrow> va_w64 va;
     Some (dpsyc_ret_ok (sys_call (Sys_fallocate (fd e) mode offset len) m))
   }"

text \<open>The length is a \<open>long\<close>.\<close>

definition dpefd_fadvise_prep :: "'d ctl_prep" where
  "dpefd_fadvise_prep e va m = do {
     (offset, va) \<leftarrow> va_w64 va;
     (len, va) \<leftarrow> va_w64 va;
     (advice, _) \<leftarrow> va_int va;
     Some (dpsyc_ret_ok (sys_call (Sys_posix_fadvise (fd e) offset (sint len) advice) m))
   }"

definition dpefd_sync_file_range_prep :: "'d ctl_prep" where
  "dpefd_sync_file_range_prep e va m = do {
     (offset, va) \<leftarrow> va_w64 va;
     (nbytes, va) \<leftarrow> va_int va;
     (flags, _) \<leftarrow> va_int va;
     Some (dpsyc_ret_ok (sys_call (Sys_sync_file_range (fd e) offset (word_of_int nbytes) flags) m))
   }"

definition dpefd_close_prep :: "'d ctl_prep" where
  "dpefd_close_prep e va m = Some (dpsyc_ret_ok (sys_call (Sys_close (fd e)) m))"

text \<open>\<open>connect\<close> waits for the descriptor to become writable when it cannot be done at once.\<close>

definition dpskt_connect_prep ::
  "'d dpele \<Rightarrow> va_list \<Rightarrow> dpasc_out \<Rightarrow> machine \<Rightarrow> (machine \<times> dpasc_out \<times> dpret) option" where
  "dpskt_connect_prep e va out m = do {
     (addr, _) \<leftarrow> va_ptr va;
     if addr = None then Some (m, out, DPE_INVAL)
     else do {
       (_, sa) \<leftarrow> sock_at m addr;
       let (m1, r) = sys_call (Sys_connect (fd e) sa) m;
       Some (if r = 0 then (m1, out, DPE_OK)
             else if kerrno m1 = EINPROGRESS
             then (m1, out\<lparr>out_inva := DPEVT_AIO, out_want := DPEVT_OUT\<rparr>, DPE_CONTINUE)
             else (m1, out, - kerrno m1))
     }
   }"

definition dpskt_connect_post :: "'d dpele \<Rightarrow> dpasc_out \<Rightarrow> machine \<Rightarrow> (machine \<times> dpasc_out \<times> dpret) option" where
  "dpskt_connect_post e out m = Some (m, out, DPE_OK)"

section \<open>Accepting\<close>

record dpskt_acc =
  acc_addr :: "ptr option"

text \<open>\<open>sizeof\<close> of the address storage.\<close>

abbreviation (input) SOCKADDR_SIZE :: int where "SOCKADDR_SIZE \<equiv> 128"

definition dpskt_accept_prep ::
  "va_list \<Rightarrow> dpasc_out \<Rightarrow> dpskt_acc \<Rightarrow> (dpskt_acc \<times> dpasc_out \<times> dpret) option" where
  "dpskt_accept_prep va out acc = do {
     (addr, _) \<leftarrow> va_ptr va;
     Some (acc\<lparr>acc_addr := addr\<rparr>, want out DPEVT_IN, DPE_CONTINUE)
   }"

text \<open>\<open>peer\<close> is what the kernel writes to the address of a call that succeeds.\<close>

definition dpskt_accept_post ::
  "(dpsockaddr \<Rightarrow> dpsockaddr) \<Rightarrow> 'd dpele \<Rightarrow> dpasc_out \<Rightarrow> dpskt_acc \<Rightarrow> machine \<Rightarrow>
     (machine \<times> dpskt_acc \<times> dpasc_out \<times> dpret) option"
where
  "dpskt_accept_post peer e out acc m = do {
     (m1, r) \<leftarrow>
       (if acc_addr acc \<noteq> None then do {
          (a, sa) \<leftarrow> sock_at m (acc_addr acc);
          let sa1 = sa\<lparr>sa_real := SOCKADDR_SIZE\<rparr>;
          let (m1, r) = sys_call (Sys_accept (fd e) (Some sa1)) m;
          let sa2 = (if r \<ge> 0 then peer sa1 else sa1);
          Some (m1\<lparr>objs := (objs m1)(a \<mapsto> Osock sa2)\<rparr>, r)
        }
        else Some (sys_call (Sys_accept (fd e) None) m));
     Some (if r \<ge> 0 then (m1, acc, out, r)
           else (m1, acc, out\<lparr>out_inva := DPEVT_IN\<rparr>, - kerrno m1))
   }"

section \<open>Moving data between descriptors\<close>

record dpsp_tee =
  in_fd :: int
  tee_len :: int
  tee_flags :: int

definition dpgfd_splice_prep ::
  "va_list \<Rightarrow> dpasc_out \<Rightarrow> dpsp_tee \<Rightarrow> (dpsp_tee \<times> dpasc_out \<times> dpret) option" where
  "dpgfd_splice_prep va out io = do {
     (f, va) \<leftarrow> va_int va;
     (len, va) \<leftarrow> va_int va;
     (flags, _) \<leftarrow> va_int va;
     let io1 = io\<lparr>in_fd := f, tee_len := len, tee_flags := flags\<rparr>;
     Some (io1, want out DPEVT_OUT, if in_fd io1 < 0 \<or> tee_len io1 \<le> 0 then DPE_INVAL else DPE_CONTINUE)
   }"

definition dpgfd_tee_prep ::
  "va_list \<Rightarrow> dpasc_out \<Rightarrow> dpsp_tee \<Rightarrow> (dpsp_tee \<times> dpasc_out \<times> dpret) option" where
  "dpgfd_tee_prep va out io = do {
     (f, va) \<leftarrow> va_int va;
     (len, va) \<leftarrow> va_int va;
     (flags, _) \<leftarrow> va_int va;
     let io1 = io\<lparr>in_fd := f, tee_len := wrap_int len, tee_flags := wrap_int flags\<rparr>;
     Some (io1, want out DPEVT_OUT, if in_fd io1 < 0 \<or> tee_len io1 \<le> 0 then DPE_INVAL else DPE_CONTINUE)
   }"

text \<open>The two loops differ in their system call.\<close>

partial_function (option) splice_loop ::
  "(int \<Rightarrow> sysreq) \<Rightarrow> int \<Rightarrow> dpasc_out \<Rightarrow> int \<Rightarrow> machine \<Rightarrow> (machine \<times> dpasc_out \<times> dpret) option" where
  "splice_loop req len out done m =
     (let (m1, r) = sys_call (req (len - done)) m in
      if r > 0 then
        Option.bind (chk_int (done + r)) (\<lambda>done'.
          if done' = len then Some (m1, out, done') else splice_loop req len out done' m1)
      else if r = 0 then Some (m1, out, if done > 0 then done else DPE_OK)
      else Some (m1, out\<lparr>out_inva := DPEVT_OUT\<rparr>, if done > 0 then done else - kerrno m1))"

definition dpgfd_splice_post ::
  "'d dpele \<Rightarrow> dpasc_out \<Rightarrow> dpsp_tee \<Rightarrow> machine \<Rightarrow> (machine \<times> dpasc_out \<times> dpret) option" where
  "dpgfd_splice_post e out io m =
     splice_loop (\<lambda>n. Sys_splice (in_fd io) (fd e) n (tee_flags io)) (tee_len io) out 0 m"

definition dpgfd_tee_post ::
  "'d dpele \<Rightarrow> dpasc_out \<Rightarrow> dpsp_tee \<Rightarrow> machine \<Rightarrow> (machine \<times> dpasc_out \<times> dpret) option" where
  "dpgfd_tee_post e out io m =
     splice_loop (\<lambda>n. Sys_tee (in_fd io) (fd e) n (tee_flags io)) (tee_len io) out 0 m"

section \<open>Calls made on another thread\<close>

text \<open>
  The unions of the record are single fields: \<open>sy_path2\<close> is \<open>path2\<close> or \<open>name\<close>, \<open>sy_mode\<close> is \<open>mode\<close>,
  \<open>mask\<close> or \<open>advice\<close>, \<open>sy_ptr\<close> is \<open>buf\<close> or \<open>ptr\<close>.
\<close>

record dpsyc_arg =
  sy_dirfd :: int
  sy_dirfd2 :: int
  sy_fd :: int
  sy_flags :: int
  sy_len :: "64 word"
  sy_path :: "ptr option"
  sy_path2 :: "ptr option"
  sy_mode :: int
  sy_ptr :: "ptr option"

type_synonym syc_prep = "va_list \<Rightarrow> dpsyc_arg \<Rightarrow> (dpsyc_arg \<times> dpret) option"

type_synonym syc_post = "dpsyc_arg \<Rightarrow> machine \<Rightarrow> machine \<times> dpret"

definition dpsyc_madvise_prep :: syc_prep where
  "dpsyc_madvise_prep va a = do {
     (p, va) \<leftarrow> va_ptr va;
     (len, va) \<leftarrow> va_w64 va;
     (mode, _) \<leftarrow> va_int va;
     let a = a\<lparr>sy_ptr := p, sy_len := len, sy_mode := mode\<rparr>;
     Some (a, if sy_ptr a = None \<or> sy_len a = 0 then DPE_INVAL else DPE_CONTINUE)
   }"

definition dpsyc_madvise_post :: syc_post where
  "dpsyc_madvise_post a m =
     dpsyc_ret_ok (sys_call (Sys_madvise (sy_ptr a) (sy_len a) (sy_mode a)) m)"

definition dpsyc_openat_prep :: syc_prep where
  "dpsyc_openat_prep va a = do {
     (dirfd, va) \<leftarrow> va_int va;
     (path, va) \<leftarrow> va_ptr va;
     (flags, va) \<leftarrow> va_int va;
     (mode, _) \<leftarrow> va_int va;
     let a = a\<lparr>sy_dirfd := dirfd, sy_path := path, sy_flags := flags, sy_mode := wrap_int mode\<rparr>;
     Some (a, if sy_path a = None then DPE_INVAL else DPE_CONTINUE)
   }"

definition dpsyc_openat_post :: syc_post where
  "dpsyc_openat_post a m =
     dpsyc_ret_fd (sys_call (Sys_openat (sy_dirfd a) (sy_path a) (sy_flags a) (sy_mode a)) m)"

definition dpsyc_open_prep :: syc_prep where
  "dpsyc_open_prep va a = do {
     (path, va) \<leftarrow> va_ptr va;
     (flags, va) \<leftarrow> va_int va;
     (mode, _) \<leftarrow> va_int va;
     let a = a\<lparr>sy_path := path, sy_flags := flags, sy_mode := wrap_int mode\<rparr>;
     Some (a, if sy_path a = None then DPE_INVAL else DPE_CONTINUE)
   }"

definition dpsyc_open_post :: syc_post where
  "dpsyc_open_post a m =
     dpsyc_ret_fd (sys_call (Sys_openat AT_FDCWD (sy_path a) (sy_flags a) (sy_mode a)) m)"

definition dpsyc_openat2_prep :: syc_prep where
  "dpsyc_openat2_prep va a = do {
     (dirfd, va) \<leftarrow> va_int va;
     (path, va) \<leftarrow> va_ptr va;
     (p, _) \<leftarrow> va_ptr va;
     let a = a\<lparr>sy_dirfd := dirfd, sy_path := path, sy_ptr := p\<rparr>;
     Some (a, if sy_path a = None \<or> sy_ptr a = None then DPE_INVAL else DPE_CONTINUE)
   }"

definition dpsyc_openat2_post :: syc_post where
  "dpsyc_openat2_post a m =
     dpsyc_ret_fd (sys_call (Sys_openat2 (sy_dirfd a) (sy_path a) (sy_ptr a)) m)"

definition dpsyc_statx_prep :: syc_prep where
  "dpsyc_statx_prep va a = do {
     (dirfd, va) \<leftarrow> va_int va;
     (path, va) \<leftarrow> va_ptr va;
     (flags, va) \<leftarrow> va_int va;
     (mode, va) \<leftarrow> va_int va;
     (p, _) \<leftarrow> va_ptr va;
     let a = a\<lparr>sy_dirfd := dirfd, sy_path := path, sy_flags := flags, sy_mode := wrap_int mode, sy_ptr := p\<rparr>;
     Some (a, if sy_path a = None \<or> sy_ptr a = None then DPE_INVAL else DPE_CONTINUE)
   }"

definition dpsyc_statx_post :: syc_post where
  "dpsyc_statx_post a m =
     dpsyc_ret_ok (sys_call (Sys_statx (sy_dirfd a) (sy_path a) (sy_flags a) (word_of_int (sy_mode a)) (sy_ptr a)) m)"

definition dpsyc_unlinkat_prep :: syc_prep where
  "dpsyc_unlinkat_prep va a = do {
     (dirfd, va) \<leftarrow> va_int va;
     (path, va) \<leftarrow> va_ptr va;
     (flags, _) \<leftarrow> va_int va;
     let a = a\<lparr>sy_dirfd := dirfd, sy_path := path, sy_flags := flags\<rparr>;
     Some (a, if sy_path a = None then DPE_INVAL else DPE_CONTINUE)
   }"

definition dpsyc_unlinkat_post :: syc_post where
  "dpsyc_unlinkat_post a m =
     dpsyc_ret_ok (sys_call (Sys_unlinkat (sy_dirfd a) (sy_path a) (sy_flags a)) m)"

definition dpsyc_unlink_prep :: syc_prep where
  "dpsyc_unlink_prep va a = do {
     (path, va) \<leftarrow> va_ptr va;
     (flags, _) \<leftarrow> va_int va;
     let a = a\<lparr>sy_path := path, sy_flags := flags\<rparr>;
     Some (a, if sy_path a = None then DPE_INVAL else DPE_CONTINUE)
   }"

definition dpsyc_unlink_post :: syc_post where
  "dpsyc_unlink_post a m =
     dpsyc_ret_ok (sys_call (Sys_unlinkat AT_FDCWD (sy_path a) (sy_flags a)) m)"

definition dpsyc_renameat_prep :: syc_prep where
  "dpsyc_renameat_prep va a = do {
     (dirfd, va) \<leftarrow> va_int va;
     (path, va) \<leftarrow> va_ptr va;
     (dirfd2, va) \<leftarrow> va_int va;
     (path2, va) \<leftarrow> va_ptr va;
     (flags, _) \<leftarrow> va_int va;
     let a = a\<lparr>sy_dirfd := dirfd, sy_path := path, sy_dirfd2 := dirfd2, sy_path2 := path2, sy_flags := wrap_int flags\<rparr>;
     Some (a, if sy_path a = None \<or> sy_path2 a = None then DPE_INVAL else DPE_CONTINUE)
   }"

definition dpsyc_renameat_post :: syc_post where
  "dpsyc_renameat_post a m =
     dpsyc_ret_ok (sys_call (Sys_renameat2 (sy_dirfd a) (sy_path a) (sy_dirfd2 a) (sy_path2 a) (word_of_int (sy_flags a))) m)"

definition dpsyc_rename_prep :: syc_prep where
  "dpsyc_rename_prep va a = do {
     (path, va) \<leftarrow> va_ptr va;
     (path2, _) \<leftarrow> va_ptr va;
     let a = a\<lparr>sy_path := path, sy_path2 := path2\<rparr>;
     Some (a, if sy_path a = None \<or> sy_path2 a = None then DPE_INVAL else DPE_CONTINUE)
   }"

definition dpsyc_rename_post :: syc_post where
  "dpsyc_rename_post a m =
     dpsyc_ret_ok (sys_call (Sys_renameat2 AT_FDCWD (sy_path a) AT_FDCWD (sy_path2 a) 0) m)"

definition dpsyc_mkdirat_prep :: syc_prep where
  "dpsyc_mkdirat_prep va a = do {
     (dirfd, va) \<leftarrow> va_int va;
     (path, va) \<leftarrow> va_ptr va;
     (mode, _) \<leftarrow> va_int va;
     let a = a\<lparr>sy_dirfd := dirfd, sy_path := path, sy_mode := wrap_int mode\<rparr>;
     Some (a, if sy_path a = None then DPE_INVAL else DPE_CONTINUE)
   }"

definition dpsyc_mkdirat_post :: syc_post where
  "dpsyc_mkdirat_post a m =
     dpsyc_ret_ok (sys_call (Sys_mkdirat (sy_dirfd a) (sy_path a) (sy_mode a)) m)"

definition dpsyc_mkdir_prep :: syc_prep where
  "dpsyc_mkdir_prep va a = do {
     (path, va) \<leftarrow> va_ptr va;
     (mode, _) \<leftarrow> va_int va;
     let a = a\<lparr>sy_path := path, sy_mode := wrap_int mode\<rparr>;
     Some (a, if sy_path a = None then DPE_INVAL else DPE_CONTINUE)
   }"

definition dpsyc_mkdir_post :: syc_post where
  "dpsyc_mkdir_post a m =
     dpsyc_ret_ok (sys_call (Sys_mkdirat AT_FDCWD (sy_path a) (sy_mode a)) m)"

definition dpsyc_symlinkat_prep :: syc_prep where
  "dpsyc_symlinkat_prep va a = do {
     (path2, va) \<leftarrow> va_ptr va;
     (dirfd, va) \<leftarrow> va_int va;
     (path, _) \<leftarrow> va_ptr va;
     let a = a\<lparr>sy_path2 := path2, sy_dirfd := dirfd, sy_path := path\<rparr>;
     Some (a, if sy_path2 a = None \<or> sy_path a = None then DPE_INVAL else DPE_CONTINUE)
   }"

definition dpsyc_symlinkat_post :: syc_post where
  "dpsyc_symlinkat_post a m =
     dpsyc_ret_ok (sys_call (Sys_symlinkat (sy_path2 a) (sy_dirfd a) (sy_path a)) m)"

definition dpsyc_symlink_prep :: syc_prep where
  "dpsyc_symlink_prep va a = do {
     (path2, va) \<leftarrow> va_ptr va;
     (path, _) \<leftarrow> va_ptr va;
     let a = a\<lparr>sy_path2 := path2, sy_path := path\<rparr>;
     Some (a, if sy_path2 a = None \<or> sy_path a = None then DPE_INVAL else DPE_CONTINUE)
   }"

definition dpsyc_symlink_post :: syc_post where
  "dpsyc_symlink_post a m =
     dpsyc_ret_ok (sys_call (Sys_symlinkat (sy_path2 a) AT_FDCWD (sy_path a)) m)"

definition dpsyc_linkat_prep :: syc_prep where
  "dpsyc_linkat_prep va a = do {
     (dirfd, va) \<leftarrow> va_int va;
     (path, va) \<leftarrow> va_ptr va;
     (dirfd2, va) \<leftarrow> va_int va;
     (path2, va) \<leftarrow> va_ptr va;
     (flags, _) \<leftarrow> va_int va;
     let a = a\<lparr>sy_dirfd := dirfd, sy_path := path, sy_dirfd2 := dirfd2, sy_path2 := path2, sy_flags := flags\<rparr>;
     Some (a, if sy_path a = None \<or> sy_path2 a = None then DPE_INVAL else DPE_CONTINUE)
   }"

definition dpsyc_linkat_post :: syc_post where
  "dpsyc_linkat_post a m =
     dpsyc_ret_ok (sys_call (Sys_linkat (sy_dirfd a) (sy_path a) (sy_dirfd2 a) (sy_path2 a) (sy_flags a)) m)"

definition dpsyc_link_prep :: syc_prep where
  "dpsyc_link_prep va a = do {
     (path, va) \<leftarrow> va_ptr va;
     (path2, va) \<leftarrow> va_ptr va;
     (flags, _) \<leftarrow> va_int va;
     let a = a\<lparr>sy_path := path, sy_path2 := path2, sy_flags := flags\<rparr>;
     Some (a, if sy_path a = None \<or> sy_path2 a = None then DPE_INVAL else DPE_CONTINUE)
   }"

definition dpsyc_link_post :: syc_post where
  "dpsyc_link_post a m =
     dpsyc_ret_ok (sys_call (Sys_linkat AT_FDCWD (sy_path a) AT_FDCWD (sy_path2 a) (sy_flags a)) m)"

definition dpsyc_getxattr_prep :: syc_prep where
  "dpsyc_getxattr_prep va a = do {
     (path2, va) \<leftarrow> va_ptr va;
     (p, va) \<leftarrow> va_ptr va;
     (path, va) \<leftarrow> va_ptr va;
     (len, _) \<leftarrow> va_int va;
     let a = a\<lparr>sy_path2 := path2, sy_ptr := p, sy_path := path, sy_len := word_of_int (len mod 2 ^ 32)\<rparr>;
     Some (a, if sy_path2 a = None \<or> sy_path a = None then DPE_INVAL else DPE_CONTINUE)
   }"

definition dpsyc_getxattr_post :: syc_post where
  "dpsyc_getxattr_post a m =
     dpsyc_ret_fd (sys_call (Sys_getxattr (sy_path a) (sy_path2 a) (sy_ptr a) (sy_len a)) m)"

definition dpsyc_setxattr_prep :: syc_prep where
  "dpsyc_setxattr_prep va a = do {
     (path2, va) \<leftarrow> va_ptr va;
     (p, va) \<leftarrow> va_ptr va;
     (path, va) \<leftarrow> va_ptr va;
     (flags, va) \<leftarrow> va_int va;
     (len, _) \<leftarrow> va_int va;
     let a = a\<lparr>sy_path2 := path2, sy_ptr := p, sy_path := path, sy_flags := flags, sy_len := word_of_int (len mod 2 ^ 32)\<rparr>;
     Some (a, if sy_path2 a = None \<or> sy_path a = None then DPE_INVAL else DPE_CONTINUE)
   }"

definition dpsyc_setxattr_post :: syc_post where
  "dpsyc_setxattr_post a m =
     dpsyc_ret_ok (sys_call (Sys_setxattr (sy_path a) (sy_path2 a) (sy_ptr a) (sy_len a) (sy_flags a)) m)"

definition dpsyc_fgetxattr_prep :: syc_prep where
  "dpsyc_fgetxattr_prep va a = do {
     (f, va) \<leftarrow> va_int va;
     (path2, va) \<leftarrow> va_ptr va;
     (p, va) \<leftarrow> va_ptr va;
     (len, _) \<leftarrow> va_int va;
     let a = a\<lparr>sy_fd := f, sy_path2 := path2, sy_ptr := p, sy_len := word_of_int (len mod 2 ^ 32)\<rparr>;
     Some (a, if sy_path2 a = None then DPE_INVAL else DPE_CONTINUE)
   }"

definition dpsyc_fgetxattr_post :: syc_post where
  "dpsyc_fgetxattr_post a m =
     dpsyc_ret_fd (sys_call (Sys_fgetxattr (sy_fd a) (sy_path2 a) (sy_ptr a) (sy_len a)) m)"

definition dpsyc_fsetxattr_prep :: syc_prep where
  "dpsyc_fsetxattr_prep va a = do {
     (f, va) \<leftarrow> va_int va;
     (path2, va) \<leftarrow> va_ptr va;
     (p, va) \<leftarrow> va_ptr va;
     (flags, va) \<leftarrow> va_int va;
     (len, _) \<leftarrow> va_int va;
     let a = a\<lparr>sy_fd := f, sy_path2 := path2, sy_ptr := p, sy_flags := flags, sy_len := word_of_int (len mod 2 ^ 32)\<rparr>;
     Some (a, if sy_path2 a = None then DPE_INVAL else DPE_CONTINUE)
   }"

definition dpsyc_fsetxattr_post :: syc_post where
  "dpsyc_fsetxattr_post a m =
     dpsyc_ret_ok (sys_call (Sys_fsetxattr (sy_fd a) (sy_path2 a) (sy_ptr a) (sy_len a) (sy_flags a)) m)"

section \<open>What the operations are for\<close>

datatype syc_op =
  SYC_madvise | SYC_openat | SYC_open | SYC_openat2 | SYC_statx | SYC_unlinkat | SYC_unlink |
  SYC_renameat | SYC_rename | SYC_mkdirat | SYC_mkdir | SYC_symlinkat | SYC_symlink | SYC_linkat |
  SYC_link | SYC_getxattr | SYC_setxattr | SYC_fgetxattr | SYC_fsetxattr

primrec syc_prep_of :: "syc_op \<Rightarrow> syc_prep" where
  "syc_prep_of SYC_madvise = dpsyc_madvise_prep"
| "syc_prep_of SYC_openat = dpsyc_openat_prep"
| "syc_prep_of SYC_open = dpsyc_open_prep"
| "syc_prep_of SYC_openat2 = dpsyc_openat2_prep"
| "syc_prep_of SYC_statx = dpsyc_statx_prep"
| "syc_prep_of SYC_unlinkat = dpsyc_unlinkat_prep"
| "syc_prep_of SYC_unlink = dpsyc_unlink_prep"
| "syc_prep_of SYC_renameat = dpsyc_renameat_prep"
| "syc_prep_of SYC_rename = dpsyc_rename_prep"
| "syc_prep_of SYC_mkdirat = dpsyc_mkdirat_prep"
| "syc_prep_of SYC_mkdir = dpsyc_mkdir_prep"
| "syc_prep_of SYC_symlinkat = dpsyc_symlinkat_prep"
| "syc_prep_of SYC_symlink = dpsyc_symlink_prep"
| "syc_prep_of SYC_linkat = dpsyc_linkat_prep"
| "syc_prep_of SYC_link = dpsyc_link_prep"
| "syc_prep_of SYC_getxattr = dpsyc_getxattr_prep"
| "syc_prep_of SYC_setxattr = dpsyc_setxattr_prep"
| "syc_prep_of SYC_fgetxattr = dpsyc_fgetxattr_prep"
| "syc_prep_of SYC_fsetxattr = dpsyc_fsetxattr_prep"

primrec syc_post_of :: "syc_op \<Rightarrow> syc_post" where
  "syc_post_of SYC_madvise = dpsyc_madvise_post"
| "syc_post_of SYC_openat = dpsyc_openat_post"
| "syc_post_of SYC_open = dpsyc_open_post"
| "syc_post_of SYC_openat2 = dpsyc_openat2_post"
| "syc_post_of SYC_statx = dpsyc_statx_post"
| "syc_post_of SYC_unlinkat = dpsyc_unlinkat_post"
| "syc_post_of SYC_unlink = dpsyc_unlink_post"
| "syc_post_of SYC_renameat = dpsyc_renameat_post"
| "syc_post_of SYC_rename = dpsyc_rename_post"
| "syc_post_of SYC_mkdirat = dpsyc_mkdirat_post"
| "syc_post_of SYC_mkdir = dpsyc_mkdir_post"
| "syc_post_of SYC_symlinkat = dpsyc_symlinkat_post"
| "syc_post_of SYC_symlink = dpsyc_symlink_post"
| "syc_post_of SYC_linkat = dpsyc_linkat_post"
| "syc_post_of SYC_link = dpsyc_link_post"
| "syc_post_of SYC_getxattr = dpsyc_getxattr_post"
| "syc_post_of SYC_setxattr = dpsyc_setxattr_post"
| "syc_post_of SYC_fgetxattr = dpsyc_fgetxattr_post"
| "syc_post_of SYC_fsetxattr = dpsyc_fsetxattr_post"

text \<open>The request an operation stands for, read off its arguments; \<open>None\<close> when they are refused.\<close>

primrec syc_request :: "syc_op \<Rightarrow> va_list \<Rightarrow> sysreq option" where
  "syc_request SYC_madvise va =
     (case va of Vptr p # Vw64 len # Vint mode # _ \<Rightarrow>
        (if p = None \<or> len = 0 then None
         else Some (Sys_madvise p len mode))
      | _ \<Rightarrow> None)"
| "syc_request SYC_openat va =
     (case va of Vint dirfd # Vptr path # Vint flags # Vint mode # _ \<Rightarrow>
        (if path = None then None
         else Some (Sys_openat dirfd path flags (wrap_int mode)))
      | _ \<Rightarrow> None)"
| "syc_request SYC_open va =
     (case va of Vptr path # Vint flags # Vint mode # _ \<Rightarrow>
        (if path = None then None
         else Some (Sys_openat AT_FDCWD path flags (wrap_int mode)))
      | _ \<Rightarrow> None)"
| "syc_request SYC_openat2 va =
     (case va of Vint dirfd # Vptr path # Vptr p # _ \<Rightarrow>
        (if path = None \<or> p = None then None
         else Some (Sys_openat2 dirfd path p))
      | _ \<Rightarrow> None)"
| "syc_request SYC_statx va =
     (case va of Vint dirfd # Vptr path # Vint flags # Vint mode # Vptr p # _ \<Rightarrow>
        (if path = None \<or> p = None then None
         else Some (Sys_statx dirfd path flags (word_of_int (wrap_int mode)) p))
      | _ \<Rightarrow> None)"
| "syc_request SYC_unlinkat va =
     (case va of Vint dirfd # Vptr path # Vint flags # _ \<Rightarrow>
        (if path = None then None
         else Some (Sys_unlinkat dirfd path flags))
      | _ \<Rightarrow> None)"
| "syc_request SYC_unlink va =
     (case va of Vptr path # Vint flags # _ \<Rightarrow>
        (if path = None then None
         else Some (Sys_unlinkat AT_FDCWD path flags))
      | _ \<Rightarrow> None)"
| "syc_request SYC_renameat va =
     (case va of Vint dirfd # Vptr path # Vint dirfd2 # Vptr path2 # Vint flags # _ \<Rightarrow>
        (if path = None \<or> path2 = None then None
         else Some (Sys_renameat2 dirfd path dirfd2 path2 (word_of_int (wrap_int flags))))
      | _ \<Rightarrow> None)"
| "syc_request SYC_rename va =
     (case va of Vptr path # Vptr path2 # _ \<Rightarrow>
        (if path = None \<or> path2 = None then None
         else Some (Sys_renameat2 AT_FDCWD path AT_FDCWD path2 0))
      | _ \<Rightarrow> None)"
| "syc_request SYC_mkdirat va =
     (case va of Vint dirfd # Vptr path # Vint mode # _ \<Rightarrow>
        (if path = None then None
         else Some (Sys_mkdirat dirfd path (wrap_int mode)))
      | _ \<Rightarrow> None)"
| "syc_request SYC_mkdir va =
     (case va of Vptr path # Vint mode # _ \<Rightarrow>
        (if path = None then None
         else Some (Sys_mkdirat AT_FDCWD path (wrap_int mode)))
      | _ \<Rightarrow> None)"
| "syc_request SYC_symlinkat va =
     (case va of Vptr path2 # Vint dirfd # Vptr path # _ \<Rightarrow>
        (if path2 = None \<or> path = None then None
         else Some (Sys_symlinkat path2 dirfd path))
      | _ \<Rightarrow> None)"
| "syc_request SYC_symlink va =
     (case va of Vptr path2 # Vptr path # _ \<Rightarrow>
        (if path2 = None \<or> path = None then None
         else Some (Sys_symlinkat path2 AT_FDCWD path))
      | _ \<Rightarrow> None)"
| "syc_request SYC_linkat va =
     (case va of Vint dirfd # Vptr path # Vint dirfd2 # Vptr path2 # Vint flags # _ \<Rightarrow>
        (if path = None \<or> path2 = None then None
         else Some (Sys_linkat dirfd path dirfd2 path2 flags))
      | _ \<Rightarrow> None)"
| "syc_request SYC_link va =
     (case va of Vptr path # Vptr path2 # Vint flags # _ \<Rightarrow>
        (if path = None \<or> path2 = None then None
         else Some (Sys_linkat AT_FDCWD path AT_FDCWD path2 flags))
      | _ \<Rightarrow> None)"
| "syc_request SYC_getxattr va =
     (case va of Vptr path2 # Vptr p # Vptr path # Vint len # _ \<Rightarrow>
        (if path2 = None \<or> path = None then None
         else Some (Sys_getxattr path path2 p (word_of_int (len mod 2 ^ 32))))
      | _ \<Rightarrow> None)"
| "syc_request SYC_setxattr va =
     (case va of Vptr path2 # Vptr p # Vptr path # Vint flags # Vint len # _ \<Rightarrow>
        (if path2 = None \<or> path = None then None
         else Some (Sys_setxattr path path2 p (word_of_int (len mod 2 ^ 32)) flags))
      | _ \<Rightarrow> None)"
| "syc_request SYC_fgetxattr va =
     (case va of Vint f # Vptr path2 # Vptr p # Vint len # _ \<Rightarrow>
        (if path2 = None then None
         else Some (Sys_fgetxattr f path2 p (word_of_int (len mod 2 ^ 32))))
      | _ \<Rightarrow> None)"
| "syc_request SYC_fsetxattr va =
     (case va of Vint f # Vptr path2 # Vptr p # Vint flags # Vint len # _ \<Rightarrow>
        (if path2 = None then None
         else Some (Sys_fsetxattr f path2 p (word_of_int (len mod 2 ^ 32)) flags))
      | _ \<Rightarrow> None)"

definition syc_ret :: "syc_op \<Rightarrow> machine \<times> int \<Rightarrow> machine \<times> dpret" where
  "syc_ret op = (if op \<in> {SYC_openat, SYC_open, SYC_openat2, SYC_getxattr, SYC_fgetxattr}
     then dpsyc_ret_fd else dpsyc_ret_ok)"

lemmas syc_defs =
  dpsyc_madvise_prep_def dpsyc_madvise_post_def dpsyc_openat_prep_def dpsyc_openat_post_def
  dpsyc_open_prep_def dpsyc_open_post_def dpsyc_openat2_prep_def dpsyc_openat2_post_def
  dpsyc_statx_prep_def dpsyc_statx_post_def dpsyc_unlinkat_prep_def dpsyc_unlinkat_post_def
  dpsyc_unlink_prep_def dpsyc_unlink_post_def dpsyc_renameat_prep_def dpsyc_renameat_post_def
  dpsyc_rename_prep_def dpsyc_rename_post_def dpsyc_mkdirat_prep_def dpsyc_mkdirat_post_def
  dpsyc_mkdir_prep_def dpsyc_mkdir_post_def dpsyc_symlinkat_prep_def dpsyc_symlinkat_post_def
  dpsyc_symlink_prep_def dpsyc_symlink_post_def dpsyc_linkat_prep_def dpsyc_linkat_post_def
  dpsyc_link_prep_def dpsyc_link_post_def dpsyc_getxattr_prep_def dpsyc_getxattr_post_def
  dpsyc_setxattr_prep_def dpsyc_setxattr_post_def dpsyc_fgetxattr_prep_def dpsyc_fgetxattr_post_def
  dpsyc_fsetxattr_prep_def dpsyc_fsetxattr_post_def

lemma syc_request_made:
  "syc_prep_of op va a0 = Some (a, r) \<Longrightarrow>
     (case syc_request op va of
        None \<Rightarrow> r = DPE_INVAL
      | Some q \<Rightarrow> r = DPE_CONTINUE \<and> syc_post_of op a m = syc_ret op (sys_call q m))"
  by (cases op) (auto simp: syc_defs syc_ret_def bind_eq_Some_conv Let_def split: if_splits)

end
