(* ===== verification/Dpasc.thy ===== *)
theory Dpasc
  imports Dpasc_Run Dpasc_Syc
begin

text \<open>
  The descriptors \<open>dpasc_t\<close> of the operations, as the loop calls them: the functions of the I/O
  theories lifted to the world, where the machine is the field \<open>ext\<close> and the scratch record is
  what \<open>asc_data\<close> of the element points to.  Here are also the operations that need no machine:
  timers, polling and the empty operation.
\<close>

section \<open>Scratch memory\<close>

datatype scratch =
  Sio dpaio_arg | Sstm dpaio_stm | Ssyc dpsyc_arg | Sacc dpskt_acc | Stee dpsp_tee | Sv64 "64 word" "64 word"

type_synonym aworld = "(scratch, machine) world"

type_synonym aele = "scratch dpele"

definition io_zero :: dpaio_arg where
  "io_zero = \<lparr>io_ptr = None, io_len = 0, io_flag = 0, io_total = 0, io_fd2 = 0\<rparr>"

text \<open>Memory just zeroed can be read as any of the records; otherwise only as what was stored.\<close>

definition get_io :: "scratch option \<Rightarrow> dpaio_arg option" where
  "get_io s = (case s of None \<Rightarrow> Some io_zero | Some (Sio x) \<Rightarrow> Some x | _ \<Rightarrow> None)"

definition get_stm :: "scratch option \<Rightarrow> dpaio_stm option" where
  "get_stm s =
     (case s of
        None \<Rightarrow> Some \<lparr>stm_io = io_zero, stm_buf = None, stm_len = 0, stm_until_len = 0, stm_until = None\<rparr>
      | Some (Sstm x) \<Rightarrow> Some x | _ \<Rightarrow> None)"

definition get_syc :: "scratch option \<Rightarrow> dpsyc_arg option" where
  "get_syc s =
     (case s of
        None \<Rightarrow> Some \<lparr>sy_dirfd = 0, sy_dirfd2 = 0, sy_fd = 0, sy_flags = 0, sy_len = 0, sy_path = None,
          sy_path2 = None, sy_mode = 0, sy_ptr = None\<rparr>
      | Some (Ssyc x) \<Rightarrow> Some x | _ \<Rightarrow> None)"

definition get_acc :: "scratch option \<Rightarrow> dpskt_acc option" where
  "get_acc s = (case s of None \<Rightarrow> Some \<lparr>acc_addr = None\<rparr> | Some (Sacc x) \<Rightarrow> Some x | _ \<Rightarrow> None)"

definition get_tee :: "scratch option \<Rightarrow> dpsp_tee option" where
  "get_tee s =
     (case s of None \<Rightarrow> Some \<lparr>in_fd = 0, tee_len = 0, tee_flags = 0\<rparr> | Some (Stee x) \<Rightarrow> Some x | _ \<Rightarrow> None)"

definition get_v64 :: "scratch option \<Rightarrow> (64 word \<times> 64 word) option" where
  "get_v64 s = (case s of None \<Rightarrow> Some (0, 0) | Some (Sv64 x y) \<Rightarrow> Some (x, y) | _ \<Rightarrow> None)"

section \<open>Lifting\<close>

type_synonym prep_fun = "nat \<Rightarrow> va_list \<Rightarrow> dpasc_out \<Rightarrow> aworld \<Rightarrow> (aworld \<times> dpasc_out \<times> dpret) option"

type_synonym post_fun = "nat \<Rightarrow> dpasc_out \<Rightarrow> aworld \<Rightarrow> (aworld \<times> dpasc_out \<times> dpret) option"

text \<open>A function that writes through \<open>out->data\<close>; a null pointer there is a null dereference.\<close>

definition on_data ::
  "(scratch option \<Rightarrow> 'a option) \<Rightarrow> ('a \<Rightarrow> scratch) \<Rightarrow>
     (aele \<Rightarrow> dpasc_out \<Rightarrow> 'a \<Rightarrow> machine \<Rightarrow> (machine \<times> 'a \<times> dpasc_out \<times> dpret) option) \<Rightarrow> post_fun"
where
  "on_data rd wrt f a out w = do {
     e \<leftarrow> eles w a;
     (cap, d) \<leftarrow> asc_data e;
     x \<leftarrow> rd d;
     (m, y, out1, r) \<leftarrow> f e out x (ext w);
     Some (put_ele (w\<lparr>ext := m\<rparr>) a (e\<lparr>asc_data := Some (cap, Some (wrt y))\<rparr>), out1, r)
   }"

definition on_io :: "(aele \<Rightarrow> dpasc_out \<Rightarrow> dpaio_arg \<Rightarrow> machine \<Rightarrow> io_result) \<Rightarrow> post_fun" where
  "on_io = on_data get_io Sio"

definition on_stm :: "(aele \<Rightarrow> dpasc_out \<Rightarrow> dpaio_stm \<Rightarrow> machine \<Rightarrow> stm_result) \<Rightarrow> post_fun" where
  "on_stm = on_data get_stm Sstm"

definition on_machine ::
  "(aele \<Rightarrow> dpasc_out \<Rightarrow> machine \<Rightarrow> (machine \<times> dpasc_out \<times> dpret) option) \<Rightarrow> post_fun" where
  "on_machine f a out w = do {
     e \<leftarrow> eles w a;
     (m, out1, r) \<leftarrow> f e out (ext w);
     Some (w\<lparr>ext := m\<rparr>, out1, r)
   }"

definition DPASC_FUNCTION ::
  "prep_fun \<Rightarrow> post_fun option \<Rightarrow> u32 \<Rightarrow> u32 \<Rightarrow> nat \<Rightarrow> u32 \<Rightarrow> (scratch, machine) dpasc" where
  "DPASC_FUNCTION prep post types iotypes sz flags =
     \<lparr>asc_prep = prep, asc_post = post, asc_types = types, asc_iotypes = iotypes, asc_datasz = sz,
       asc_flags = flags\<rparr>"

definition type_bit :: "dpele_type_e \<Rightarrow> u32" where
  "type_bit k = push_bit (type_index k) 1"

definition iotype_bit :: "dpaio_type_e \<Rightarrow> u32" where
  "iotype_bit k = (case iotype_index k of None \<Rightarrow> 0 | Some n \<Rightarrow> push_bit n 1)"

definition DPASC_GFD_FUNCTION :: "prep_fun \<Rightarrow> post_fun option \<Rightarrow> nat \<Rightarrow> (scratch, machine) dpasc" where
  "DPASC_GFD_FUNCTION prep post sz =
     DPASC_FUNCTION prep post (type_bit DPELE_TYPE_EFD)
       (iotype_bit DPAIO_TYPE_GFD OR iotype_bit DPAIO_TYPE_SKT) sz 0"

definition DPASC_SKT_FUNCTION :: "prep_fun \<Rightarrow> post_fun option \<Rightarrow> nat \<Rightarrow> (scratch, machine) dpasc" where
  "DPASC_SKT_FUNCTION prep post sz =
     DPASC_FUNCTION prep post (type_bit DPELE_TYPE_EFD) (iotype_bit DPAIO_TYPE_SKT) sz 0"

definition DPASC_EFD_FUNCTION :: "prep_fun \<Rightarrow> post_fun option \<Rightarrow> nat \<Rightarrow> (scratch, machine) dpasc" where
  "DPASC_EFD_FUNCTION prep post sz = DPASC_FUNCTION prep post (type_bit DPELE_TYPE_EFD) 0 sz 0"

section \<open>Descriptor and socket operations\<close>

text \<open>The sizes are those of the scratch records on x86-64.\<close>

definition dpgfd_read :: "(scratch, machine) dpasc" where
  "dpgfd_read = DPASC_GFD_FUNCTION (\<lambda>a va. on_io (\<lambda>_. dpgfd_read_prep va) a) (Some (on_io dpgfd_read_post)) 24"

definition dpgfd_write :: "(scratch, machine) dpasc" where
  "dpgfd_write = DPASC_GFD_FUNCTION (\<lambda>a va. on_io (\<lambda>_. dpgfd_write_prep va) a) (Some (on_io dpgfd_write_post)) 24"

definition dpgfd_readv :: "(scratch, machine) dpasc" where
  "dpgfd_readv = DPASC_GFD_FUNCTION (\<lambda>a va. on_io (\<lambda>_. dpgfd_readv_prep va) a) (Some (on_io dpgfd_readv_post)) 24"

definition dpgfd_writev :: "(scratch, machine) dpasc" where
  "dpgfd_writev = DPASC_GFD_FUNCTION (\<lambda>a va. on_io (\<lambda>_. dpgfd_writev_prep va) a) (Some (on_io dpgfd_writev_post)) 24"

definition dpskt_recv :: "(scratch, machine) dpasc" where
  "dpskt_recv = DPASC_SKT_FUNCTION (\<lambda>a va. on_io (\<lambda>_. dpskt_recv_prep va) a) (Some (on_io dpskt_recv_post)) 24"

definition dpskt_recv2 :: "(scratch, machine) dpasc" where
  "dpskt_recv2 = DPASC_SKT_FUNCTION (\<lambda>a va. on_io (\<lambda>_. dpskt_recv2_prep va) a) (Some (on_io dpskt_recv_post)) 24"

definition dpskt_send :: "(scratch, machine) dpasc" where
  "dpskt_send = DPASC_SKT_FUNCTION (\<lambda>a va. on_io (\<lambda>_. dpskt_send_prep va) a) (Some (on_io dpskt_send_post)) 24"

definition dpskt_send2 :: "(scratch, machine) dpasc" where
  "dpskt_send2 = DPASC_SKT_FUNCTION (\<lambda>a va. on_io (\<lambda>_. dpskt_send2_prep va) a) (Some (on_io dpskt_send_post)) 24"

definition dpskt_recvmsg :: "(msghdr \<Rightarrow> msghdr) \<Rightarrow> (scratch, machine) dpasc" where
  "dpskt_recvmsg upd =
     DPASC_SKT_FUNCTION (\<lambda>a va. on_io (\<lambda>_. dpskt_recvmsg_prep va) a) (Some (on_io (dpskt_recvmsg_post upd))) 24"

definition dpskt_sendmsg :: "(scratch, machine) dpasc" where
  "dpskt_sendmsg =
     DPASC_SKT_FUNCTION (\<lambda>a va. on_io (\<lambda>_. dpskt_sendmsg_prep va) a) (Some (on_io dpskt_sendmsg_post)) 24"

definition dpskt_accept :: "(dpsockaddr \<Rightarrow> dpsockaddr) \<Rightarrow> (scratch, machine) dpasc" where
  "dpskt_accept peer = DPASC_SKT_FUNCTION
     (\<lambda>a va. on_data get_acc Sacc (\<lambda>_ out acc m.
        map_option (\<lambda>(acc1, out1, r). (m, acc1, out1, r)) (dpskt_accept_prep va out acc)) a)
     (Some (on_data get_acc Sacc (dpskt_accept_post peer))) 8"

definition dpgfd_splice :: "(scratch, machine) dpasc" where
  "dpgfd_splice = DPASC_GFD_FUNCTION
     (\<lambda>a va. on_data get_tee Stee (\<lambda>_ out io m.
        map_option (\<lambda>(io1, out1, r). (m, io1, out1, r)) (dpgfd_splice_prep va out io)) a)
     (Some (on_data get_tee Stee (\<lambda>e out io m.
        map_option (\<lambda>(m1, out1, r). (m1, io, out1, r)) (dpgfd_splice_post e out io m)))) 12"

definition dpgfd_tee :: "(scratch, machine) dpasc" where
  "dpgfd_tee = DPASC_GFD_FUNCTION
     (\<lambda>a va. on_data get_tee Stee (\<lambda>_ out io m.
        map_option (\<lambda>(io1, out1, r). (m, io1, out1, r)) (dpgfd_tee_prep va out io)) a)
     (Some (on_data get_tee Stee (\<lambda>e out io m.
        map_option (\<lambda>(m1, out1, r). (m1, io, out1, r)) (dpgfd_tee_post e out io m)))) 12"

definition dpskt_connect :: "(scratch, machine) dpasc" where
  "dpskt_connect = DPASC_SKT_FUNCTION (\<lambda>a va. on_machine (\<lambda>e. dpskt_connect_prep e va) a)
     (Some (on_machine dpskt_connect_post)) 0"

text \<open>A control operation has no post function.\<close>

definition ctl :: "scratch ctl_prep \<Rightarrow> prep_fun" where
  "ctl f a va = on_machine (\<lambda>e out m. map_option (\<lambda>(m1, r). (m1, out, r)) (f e va m)) a"

definition dpefd_fsync :: "(scratch, machine) dpasc" where
  "dpefd_fsync = DPASC_EFD_FUNCTION (ctl dpefd_fsync_prep) None 0"

definition dpskt_shutdown :: "(scratch, machine) dpasc" where
  "dpskt_shutdown = DPASC_SKT_FUNCTION (ctl dpskt_shutdown_prep) None 0"

definition dpefd_fallocate :: "(scratch, machine) dpasc" where
  "dpefd_fallocate = DPASC_EFD_FUNCTION (ctl dpefd_fallocate_prep) None 0"

definition dpefd_fadvise :: "(scratch, machine) dpasc" where
  "dpefd_fadvise = DPASC_EFD_FUNCTION (ctl dpefd_fadvise_prep) None 0"

definition dpefd_sync_file_range :: "(scratch, machine) dpasc" where
  "dpefd_sync_file_range = DPASC_EFD_FUNCTION (ctl dpefd_sync_file_range_prep) None 0"

definition dpefd_close :: "(scratch, machine) dpasc" where
  "dpefd_close = DPASC_EFD_FUNCTION (ctl dpefd_close_prep) None 0"

text \<open>The family of calls made on another thread.\<close>

definition DPASC_SYC_FUNCTION :: "syc_op \<Rightarrow> (scratch, machine) dpasc" where
  "DPASC_SYC_FUNCTION op = DPASC_FUNCTION
     (\<lambda>a va. on_data get_syc Ssyc (\<lambda>_ out x m.
        map_option (\<lambda>(y, r). (m, y, out, r)) (syc_prep_of op va x)) a)
     (Some (on_data get_syc Ssyc (\<lambda>_ out x m.
        let (m1, r) = syc_post_of op x m in Some (m1, x, out, r))))
     (type_bit DPELE_TYPE_CTC) 0 56 0"

section \<open>Stream operations\<close>

definition DPAIO_FUNCTION ::
  "(aele \<Rightarrow> va_list \<Rightarrow> dpasc_out \<Rightarrow> dpaio_stm \<Rightarrow> machine \<Rightarrow> stm_result) \<Rightarrow>
     (aele \<Rightarrow> dpasc_out \<Rightarrow> dpaio_stm \<Rightarrow> machine \<Rightarrow> stm_result) \<Rightarrow> (scratch, machine) dpasc"
where
  "DPAIO_FUNCTION prep post = DPASC_FUNCTION
     (\<lambda>a va. on_stm (\<lambda>e. prep e va) a) (Some (on_stm post))
     (type_bit DPELE_TYPE_EFD OR type_bit DPELE_TYPE_USD)
     (iotype_bit DPAIO_TYPE_GFD OR iotype_bit DPAIO_TYPE_SKT OR iotype_bit DPAIO_TYPE_SSL OR
        iotype_bit DPAIO_TYPE_QIC) 48 0"

definition dpaio_read_some :: "scratch tls_ascs \<Rightarrow> (scratch, machine) dpasc" where
  "dpaio_read_some tls = DPAIO_FUNCTION (dpaio_read_some_prep tls) (dpaio_read_some_post tls)"

definition dpaio_read_must :: "scratch tls_ascs \<Rightarrow> (scratch, machine) dpasc" where
  "dpaio_read_must tls = DPAIO_FUNCTION (dpaio_read_must_prep tls) (dpaio_read_must_post tls)"

definition dpaio_read_data :: "scratch tls_ascs \<Rightarrow> (scratch, machine) dpasc" where
  "dpaio_read_data tls = DPAIO_FUNCTION (dpaio_read_data_prep tls) (dpaio_read_data_post tls)"

definition dpaio_read_until :: "scratch tls_ascs \<Rightarrow> (scratch, machine) dpasc" where
  "dpaio_read_until tls = DPAIO_FUNCTION (dpaio_read_until_prep tls) (dpaio_read_until_post tls)"

definition dpaio_write_some :: "scratch tls_ascs \<Rightarrow> (scratch, machine) dpasc" where
  "dpaio_write_some tls = DPAIO_FUNCTION (dpaio_write_some_prep tls) (dpaio_write_some_post tls)"

definition dpaio_write_must :: "scratch tls_ascs \<Rightarrow> (scratch, machine) dpasc" where
  "dpaio_write_must tls = DPAIO_FUNCTION (dpaio_write_must_prep tls) (dpaio_write_must_post tls)"

definition dpaio_write_data :: "scratch tls_ascs \<Rightarrow> (scratch, machine) dpasc" where
  "dpaio_write_data tls = DPAIO_FUNCTION (dpaio_write_data_prep tls) (dpaio_write_data_post tls)"

section \<open>Timers\<close>

text \<open>The result of \<open>dpele_set_timeout\<close> is not looked at.\<close>

definition dptmr_timeout_prep :: prep_fun where
  "dptmr_timeout_prep a va out w = do {
     (sec, va) \<leftarrow> va_dbl va;
     (x, va) \<leftarrow> va_w64 va;
     (y, _) \<leftarrow> va_w64 va;
     (w1, _, _) \<leftarrow> on_data get_v64 (\<lambda>(x, y). Sv64 x y) (\<lambda>_ out _ m. Some (m, (x, y), out, DPE_OK)) a out w;
     (w2, _) \<leftarrow> dpele_set_timeout w1 a sec;
     Some (w2, out, DPE_CONTINUE)
   }"

definition dptmr_timeout :: "(scratch, machine) dpasc" where
  "dptmr_timeout = DPASC_FUNCTION dptmr_timeout_prep None (type_bit DPELE_TYPE_TMR) 0 16 DPASC_FLAG_ALLOW_DOING"

text \<open>A callback is named by its address; \<open>cbs\<close> gives its effect.\<close>

definition dptmr_callback_prep :: prep_fun where
  "dptmr_callback_prep a va out w = do {
     (sec, va) \<leftarrow> va_dbl va;
     (cb, va) \<leftarrow> va_w64 va;
     (arg, _) \<leftarrow> va_w64 va;
     (w1, _, r) \<leftarrow> on_data get_v64 (\<lambda>(x, y). Sv64 x y)
        (\<lambda>_ out (x, _) m.
           if cb \<noteq> 0 then Some (m, (cb, arg), out, DPE_OK)
           else Some (m, (x, arg), out, if x = 0 then DPE_INVAL else DPE_OK)) a out w;
     if r = DPE_INVAL then Some (w1, out, DPE_INVAL)
     else do {
       (w2, _) \<leftarrow> dpele_set_timeout w1 a sec;
       Some (w2, out, DPE_CONTINUE)
     }
   }"

definition dptmr_callback_post :: "(64 word \<Rightarrow> nat \<Rightarrow> 64 word \<Rightarrow> aworld \<Rightarrow> aworld option) \<Rightarrow> post_fun" where
  "dptmr_callback_post cbs a out w = do {
     e \<leftarrow> eles w a;
     (_, d) \<leftarrow> asc_data e;
     (cb, arg) \<leftarrow> get_v64 d;
     w1 \<leftarrow> (if cb = 0 then None else cbs cb a arg w);
     Some (w1, out, DPE_OK)
   }"

definition dptmr_callback :: "(64 word \<Rightarrow> nat \<Rightarrow> 64 word \<Rightarrow> aworld \<Rightarrow> aworld option) \<Rightarrow> (scratch, machine) dpasc" where
  "dptmr_callback cbs = DPASC_FUNCTION dptmr_callback_prep (Some (dptmr_callback_post cbs))
     (type_bit DPELE_TYPE_TMR) 0 16 DPASC_FLAG_ALLOW_DOING"

section \<open>Polling and the empty operation\<close>

definition dpefd_poll_prep :: prep_fun where
  "dpefd_poll_prep a va out w = do {
     (ev, _) \<leftarrow> va_int va;
     e \<leftarrow> eles w a;
     let poll_evs = uint (ty_events (etype e) OR DPEVT_ALL);
     if ev AND poll_evs = 0 then Some (w, out, DPE_INVAL)
     else Some (w, out\<lparr>out_want := word_of_int ev\<rparr>, DPE_CONTINUE)
   }"

definition dpefd_poll_post :: post_fun where
  "dpefd_poll_post a out w = Some (w, out\<lparr>out_inva := out_want out\<rparr>, uint (out_want out))"

definition dpefd_poll :: "(scratch, machine) dpasc" where
  "dpefd_poll = DPASC_EFD_FUNCTION dpefd_poll_prep (Some dpefd_poll_post) 4"

definition dpsyc_nop_prep :: prep_fun where
  "dpsyc_nop_prep a va out w = Some (w, out, DPE_OK)"

definition dpsyc_nop :: "(scratch, machine) dpasc" where
  "dpsyc_nop = DPASC_FUNCTION dpsyc_nop_prep None (type_bit DPELE_TYPE_USD) 0 0 0"

end
