(* ===== verification/Dpasc_Wake.thy ===== *)
theory Dpasc_Wake
  imports Dpasc
begin

text \<open>
  The transfers keep what the edge-triggered loop relies on: every kernel call with the laws of
  \<open>data_io\<close> gives a post function with the laws of \<open>efd_post\<close>, and so does polling.  A wake of such an
  operation therefore returns, and never leaves an event that is both available and wanted.
\<close>

lemma ext_put_ele [simp]: "ext (put_ele w a e) = ext w"
  by (simp add: put_ele_def)

text \<open>An element whose scratch record describes a transfer the machine can make.\<close>

definition io_good :: "(int \<Rightarrow> dpaio_arg \<Rightarrow> machine \<Rightarrow> bool) \<Rightarrow> aworld \<Rightarrow> nat \<Rightarrow> bool" where
  "io_good room w a \<longleftrightarrow>
     (\<exists>e cap io. eles w a = Some e \<and> asc_data e = Some (cap, Some (Sio io)) \<and>
        room (fd e) io (ext w) \<and> 0 < io_len io \<and> io_len io \<le> INT_MAX)"

sublocale data_io \<subseteq> wake: efd_post "on_io (dpaio_buf_post iofun)" "io_good room" "\<lambda>_ _. 0"
proof unfold_locales
  fix w :: aworld and a e x y z
  assume "io_good room w a" "eles w a = Some e"
  then show "io_good room (put_ele w a (e\<lparr>able_events := x, want_events := y, ret := z\<rparr>)) a"
    by (auto simp: io_good_def)
next
  fix w :: aworld and a e and out :: dpasc_out
  assume good: "io_good room w a" and e: "eles w a = Some e" and able: "able_events e AND want_events e \<noteq> 0"
    and want: "ucast (out_want out) = want_events e"
  obtain cap io where io: "asc_data e = Some (cap, Some (Sio io))" "room (fd e) io (ext w)"
    "0 < io_len io" "io_len io \<le> INT_MAX"
    using good e by (auto simp: io_good_def)
  obtain m out1 r k where post: "dpaio_buf_post iofun e out io (ext w) = Some (m, io, out1, r)"
    "room (fd e) io m" "out_want out1 = out_want out"
    and res: "r = k \<and> 0 < k \<and> out_inva out1 = (if k < io_len io then out_want out else out_inva out) \<or>
      r = DPE_EOF \<and> out_inva out1 = out_want out \<and> k < io_len io \<or>
      r < 0 \<and> k = 0 \<and> r = - kerrno m \<and> out_inva out1 = out_want out"
    using buf_post_returns [OF io(2-4), of out] by blast
  let ?e = "e\<lparr>asc_data := Some (cap, Some (Sio io))\<rparr>"
  let ?w = "put_ele (w\<lparr>ext := m\<rparr>) a ?e"
  have "on_io (dpaio_buf_post iofun) a out w = Some (?w, out1, r)"
    using e io(1) post(1) by (simp add: on_io_def on_data_def get_io_def)
  moreover have "io_good room ?w a" using post(2) io(3,4) by (auto simp: io_good_def)
  moreover have "want_events e \<noteq> 0" using able by auto
  then have "r = DPE_WAIT \<longrightarrow> ucast (out_want out1) \<noteq> (0 :: 5 word) \<and> able_events e AND ucast (out_inva out1) \<noteq> 0"
    using res want able post(3) by auto
  ultimately show "\<exists>w' out' r e'. on_io (dpaio_buf_post iofun) a out w = Some (w', out', r) \<and> io_good room w' a \<and>
      eles w' a = Some e' \<and> able_events e' = able_events e \<and> want_events e' = want_events e \<and>
      asc_type e' = asc_type e \<and> (r = DPE_WAIT \<longrightarrow> ucast (out_want out') \<noteq> (0 :: 5 word) \<and>
        ((0 :: nat) < 0 \<or> (0 :: nat) = 0 \<and> able_events e AND ucast (out_inva out') \<noteq> 0))"
    by auto
qed simp

interpretation poll: efd_post dpefd_poll_post "\<lambda>w a. eles w a \<noteq> None" "\<lambda>_ _. 0"
proof unfold_locales
  fix w :: aworld and a e and out :: dpasc_out
  assume "eles w a = Some e"
  moreover have "(uint (out_want out) :: int) \<noteq> DPE_WAIT" using uint_ge_0 [of "out_want out"] by linarith
  ultimately show "\<exists>w' out' r e'. dpefd_poll_post a out w = Some (w', out', r) \<and> eles w' a \<noteq> None \<and>
      eles w' a = Some e' \<and> able_events e' = able_events e \<and> want_events e' = want_events e \<and>
      asc_type e' = asc_type e \<and> (r = DPE_WAIT \<longrightarrow> ucast (out_want out') \<noteq> (0 :: 5 word) \<and>
        ((0 :: nat) < 0 \<or> (0 :: nat) = 0 \<and> able_events e AND ucast (out_inva out') \<noteq> 0))"
    by (simp add: dpefd_poll_post_def)
qed auto

end
