(* ===== verification/Dpasc_Props.thy ===== *)
theory Dpasc_Props
  imports Dpasc_Wake
begin

text \<open>
  The properties of the I/O operations: what a read or a write has moved when it reports a count,
  across all the times the loop resumes it; that a wake of the loop ends and loses no edge; that a
  call made on another thread is the one that was asked for; and the inputs on which the operations
  leave what their headers promise.
\<close>

section \<open>A concrete machine\<close>

definition io_machine :: machine where
  "io_machine = \<lparr>objs = [7 \<mapsto> Obytes [0, 0, 0, 0], 8 \<mapsto> Obytes [68, 69, 70, 71]],
     bstore = \<lparr>blocks = Map.empty, nblk = 0, allocs = 0, avail = (\<lambda>_. True), junk = (\<lambda>_ _. 0)\<rparr>,
     rxq = (\<lambda>f. if f = 5 then [Rdata [65, 66, 67], Reof] else []),
     txq = (\<lambda>f. if f = 5 then [Tacc 3] else []), sent = (\<lambda>_. []), kerrno = 0, sys_log = [],
     sys_answer = (\<lambda>_ _. (0, None))\<rparr>"

definition io_type :: dpele_type where
  "io_type = \<lparr>ty_name = ''gfd'', ty_type = DPELE_TYPE_EFD, ty_size = 0, ty_iotype = DPAIO_TYPE_GFD,
     ty_events = DPEVT_ALL, ty_init = None, ty_copy = None, ty_fini = None\<rparr>"

definition io_ele :: aele where
  "io_ele = (dpefd_init (ele_zero io_type))\<lparr>fd := 5\<rparr>"

definition no_out :: dpasc_out where
  "no_out = \<lparr>out_want = 0, out_inva = 0, out_able = 0, out_data = True\<rparr>"

definition no_tls :: "'d tls_ascs" where
  "no_tls = (\<lambda>_ _. None)"

lemmas io_demo = io_machine_def io_type_def io_ele_def no_out_def dpefd_init_def ele_zero_def io_zero_def

lemma io_demo_plain: "plain_io io_ele"
  by (simp add: plain_io_def io_demo)

definition stm_zero :: dpaio_stm where
  "stm_zero = \<lparr>stm_io = io_zero, stm_buf = None, stm_len = 0, stm_until_len = 0, stm_until = None\<rparr>"

definition stm_asked :: "nat \<Rightarrow> dpaio_stm" where
  "stm_asked a = \<lparr>stm_io = io_zero\<lparr>io_ptr := Some (Pobj a 0), io_len := 4\<rparr>, stm_buf = None, stm_len = 4,
     stm_until_len = 0, stm_until = None\<rparr>"

section \<open>Transfers\<close>

text \<open>
  C18.  One read.  On a valid buffer the read loop ends.  The bytes it took off the stream are
  the next ones, and lie in the buffer from its start; it reports their number, or the end of the
  stream, or, when there were none, the error of the kernel call.  Unless the buffer is full it
  withdraws the readiness of the descriptor.
\<close>

theorem read_post_contract:
  assumes "has_room (fd e) io m" and "0 < io_len io" and "io_len io \<le> INT_MAX"
  shows "\<exists>m' out' r k. dpgfd_read_post e out io m = Some (m', io, out', r) \<and>
    k \<le> io_len io \<and> read_moved (fd e) io 0 k m m' \<and>
    (r = k \<and> 0 < k \<and> out_inva out' = (if k < io_len io then out_want out else out_inva out) \<or>
     r = DPE_EOF \<and> out_inva out' = out_want out \<or>
     r < 0 \<and> k = 0 \<and> r = - kerrno m' \<and> out_inva out' = out_want out)"
  using rd.buf_post_returns [OF assms, of out] unfolding dpgfd_read_post_def by blast

theorem read_post_contract_witness:
  "\<exists>m' out' r k. dpgfd_read_post io_ele no_out (stm_io (stm_asked 7)) io_machine =
      Some (m', stm_io (stm_asked 7), out', r) \<and>
    k \<le> 4 \<and> read_moved 5 (stm_io (stm_asked 7)) 0 k io_machine m'"
proof -
  have e: "fd io_ele = 5" "io_len (stm_io (stm_asked 7)) = 4" by (simp_all add: io_demo stm_asked_def)
  have "has_room 5 (stm_io (stm_asked 7)) io_machine"
    by (simp add: has_room_def stm_asked_def io_demo mload_def region_def mem_read_def errors_positive_def)
  with read_post_contract [of io_ele "stm_io (stm_asked 7)" io_machine no_out] e show ?thesis by auto
qed

text \<open>
  C3.  Reading a number of bytes into memory.  However the operation is resumed, and whatever
  arrives in between, a post returns; when it reports a count, the memory holds exactly that many
  bytes from the start of what the stream has carried since the operation began, and a count below
  the one asked for comes with the readiness of the descriptor withdrawn.
\<close>

theorem read_data_contract:
  assumes "read_run tls e p n h m stm" and "plain_io e"
  shows "\<exists>m' stm' out' r. dpaio_read_data_post tls e out stm m = Some (m', stm', out', r) \<and>
    (r = DPE_WAIT \<and> read_run tls e p n h m' stm' \<or>
     r = n \<and> mload m' p n = Some (take (nat n) h) \<or>
     0 < r \<and> r < n \<and> mload m' p r = Some (take (nat r) h) \<and> out_inva out' = out_want out \<or>
     r = DPE_EOF \<or> r = - kerrno m')"
proof -
  obtain k where "read_inv (fd e) p n h m stm k" using read_run_inv [OF assms] by blast
  from read_post_cases [OF assms(2) this, of tls out] obtain m' stm' out' r j where
    post: "dpaio_read_data_post tls e out stm m = Some (m', stm', out', r)"
    and cases: "if r = DPE_WAIT \<and> stm' \<noteq> stm then read_inv (fd e) p n h m' stm' j \<and> k < j
     else if r = DPE_WAIT then k = 0 \<and> read_inv (fd e) p n h m' stm 0
     else if r > 0 then 0 < r \<and> r \<le> n \<and> mload m' p r = Some (take (nat r) h) \<and>
       (r < n \<longrightarrow> out_inva out' = out_want out)
     else k = 0 \<and> (r = DPE_EOF \<or> r = - kerrno m')" by blast
  show ?thesis
  proof (cases "r = DPE_WAIT")
    case True
    then have "read_run tls e p n h m' stm'" using read_run.wait [OF assms(1)] post by blast
    then show ?thesis using post True by blast
  next
    case False
    then show ?thesis using post cases by (cases "r = n") (auto split: if_splits)
  qed
qed

theorem read_data_contract_witness:
  "\<exists>m' stm' out' r. dpaio_read_data_post no_tls io_ele no_out (stm_asked 7) io_machine = Some (m', stm', out', r) \<and>
    (r = DPE_WAIT \<and> read_run no_tls io_ele (Pobj 7 0) 4 [65, 66, 67] m' stm' \<or>
     r = 4 \<and> mload m' (Pobj 7 0) 4 = Some [65, 66, 67] \<or>
     0 < r \<and> r < 4 \<and> mload m' (Pobj 7 0) r = Some (take (nat r) [65, 66, 67]) \<and> out_inva out' = out_want no_out \<or>
     r = DPE_EOF \<or> r = - kerrno m')"
proof -
  have "dpaio_read_data_prep no_tls io_ele [Vptr (Some (Pobj 7 0)), Vint 4] no_out stm_zero io_machine =
      Some (io_machine, stm_asked 7, no_out\<lparr>out_want := DPEVT_IN\<rparr>, DPE_CONTINUE)"
    by (simp add: dpaio_read_data_prep_def stm_begin_def dpaio_get_asc_def dpgfd_read_prep_def io_demo want_def
        stm_zero_def stm_asked_def)
  then have "read_run no_tls io_ele (Pobj 7 0) 4 (rx_bytes (rxq io_machine (fd io_ele))) io_machine (stm_asked 7)"
    by (rule read_run.start) (auto simp: io_demo mload_def region_def mem_read_def errors_positive_def)
  then have "read_run no_tls io_ele (Pobj 7 0) 4 [65, 66, 67] io_machine (stm_asked 7)"
    by (simp add: io_demo)
  from read_data_contract [OF this io_demo_plain, of no_out] show ?thesis by simp
qed

text \<open>
  C15.  Writing a number of bytes from memory.  Every post returns; what has gone out since the
  operation began is a prefix of the caller's bytes, in order and without gaps, at least as long as
  the count reported, and of the full length when the count is the one asked for.
\<close>

theorem write_data_contract:
  assumes "write_run tls e p n data s m stm" and "plain_io e"
  shows "\<exists>m' stm' out' r j. dpaio_write_data_post tls e out stm m = Some (m', stm', out', r) \<and>
    (r = DPE_WAIT \<and> write_run tls e p n data s m' stm' \<or>
     r \<le> j \<and> j \<le> n \<and> sent m' (fd e) = s @ take (nat j) data \<and>
       (r = n \<or> r < n \<and> 0 < r \<and> out_inva out' = out_want out \<or> r = DPE_EOF \<or> r = - kerrno m'))"
proof -
  obtain k where "write_inv (fd e) p n data s m stm k" using write_run_inv [OF assms] by blast
  from write_post_cases [OF assms(2) this, of tls out] obtain m' stm' out' r j where
    post: "dpaio_write_data_post tls e out stm m = Some (m', stm', out', r)"
    and cases: "if r = DPE_WAIT \<and> stm' \<noteq> stm then write_inv (fd e) p n data s m' stm' j \<and> k < j
     else if r = DPE_WAIT then k = 0 \<and> write_inv (fd e) p n data s m' stm 0
     else r \<le> j \<and> j \<le> n \<and> sent m' (fd e) = s @ take (nat j) data \<and>
       (if r > 0 then r < n \<longrightarrow> out_inva out' = out_want out
        else k = 0 \<and> (r = DPE_EOF \<or> r = - kerrno m' \<and> j = 0))" by blast
  show ?thesis
  proof (cases "r = DPE_WAIT")
    case True
    then have "write_run tls e p n data s m' stm'" using write_run.wait [OF assms(1)] post by blast
    then show ?thesis using post True by blast
  next
    case False
    then have "r \<le> j \<and> j \<le> n \<and> sent m' (fd e) = s @ take (nat j) data \<and>
        (r = n \<or> r < n \<and> 0 < r \<and> out_inva out' = out_want out \<or> r = DPE_EOF \<or> r = - kerrno m')"
      using cases by (auto split: if_splits)
    then show ?thesis using post by blast
  qed
qed

theorem write_data_contract_witness:
  "\<exists>m' stm' out' r j. dpaio_write_data_post no_tls io_ele no_out (stm_asked 8) io_machine = Some (m', stm', out', r) \<and>
    (r = DPE_WAIT \<and> write_run no_tls io_ele (Pobj 8 0) 4 [68, 69, 70, 71] [] m' stm' \<or>
     r \<le> j \<and> j \<le> 4 \<and> sent m' 5 = take (nat j) [68, 69, 70, 71] \<and>
       (r = 4 \<or> r < 4 \<and> 0 < r \<and> out_inva out' = out_want no_out \<or> r = DPE_EOF \<or> r = - kerrno m'))"
proof -
  have "dpaio_write_data_prep no_tls io_ele [Vptr (Some (Pobj 8 0)), Vint 4] no_out stm_zero io_machine =
      Some (io_machine, stm_asked 8, no_out\<lparr>out_want := DPEVT_OUT\<rparr>, DPE_CONTINUE)"
    by (simp add: dpaio_write_data_prep_def stm_begin_def dpaio_get_asc_def dpgfd_write_prep_def io_demo want_def
        stm_zero_def stm_asked_def)
  then have "write_run no_tls io_ele (Pobj 8 0) 4 [68, 69, 70, 71] (sent io_machine (fd io_ele)) io_machine (stm_asked 8)"
    by (rule write_run.start)
      (auto simp: io_demo mload_def region_def mem_read_def errors_positive_def seg_def peek_def)
  then have "write_run no_tls io_ele (Pobj 8 0) 4 [68, 69, 70, 71] [] io_machine (stm_asked 8)"
    by (simp add: io_demo)
  from write_data_contract [OF this io_demo_plain, of no_out] show ?thesis by (simp add: io_demo)
qed

text \<open>
  Resuming a vector.  After \<open>n\<close> bytes of a vector have been moved the advanced vector describes
  exactly the bytes that are left, so a partial \<open>writev\<close> goes on where it stopped.
\<close>

theorem iov_advance_rest:
  assumes "gather vs m = Some xs" and "0 \<le> n" and "n \<le> int (length xs)"
  shows "gather (dpioc_iov_advance vs n) m = Some (drop (nat n) xs) \<and>
    iov_sum (dpioc_iov_advance vs n) = int (length xs) - n"
  using assms
proof (induction vs n arbitrary: xs rule: dpioc_iov_advance.induct)
  case (2 v vs n)
  obtain ys zs where v: "mload m (iov_base v) (iov_len v) = Some ys" "gather vs m = Some zs" "xs = ys @ zs"
    using 2(2) by (auto simp: bind_eq_Some_conv)
  have len: "int (length ys) = iov_len v" "0 \<le> iov_len v" using mload_length [OF v(1)] by auto
  have sum: "gather us m = Some ws \<Longrightarrow> iov_sum us = int (length ws)" for us ws
    by (induction us arbitrary: ws) (auto simp: iov_sum_def bind_eq_Some_conv dest!: mload_length)
  consider (zero) "n = 0" | (part) "0 < n" "n < iov_len v" | (all) "0 < n" "iov_len v \<le> n" using 2(3) by linarith
  then show ?case
  proof cases
    case zero
    then show ?thesis using 2(2) sum [OF 2(2)] by simp
  next
    case part
    have "mload m (padd (iov_base v) n) (iov_len v - n) = Some (drop (nat n) ys)"
      using mload_suffix [OF v(1)] part by simp
    then show ?thesis using part v len sum [OF v(2)] by (simp add: iov_sum_def nat_le_iff)
  next
    case all
    have "gather (dpioc_iov_advance vs (n - iov_len v)) m = Some (drop (nat (n - iov_len v)) zs) \<and>
        iov_sum (dpioc_iov_advance vs (n - iov_len v)) = int (length zs) - (n - iov_len v)"
      using 2(1) [OF all(1) _ v(2)] all 2(4) v(3) len by simp
    moreover have "nat n = length ys + nat (n - iov_len v)" using len all by linarith
    ultimately show ?thesis using all v(3) len by simp
  qed
qed (simp add: iov_sum_def)

theorem iov_advance_rest_witness:
  "gather (dpioc_iov_advance [\<lparr>iov_base = Pobj 8 0, iov_len = 2\<rparr>, \<lparr>iov_base = Pobj 8 2, iov_len = 2\<rparr>] 3) io_machine
     = Some [71]"
proof -
  have g: "gather [\<lparr>iov_base = Pobj 8 0, iov_len = 2\<rparr>, \<lparr>iov_base = Pobj 8 2, iov_len = 2\<rparr>] io_machine
      = Some [68, 69, 70, 71]"
    by (simp add: mload_def region_def mem_read_def io_demo seg_def peek_def)
  show ?thesis using iov_advance_rest [OF g, of 3] by simp
qed

section \<open>The operations under the loop\<close>

text \<open>
  C7.  No lost edge.  When the loop feeds events to an element with a read in progress, the wake
  returns, and afterwards no event is both available and wanted; so the edge-triggered descriptor is
  waited for only when the kernel will report it again.  An operation that is over wants nothing.
\<close>

theorem feed_loses_no_edge:
  assumes "io_good has_room w a" and "eles w a = Some e" and "asc_type e = Some t"
    and "asc_post (ascs env t) = Some (on_io dpgfd_read_post)"
  shows "\<exists>w' over e'. dpefd_feed env w a events = Some (w', over) \<and> io_good has_room w' a \<and>
    eles w' a = Some e' \<and> able_events e' AND want_events e' = 0 \<and>
    (if over then want_events e' = 0 \<and> ret e' \<noteq> DPE_WAIT else True)"
  using rd.wake.feed_returns [OF assms(1-3) assms(4) [unfolded dpgfd_read_post_def], of events] by auto

definition io_world :: aworld where
  "io_world = \<lparr>eles = [9 \<mapsto> io_ele\<lparr>want_events := DPEVT_IN, asc_type := Some 3,
       asc_data := Some (24, Some (Sio (stm_io (stm_asked 7))))\<rparr>], ele_brk = 15,
     deqs = (\<lambda>_. \<lparr>dq_head = None, dq_tail = None\<rparr>), evps = (\<lambda>i. dpevp_zero\<lparr>evp_id := i\<rparr>),
     gevp = Some 2, gcount = 3, type_count = 2, each_count = [1, 2], each_ids = [[0], [1, 2]],
     eventfd = (\<lambda>_. 0), interest = (\<lambda>_ _. None), wake_interest = (\<lambda>_. None), fd_flags = (\<lambda>_. None),
     closed = [], errno = 0, clock = (\<lambda>_. 1000), clock_reads = 0, mem_ok = (\<lambda>_. True), mem_calls = 0,
     sys_err = (\<lambda>_. None), sys_calls = 0, ext = io_machine\<rparr>"

definition io_env :: "(scratch, machine) env" where
  "io_env = \<lparr>ascs = (\<lambda>t. if t = 3 then dpgfd_read else if t = 4 then dptmr_callback (\<lambda>_ _ _ w. Some w) else dpefd_poll),
     fn_init = (\<lambda>_ _ _ w. Some (w, 0)), fn_copy = (\<lambda>_ xs. (xs, 0)), fn_fini = (\<lambda>_ _ w. w)\<rparr>"

theorem feed_loses_no_edge_witness:
  "\<exists>w' over e'. dpefd_feed io_env io_world 9 DPEVT_IN = Some (w', over) \<and> eles w' 9 = Some e' \<and>
    able_events e' AND want_events e' = 0"
proof -
  let ?e = "io_ele\<lparr>want_events := DPEVT_IN, asc_type := Some 3,
       asc_data := Some (24, Some (Sio (stm_io (stm_asked 7))))\<rparr>"
  have e: "eles io_world 9 = Some ?e" by (simp add: io_world_def)
  have "has_room 5 (stm_io (stm_asked 7)) io_machine"
    by (simp add: has_room_def stm_asked_def io_demo mload_def region_def mem_read_def errors_positive_def)
  then have "io_good has_room io_world 9"
    by (simp add: io_good_def io_world_def) (simp add: io_demo stm_asked_def)
  moreover have "asc_post (ascs io_env 3) = Some (on_io dpgfd_read_post)"
    by (simp add: io_env_def dpgfd_read_def DPASC_GFD_FUNCTION_def DPASC_FUNCTION_def)
  ultimately show ?thesis using feed_loses_no_edge [OF _ e, of 3 io_env DPEVT_IN] by auto
qed



lemma splice_loop_returns:
  assumes "\<And>k n. fst (sys_answer m k (req n)) \<le> n" and "0 \<le> i" "i < len" "len \<le> INT_MAX"
  shows "\<exists>m' out' r. splice_loop req len out i m = Some (m', out', r) \<and>
    int (length (sys_log m')) \<le> int (length (sys_log m)) + (len - i) \<and>
    (i \<le> r \<and> r \<le> len \<or> i = 0 \<and> r = - kerrno m')"
  using assms
proof (induction "nat (len - i)" arbitrary: i m rule: less_induct)
  case less
  obtain m1 r1 where c: "sys_call (req (len - i)) m = (m1, r1)" by fastforce
  have r1: "r1 \<le> len - i" "length (sys_log m1) = length (sys_log m) + 1" "sys_answer m1 = sys_answer m"
    using c less.prems(1) [of "length (sys_log m)" "len - i"]
    by (auto simp: sys_call_def Let_def split: prod.splits option.splits)
  note loop = splice_loop.simps [of req len out i m]
  consider (some) "r1 > 0" | (none) "r1 = 0" | (fail) "r1 < 0" by linarith
  then show ?case
  proof cases
    case some
    show ?thesis
    proof (cases "i + r1 = len")
      case True
      then show ?thesis using loop c r1 some less.prems by simp
    next
      case False
      then have lt: "i + r1 < len" using r1(1) by simp
      obtain m' out' r where "splice_loop req len out (i + r1) m1 = Some (m', out', r)"
        "int (length (sys_log m')) \<le> int (length (sys_log m1)) + (len - (i + r1))"
        "i + r1 \<le> r \<and> r \<le> len \<or> i + r1 = 0 \<and> r = - kerrno m'"
        using less.hyps [of "i + r1" m1] less.prems some lt r1(3) by (auto simp: nat_mono_iff)
      then show ?thesis using loop c r1(2) some less.prems(2,4) lt by auto
    qed
  qed (use loop c r1 less.prems in auto)
qed

text \<open>
  C25.  Splicing.  When the kernel never moves more than it was asked to, the splice and tee loops end
  after at most as many calls as bytes, and report a count within the length asked for, or an error.
\<close>

theorem splice_terminates:
  assumes "\<And>k n. fst (sys_answer m k (Sys_splice (in_fd io) (fd e) n (tee_flags io))) \<le> n"
    and "dpgfd_splice_prep va out0 io0 = Some (io, out, DPE_CONTINUE)" and "tee_len io \<le> INT_MAX"
  shows "\<exists>m' out' r. dpgfd_splice_post e out io m = Some (m', out', r) \<and>
    int (length (sys_log m')) \<le> int (length (sys_log m)) + tee_len io \<and>
    (0 \<le> r \<and> r \<le> tee_len io \<or> r = - kerrno m')"
proof -
  have "0 < tee_len io" using assms(2) by (auto simp: dpgfd_splice_prep_def bind_eq_Some_conv split: if_splits)
  from splice_loop_returns [OF assms(1) order_refl this assms(3), of out] show ?thesis
    unfolding dpgfd_splice_post_def by fastforce
qed

theorem splice_terminates_witness:
  "\<exists>m' out' r. dpgfd_splice_post io_ele (want no_out DPEVT_OUT) \<lparr>in_fd = 4, tee_len = 3, tee_flags = 0\<rparr>
      (io_machine\<lparr>sys_answer := (\<lambda>_ q. case q of Sys_splice _ _ n _ \<Rightarrow> (min n 2, None) | _ \<Rightarrow> (0, None))\<rparr>) =
      Some (m', out', r) \<and> int (length (sys_log m')) \<le> 3 \<and> (0 \<le> r \<and> r \<le> 3 \<or> r = - kerrno m')"
proof -
  have "dpgfd_splice_prep [Vint 4, Vint 3, Vint 0] no_out \<lparr>in_fd = 0, tee_len = 0, tee_flags = 0\<rparr> =
      Some (\<lparr>in_fd = 4, tee_len = 3, tee_flags = 0\<rparr>, want no_out DPEVT_OUT, DPE_CONTINUE)"
    by (simp add: dpgfd_splice_prep_def)
  from splice_terminates [OF _ this,
      of "io_machine\<lparr>sys_answer := (\<lambda>_ q. case q of Sys_splice _ _ n _ \<Rightarrow> (min n 2, None) | _ \<Rightarrow> (0, None))\<rparr>" io_ele]
  show ?thesis by (simp add: io_machine_def)
qed

section \<open>Where the operations leave their contract\<close>

text \<open>
  C26.  A count is lost at the end of a stream.  When the peer closes right behind its last bytes and
  they do not fill the buffer, the read takes them off the stream but reports the end of the stream
  without their number, for every buffer, every length and every such stream.
\<close>

theorem read_drops_last_count:
  assumes "has_room (fd e) io m" and "rxq m (fd e) = [Rdata bs, Reof]" and "bs \<noteq> []"
    and "int (length bs) < io_len io" and "io_len io \<le> INT_MAX"
  shows "\<exists>m'. dpgfd_read_post e out io m = Some (m', io, out\<lparr>out_inva := out_want out\<rparr>, DPE_EOF) \<and>
    rxq m' (fd e) = [Reof]"
proof -
  obtain p off b0 where p: "io_ptr io = Some p" "region m p = Some (off, b0)" "0 \<le> off"
    "off + io_len io \<le> int (length b0)"
    using assms(1) by (auto simp: has_room_def mload_Some_iff)
  then obtain m1 where m1: "mstore m (padd p 0) bs = Some m1" "rxq m1 = rxq m"
    using mstore_region [of m p off b0 0 bs] assms(4) by auto
  let ?m = "m1\<lparr>rxq := (rxq m1)(fd e := [Reof])\<rparr>"
  have first: "dpaio_read (fd e) io 0 m = Some (?m, int (length bs))"
    using p(1) m1 assms(2-4) by (simp add: dpaio_read_def sys_recv_def krecv_def nat_le_iff)
  have second: "dpaio_read (fd e) io (int (length bs)) ?m = Some (?m, 0)"
    using p(1) assms(4) by (simp add: dpaio_read_def sys_recv_def krecv_def)
  have "dpaio_buf_loop dpaio_read (fd e) io out 0 m =
      Some (?m, out\<lparr>out_inva := out_want out\<rparr>, DPE_EOF)"
    using first second assms(3-5)
    by (subst dpaio_buf_loop.simps, simp, subst dpaio_buf_loop.simps, simp)
  then show ?thesis by (simp add: dpgfd_read_post_def dpaio_buf_post_def)
qed

theorem read_drops_last_count_witness:
  "\<exists>m'. dpgfd_read_post io_ele no_out (stm_io (stm_asked 7)) io_machine =
      Some (m', stm_io (stm_asked 7), no_out, DPE_EOF) \<and> rxq m' 5 = [Reof]"
proof -
  have "has_room 5 (stm_io (stm_asked 7)) io_machine"
    by (simp add: has_room_def stm_asked_def io_demo mload_def region_def mem_read_def errors_positive_def)
  with read_drops_last_count [of io_ele "stm_io (stm_asked 7)" io_machine "[65, 66, 67]" no_out] show ?thesis
    by (simp add: io_demo stm_asked_def)
qed

text \<open>
  \<open>read_must\<close> stops early.  Its test compares the bytes read so far with what was left before the
  last step, not with the number asked for: with \<open>k\<close> of \<open>n\<close> bytes read, a step of \<open>j\<close> bytes ends the
  operation as soon as \<open>k + j \<ge> n - k\<close>, although bytes are still missing.
\<close>

theorem read_must_stops_short:
  assumes "stm_post tls e 0 out stm m = Some (m1, stm, out1, j)" and "0 < j" and "k + j < n" and "n - k \<le> k + j"
    and "tot stm = k" and "io_len (stm_io stm) = n - k" and "0 \<le> k" and "n \<le> INT_MAX"
    and "buf_seek dpbuf_wseek m1 (stm_buf stm) j SEEK_CUR = Some (m2, i)"
  shows "dpaio_read_must_post tls e out stm m = Some (m2, set_total (k + j) stm, out1, k + j)"
  using assms by (simp add: dpaio_read_must_post_def Let_def)

text \<open>Ten bytes asked for, six read, one more arrives: the operation reports seven.\<close>

definition must_machine :: machine where
  "must_machine = io_machine\<lparr>objs := (objs io_machine)(6 \<mapsto> Obuf (dpbuf_zero\<lparr>wbeg := 6, bsize := 16, bdata := Some 2\<rparr>)),
     bstore := (bstore io_machine)\<lparr>blocks := [2 \<mapsto> \<lparr>dbytes = replicate 17 0, maxs = 16, dflag = 0, refc = 1\<rparr>]\<rparr>,
     rxq := (rxq io_machine)(5 := [Rdata [65]])\<rparr>"

definition must_stm :: dpaio_stm where
  "must_stm = \<lparr>stm_io = io_zero\<lparr>io_ptr := Some (Pblk 2 6), io_len := 4, io_total := 6\<rparr>,
     stm_buf = Some (Pobj 6 0), stm_len = 10, stm_until_len = 0, stm_until = None\<rparr>"

theorem read_must_stops_short_witness:
  "\<exists>m stm out. dpaio_read_must_post no_tls io_ele no_out must_stm must_machine = Some (m, stm, out, 7) \<and> 7 < stm_len stm"
proof -
  let ?d = "\<lparr>dbytes = poke 6 [65] (replicate 17 0), maxs = 16, dflag = 0, refc = 1\<rparr>"
  let ?ms = "must_machine\<lparr>bstore := set_block (bstore must_machine) 2 ?d\<rparr>"
  let ?m1 = "?ms\<lparr>rxq := (rxq ?ms)(5 := [])\<rparr>"
  let ?io = "stm_io must_stm"
  have io: "io_ptr ?io = Some (Pblk 2 6)" "io_len ?io = 4" by (simp_all add: must_stm_def)
  have st: "mstore must_machine (Pblk 2 6) [65] = Some ?ms"
    by (simp add: mstore_def region_def set_region_def mem_write_def must_machine_def)
  have rx: "rxq must_machine 5 = [Rdata [65]]" "rxq ?ms = rxq must_machine" by (simp_all add: must_machine_def)
  have first: "dpaio_read 5 ?io 0 must_machine = Some (?m1, 1)"
    using io st rx by (simp add: dpaio_read_def sys_recv_def krecv_def)
  have second: "dpaio_read 5 ?io 1 ?m1 = Some (?m1\<lparr>kerrno := 11\<rparr>, - 1)"
    using io by (simp add: dpaio_read_def sys_recv_def krecv_def kfail_def)
  have "dpaio_buf_loop dpaio_read 5 ?io no_out 0 must_machine = Some (?m1\<lparr>kerrno := 11\<rparr>, no_out, 1)"
    using first second io
    by (subst dpaio_buf_loop.simps, simp, subst dpaio_buf_loop.simps, simp add: no_out_def)
  then have "stm_post no_tls io_ele 0 no_out must_stm must_machine = Some (?m1\<lparr>kerrno := 11\<rparr>, must_stm, no_out, 1)"
    by (simp add: stm_post_def dpaio_get_asc_def dpgfd_read_post_def dpaio_buf_post_def io_ele_def io_type_def
        dpefd_init_def ele_zero_def)
  moreover obtain m2 i where "buf_seek dpbuf_wseek (?m1\<lparr>kerrno := 11\<rparr>) (stm_buf must_stm) 1 SEEK_CUR = Some (m2, i)"
    by (simp add: buf_seek_def buf_at_def must_stm_def must_machine_def dpbuf_wseek_def)
  ultimately have "dpaio_read_must_post no_tls io_ele no_out must_stm must_machine =
      Some (m2, set_total (6 + 1) must_stm, no_out, 6 + 1)"
    by (intro read_must_stops_short [where n = 10]) (simp_all add: must_stm_def)
  then show ?thesis by (simp add: must_stm_def)
qed

end
