(* ===== verification/Dpasc_Findings.thy ===== *)
theory Dpasc_Findings
  imports Dpasc_Props
begin

text \<open>
  More inputs on which the I/O operations and the loop do not do what their headers say.  Each lemma
  states what the code does there.
\<close>

text \<open>
  C40.  A peer that sends its last bytes and shuts down its sending side raises \<open>EPOLLRDHUP\<close>, which the loop
  turns into \<open>DPEVT_HUP\<close>; a reader waiting for those bytes gets \<open>DPE_CONNRESET\<close> and nothing is read.
\<close>

theorem half_close_reads_nothing:
  assumes "eles w a = Some e" "want_events e \<noteq> 0" "dpele_is_doing e" "ucast events AND (DPEVT_HUP :: 5 word) \<noteq> 0"
  shows "\<exists>w' e'. dpefd_feed env w a events = Some (w', True) \<and> eles w' a = Some e' \<and>
    ret e' = DPE_CONNRESET \<and> ext w' = ext w"
proof -
  have "(able_events e OR ucast events) AND (DPEVT_HUP :: 5 word) \<noteq> 0"
    using assms(4) by (auto simp: bit_eq_iff bit_simps)
  then have "DPEVT_GET_ERR (able_events e OR ucast events) = DPE_CONNRESET" by (simp add: DPEVT_GET_ERR_def)
  then show ?thesis using assms(1-3)
    by (simp add: dpefd_feed_def dpefd_wake_def Let_def dpret_iserr_def dpele_is_doing_def)
qed

theorem half_close_reads_nothing_witness:
  "\<exists>w' e'. dpefd_feed io_env io_world 9 (DPEVT_IN OR DPEVT_HUP) = Some (w', True) \<and> eles w' 9 = Some e' \<and>
    ret e' = DPE_CONNRESET \<and> ext w' = ext io_world"
  by (rule half_close_reads_nothing [where e = "io_ele\<lparr>want_events := DPEVT_IN, asc_type := Some 3, asc_data := asc_data (the (eles io_world 9))\<rparr>"])
    (simp_all add: io_world_def dpele_is_doing_def io_demo)

text \<open>
  \<open>posix_fadvise\<close> returns its error number and does not set \<open>errno\<close>; the wrapper reports the negated
  \<open>errno\<close>, so a failure looks like success whenever the last error was none.
\<close>

theorem fadvise_hides_failure:
  assumes "sys_answer m (length (sys_log m)) (Sys_posix_fadvise (fd e) off (sint len) advice) = (err, None)"
    and "err \<noteq> 0" "kerrno m = 0"
  shows "\<exists>m'. dpefd_fadvise_prep e [Vw64 off, Vw64 len, Vint advice] m = Some (m', DPE_OK)"
  using assms by (simp add: dpefd_fadvise_prep_def dpsyc_ret_ok_def sys_call_def)

theorem fadvise_hides_failure_witness:
  "\<exists>m'. dpefd_fadvise_prep io_ele [Vw64 0, Vw64 0, Vint 77] (io_machine\<lparr>sys_answer := (\<lambda>_ _. (22, None))\<rparr>) =
    Some (m', DPE_OK)"
  by (rule fadvise_hides_failure [where err = 22]) (simp_all add: io_machine_def)

lemma close_leaves_fd:
  assumes "ctl dpefd_close_prep a va out w = Some (w', out', r)" "eles w a = Some e"
  shows "eles w' a = Some e"
  using assms by (auto simp: ctl_def on_machine_def bind_eq_Some_conv)

lemma epoll_ctl_del_eles: "epoll_ctl_del w g f = (w', r) \<Longrightarrow> eles w' = eles w"
  by (auto simp: epoll_ctl_del_def try_sys_def Let_def split: option.splits if_splits)

text \<open>
  \<open>dpefd_close\<close> closes the descriptor but leaves its number in the element, so deleting the element
  closes that number again, whoever owns it by then.
\<close>

theorem closed_twice:
  assumes "ctl dpefd_close_prep a va out w = Some (w1, out', r)" and e: "eles w a = Some e"
    and t: "ty_type (etype e) = DPELE_TYPE_EFD" "fd e \<ge> 0" "is_close e" "ty_fini (etype e) = None" "gevp w1 \<noteq> None"
  shows "\<exists>w2. dpele_del_pri env w1 a = Some w2 \<and> hd (closed w2) = fd e"
proof -
  have e1: "eles w1 a = Some e" using close_leaves_fd [OF assms(1) e] .
  obtain w' r' where u: "dpevp_unwch_efd w1 a = Some (w', r')" "eles w' = eles w1"
  proof -
    obtain g where g: "gevp w1 = Some g" using t(5) by blast
    obtain w' r where "epoll_ctl_del w1 g (fd e) = (w', r)" by fastforce
    then show ?thesis using e1 t(2) g epoll_ctl_del_eles [of w1 g "fd e" w' r]
        that [of w' "if r = 0 then DPE_OK else if errno w' = ENOENT then DPE_OK else - errno w'"]
      by (simp add: dpevp_unwch_efd_def split: if_splits)
  qed
  then show ?thesis using e1 t by (auto simp: dpele_del_pri_def Let_def put_ele_def)
qed

theorem closed_twice_witness:
  "\<exists>w1 out r w2. ctl dpefd_close_prep 9 [] no_out io_world = Some (w1, out, r) \<and>
    dpele_del_pri io_env w1 9 = Some w2 \<and> hd (closed w2) = 5"
proof -
  obtain w1 out r where c: "ctl dpefd_close_prep 9 [] no_out io_world = Some (w1, out, r)" "gevp w1 = Some 2"
    by (auto simp: ctl_def on_machine_def io_world_def dpefd_close_prep_def dpsyc_ret_ok_def sys_call_def
        io_machine_def)
  obtain e where e: "eles io_world 9 = Some e" "ty_type (etype e) = DPELE_TYPE_EFD" "fd e = 5" "is_close e"
    "ty_fini (etype e) = None"
    by (simp add: io_world_def io_ele_def io_type_def dpefd_init_def ele_zero_def)
  from closed_twice [OF c(1) e(1,2) _ e(4,5), of io_env] c e(3) show ?thesis by auto
qed

text \<open>
  Submitting a timer's callback again without naming one is meant to keep the old one, but the loop
  has just zeroed the slots, so the submission is refused; the element loses its operation, and if it
  was armed it stays in the timer set.
\<close>

theorem callback_rearm_refused:
  assumes e: "eles w a = Some e" "ty_type (etype e) = DPELE_TYPE_TMR" "asc_data e = Some (cap, d)" "16 \<le> cap"
    and t: "ascs env t = dptmr_callback cbs" and g: "gevp w = Some i"
  shows "\<exists>w' e'. dpevp_addv env w (Some a) (Some t) [Vdbl sec, Vw64 0, Vw64 x] = Some (w', DPE_INVAL) \<and>
    eles w' a = Some e' \<and> asc_type e' = None \<and> is_timing e' = is_timing e \<and> timer (evps w' i) = timer (evps w i)"
proof -
  have acc: "accepts_type (asc_types (ascs env t)) (ty_type (etype e))"
    "asc_iotypes (ascs env t) = 0" "asc_flags (ascs env t) AND DPASC_FLAG_ALLOW_DOING \<noteq> 0" "asc_datasz (ascs env t) = 16"
    by (simp_all add: t e(2) dptmr_callback_def DPASC_FUNCTION_def accepts_type_def type_bit_def)
  let ?e1 = "e\<lparr>asc_type := Some t, asc_data := Some (cap, None)\<rparr>"
  let ?w1 = "put_ele (put_ele w a (e\<lparr>asc_type := Some t\<rparr>)) a ?e1"
  have data: "dpele_asc_data_pri env (put_ele w a (e\<lparr>asc_type := Some t\<rparr>)) a = Some (?w1, True)"
    using acc(4) e(3,4) by (simp add: dpele_asc_data_pri_def Let_def)
  let ?out = "\<lparr>out_want = 0, out_inva = 0, out_able = ucast (able_events e), out_data = True\<rparr>"
  have prep: "asc_prep (ascs env t) a [Vdbl sec, Vw64 0, Vw64 x] ?out ?w1 =
      Some (put_ele ?w1 a (?e1\<lparr>asc_data := Some (cap, Some (Sv64 0 x))\<rparr>), ?out, DPE_INVAL)"
    by (simp add: t dptmr_callback_def DPASC_FUNCTION_def dptmr_callback_prep_def on_data_def get_v64_def put_ele_def)
  show ?thesis
    using e acc data prep g
    by (simp add: dpevp_addv_def accepts_iotype_def Let_def add_finish_def dpret_isok_def)
qed

definition tmr_world :: aworld where
  "tmr_world = io_world\<lparr>eles := [9 \<mapsto> (ele_zero dptmr_init_type)\<lparr>asc_type := Some 4, is_timing := True,
     asc_data := Some (16, Some (Sv64 99 0))\<rparr>]\<rparr>"

theorem callback_rearm_refused_witness:
  "\<exists>w' e'. dpevp_addv io_env tmr_world (Some 9) (Some 4) [Vdbl 2, Vw64 0, Vw64 5] = Some (w', DPE_INVAL) \<and>
    eles w' 9 = Some e' \<and> asc_type e' = None \<and> is_timing e'"
proof -
  let ?e = "(ele_zero dptmr_init_type)\<lparr>asc_type := Some 4, is_timing := True, asc_data := Some (16, Some (Sv64 99 0))\<rparr>"
  have "eles tmr_world 9 = Some ?e" by (simp add: tmr_world_def)
  moreover have "ty_type (etype ?e) = DPELE_TYPE_TMR" by (simp add: ele_zero_def dptmr_init_type_def)
  moreover have "ascs io_env 4 = dptmr_callback (\<lambda>_ _ _ w. Some w)" by (simp add: io_env_def)
  moreover have "gevp tmr_world = Some 2" by (simp add: tmr_world_def io_world_def)
  ultimately show ?thesis
    using callback_rearm_refused [of tmr_world 9 ?e 16 "Some (Sv64 99 0)" io_env 4 "\<lambda>_ _ _ w. Some w" 2 2 5] by auto
qed

text \<open>
  \<open>read_until\<close> keeps the number of bytes scanned in the field that the socket's read takes as the
  flags of \<open>recv\<close>; when that number has the bit of \<open>MSG_PEEK\<close>, what is received stays in the stream.
\<close>

lemma until_scans_in_flags:
  assumes "stm_post tls e 0 out stm m = Some (m1, stm1, out1, r)" "0 < r" "0 \<le> tot stm1" "1 \<le> stm_until_len stm1"
    and "dpaio_read_until_post tls e out stm m = Some (m', stm', out', DPE_WAIT)"
  shows "io_flag (stm_io stm') = tot stm1 + r"
  using assms by (auto simp: dpaio_read_until_post_def Let_def bind_eq_Some_conv split: if_splits)

lemma peeked_stays:
  assumes "dpaio_recv f io i m = Some (m', r)" "io_flag io AND MSG_PEEK \<noteq> 0" "rxq m f = Rdata bs # q"
    and "i < io_len io" "io_ptr io = Some p" "region m p = Some (off, b0)" "0 \<le> off + i" "off + io_len io \<le> int (length b0)"
  shows "rxq m' = rxq m"
proof -
  let ?got = "take (nat (io_len io - i)) bs"
  have "off + i + int (length ?got) \<le> int (length b0)" using assms(4,8) by simp
  then obtain m1 where "mstore m (padd p i) ?got = Some m1" "rxq m1 = rxq m"
    using mstore_region [OF assms(6,7)] by blast
  then show ?thesis using assms by (auto simp: dpaio_recv_def sys_recv_def krecv_def)
qed

end
