(* ===== verification/Dpwhich.thy ===== *)
theory Dpwhich
  imports Dp_Prelude "HOL-Library.Sublist"
begin

text \<open>
  Paths and program lookup (\<^verbatim>\<open>which.c\<close>): lexical normalisation of a path into the static buffer of
  \<open>PATH_MAX\<close> bytes, absolute paths, the search along \<open>$PATH\<close>, the file tests and \<open>mkdir_p\<close>.
  Strings are those before the terminating zero; \<open>None\<close> is a write behind a buffer.

  The kernel side is a tree of nodes by absolute component list, without symbolic links, walked the
  way POSIX resolves a path.  Which files may be executed, and with which error a directory cannot be
  made, are oracles of the tree.
\<close>

abbreviation (input) PATH_MAX :: nat where "PATH_MAX \<equiv> 4096"
abbreviation (input) ENOENT :: int where "ENOENT \<equiv> 2"
abbreviation (input) EEXIST :: int where "EEXIST \<equiv> 17"
abbreviation (input) ENOTDIR :: int where "ENOTDIR \<equiv> 20"

section \<open>Strings\<close>

fun split_on :: "'a \<Rightarrow> 'a list \<Rightarrow> 'a list list" where
  "split_on d [] = [[]]"
| "split_on d (x # xs) =
     (if x = d then [] # split_on d xs
      else case split_on d xs of [] \<Rightarrow> [[x]] | t # ts \<Rightarrow> (x # t) # ts)"

text \<open>The tokens successive calls of \<open>strtok\<close> give.\<close>

definition strtok :: "'a \<Rightarrow> 'a list \<Rightarrow> 'a list list" where
  "strtok d s = filter (\<lambda>t. t \<noteq> []) (split_on d s)"

text \<open>What \<open>strncpy\<close> into \<open>n\<close> bytes and a zero in the last of them leave of a string.\<close>

definition strncpy :: "nat \<Rightarrow> 'a list \<Rightarrow> 'a list" where
  "strncpy n s = take (n - 1) s"

definition strcat :: "nat \<Rightarrow> string \<Rightarrow> string \<Rightarrow> string option" where
  "strcat n a b = (if length a + length b < n then Some (a @ b) else None)"

section \<open>Normalisation\<close>

fun norm_tokens :: "string list \<Rightarrow> string list \<Rightarrow> string list option" where
  "norm_tokens components [] = Some components"
| "norm_tokens components (token # tokens) =
     (if token = ''..'' then norm_tokens (butlast components) tokens
      else if token = ''.'' then norm_tokens components tokens
      else if length components < PATH_MAX then norm_tokens (components @ [token]) tokens
      else None)"

fun cat_components :: "string \<Rightarrow> string list \<Rightarrow> string option" where
  "cat_components result [] = Some result"
| "cat_components result (c # cs) = do {
     r \<leftarrow> strcat PATH_MAX result c;
     r \<leftarrow> (if cs \<noteq> [] then strcat PATH_MAX r ''/'' else Some r);
     cat_components r cs
   }"

definition normalize_path :: "string \<Rightarrow> string option" where
  "normalize_path path = do {
     components \<leftarrow> norm_tokens [] (strtok CHR ''/'' (strncpy PATH_MAX path));
     result \<leftarrow> strcat PATH_MAX [] ''/'';
     cat_components result components
   }"

section \<open>The file tree\<close>

datatype node = Ndir | Nreg | Nother

record fsys =
  nodes :: "string list \<Rightarrow> node option"
  cwd :: "string option"
  path_env :: "string option"
  may_exec :: "string list \<Rightarrow> bool"
  mkdir_err :: "string list \<Rightarrow> int option"

fun walk :: "fsys \<Rightarrow> string list \<Rightarrow> string list \<Rightarrow> int + string list" where
  "walk fs at [] = Inr at"
| "walk fs at (t # ts) =
     (if nodes fs at \<noteq> Some Ndir then Inl ENOTDIR
      else if t = ''.'' then walk fs at ts
      else if t = ''..'' then walk fs (butlast at) ts
      else if nodes fs (at @ [t]) = None then Inl ENOENT
      else walk fs (at @ [t]) ts)"

definition cwd_at :: "fsys \<Rightarrow> string list" where
  "cwd_at fs = (case cwd fs of Some d \<Rightarrow> strtok CHR ''/'' d | None \<Rightarrow> [])"

definition start_at :: "fsys \<Rightarrow> string \<Rightarrow> string list" where
  "start_at fs path = (if take 1 path = ''/'' then [] else cwd_at fs)"

text \<open>The node a path names, with its place; a path that ends in a slash names a directory.\<close>

definition lookup :: "fsys \<Rightarrow> string \<Rightarrow> int + (string list \<times> node)" where
  "lookup fs path =
     (if path = [] then Inl ENOENT
      else case walk fs (start_at fs path) (strtok CHR ''/'' path) of
        Inl e \<Rightarrow> Inl e
      | Inr at \<Rightarrow>
          (case nodes fs at of
             None \<Rightarrow> Inl ENOENT
           | Some n \<Rightarrow> if last path = CHR ''/'' \<and> n \<noteq> Ndir then Inl ENOTDIR else Inr (at, n)))"

definition access_x :: "fsys \<Rightarrow> string \<Rightarrow> bool" where
  "access_x fs path = (case lookup fs path of Inr (at, _) \<Rightarrow> may_exec fs at | Inl _ \<Rightarrow> False)"

text \<open>\<open>mkdir\<close>: \<open>Inl\<close> the value of \<open>errno\<close>.\<close>

definition mkdir :: "fsys \<Rightarrow> string \<Rightarrow> int + fsys" where
  "mkdir fs path =
     (let ts = strtok CHR ''/'' path in
      if path = [] then Inl ENOENT
      else if ts = [] then Inl EEXIST
      else case walk fs (start_at fs path) (butlast ts) of
        Inl e \<Rightarrow> Inl e
      | Inr at \<Rightarrow>
          if nodes fs at \<noteq> Some Ndir then Inl ENOTDIR
          else if last ts = ''.'' \<or> last ts = ''..'' \<or> nodes fs (at @ [last ts]) \<noteq> None then Inl EEXIST
          else (case mkdir_err fs (at @ [last ts]) of
              Some e \<Rightarrow> Inl e
            | None \<Rightarrow> Inr (fs\<lparr>nodes := (nodes fs)(at @ [last ts] \<mapsto> Ndir)\<rparr>)))"

section \<open>Operations\<close>

text \<open>\<open>snprintf\<close> of a string into \<open>n\<close> bytes.\<close>

definition snprint_s :: "nat \<Rightarrow> string \<Rightarrow> string" where
  "snprint_s n s = take (n - 1) s"

text \<open>The inner option is the null pointer returned when \<open>getcwd\<close> fails.\<close>

definition absolute_path :: "fsys \<Rightarrow> string \<Rightarrow> string option option" where
  "absolute_path fs fullpath =
     (if take 1 fullpath = ''/'' then map_option Some (normalize_path (snprint_s (PATH_MAX + 1) fullpath))
      else case cwd fs of
        None \<Rightarrow> Some None
      | Some d \<Rightarrow> map_option Some (normalize_path (snprint_s (PATH_MAX + 1) (d @ ''/'' @ fullpath))))"

fun find_in :: "fsys \<Rightarrow> string \<Rightarrow> string list \<Rightarrow> string option option" where
  "find_in fs cmd [] = Some None"
| "find_in fs cmd (dir # dirs) =
     (let full = snprint_s PATH_MAX (dir @ ''/'' @ cmd) in
      if access_x fs full then absolute_path fs full else find_in fs cmd dirs)"

definition find_executable :: "fsys \<Rightarrow> bool \<Rightarrow> string \<Rightarrow> string option option" where
  "find_executable fs strdup_ok cmd =
     (if CHR ''/'' \<in> set cmd then (if access_x fs cmd then absolute_path fs cmd else Some None)
      else case path_env fs of
        None \<Rightarrow> Some None
      | Some p \<Rightarrow> if \<not> strdup_ok then Some None else find_in fs cmd (strtok CHR '':'' p))"

definition is_dir :: "fsys \<Rightarrow> string \<Rightarrow> bool" where
  "is_dir fs path = (case lookup fs path of Inr (_, n) \<Rightarrow> n = Ndir | Inl _ \<Rightarrow> False)"

definition is_file :: "fsys \<Rightarrow> string \<Rightarrow> bool" where
  "is_file fs path = (case lookup fs path of Inr (_, n) \<Rightarrow> n = Nreg | Inl _ \<Rightarrow> False)"

text \<open>The loop over the characters behind the first; \<open>pre\<close> is what lies before the one looked at.\<close>

fun mkdir_each :: "fsys \<Rightarrow> string \<Rightarrow> string \<Rightarrow> fsys \<times> bool" where
  "mkdir_each fs pre [] = (fs, True)"
| "mkdir_each fs pre (c # cs) =
     (if c \<noteq> CHR ''/'' then mkdir_each fs (pre @ [c]) cs
      else case mkdir fs pre of
        Inl e \<Rightarrow> if e \<noteq> EEXIST then (fs, False) else mkdir_each fs (pre @ [c]) cs
      | Inr fs1 \<Rightarrow> mkdir_each fs1 (pre @ [c]) cs)"

definition mkdir_p :: "fsys \<Rightarrow> string \<Rightarrow> (fsys \<times> bool) option" where
  "mkdir_p fs path = do {
     normalized \<leftarrow> normalize_path path;
     if normalized = [] then Some (fs, False)
     else
       let tmp = strncpy PATH_MAX normalized;
           (fs1, ok) = mkdir_each fs (take 1 tmp) (drop 1 tmp)
       in if \<not> ok then Some (fs1, False)
          else (case mkdir fs1 tmp of Inl e \<Rightarrow> Some (fs1, e = EEXIST) | Inr fs2 \<Rightarrow> Some (fs2, True))
   }"

end
