(* ===== verification/Dpwhich_Props.thy ===== *)
theory Dpwhich_Props
  imports Dpwhich
begin

text \<open>
  What \<^verbatim>\<open>which.c\<close> promises: a normalised path is canonical and stays as it is when normalised again, it
  names the same node as the path it came from wherever that one resolves, it fits its buffer when the
  path is absolute, and \<open>mkdir_p\<close> leaves the directories it was asked for.
\<close>

section \<open>Tokens\<close>

definition clean :: "'a \<Rightarrow> 'a list \<Rightarrow> bool" where
  "clean d t \<longleftrightarrow> t \<noteq> [] \<and> d \<notin> set t"

fun join :: "'a \<Rightarrow> 'a list list \<Rightarrow> 'a list" where
  "join d [] = []"
| "join d [t] = t"
| "join d (t # ts) = t @ d # join d ts"

lemma split_on_nonempty [simp]: "split_on d s \<noteq> []"
  by (induction d s rule: split_on.induct) (auto split: list.splits)

lemma split_on_clean: "t \<in> set (split_on d s) \<Longrightarrow> d \<notin> set t"
  by (induction d s arbitrary: t rule: split_on.induct) (auto split: list.splits if_splits)

lemma strtok_clean: "t \<in> set (strtok d s) \<Longrightarrow> clean d t"
  by (auto simp: strtok_def clean_def dest: split_on_clean)

lemma split_on_free: "d \<notin> set t \<Longrightarrow> split_on d t = [t]"
  by (induction t) auto

lemma split_on_last: "s \<noteq> [] \<Longrightarrow> last s \<noteq> d \<Longrightarrow> last (split_on d s) \<noteq> []"
proof (induction s)
  case (Cons x xs)
  then show ?case by (cases "split_on d xs") (auto split: if_splits)
qed simp

lemma split_on_append: "d \<notin> set t \<Longrightarrow> split_on d (t @ d # s) = t # split_on d s"
  by (induction t) auto

lemma strtok_simps [simp]: "strtok d [] = []" "strtok d (d # s) = strtok d s"
  by (simp_all add: strtok_def)

lemma strtok_append: "clean d t \<Longrightarrow> strtok d (t @ d # s) = t # strtok d s"
  by (simp add: strtok_def clean_def split_on_append)

lemma strtok_join: "\<forall>t \<in> set ts. clean d t \<Longrightarrow> strtok d (join d ts) = ts"
proof (induction d ts rule: join.induct)
  case (2 d t)
  then show ?case by (simp add: strtok_def clean_def split_on_free)
next
  case (3 d t t' ts)
  then show ?case by (simp add: strtok_append)
qed simp

lemma strtok_two: "strtok d (s @ d # s') = strtok d s @ strtok d s'"
proof (induction s)
  case (Cons x s)
  show ?case
  proof (cases "x = d")
    case False
    obtain t ts where "split_on d s = t # ts" by (metis split_on_nonempty list.exhaust)
    moreover have "split_on d (s @ d # s') = split_on d s @ split_on d s'"
      by (induction d s rule: split_on.induct) (auto split: list.splits)
    ultimately show ?thesis using False Cons by (simp add: strtok_def split: if_splits)
  qed (use Cons in simp)
qed simp

lemma length_join: "ts \<noteq> [] \<Longrightarrow> length (join d ts) + 1 = (\<Sum>t\<leftarrow>ts. Suc (length t))"
  by (induction d ts rule: join.induct) auto

lemma split_on_weight: "(\<Sum>t\<leftarrow>split_on d s. Suc (length t)) = length s + 1"
  by (induction d s rule: split_on.induct) (auto split: list.splits)

lemma filter_weight: "(\<Sum>t\<leftarrow>filter P ts. Suc (length t)) \<le> (\<Sum>t\<leftarrow>ts. Suc (length t))"
  by (induction ts) auto

lemma strtok_weight: "(\<Sum>t\<leftarrow>strtok d s. Suc (length t)) \<le> length s + 1"
  using filter_weight [of "\<lambda>t. t \<noteq> []" "split_on d s"] split_on_weight [of d s] by (simp add: strtok_def)

lemma subseq_weight: "subseq xs ys \<Longrightarrow> (\<Sum>t\<leftarrow>xs. Suc (length t)) \<le> (\<Sum>t\<leftarrow>ys. Suc (length t))"
  by (induction rule: list_emb.induct) auto

lemma count_weight: "\<forall>t \<in> set ts. t \<noteq> [] \<Longrightarrow> 2 * length ts \<le> (\<Sum>t\<leftarrow>ts. Suc (length t))"
proof (induction ts)
  case (Cons t ts)
  then have "1 \<le> length t" "2 * length ts \<le> (\<Sum>t\<leftarrow>ts. Suc (length t))" by (auto simp: Suc_le_eq)
  then show ?case by (simp del: length_greater_0_conv)
qed simp

section \<open>The reference: lexical resolution\<close>

fun resolve :: "string list \<Rightarrow> string list \<Rightarrow> string list" where
  "resolve at [] = at"
| "resolve at (t # ts) =
     (if t = ''..'' then resolve (butlast at) ts else if t = ''.'' then resolve at ts else resolve (at @ [t]) ts)"

definition canonical :: "string list \<Rightarrow> bool" where
  "canonical cs \<longleftrightarrow> (\<forall>c \<in> set cs. clean CHR ''/'' c \<and> c \<noteq> ''.'' \<and> c \<noteq> ''..'')"

definition render :: "string list \<Rightarrow> string" where
  "render cs = CHR ''/'' # join CHR ''/'' cs"

lemma resolve_append: "resolve at (ts @ us) = resolve (resolve at ts) us"
  by (induction at ts rule: resolve.induct) auto

lemma canonical_butlast: "canonical at \<Longrightarrow> canonical (butlast at)"
  by (auto simp: canonical_def dest: in_set_butlastD)

lemma resolve_canonical: "canonical at \<Longrightarrow> \<forall>t \<in> set ts. clean CHR ''/'' t \<Longrightarrow> canonical (resolve at ts)"
proof (induction at ts rule: resolve.induct)
  case (2 at t ts)
  then have ts: "\<forall>t \<in> set ts. clean CHR ''/'' t" and t: "clean CHR ''/'' t" by simp_all
  consider "t = ''..''" | "t = ''.''" | "t \<noteq> ''..''" "t \<noteq> ''.''" by blast
  then show ?case
  proof cases
    case 1
    then show ?thesis using "2.IH"(1) [OF 1 canonical_butlast [OF "2.prems"(1)] ts] by simp
  next
    case c: 2
    then show ?thesis using "2.IH"(2) [OF _ c "2.prems"(1) ts] by simp
  next
    case c: 3
    then have "canonical (at @ [t])" using "2.prems"(1) t by (simp add: canonical_def)
    then show ?thesis using "2.IH"(3) [OF c _ ts] c by simp
  qed
qed simp

lemma resolve_id: "canonical cs \<Longrightarrow> resolve at cs = at @ cs"
proof (induction at cs rule: resolve.induct)
  case (2 at t ts)
  then have "t \<noteq> ''.''" "t \<noteq> ''..''" "canonical ts" by (simp_all add: canonical_def)
  with 2 show ?case by simp
qed simp

lemma butlast_subseq: "subseq (butlast xs) xs"
  by (metis prefixeq_butlast prefix_imp_subseq)

lemma resolve_subseq: "subseq (resolve at ts) (at @ ts)"
proof (induction at ts rule: resolve.induct)
  case (2 at t ts)
  have drop: "subseq (xs @ ts) (at @ t # ts)" if "subseq xs at" for xs
    using that by (intro list_emb_append_mono) auto
  show ?case using 2 drop [of "butlast at"] drop [of at] butlast_subseq [of at]
    by (auto intro: subseq_order.trans)
qed simp

lemma norm_tokens_resolve:
  "length at + length ts \<le> PATH_MAX \<Longrightarrow> norm_tokens at ts = Some (resolve at ts)"
  by (induction at ts rule: norm_tokens.induct) auto

lemma cat_components_join:
  "length r < PATH_MAX \<Longrightarrow> cat_components r cs =
    (if length r + length (join CHR ''/'' cs) < PATH_MAX then Some (r @ join CHR ''/'' cs) else None)"
proof (induction cs arbitrary: r)
  case (Cons t ts)
  show ?case
  proof (cases ts)
    case Nil
    then show ?thesis by (simp add: strcat_def)
  next
    case (Cons t' ts')
    then show ?thesis using Cons.IH [of "r @ t @ ''/''"] by (simp add: strcat_def)
  qed
qed simp

lemma strtok_length: "length (strtok d s) \<le> length s"
proof -
  have "2 * length (strtok d s) \<le> length s + 1"
    using count_weight [of "strtok d s"] strtok_weight [of d s] strtok_clean [of _ d s]
    by (force simp: clean_def)
  then show ?thesis by (cases s) auto
qed

text \<open>The code computes the reference, in a buffer that may be too short.\<close>

lemma normalize_path_eq:
  "normalize_path path =
    (let cs = resolve [] (strtok CHR ''/'' (take 4095 path))
     in if length (render cs) < PATH_MAX then Some (render cs) else None)"
proof -
  let ?ts = "strtok CHR ''/'' (take 4095 path)"
  have "length ?ts \<le> PATH_MAX" using strtok_length [of "CHR ''/''" "take 4095 path"] by simp
  then have "norm_tokens [] ?ts = Some (resolve [] ?ts)" by (simp add: norm_tokens_resolve)
  then show ?thesis
    by (simp add: normalize_path_def strncpy_def strcat_def cat_components_join render_def Let_def)
qed

lemma length_render_resolve:
  "length (render (resolve [] (strtok CHR ''/'' s))) \<le> max 1 (length s + 1)"
proof (cases "resolve [] (strtok CHR ''/'' s) = []")
  case False
  then show ?thesis
    using length_join [OF False, of "CHR ''/''"] subseq_weight [OF resolve_subseq, of "[]" "strtok CHR ''/'' s"]
      strtok_weight [of "CHR ''/''" s]
    by (simp add: render_def)
qed (simp add: render_def)

lemma render_fits_absolute: "length (render (resolve [] (strtok CHR ''/'' (CHR ''/'' # s)))) \<le> length s + 1"
  using length_render_resolve [of s] by simp

lemma render_bound: "length (render (resolve [] (strtok CHR ''/'' (take 4095 (CHR ''/'' # s))))) < 4096"
proof -
  have "take 4095 (CHR ''/'' # s) = CHR ''/'' # take 4094 s" by (simp add: numeral_eq_Suc)
  then show ?thesis using render_fits_absolute [of "take 4094 s"] by simp
qed

lemma strtok_render: "canonical cs \<Longrightarrow> strtok CHR ''/'' (render cs) = cs"
  by (simp add: render_def strtok_join canonical_def)

lemma canonical_tokens: "canonical (resolve [] (strtok CHR ''/'' s))"
  by (rule resolve_canonical) (auto simp: canonical_def dest: strtok_clean)

section \<open>Normalisation\<close>


section \<open>Resolution in the tree\<close>

lemma walk_append:
  "walk fs at (ts @ us) = (case walk fs at ts of Inl e \<Rightarrow> Inl e | Inr at' \<Rightarrow> walk fs at' us)"
  by (induction fs at ts rule: walk.induct) auto

lemma walk_start_dir: "walk fs at ts = Inr r \<Longrightarrow> ts \<noteq> [] \<Longrightarrow> nodes fs at = Some Ndir"
  by (cases ts) (auto split: if_splits)

lemma walk_canonical: "canonical cs \<Longrightarrow> walk fs at cs = Inr r \<Longrightarrow> r = at @ cs"
proof (induction cs arbitrary: at)
  case (Cons c cs)
  then have "c \<noteq> ''.''" "c \<noteq> ''..''" "canonical cs" by (simp_all add: canonical_def)
  with Cons.prems Cons.IH [of "at @ [c]"] show ?case by (auto split: if_splits)
qed simp

lemma walk_butlast:
  assumes "canonical at" "walk fs [] at = Inr at"
  shows "walk fs [] (butlast at) = Inr (butlast at)"
proof (cases at rule: rev_cases)
  case (snoc xs x)
  have c: "canonical xs" using assms(1) snoc by (simp add: canonical_def)
  obtain b where "walk fs [] xs = Inr b" using assms(2) snoc by (auto simp: walk_append split: sum.splits)
  then show ?thesis using walk_canonical [OF c] snoc by auto
qed simp

text \<open>Where the kernel gets somewhere, the lexical resolution names that place.\<close>

lemma walk_resolve:
  "canonical at \<Longrightarrow> walk fs [] at = Inr at \<Longrightarrow> \<forall>t \<in> set ts. clean CHR ''/'' t \<Longrightarrow> walk fs at ts = Inr r \<Longrightarrow>
    resolve at ts = r \<and> walk fs [] r = Inr r"
proof (induction ts arbitrary: at)
  case (Cons t ts)
  have d: "nodes fs at = Some Ndir" using Cons.prems(4) by (simp split: if_splits)
  consider "t = ''..''" | "t = ''.''" | "t \<noteq> ''..''" "t \<noteq> ''.''" by blast
  then show ?case
  proof cases
    case 1
    then show ?thesis using Cons.IH [of "butlast at"] Cons.prems d
      by (simp add: canonical_butlast walk_butlast)
  next
    case 2
    then show ?thesis using Cons.IH [of at] Cons.prems d by simp
  next
    case c: 3
    then have "canonical (at @ [t])" using Cons.prems(1,3) by (simp add: canonical_def)
    moreover have n: "nodes fs (at @ [t]) \<noteq> None" using Cons.prems(4) c by (auto split: if_splits)
    then have "walk fs [] (at @ [t]) = Inr (at @ [t])"
      using c d Cons.prems(2) by (simp add: walk_append)
    ultimately show ?thesis using Cons.IH [of "at @ [t]"] Cons.prems d c n by simp
  qed
qed simp

lemma last_render:
  assumes "canonical cs"
  shows "last (render cs) = CHR ''/'' \<longleftrightarrow> cs = []"
proof (cases cs rule: rev_cases)
  case (snoc xs x)
  have "clean CHR ''/'' x" using assms snoc by (simp add: canonical_def)
  then have x: "x \<noteq> []" "last x \<noteq> CHR ''/''" by (auto simp: clean_def) (metis last_in_set)
  have "last (join CHR ''/'' (xs @ [x])) = last x \<and> join CHR ''/'' (xs @ [x]) \<noteq> []"
  proof (induction xs)
    case (Cons y ys)
    then show ?case by (cases "ys @ [x]") (auto simp: x)
  qed (simp add: x)
  then show ?thesis using snoc x by (simp add: render_def)
qed (simp add: render_def)

lemma lookup_normalized:
  assumes "lookup fs p = Inr (at, n)" "take 1 p = ''/''" "length p < 4096"
  shows "normalize_path p = Some (render at) \<and> lookup fs (render at) = Inr (at, n) \<and> canonical at"
proof -
  let ?ts = "strtok CHR ''/'' p"
  obtain q where q: "p = CHR ''/'' # q" using assms(2) by (cases p) auto
  have w: "walk fs [] ?ts = Inr at" "nodes fs at = Some n" "last p = CHR ''/'' \<Longrightarrow> n = Ndir"
    using assms(1) q by (auto simp: lookup_def start_at_def split: sum.splits option.splits if_splits)
  have clean: "\<forall>t \<in> set ?ts. clean CHR ''/'' t" by (blast dest: strtok_clean)
  have r: "resolve [] ?ts = at" "walk fs [] at = Inr at"
    using walk_resolve [of "[]" fs ?ts at] w(1) clean by (simp_all add: canonical_def)
  have c: "canonical at" unfolding r(1) [symmetric] by (rule canonical_tokens)
  have "take 4095 p = p" using assms(3) by simp
  moreover have "length (render at) < 4096"
    using render_fits_absolute [of q] assms(3) q r(1) by simp
  ultimately have "normalize_path p = Some (render at)" using r(1) by (simp add: normalize_path_eq Let_def)
  moreover have "lookup fs (render at) = Inr (at, n)"
  proof (cases "at = []")
    case True
    have "n = Ndir"
    proof (cases "?ts = []")
      case False
      then show ?thesis using walk_start_dir [OF w(1)] w(2) True by simp
    next
      case ts: True
      have "last p = CHR ''/''"
      proof (rule ccontr)
        assume l: "last p \<noteq> CHR ''/''"
        moreover have "p \<noteq> []" using q by simp
        ultimately have "last (split_on CHR ''/'' p) \<noteq> []" by (rule split_on_last [rotated])
        then have "last (split_on CHR ''/'' p) \<in> set ?ts" by (simp add: strtok_def)
        then show False using ts by simp
      qed
      then show ?thesis by (rule w(3))
    qed
    then show ?thesis using True w(2) by (simp add: lookup_def render_def start_at_def)
  next
    case False
    then show ?thesis using c w(2) r(2) last_render [OF c]
      by (simp add: lookup_def start_at_def strtok_render) (simp add: render_def)
  qed
  ultimately show ?thesis using c by simp
qed

lemma lookup_cwd:
  assumes "cwd fs = Some d" "take 1 d = ''/''" "walk fs [] (strtok CHR ''/'' d) = Inr (strtok CHR ''/'' d)"
    and "lookup fs path = Inr x" "take 1 path \<noteq> ''/''"
  shows "lookup fs (d @ CHR ''/'' # path) = Inr x"
proof -
  have ne: "path \<noteq> []" using assms(4) by (auto simp: lookup_def)
  have "start_at fs (d @ CHR ''/'' # path) = []" using assms(2) by (cases d) (auto simp: start_at_def)
  moreover have "start_at fs path = strtok CHR ''/'' d" using assms(1,5) by (simp add: start_at_def cwd_at_def)
  moreover have "last (d @ CHR ''/'' # path) = last path" using ne by (simp add: last_append)
  ultimately show ?thesis using assms(3,4) ne
    by (auto simp: lookup_def strtok_two walk_append split: sum.splits option.splits if_splits)
qed

text \<open>
  Wherever the kernel resolves a path, relative to the working directory or not, the absolute path made
  of it is the canonical path of that same node and resolves to it.
\<close>

lemma absolute_path_same_node:
  assumes "cwd fs = Some d" "take 1 d = ''/''" "walk fs [] (strtok CHR ''/'' d) = Inr (strtok CHR ''/'' d)"
    and "lookup fs path = Inr (at, n)" "length d + length path + 1 < 4096"
  shows "absolute_path fs path = Some (Some (render at)) \<and> lookup fs (render at) = Inr (at, n)"
proof (cases "take 1 path = ''/''")
  case True
  then show ?thesis using lookup_normalized [OF assms(4)] assms(5) by (simp add: absolute_path_def snprint_s_def)
next
  case False
  have "take 1 (d @ CHR ''/'' # path) = ''/''" using assms(2) by (cases d) auto
  then show ?thesis
    using lookup_normalized [OF lookup_cwd [OF assms(1-4) False]] False assms(1,5)
    by (simp add: absolute_path_def snprint_s_def)
qed

definition tree :: fsys where
  "tree = \<lparr>nodes = [[] \<mapsto> Ndir, [''usr''] \<mapsto> Ndir, [''usr'', ''bin''] \<mapsto> Ndir, [''usr'', ''bin'', ''app''] \<mapsto> Nreg],
     cwd = Some ''/usr'', path_env = Some ''/nowhere::/usr/bin'', may_exec = (\<lambda>p. p = [''usr'', ''bin'', ''app'']),
     mkdir_err = (\<lambda>p. None)\<rparr>"

lemma find_in_first:
  "find_in fs cmd dirs =
    (case List.find (\<lambda>dir. access_x fs (snprint_s PATH_MAX (dir @ ''/'' @ cmd))) dirs of
       None \<Rightarrow> Some None
     | Some dir \<Rightarrow> absolute_path fs (snprint_s PATH_MAX (dir @ ''/'' @ cmd)))"
  by (induction fs cmd dirs rule: find_in.induct) (auto simp: Let_def)



section \<open>Making directories\<close>

text \<open>The reference: each prefix in turn, the last one like the others.\<close>

fun make_prefixes :: "fsys \<Rightarrow> string list \<Rightarrow> string list \<Rightarrow> fsys \<times> bool" where
  "make_prefixes fs at [] = (fs, True)"
| "make_prefixes fs at (c # cs) =
     (case mkdir fs (render (at @ [c])) of
        Inl e \<Rightarrow> if e \<noteq> EEXIST then (fs, False) else make_prefixes fs (at @ [c]) cs
      | Inr fs1 \<Rightarrow> make_prefixes fs1 (at @ [c]) cs)"

lemma mkdir_each_plain: "CHR ''/'' \<notin> set t \<Longrightarrow> mkdir_each fs pre (t @ s) = mkdir_each fs (pre @ t) s"
  by (induction t arbitrary: pre) auto

lemma join_snoc: "ts \<noteq> [] \<Longrightarrow> join d (ts @ [t]) = join d ts @ d # t"
  by (induction d ts rule: join.induct) auto

lemma render_snoc: "render (at @ [c]) = (if at = [] then ''/'' @ c else render at @ CHR ''/'' # c)"
  by (simp add: render_def join_snoc)

text \<open>The loop of the code, from a component on, followed by its last \<open>mkdir\<close>.\<close>

lemma mkdir_each_prefixes:
  assumes "canonical cs" "cs \<noteq> []" "pre = (if at = [] then ''/'' else render at @ ''/'')"
  shows "(case mkdir_each fs pre (join CHR ''/'' cs) of (fs1, ok) \<Rightarrow>
      if \<not> ok then (fs1, False)
      else (case mkdir fs1 (pre @ join CHR ''/'' cs) of Inl e \<Rightarrow> (fs1, e = EEXIST) | Inr fs2 \<Rightarrow> (fs2, True))) =
    make_prefixes fs at cs"
  using assms
proof (induction cs arbitrary: fs at pre)
  case (Cons c cs)
  have c: "CHR ''/'' \<notin> set c" using Cons.prems(1) by (simp add: canonical_def clean_def)
  have r: "pre @ c = render (at @ [c])" using Cons.prems(3) by (simp add: render_snoc)
  show ?case
  proof (cases cs)
    case Nil
    then show ?thesis using mkdir_each_plain [OF c, of fs pre "[]"] r by (auto split: sum.splits)
  next
    case (Cons c' cs')
    let ?pre = "render (at @ [c]) @ ''/''"
    have j: "pre @ join CHR ''/'' (c # cs) = ?pre @ join CHR ''/'' cs" "join CHR ''/'' (c # cs) = c @ CHR ''/'' # join CHR ''/'' cs"
      using Cons r by (simp_all flip: r)
    have "(case mkdir_each fs ?pre (join CHR ''/'' cs) of (fs1, ok) \<Rightarrow>
        if \<not> ok then (fs1, False)
        else (case mkdir fs1 (?pre @ join CHR ''/'' cs) of
            Inl e \<Rightarrow> (fs1, e = EEXIST) | Inr fs2 \<Rightarrow> (fs2, True))) = make_prefixes fs (at @ [c]) cs" for fs
      using Cons.IH [of ?pre "at @ [c]" fs] Cons.prems(1) Cons by (simp add: canonical_def)
    then show ?thesis unfolding j(1) unfolding j(2) mkdir_each_plain [OF c] by (simp add: r split: sum.splits)
  qed
qed simp

lemma mkdir_p_prefixes:
  assumes "normalize_path path = Some (render cs)" "canonical cs" "length (render cs) < 4096"
  shows "mkdir_p fs path = Some (if cs = [] then (fs, True) else make_prefixes fs [] cs)"
proof -
  have "strncpy 4096 (render cs) = render cs" using assms(3) by (simp add: strncpy_def)
  then have m: "mkdir_p fs path = Some (case mkdir_each fs ''/'' (join CHR ''/'' cs) of (fs1, ok) \<Rightarrow>
      if \<not> ok then (fs1, False)
      else (case mkdir fs1 (''/'' @ join CHR ''/'' cs) of Inl e \<Rightarrow> (fs1, e = EEXIST) | Inr fs2 \<Rightarrow> (fs2, True)))"
    using assms(1) by (simp add: mkdir_p_def render_def split: prod.splits sum.splits)
  show ?thesis
  proof (cases "cs = []")
    case True
    then show ?thesis using m by (simp add: mkdir_def)
  next
    case False
    then show ?thesis unfolding m using mkdir_each_prefixes [OF assms(2) False, of "''/''" "[]" fs] by simp
  qed
qed

lemma mkdir_render:
  assumes "canonical (at @ [c])"
  shows "mkdir fs (render (at @ [c])) =
    (case walk fs [] at of Inl e \<Rightarrow> Inl e
     | Inr _ \<Rightarrow>
        if nodes fs at \<noteq> Some Ndir then Inl ENOTDIR
        else if nodes fs (at @ [c]) \<noteq> None then Inl EEXIST
        else (case mkdir_err fs (at @ [c]) of
            Some e \<Rightarrow> Inl e | None \<Rightarrow> Inr (fs\<lparr>nodes := (nodes fs)(at @ [c] \<mapsto> Ndir)\<rparr>)))"
proof -
  have c: "c \<noteq> ''.''" "c \<noteq> ''..''" "canonical at" using assms by (simp_all add: canonical_def)
  have t: "strtok CHR ''/'' (render (at @ [c])) = at @ [c]" using assms by (rule strtok_render)
  have s: "start_at fs (render (at @ [c])) = []" "render (at @ [c]) \<noteq> []" by (simp_all add: start_at_def render_def)
  show ?thesis
  proof (cases "walk fs [] at")
    case (Inl e)
    then show ?thesis unfolding mkdir_def Let_def t s(1) using s(2) by simp
  next
    case (Inr b)
    then have "b = at" using walk_canonical [OF c(3) Inr] by simp
    then show ?thesis unfolding mkdir_def Let_def t s(1) using s(2) c Inr by (simp split: option.splits)
  qed
qed

lemma walk_error: "walk fs at ts = Inl e \<Longrightarrow> e = ENOTDIR \<or> e = ENOENT"
  by (induction fs at ts rule: walk.induct) (auto split: if_splits)

lemma walk_dirs:
  assumes "canonical at"
  shows "(\<exists>r. walk fs [] at = Inr r) \<and> nodes fs at = Some Ndir \<longleftrightarrow> (\<forall>p. prefix p at \<longrightarrow> nodes fs p = Some Ndir)"
  using assms
proof (induction at rule: rev_induct)
  case (snoc c at)
  have c: "canonical at" "c \<noteq> ''.''" "c \<noteq> ''..''" using snoc.prems by (simp_all add: canonical_def)
  have "(\<exists>r. walk fs [] (at @ [c]) = Inr r) \<longleftrightarrow>
      (\<exists>r. walk fs [] at = Inr r) \<and> nodes fs at = Some Ndir \<and> nodes fs (at @ [c]) \<noteq> None"
    using walk_canonical [OF c(1), of fs "[]"] c(2,3) by (auto simp: walk_append split: sum.splits if_splits)
  then show ?case using snoc.IH [OF c(1)] by (auto simp: prefix_snoc)
qed simp

text \<open>What a step does: it succeeds or finds the name taken only where all directories above are there.\<close>

lemma mkdir_step:
  assumes "canonical (at @ [c])"
  shows "mkdir fs (render (at @ [c])) = Inr fs1 \<Longrightarrow>
      (\<forall>p. prefix p at \<longrightarrow> nodes fs p = Some Ndir) \<and> nodes fs (at @ [c]) = None \<and> mkdir_err fs (at @ [c]) = None \<and>
      fs1 = fs\<lparr>nodes := (nodes fs)(at @ [c] \<mapsto> Ndir)\<rparr>"
    and "mkdir fs (render (at @ [c])) = Inl EEXIST \<Longrightarrow> mkdir_err fs (at @ [c]) \<noteq> Some EEXIST \<Longrightarrow>
      (\<forall>p. prefix p at \<longrightarrow> nodes fs p = Some Ndir) \<and> nodes fs (at @ [c]) \<noteq> None"
    and "\<forall>p. prefix p at \<longrightarrow> nodes fs p = Some Ndir \<Longrightarrow> mkdir fs (render (at @ [c])) =
      (if nodes fs (at @ [c]) \<noteq> None then Inl EEXIST
       else (case mkdir_err fs (at @ [c]) of
            Some e \<Rightarrow> Inl e | None \<Rightarrow> Inr (fs\<lparr>nodes := (nodes fs)(at @ [c] \<mapsto> Ndir)\<rparr>)))"
proof -
  have c: "canonical at" using assms by (simp add: canonical_def)
  note w = walk_dirs [OF c, of fs] mkdir_render [OF assms, of fs]
  show "mkdir fs (render (at @ [c])) = Inr fs1 \<Longrightarrow>
      (\<forall>p. prefix p at \<longrightarrow> nodes fs p = Some Ndir) \<and> nodes fs (at @ [c]) = None \<and> mkdir_err fs (at @ [c]) = None \<and>
      fs1 = fs\<lparr>nodes := (nodes fs)(at @ [c] \<mapsto> Ndir)\<rparr>"
    using w by (auto split: sum.splits if_splits option.splits)
  show "mkdir fs (render (at @ [c])) = Inl EEXIST \<Longrightarrow> mkdir_err fs (at @ [c]) \<noteq> Some EEXIST \<Longrightarrow>
      (\<forall>p. prefix p at \<longrightarrow> nodes fs p = Some Ndir) \<and> nodes fs (at @ [c]) \<noteq> None"
    using w walk_error [of fs "[]" at] by (auto split: sum.splits if_splits option.splits)
  show "\<forall>p. prefix p at \<longrightarrow> nodes fs p = Some Ndir \<Longrightarrow> mkdir fs (render (at @ [c])) =
      (if nodes fs (at @ [c]) \<noteq> None then Inl EEXIST
       else (case mkdir_err fs (at @ [c]) of
            Some e \<Rightarrow> Inl e | None \<Rightarrow> Inr (fs\<lparr>nodes := (nodes fs)(at @ [c] \<mapsto> Ndir)\<rparr>)))"
    using w by (auto split: sum.splits)
qed

text \<open>Only missing prefixes are made, and as directories.\<close>

lemma make_prefixes_frame:
  assumes "canonical (at @ cs)" "make_prefixes fs at cs = (fs', ok)"
  shows "nodes fs' p = nodes fs p \<or>
      nodes fs p = None \<and> nodes fs' p = Some Ndir \<and> p \<noteq> [] \<and> prefix p (at @ cs)"
  using assms
proof (induction cs arbitrary: fs at)
  case (Cons c cs)
  have can: "canonical (at @ [c])" "canonical ((at @ [c]) @ cs)" using Cons.prems by (simp_all add: canonical_def)
  show ?case
  proof (cases "mkdir fs (render (at @ [c]))")
    case (Inr fs1)
    then have "make_prefixes fs1 (at @ [c]) cs = (fs', ok)" using Cons.prems(2) by simp
    from Cons.IH [OF can(2) this] mkdir_step(1) [OF can(1) Inr]
    show ?thesis by (cases "p = at @ [c]") auto
  next
    case (Inl e)
    then show ?thesis using Cons.prems(2) Cons.IH [OF can(2), of fs] by (cases "e = EEXIST") auto
  qed
qed simp

lemma make_prefixes_made:
  assumes "canonical (at @ cs)" "make_prefixes fs at cs = (fs', True)" "\<forall>p. mkdir_err fs p \<noteq> Some EEXIST" "cs \<noteq> []"
  shows "(\<forall>p. strict_prefix p (at @ cs) \<longrightarrow> nodes fs' p = Some Ndir) \<and> nodes fs' (at @ cs) \<noteq> None"
  using assms
proof (induction cs arbitrary: fs at)
  case (Cons c cs)
  have can: "canonical (at @ [c])" "canonical ((at @ [c]) @ cs)" using Cons.prems by (simp_all add: canonical_def)
  have tail: ?case
    if m: "make_prefixes fs1 (at @ [c]) cs = (fs', True)" "\<forall>p. mkdir_err fs1 p \<noteq> Some EEXIST"
      and d: "\<forall>p. prefix p at \<longrightarrow> nodes fs1 p = Some Ndir" "nodes fs1 (at @ [c]) \<noteq> None" for fs1
  proof (cases cs)
    case Nil
    then show ?thesis using m d by (auto simp: strict_prefix_def prefix_snoc)
  next
    case (Cons c' cs')
    then show ?thesis using Cons.IH [OF can(2) m] by simp
  qed
  show ?case
  proof (cases "mkdir fs (render (at @ [c]))")
    case (Inr fs1)
    have "prefix p at \<Longrightarrow> p \<noteq> at @ [c]" for p by (auto dest: prefix_length_le)
    then show ?thesis using tail [of fs1] Cons.prems(2,3) Inr mkdir_step(1) [OF can(1) Inr] by simp
  next
    case (Inl e)
    then have "e = EEXIST" using Cons.prems(2) by (auto split: if_splits)
    then show ?thesis using tail [of fs] Cons.prems(2,3) Inl mkdir_step(2) [OF can(1), of fs] by simp
  qed
qed simp

lemma make_prefixes_complete:
  assumes "canonical (at @ cs)" "make_prefixes fs at cs = (fs', ok)"
    and "\<forall>p. prefix p at \<longrightarrow> nodes fs p = Some Ndir" "\<forall>p. mkdir_err fs p = None"
    and "\<forall>p. strict_prefix p (at @ cs) \<longrightarrow> nodes fs p = None \<or> nodes fs p = Some Ndir"
  shows ok
  using assms
proof (induction cs arbitrary: fs at)
  case (Cons c cs)
  have can: "canonical (at @ [c])" "canonical ((at @ [c]) @ cs)" using Cons.prems by (simp_all add: canonical_def)
  have m: "mkdir fs (render (at @ [c])) = (if nodes fs (at @ [c]) \<noteq> None then Inl EEXIST
     else Inr (fs\<lparr>nodes := (nodes fs)(at @ [c] \<mapsto> Ndir)\<rparr>))"
    using mkdir_step(3) [OF can(1)] Cons.prems(3,4) by simp
  show ?case
  proof (cases cs)
    case Nil
    then show ?thesis using Cons.prems(2) m by (auto split: if_splits)
  next
    case (Cons c' cs')
    have p: "strict_prefix (at @ [c]) (at @ c # cs)" using Cons by (auto simp: strict_prefix_def)
    let ?fs1 = "fs\<lparr>nodes := (nodes fs)(at @ [c] \<mapsto> Ndir)\<rparr>"
    show ?thesis
    proof (cases "nodes fs (at @ [c]) = None")
      case True
      then have "make_prefixes ?fs1 (at @ [c]) cs = (fs', ok)" using Cons.prems(2) m by simp
      then show ?thesis using Cons.IH [OF can(2), of ?fs1] Cons.prems by (simp add: prefix_snoc)
    next
      case False
      then have "make_prefixes fs (at @ [c]) cs = (fs', ok)" "nodes fs (at @ [c]) = Some Ndir"
        using Cons.prems(2,5) m p by auto
      then show ?thesis using Cons.IH [OF can(2), of fs] Cons.prems by (simp add: prefix_snoc)
    qed
  qed
qed simp



section \<open>Inputs on which the operations do not do what their names say\<close>

text \<open>A relative name of 4095 bytes and no slash is one byte too long once the slash is put in front.\<close>

lemma normalize_overflow:
  assumes "CHR ''/'' \<notin> set s" "4095 \<le> length s"
  shows "normalize_path s = None"
proof -
  let ?t = "take 4095 s"
  have l: "length ?t = 4095" using assms(2) by simp
  have "CHR ''/'' \<notin> set ?t" using assms(1) by (auto dest: in_set_takeD)
  then have "strtok CHR ''/'' ?t = [?t]" using l by (auto simp: strtok_def split_on_free)
  moreover have "?t \<noteq> ''.''" "?t \<noteq> ''..''" using l by (auto dest: arg_cong [where f = length])
  ultimately have "resolve [] (strtok CHR ''/'' ?t) = [?t]" by simp
  then show ?thesis using l by (simp add: normalize_path_eq Let_def render_def)
qed

text \<open>A name that is taken by a file is reported as a directory made, and a relative one is made in the root.\<close>

lemma mkdir_p_on_file: "mkdir_p tree ''/usr/bin/app'' = Some (tree, True)"
  by (simp add: mkdir_p_def normalize_path_def strtok_def strncpy_def strcat_def mkdir_def Let_def
      start_at_def) (simp add: tree_def)

lemma mkdir_p_ignores_cwd:
  "\<exists>fs'. mkdir_p tree ''lib'' = Some (fs', True) \<and> nodes fs' [''lib''] = Some Ndir \<and> nodes fs' [''usr'', ''lib''] = None"
  by (simp add: mkdir_p_def normalize_path_def strtok_def strncpy_def strcat_def mkdir_def Let_def
      start_at_def tree_def)

end
