(* ===== verification/Dplog.thy ===== *)
theory Dplog
  imports Dp_Prelude "HOL-Library.Signed_Division"
begin

text \<open>
  Logging (\<^verbatim>\<open>dplog.c\<close>): the level filter, the line built in a buffer of \<open>DPLOG_BUFSZ\<close> bytes and the
  descriptor it is written to.  The state is the logger, the thread's cached broken-down time and
  what the process has written, opened and closed.  A format and its arguments are represented by the
  text they print, \<open>None\<close> for a null format; \<open>localtime\<close> and the results of \<open>open\<close> are oracles.
  The value \<open>None\<close> of an operation is an access outside the buffer.
\<close>

abbreviation (input) DPLOG_BUFSZ :: int where "DPLOG_BUFSZ \<equiv> 2048"

abbreviation (input) DPLOG_L_DEBUG :: int where "DPLOG_L_DEBUG \<equiv> 0"
abbreviation (input) DPLOG_L_INFO :: int where "DPLOG_L_INFO \<equiv> 1"
abbreviation (input) DPLOG_L_NOTICE :: int where "DPLOG_L_NOTICE \<equiv> 2"
abbreviation (input) DPLOG_L_WARN :: int where "DPLOG_L_WARN \<equiv> 3"
abbreviation (input) DPLOG_L_ERROR :: int where "DPLOG_L_ERROR \<equiv> 4"
abbreviation (input) DPLOG_L_ALERT :: int where "DPLOG_L_ALERT \<equiv> 5"

record tm =
  tm_year :: nat
  tm_mon :: nat
  tm_mday :: nat
  tm_hour :: nat
  tm_min :: nat
  tm_sec :: nat

record log_world =
  lg_level :: int
  lg_fd :: int
  lg_ta :: int
  tm_at :: int
  tm_now :: tm
  lg_written :: "(int \<times> string) list"
  lg_opened :: "(string \<times> int) list"
  lg_closed :: "int list"
  open_answer :: "nat \<Rightarrow> int"
  wall_sec :: int
  wall_usec :: int
  localtime :: "int \<Rightarrow> tm"
  thread_id :: int

section \<open>Printing\<close>

definition digit :: "nat \<Rightarrow> char" where
  "digit n = char_of (48 + n mod 10)"

fun dec :: "nat \<Rightarrow> string" where
  "dec n = (if n < 10 then [digit n] else dec (n div 10) @ [digit n])"

declare dec.simps [simp del]

text \<open>The conversions \<open>%0wd\<close> and \<open>%0wld\<close>.\<close>

definition pad0 :: "nat \<Rightarrow> int \<Rightarrow> string" where
  "pad0 w i =
     (let s = dec (nat (abs i)); sign = (if i < 0 then ''-'' else [])
      in sign @ replicate (w - length sign - length s) CHR ''0'' @ s)"

text \<open>\<open>strftime\<close> with \<open>%FT%T\<close>.\<close>

definition stamp :: "tm \<Rightarrow> string" where
  "stamp t = dec (tm_year t) @ ''-'' @ pad0 2 (int (tm_mon t)) @ ''-'' @ pad0 2 (int (tm_mday t)) @ ''T'' @
     pad0 2 (int (tm_hour t)) @ '':'' @ pad0 2 (int (tm_min t)) @ '':'' @ pad0 2 (int (tm_sec t))"

text \<open>
  \<open>snprintf\<close> of a text at an offset of a buffer, with a size that the caller computed as an \<open>int\<close>: a
  negative one is a huge \<open>size_t\<close> and limits nothing.  The result is the length of the text.
\<close>

definition snprintf_at :: "string \<Rightarrow> int \<Rightarrow> int \<Rightarrow> string \<Rightarrow> (string \<times> int) option" where
  "snprintf_at buf off n s =
     (if n = 0 then Some (buf, int (length s))
      else do {
        buf' \<leftarrow> mem_write off ((if n < 0 then s else take (nat n - 1) s) @ [CHR 0x00]) buf;
        Some (buf', int (length s))
      })"

section \<open>Time\<close>

definition dplog_nowtm :: "log_world \<Rightarrow> log_world \<times> tm" where
  "dplog_nowtm w =
     (let t = wall_sec w;
          w1 = (if t > tm_at w then w\<lparr>tm_now := localtime w t, tm_at := t\<rparr> else w)
      in (w1, tm_now w1))"

definition dplog_nowts :: "log_world \<Rightarrow> int \<Rightarrow> 64 word" where
  "dplog_nowts w ta =
     (let u = of_int (wall_sec w) :: 64 word in
      if ta = 0 then u
      else if ta = 1 then u * 1000 + of_int (wall_usec w div 1000)
      else if ta = 2 then u * 1000000 + of_int (wall_usec w)
      else u * 1000 + of_int (wall_usec w div 1000))"

section \<open>Levels\<close>

definition level_names :: "string list" where
  "level_names = [''debug'', ''info'', ''notice'', ''warning'', ''error'', ''alert'']"

definition dplog_curlevel :: "log_world \<Rightarrow> int" where
  "dplog_curlevel w = lg_level w"

definition dplog_curtsacc :: "log_world \<Rightarrow> int" where
  "dplog_curtsacc w = lg_ta w"

definition dplog_lname :: "int \<Rightarrow> string" where
  "dplog_lname l = level_names ! nat (iclamp l 0 5)"

definition dplog_curlname :: "log_world \<Rightarrow> string" where
  "dplog_curlname w = dplog_lname (dplog_curlevel w)"

definition dplog_setlevel :: "log_world \<Rightarrow> int \<Rightarrow> log_world" where
  "dplog_setlevel w l = w\<lparr>lg_level := iclamp l 0 5\<rparr>"

definition dplog_settsacc :: "log_world \<Rightarrow> int \<Rightarrow> log_world" where
  "dplog_settsacc w ta = w\<lparr>lg_ta := iclamp ta 0 2\<rparr>"

definition lower :: "char \<Rightarrow> char" where
  "lower c = (if of_char c \<ge> (65 :: nat) \<and> of_char c \<le> (90 :: nat) then char_of (of_char c + 32 :: nat) else c)"

definition strcasecmp_eq :: "string \<Rightarrow> string \<Rightarrow> bool" where
  "strcasecmp_eq a b \<longleftrightarrow> map lower a = map lower b"

definition dplog_namel :: "string \<Rightarrow> int" where
  "dplog_namel n =
     (if strcasecmp_eq n ''debug'' then DPLOG_L_DEBUG
      else if strcasecmp_eq n ''info'' then DPLOG_L_INFO
      else if strcasecmp_eq n ''notice'' then DPLOG_L_NOTICE
      else if strcasecmp_eq n ''warning'' then DPLOG_L_WARN
      else if strcasecmp_eq n ''error'' then DPLOG_L_ERROR
      else if strcasecmp_eq n ''alert'' then DPLOG_L_ALERT
      else DPLOG_L_ALERT)"

definition dplog_sname :: "int \<Rightarrow> string" where
  "dplog_sname l = [''D'', ''I'', ''N'', ''W'', ''E'', ''A''] ! nat (iclamp l 0 5)"

section \<open>Lines\<close>

definition log_out :: "log_world \<Rightarrow> string \<Rightarrow> log_world" where
  "log_out w s = w\<lparr>lg_written := lg_written w @ [(if lg_fd w \<ge> 0 then lg_fd w else 1, s)]\<rparr>"

definition dplog_print :: "log_world \<Rightarrow> string \<Rightarrow> log_world option" where
  "dplog_print w text = do {
     (txt, sz) \<leftarrow> snprintf_at (replicate 2048 CHR 0x00) 0 DPLOG_BUFSZ text;
     let sz = (if sz < DPLOG_BUFSZ then sz + 1 else DPLOG_BUFSZ);
     txt \<leftarrow> mem_write (sz - 1) [CHR ''\<newline>''] txt;
     out \<leftarrow> mem_read 0 sz txt;
     Some (log_out w out)
   }"

text \<open>The parts of \<open>dplog_vprint\<close>: fraction of the second, thread and level, message and write.\<close>

definition print_fraction :: "log_world \<Rightarrow> string \<times> int \<Rightarrow> (string \<times> int) option" where
  "print_fraction w = (\<lambda>(txt, tsz).
     if lg_ta w \<noteq> 0 then do {
       let ts = sint (dplog_nowts w (lg_ta w));
       (txt, n) \<leftarrow> (if lg_ta w = 1
          then snprintf_at txt tsz (DPLOG_BUFSZ - tsz) (''.'' @ pad0 3 (ts smod 1000))
          else snprintf_at txt tsz (DPLOG_BUFSZ - tsz) (''.'' @ pad0 6 (ts smod 1000000)));
       Some (txt, tsz + n)
     }
     else Some (txt, tsz))"

definition print_head :: "log_world \<Rightarrow> int \<Rightarrow> string option \<Rightarrow> string \<times> int \<Rightarrow> (string \<times> int) option" where
  "print_head w l domain = (\<lambda>(txt, tsz).
     let id = (if thread_id w < 0 then 0 else thread_id w) in do {
       (txt, n) \<leftarrow> (case domain of
           Some d \<Rightarrow> snprintf_at txt tsz (DPLOG_BUFSZ - tsz)
              (''['' @ pad0 3 id @ ''-'' @ dplog_sname l @ '']('' @ d @ '') '')
         | None \<Rightarrow> snprintf_at txt tsz (DPLOG_BUFSZ - tsz) (''['' @ pad0 2 id @ ''-'' @ dplog_sname l @ ''] ''));
       Some (txt, tsz + n)
     })"

definition print_message :: "log_world \<Rightarrow> string \<Rightarrow> string \<times> int \<Rightarrow> log_world option" where
  "print_message w text = (\<lambda>(txt, tsz). do {
     (txt, sz) \<leftarrow> snprintf_at txt tsz (DPLOG_BUFSZ - tsz) text;
     let tsz = (if sz \<ge> DPLOG_BUFSZ - tsz then DPLOG_BUFSZ - 1 else tsz + sz);
     txt \<leftarrow> mem_write tsz [CHR ''\<newline>''] txt;
     out \<leftarrow> mem_read 0 (tsz + 1) txt;
     Some (log_out w out)
   })"

definition dplog_vprint :: "log_world \<Rightarrow> int \<Rightarrow> string option \<Rightarrow> string option \<Rightarrow> log_world option" where
  "dplog_vprint w l domain fmt =
     (case fmt of
        None \<Rightarrow> Some w
      | Some text \<Rightarrow>
          if l < lg_level w then Some w
          else let (w, ntm) = dplog_nowtm w; s = stamp ntm in do {
            txt \<leftarrow> (if length s < 2048 then snprintf_at (replicate 2048 CHR 0x00) 0 DPLOG_BUFSZ s else None);
            txt \<leftarrow> print_fraction w txt;
            txt \<leftarrow> print_head w l domain txt;
            print_message w text txt
          })"

text \<open>The file is created with the mode the code passes, the decimal number 644.\<close>

definition dplog_init :: "log_world \<Rightarrow> string option \<Rightarrow> int \<Rightarrow> int \<Rightarrow> log_world \<times> bool" where
  "dplog_init w file level ta =
     (let file = (case file of None \<Rightarrow> ''/dev/stdout'' | Some f \<Rightarrow> f);
          w1 = w\<lparr>lg_level := iclamp level 0 5, lg_ta := iclamp ta 0 2\<rparr>;
          f = open_answer w1 (length (lg_opened w1));
          w2 = w1\<lparr>lg_opened := lg_opened w1 @ [(file, 644)]\<rparr>
      in if f \<ge> 0 then
           (let w3 = (if lg_fd w2 \<ge> 0 then w2\<lparr>lg_closed := lg_closed w2 @ [lg_fd w2]\<rparr> else w2)
            in (w3\<lparr>lg_fd := f\<rparr>, True))
         else (w2, False))"

section \<open>The functions of the interface\<close>

definition LOG :: "log_world \<Rightarrow> int \<Rightarrow> string option \<Rightarrow> string option \<Rightarrow> log_world option" where
  "LOG w l domain fmt = (if l < dplog_curlevel w then Some w else dplog_vprint w l domain fmt)"

text \<open>Here the comparison is between values of the enumeration type, which is unsigned.\<close>

definition ELOG :: "log_world \<Rightarrow> int \<Rightarrow> string option \<Rightarrow> log_world option" where
  "ELOG w l fmt = (if l mod 2 ^ 32 < dplog_curlevel w mod 2 ^ 32 then Some w else dplog_vprint w l None fmt)"

definition dplog_write :: "log_world \<Rightarrow> int \<Rightarrow> string option \<Rightarrow> string option \<Rightarrow> log_world option" where
  "dplog_write w level domain fmt = LOG w level domain fmt"

definition dplog_debug :: "log_world \<Rightarrow> string option \<Rightarrow> string option \<Rightarrow> log_world option" where
  "dplog_debug w domain fmt = LOG w DPLOG_L_DEBUG domain fmt"

definition dplog_info :: "log_world \<Rightarrow> string option \<Rightarrow> string option \<Rightarrow> log_world option" where
  "dplog_info w domain fmt = LOG w DPLOG_L_INFO domain fmt"

definition dplog_notice :: "log_world \<Rightarrow> string option \<Rightarrow> string option \<Rightarrow> log_world option" where
  "dplog_notice w domain fmt = LOG w DPLOG_L_NOTICE domain fmt"

definition dplog_warn :: "log_world \<Rightarrow> string option \<Rightarrow> string option \<Rightarrow> log_world option" where
  "dplog_warn w domain fmt = LOG w DPLOG_L_WARN domain fmt"

definition dplog_error :: "log_world \<Rightarrow> string option \<Rightarrow> string option \<Rightarrow> log_world option" where
  "dplog_error w domain fmt = LOG w DPLOG_L_ERROR domain fmt"

definition dplog_alert :: "log_world \<Rightarrow> string option \<Rightarrow> string option \<Rightarrow> log_world option" where
  "dplog_alert w domain fmt = LOG w DPLOG_L_ALERT domain fmt"

definition dpelog_write :: "log_world \<Rightarrow> int \<Rightarrow> string option \<Rightarrow> log_world option" where
  "dpelog_write w level fmt = ELOG w level fmt"

definition dpelog_debug :: "log_world \<Rightarrow> string option \<Rightarrow> log_world option" where
  "dpelog_debug w fmt = ELOG w DPLOG_L_DEBUG fmt"

definition dpelog_info :: "log_world \<Rightarrow> string option \<Rightarrow> log_world option" where
  "dpelog_info w fmt = ELOG w DPLOG_L_INFO fmt"

definition dpelog_notice :: "log_world \<Rightarrow> string option \<Rightarrow> log_world option" where
  "dpelog_notice w fmt = ELOG w DPLOG_L_NOTICE fmt"

definition dpelog_warn :: "log_world \<Rightarrow> string option \<Rightarrow> log_world option" where
  "dpelog_warn w fmt = ELOG w DPLOG_L_WARN fmt"

definition dpelog_error :: "log_world \<Rightarrow> string option \<Rightarrow> log_world option" where
  "dpelog_error w fmt = ELOG w DPLOG_L_ERROR fmt"

definition dpelog_alert :: "log_world \<Rightarrow> string option \<Rightarrow> log_world option" where
  "dpelog_alert w fmt = ELOG w DPLOG_L_ALERT fmt"

end
