(* ===== verification/Dplog_Props.thy ===== *)
theory Dplog_Props
  imports Dplog
begin

text \<open>
  What the logger promises: a message of a sufficient level becomes exactly one line, cut to the buffer, on the
  current descriptor; and when the time and the domain alone are longer than the buffer, the next write
  is outside it.
\<close>

section \<open>Texts put one after the other\<close>

text \<open>The buffer holds the text so far, of which the last byte may have given way to the zero.\<close>

definition holds_text :: "string \<Rightarrow> string \<Rightarrow> bool" where
  "holds_text buf t \<longleftrightarrow> length buf = 2048 \<and> take (min 2047 (length t)) buf = take 2047 t"

lemma holds_text_empty: "holds_text (replicate 2048 c) []"
  by (simp add: holds_text_def)

lemma poke_take: "i \<le> n \<Longrightarrow> i + length ys \<le> length xs \<Longrightarrow> n \<le> i + length ys \<Longrightarrow>
    take n (poke i ys xs) = take i xs @ take (n - i) ys"
  by (simp add: poke_def min_absorb1)

lemma snprintf_at_append:
  assumes "holds_text buf t" "length t \<le> 2048"
  shows "\<exists>buf'. snprintf_at buf (int (length t)) (DPLOG_BUFSZ - int (length t)) s = Some (buf', int (length s)) \<and>
    holds_text buf' (t @ s)"
proof (cases "length t = 2048")
  case True
  then show ?thesis using assms(1) by (simp add: snprintf_at_def holds_text_def)
next
  case False
  then have t: "length t \<le> 2047" using assms(2) by simp
  let ?n = "2047 - length t"
  let ?ys = "take ?n s @ [CHR 0x00]"
  have buf: "length buf = 2048" "take (length t) buf = t" using assms(1) t by (simp_all add: holds_text_def)
  have n: "nat (DPLOG_BUFSZ - int (length t)) - Suc 0 = ?n" by arith
  have w: "snprintf_at buf (int (length t)) (DPLOG_BUFSZ - int (length t)) s =
      Some (poke (length t) ?ys buf, int (length s))"
    using t buf by (simp add: snprintf_at_def n mem_write_def)
  have "take (min 2047 (length t + length s)) (poke (length t) ?ys buf) =
      take (length t) buf @ take (min 2047 (length t + length s) - length t) ?ys"
  proof (rule poke_take)
    show "min 2047 (length t + length s) \<le> length t + length ?ys" by (cases "length s \<le> ?n") auto
  qed (use t buf in auto)
  also have "\<dots> = take 2047 (t @ s)" using t buf by (cases "length s \<le> ?n") (auto simp: min_def)
  finally show ?thesis using w t buf by (simp add: holds_text_def length_poke)
qed

text \<open>Behind the buffer nothing may be written, however short the text.\<close>

lemma snprintf_at_outside:
  "length buf = 2048 \<Longrightarrow> 2048 < k \<Longrightarrow> snprintf_at buf k (DPLOG_BUFSZ - k) s = None"
  by (simp add: snprintf_at_def mem_write_def)

lemma line_end:
  assumes "holds_text buf t" "n = int (min 2047 (length t))"
  shows "\<exists>buf'. mem_write n [c] buf = Some buf' \<and> mem_read 0 (n + 1) buf' = Some (take 2047 t @ [c])"
proof -
  let ?n = "min 2047 (length t)"
  have buf: "length buf = 2048" "take ?n buf = take 2047 t" using assms(1) by (simp_all add: holds_text_def)
  have "mem_write n [c] buf = Some (poke ?n [c] buf)" using buf assms(2) by (simp add: mem_write_def)
  moreover have "take (Suc ?n) (poke ?n [c] buf) = take 2047 t @ [c]"
    using buf poke_take [of ?n "Suc ?n" "[c]" buf] by simp
  then have "mem_read 0 (n + 1) (poke ?n [c] buf) = Some (take 2047 t @ [c])"
    using buf assms(2) by (simp add: mem_read_def seg_def peek_def length_poke nat_add_distrib)
  ultimately show ?thesis by blast
qed

section \<open>Lines\<close>

text \<open>The text in front of a message.\<close>

definition time_part :: "log_world \<Rightarrow> string" where
  "time_part w = stamp (snd (dplog_nowtm w)) @
     (if lg_ta w = 0 then []
      else let ts = sint (dplog_nowts w (lg_ta w))
           in ''.'' @ (if lg_ta w = 1 then pad0 3 (ts smod 1000) else pad0 6 (ts smod 1000000)))"

definition head_part :: "log_world \<Rightarrow> int \<Rightarrow> string option \<Rightarrow> string" where
  "head_part w l domain =
     (let id = (if thread_id w < 0 then 0 else thread_id w) in
      case domain of
        Some d \<Rightarrow> ''['' @ pad0 3 id @ ''-'' @ dplog_sname l @ '']('' @ d @ '') ''
      | None \<Rightarrow> ''['' @ pad0 2 id @ ''-'' @ dplog_sname l @ ''] '')"

lemma dplog_nowtm_fields:
  "dplog_nowtm w = (w', t) \<Longrightarrow> lg_ta w' = lg_ta w \<and> lg_fd w' = lg_fd w \<and> lg_level w' = lg_level w \<and>
    thread_id w' = thread_id w \<and> lg_written w' = lg_written w \<and> dplog_nowts w' ta = dplog_nowts w ta"
  by (auto simp: dplog_nowtm_def dplog_nowts_def Let_def split: if_splits)

lemma print_fraction_append:
  assumes "holds_text txt t" "length t \<le> 2048" "time_part w = t @ ms" "t = stamp (snd (dplog_nowtm w))"
  shows "\<exists>txt'. print_fraction w (txt, int (length t)) = Some (txt', int (length (time_part w))) \<and> holds_text txt' (time_part w)"
  using snprintf_at_append [OF assms(1,2), of "''.'' @ pad0 3 (sint (dplog_nowts w (lg_ta w)) smod 1000)"]
    snprintf_at_append [OF assms(1,2), of "''.'' @ pad0 6 (sint (dplog_nowts w (lg_ta w)) smod 1000000)"]
    assms(1,3,4)
  by (cases "lg_ta w = 0"; cases "lg_ta w = 1") (auto simp: print_fraction_def time_part_def Let_def)

lemma print_head_append:
  assumes "holds_text txt t" "length t \<le> 2048"
  shows "\<exists>txt'. print_head w l domain (txt, int (length t)) = Some (txt', int (length (t @ head_part w l domain))) \<and>
    holds_text txt' (t @ head_part w l domain)"
  using snprintf_at_append [OF assms, of "head_part w l domain"]
  by (cases domain) (auto simp: print_head_def head_part_def Let_def)

lemma print_message_line:
  assumes "holds_text txt t" "length t \<le> 2048"
  shows "print_message w text (txt, int (length t)) = Some (log_out w (take 2047 (t @ text) @ ''\<newline>''))"
proof -
  obtain buf where b: "snprintf_at txt (int (length t)) (DPLOG_BUFSZ - int (length t)) text = Some (buf, int (length text))"
    "holds_text buf (t @ text)"
    using snprintf_at_append [OF assms] by blast
  let ?n = "if int (length text) \<ge> DPLOG_BUFSZ - int (length t) then DPLOG_BUFSZ - 1 else int (length t) + int (length text)"
  have "?n = int (min 2047 (length (t @ text)))" by simp
  from line_end [OF b(2) this] obtain buf' where
    "mem_write ?n [CHR ''\<newline>''] buf = Some buf'" "mem_read 0 (?n + 1) buf' = Some (take 2047 (t @ text) @ ''\<newline>'')"
    by blast
  then show ?thesis by (simp add: print_message_def Let_def b(1) del: take_append)
qed

lemma print_message_outside:
  assumes "holds_text txt t" "2048 < length t"
  shows "print_message w text (txt, int (length t)) = None"
  using assms snprintf_at_outside [of "txt" "int (length t)"] by (simp add: print_message_def holds_text_def)


definition quiet_log :: log_world where
  "quiet_log = \<lparr>lg_level = 2, lg_fd = - 1, lg_ta = 1, tm_at = 0, tm_now = \<lparr>tm_year = 0, tm_mon = 0, tm_mday = 0,
     tm_hour = 0, tm_min = 0, tm_sec = 0\<rparr>, lg_written = [], lg_opened = [], lg_closed = [], open_answer = (\<lambda>n. 7),
     wall_sec = 100, wall_usec = 42000,
     localtime = (\<lambda>t. \<lparr>tm_year = 2001, tm_mon = 9, tm_mday = 9, tm_hour = 1, tm_min = 46, tm_sec = 40\<rparr>), thread_id = 3\<rparr>"


section \<open>Levels, files and clocks\<close>

lemma level_names_roundtrip:
  "l \<in> {0..5} \<Longrightarrow> dplog_namel (dplog_lname l) = l"
proof -
  have all: "\<forall>l \<in> {0, 1, 2, 3, 4, 5}. dplog_namel (dplog_lname l) = l" by code_simp
  assume "l \<in> {0..5}"
  then have "l \<in> {0, 1, 2, 3, 4, 5}" by auto
  with all show ?thesis by blast
qed

text \<open>A name that is no level is the highest level, so it is never an error.\<close>

lemma dplog_namel_range: "0 \<le> dplog_namel n \<and> dplog_namel n \<le> 5"
  by (simp add: dplog_namel_def)

text \<open>\<open>dplog_init\<close> keeps the old file when the new one cannot be opened, but not the old level.\<close>

lemma dplog_init_spec:
  assumes "dplog_init w file level ta = (w', ok)"
  shows "ok = (open_answer w (length (lg_opened w)) \<ge> 0)" "lg_level w' = iclamp level 0 5"
    "lg_fd w' = (if ok then open_answer w (length (lg_opened w)) else lg_fd w)"
    "lg_closed w' = (if ok \<and> lg_fd w \<ge> 0 then lg_closed w @ [lg_fd w] else lg_closed w)"
    "snd (last (lg_opened w')) = 644"
  using assms by (auto simp: dplog_init_def Let_def split: if_splits)

text \<open>As long as the clock does not go back, the broken-down time of a line is that of its second.\<close>

lemma dplog_nowtm_current:
  assumes "tm_at w \<le> wall_sec w" "tm_now w = localtime w (tm_at w)"
  shows "dplog_nowtm w = (w\<lparr>tm_now := localtime w (wall_sec w), tm_at := wall_sec w\<rparr>, localtime w (wall_sec w))"
  using assms by (auto simp: dplog_nowtm_def Let_def)

lemma dplog_nowts_millis:
  assumes "0 \<le> wall_sec w" "wall_sec w < 2 ^ 50" "0 \<le> wall_usec w" "wall_usec w < 1000000"
  shows "uint (dplog_nowts w 1) = (wall_sec w * 1000000 + wall_usec w) div 1000"
proof -
  let ?n = "wall_sec w * 1000 + wall_usec w div 1000"
  have "dplog_nowts w 1 = of_int ?n" by (simp add: dplog_nowts_def Let_def mult.commute)
  moreover have "0 \<le> ?n" "?n < 2 ^ 64" using assms by auto
  ultimately have "uint (dplog_nowts w 1) = ?n" by (simp add: uint_word_of_int take_bit_int_eq_self del: of_int_add of_int_mult)
  also have "?n = (wall_sec w * 1000000 + wall_usec w) div 1000" by simp
  finally show ?thesis .
qed

end
