(* ===== verification/Dpapp.thy ===== *)
theory Dpapp
  imports Dpret Dplog Dpwhich
begin

text \<open>
  Start-up (\<^verbatim>\<open>dpapp.c\<close>): the thread layout built from the options, its release, and the command line.

  The two process-wide structures \<open>_gevps\<close> and \<open>_gapp\<close> are fields of one record, together with the
  allocator: the blocks that are live, the next address and an oracle that says which allocations
  succeed.  \<open>None\<close> is undefined behaviour: a null dereference, a release of what is not live, an index
  outside an array, a signed overflow.  Messages to the log are left out; \<open>dplog_init\<close> is not.
\<close>

section \<open>The allocator\<close>

text \<open>A loop is represented by its id, so its place in the table only says whether it exists.\<close>

datatype ablock = Aints "int list" | Aptrs "nat option list" | Aevps "bool list" | Athreads "bool list" | Astr string

record app =
  heap :: "nat \<Rightarrow> ablock option"
  heap_brk :: nat
  heap_ok :: "nat \<Rightarrow> bool"
  s_evps :: "nat option"
  s_count :: int
  s_type_count :: int
  s_each_count :: "nat option"
  s_each_ids :: "nat option"
  i_machine_id :: int
  i_root_dir :: "nat option"
  i_bin_file :: "nat option"
  i_count :: int
  i_type_count :: int
  i_each_count :: "nat option"
  i_each_ids :: "nat option"
  cpunum :: int
  cpuoff :: int
  threads :: "nat option"
  blocked :: "int list"
  bound :: "(int \<times> int) list"
  alog :: log_world

definition app_alloc :: "app \<Rightarrow> ablock \<Rightarrow> app \<times> nat option" where
  "app_alloc s b =
     (let a = heap_brk s; s1 = s\<lparr>heap_brk := a + 1\<rparr>
      in if heap_ok s a then (s1\<lparr>heap := (heap s1)(a \<mapsto> b)\<rparr>, Some a) else (s1, None))"

text \<open>\<open>DP_FREE\<close>.\<close>

definition app_free :: "app \<Rightarrow> nat option \<Rightarrow> app option" where
  "app_free s p =
     (case p of
        None \<Rightarrow> Some s
      | Some a \<Rightarrow> if heap s a = None then None else Some (s\<lparr>heap := (heap s)(a := None)\<rparr>))"

definition ints_at :: "app \<Rightarrow> nat option \<Rightarrow> int list option" where
  "ints_at s p = (case p of Some a \<Rightarrow> (case heap s a of Some (Aints l) \<Rightarrow> Some l | _ \<Rightarrow> None) | None \<Rightarrow> None)"

definition ptrs_at :: "app \<Rightarrow> nat option \<Rightarrow> nat option list option" where
  "ptrs_at s p = (case p of Some a \<Rightarrow> (case heap s a of Some (Aptrs l) \<Rightarrow> Some l | _ \<Rightarrow> None) | None \<Rightarrow> None)"

definition evps_at :: "app \<Rightarrow> nat option \<Rightarrow> bool list option" where
  "evps_at s p = (case p of Some a \<Rightarrow> (case heap s a of Some (Aevps l) \<Rightarrow> Some l | _ \<Rightarrow> None) | None \<Rightarrow> None)"

definition set_blk :: "app \<Rightarrow> nat option \<Rightarrow> ablock \<Rightarrow> app" where
  "set_blk s p b = (case p of Some a \<Rightarrow> s\<lparr>heap := (heap s)(a \<mapsto> b)\<rparr> | None \<Rightarrow> s)"

definition set_int :: "app \<Rightarrow> nat option \<Rightarrow> int \<Rightarrow> int \<Rightarrow> app option" where
  "set_int s p i x = do {
     l \<leftarrow> ints_at s p;
     if 0 \<le> i \<and> i < int (length l) then Some (set_blk s p (Aints (l[nat i := x]))) else None
   }"

definition set_ptr :: "app \<Rightarrow> nat option \<Rightarrow> int \<Rightarrow> nat option \<Rightarrow> app option" where
  "set_ptr s p i x = do {
     l \<leftarrow> ptrs_at s p;
     if 0 \<le> i \<and> i < int (length l) then Some (set_blk s p (Aptrs (l[nat i := x]))) else None
   }"

definition set_evp :: "app \<Rightarrow> nat \<Rightarrow> app option" where
  "set_evp s i = do {
     l \<leftarrow> evps_at s (s_evps s);
     if i < length l then Some (set_blk s (s_evps s) (Aevps (l[i := True]))) else None
   }"

text \<open>The id table as the loops read it, row by row.\<close>

fun rows_at :: "app \<Rightarrow> nat option list \<Rightarrow> int list list option" where
  "rows_at s [] = Some []"
| "rows_at s (p # ps) = do {
     r \<leftarrow> (if p = None then Some [] else ints_at s p);
     rs \<leftarrow> rows_at s ps;
     Some (r # rs)
   }"

section \<open>Options\<close>

record dpapp_arg =
  ar_argc :: int
  ar_argv :: "string list"
  ar_machine_id :: int
  ar_type_count :: int
  ar_each_count :: "int list"
  ar_cpuoff :: int
  ar_log_level :: int
  ar_log_tsacc :: int
  ar_root_dir :: "string option"
  ar_log_file :: "string option"
  ar_bin_file :: "string option"

abbreviation (input) DPAPP_TYPE_MAX :: nat where "DPAPP_TYPE_MAX \<equiv> 64"
abbreviation (input) SIGPIPE :: int where "SIGPIPE \<equiv> 13"

definition dpapp_arg_init :: dpapp_arg where
  "dpapp_arg_init = \<lparr>ar_argc = 0, ar_argv = [], ar_machine_id = 0, ar_type_count = 1,
     ar_each_count = replicate DPAPP_TYPE_MAX 1, ar_cpuoff = 0, ar_log_level = DPLOG_L_NOTICE, ar_log_tsacc = 0,
     ar_root_dir = None, ar_log_file = Some ''/dev/stdout'', ar_bin_file = None\<rparr>"

definition dpapp_arg_free :: "dpapp_arg \<Rightarrow> dpapp_arg" where
  "dpapp_arg_free args = \<lparr>ar_argc = 0, ar_argv = [], ar_machine_id = 0, ar_type_count = 0,
     ar_each_count = replicate DPAPP_TYPE_MAX 0, ar_cpuoff = 0, ar_log_level = 0, ar_log_tsacc = 0,
     ar_root_dir = None, ar_log_file = None, ar_bin_file = None\<rparr>"

section \<open>Layout\<close>

fun free_each :: "app \<Rightarrow> nat option list \<Rightarrow> app option" where
  "free_each s [] = Some s"
| "free_each s (p # ps) = do { s1 \<leftarrow> app_free s p; free_each s1 ps }"

definition dpapp_fini :: "app \<Rightarrow> app option" where
  "dpapp_fini s = do {
     s \<leftarrow> app_free s (s_evps s);
     s \<leftarrow> app_free s (threads s);
     s \<leftarrow> app_free s (s_each_count s);
     s \<leftarrow> (if s_each_ids s = None then Some s
         else do {
           l \<leftarrow> ptrs_at s (s_each_ids s);
           s1 \<leftarrow> (if s_type_count s \<le> int (length l) then free_each s (take (nat (s_type_count s)) l) else None);
           app_free s1 (s_each_ids s1)
         });
     Some (s\<lparr>s_evps := None, s_count := 0, s_type_count := 0, s_each_count := None, s_each_ids := None,
        i_machine_id := 0, i_root_dir := None, i_bin_file := None, i_count := 0, i_type_count := 0,
        i_each_count := None, i_each_ids := None, cpunum := 0, cpuoff := 0, threads := None\<rparr>)
   }"

text \<open>The numbers handed out to one type, from \<open>count\<close> on.\<close>

fun fill_ids :: "nat \<Rightarrow> int \<Rightarrow> int list \<times> int" where
  "fill_ids 0 count = ([], count)"
| "fill_ids (Suc n) count = (let (ids, c) = fill_ids n (count + 1) in (count # ids, c))"

fun layout_from :: "app \<Rightarrow> dpapp_arg \<Rightarrow> nat list \<Rightarrow> (app \<times> bool) option" where
  "layout_from s args [] = Some (s, True)"
| "layout_from s args (i # is) = do {
     pc \<leftarrow> elem_at (ar_each_count args) (int i);
     if pc > 0 then
       (let (s1, p) = app_alloc s (Aints (replicate (nat pc) 0)) in do {
          s2 \<leftarrow> set_ptr s1 (s_each_ids s1) (int i) p;
          if p = None then Some (s2, False)
          else do {
            c \<leftarrow> chk_int (s_count s2 + pc);
            let (ids, c) = fill_ids (nat pc) (s_count s2);
            s3 \<leftarrow> set_int ((set_blk s2 p (Aints ids))\<lparr>s_count := c\<rparr>) (s_each_count s2) (int i) pc;
            layout_from s3 args is
          }
        })
     else do {
       s1 \<leftarrow> set_ptr s (s_each_ids s) (int i) None;
       s2 \<leftarrow> set_int s1 (s_each_count s1) (int i) 0;
       layout_from s2 args is
     }
   }"

fun sum_count :: "dpapp_arg \<Rightarrow> nat list \<Rightarrow> int \<Rightarrow> int option" where
  "sum_count args [] thread_count = Some thread_count"
| "sum_count args (i # is) thread_count = do {
     c \<leftarrow> elem_at (ar_each_count args) (int i);
     t \<leftarrow> chk_int (thread_count + c);
     sum_count args is t
   }"

definition fini_with :: "app \<Rightarrow> dpret \<Rightarrow> (app \<times> dpret) option" where
  "fini_with s r = do { s1 \<leftarrow> dpapp_fini s; Some (s1, r) }"

text \<open>\<open>dpapp_init\<close> from the allocation of the tables on, from the table of the loops on, and from the strings on.\<close>

definition init_strings :: "app \<Rightarrow> dpapp_arg \<Rightarrow> string \<Rightarrow> (app \<times> dpret) option" where
  "init_strings s args rootdir =
     (let s = s\<lparr>i_count := s_count s, i_each_count := s_each_count s, i_type_count := s_type_count s,
              i_each_ids := s_each_ids s\<rparr>;
          (s, p) = app_alloc s (Astr rootdir);
          s = s\<lparr>i_root_dir := p\<rparr>
      in if p = None then fini_with s DPE_NOMEM
         else case ar_bin_file args of
           None \<Rightarrow> Some (s, DPE_OK)
         | Some b \<Rightarrow>
             (let (s, p) = app_alloc s (Astr b); s = s\<lparr>i_bin_file := p\<rparr>
              in if p = None then fini_with s DPE_NOMEM else Some (s, DPE_OK)))"

definition init_loops :: "app \<Rightarrow> dpapp_arg \<Rightarrow> string \<Rightarrow> (app \<times> dpret) option" where
  "init_loops s args rootdir =
     (let (s, e) = app_alloc s (Aevps (replicate (nat (s_count s)) False)); s = s\<lparr>s_evps := e\<rparr>
      in if e = None then fini_with s DPE_NOMEM
         else
           let (s, t) = app_alloc s (Athreads (replicate (nat (s_count s)) False)); s = s\<lparr>threads := t\<rparr>
           in if t = None then fini_with s DPE_NOMEM else init_strings s args rootdir)"

definition init_tables :: "app \<Rightarrow> dpapp_arg \<Rightarrow> string \<Rightarrow> (app \<times> dpret) option" where
  "init_tables s args rootdir =
     (let n = nat (ar_type_count args);
          s = s\<lparr>i_machine_id := ar_machine_id args, s_count := 1, s_type_count := ar_type_count args\<rparr>;
          (s, p) = app_alloc s (Aints (replicate n 0));
          s = s\<lparr>s_each_count := p\<rparr>;
          (s, q) = app_alloc s (Aptrs (replicate n None));
          s = s\<lparr>s_each_ids := q\<rparr>
      in if p = None \<or> q = None then fini_with s DPE_NOMEM
         else do {
           s \<leftarrow> set_int s p 0 1;
           let (s, m) = app_alloc s (Aints [0]);
           s \<leftarrow> set_ptr s q 0 m;
           if m = None then fini_with s DPE_NOMEM
           else do {
             s \<leftarrow> set_int s m 0 0;
             (s, ok) \<leftarrow> layout_from s args [1..<n];
             if \<not> ok then fini_with s DPE_NOMEM
             else init_loops s args rootdir
           }
         })"

definition dpapp_init :: "int \<Rightarrow> app \<Rightarrow> dpapp_arg \<Rightarrow> (app \<times> dpret) option" where
  "dpapp_init nprocs s args =
     (if s_evps s \<noteq> None then Some (s, DPE_REPEAT)
      else
        let s = s\<lparr>alog := fst (dplog_init (alog s) (ar_log_file args) (ar_log_level args) (ar_log_tsacc args))\<rparr>
        in case ar_root_dir args of
          None \<Rightarrow> Some (s, DPE_INVAL)
        | Some rootdir \<Rightarrow>
            if ar_type_count args \<le> 0 then Some (s, DPE_INVAL)
            else do {
              thread_count \<leftarrow> sum_count args [0..<nat (ar_type_count args)] 0;
              if thread_count > 255 then Some (s, DPE_INVAL)
              else init_tables (s\<lparr>cpunum := nprocs, cpuoff := ar_cpuoff args, blocked := [SIGPIPE]\<rparr>) args rootdir
            })"

end
