(* ===== verification/Dpapp_Arg.thy ===== *)
theory Dpapp_Arg
  imports Dpapp
begin

text \<open>
  The command line (\<^verbatim>\<open>dpapp_arg_parse\<close>).  The files it looks at are those of a tree, a string it keeps is
  a copy, and copying succeeds.  The value \<open>None\<close> is undefined behaviour: a copy of a null pointer, the release of
  a string that was not allocated, a number outside \<open>int\<close>.
\<close>

section \<open>The functions of the C library\<close>

definition isspace :: "char \<Rightarrow> bool" where
  "isspace c \<longleftrightarrow> c = CHR '' '' \<or> (9 \<le> (of_char c :: nat) \<and> (of_char c :: nat) \<le> 13)"

definition isdigit :: "char \<Rightarrow> bool" where
  "isdigit c \<longleftrightarrow> 48 \<le> (of_char c :: nat) \<and> (of_char c :: nat) \<le> 57"

definition digits_val :: "string \<Rightarrow> int" where
  "digits_val ds = foldl (\<lambda>v c. v * 10 + (of_char c - 48)) 0 ds"

definition atoi :: "string \<Rightarrow> int option" where
  "atoi s =
     (let s1 = dropWhile isspace s;
          neg = (take 1 s1 = ''-'');
          s2 = (if neg \<or> take 1 s1 = ''+'' then drop 1 s1 else s1);
          v = digits_val (takeWhile isdigit s2)
      in chk_int (if neg then - v else v))"

text \<open>
  \<open>dirname\<close> works in the string it is given, unless that one has no slash; then the result is a static string,
  which the flag says.
\<close>

definition strip_slashes :: "string \<Rightarrow> string" where
  "strip_slashes s = rev (dropWhile (\<lambda>c. c = CHR ''/'') (rev s))"

definition dirname :: "string \<Rightarrow> string \<times> bool" where
  "dirname s =
     (if CHR ''/'' \<notin> set s then (''.'', True)
      else
        let s1 = strip_slashes s in
        if s1 = [] then (''/'', False)
        else if CHR ''/'' \<notin> set s1 then (''.'', True)
        else
          let s2 = strip_slashes (rev (dropWhile (\<lambda>c. c \<noteq> CHR ''/'') (rev s1)))
          in (if s2 = [] then ''/'' else s2, False))"

section \<open>Parsing\<close>

text \<open>The test before a value is used: it is missing, or it starts with a dash.\<close>

definition no_value :: "string list \<Rightarrow> bool" where
  "no_value rest = (case rest of [] \<Rightarrow> True | v # _ \<Rightarrow> take 1 v = ''-'')"

text \<open>
  The result of an option: the options with what it set and the arguments behind it, or the end of parsing,
  with the error or with a return value and the arguments from there on.
\<close>

datatype arg_step = Astep dpapp_arg "string list" | Aerror dpapp_arg | Astop dpapp_arg dpret "string list"

text \<open>The options one by one, from their value on.\<close>

definition parse_machine :: "dpapp_arg \<Rightarrow> string list \<Rightarrow> arg_step option" where
  "parse_machine oarg rest =
     (if no_value rest then Some (Aerror oarg)
      else do {
        m \<leftarrow> atoi (hd rest);
        Some (if m < 0 \<or> m > 31 then Aerror oarg else Astep (oarg\<lparr>ar_machine_id := m\<rparr>) (tl rest))
      })"

definition parse_count :: "dpapp_arg \<Rightarrow> string \<Rightarrow> string list \<Rightarrow> arg_step option" where
  "parse_count oarg arg rest =
     (if rest = [] \<or> take 1 (hd rest) = ''-'' \<and> take 1 (drop 1 (hd rest)) \<noteq> ''1'' then Some (Aerror oarg)
      else do {
        n \<leftarrow> atoi (drop 2 arg);
        c \<leftarrow> atoi (hd rest);
        Some (if n < 1 \<or> n > 63 \<or> c > 255 then Aerror oarg
              else Astep (oarg\<lparr>ar_each_count := (ar_each_count oarg)[nat n := c]\<rparr>) (tl rest))
      })"

definition parse_cpu_off :: "dpapp_arg \<Rightarrow> string list \<Rightarrow> arg_step option" where
  "parse_cpu_off oarg rest =
     (if no_value rest then Some (Aerror oarg)
      else do { u \<leftarrow> atoi (hd rest); Some (Astep (oarg\<lparr>ar_cpuoff := u\<rparr>) (tl rest)) })"

definition parse_root_dir :: "fsys \<Rightarrow> dpapp_arg \<Rightarrow> string list \<Rightarrow> arg_step option" where
  "parse_root_dir fs oarg rest =
     (if no_value rest then Some (Aerror oarg)
      else if is_dir fs (hd rest) then do {
        p \<leftarrow> absolute_path fs (hd rest);
        d \<leftarrow> p;
        Some (Astep (oarg\<lparr>ar_root_dir := Some d\<rparr>) (tl rest))
      }
      else Some (Aerror oarg))"

definition parse_log_level :: "dpapp_arg \<Rightarrow> string list \<Rightarrow> arg_step option" where
  "parse_log_level oarg rest =
     (if no_value rest then Some (Aerror oarg)
      else
        let oarg = oarg\<lparr>ar_log_level := dplog_namel (hd rest)\<rparr>
        in Some (if ar_log_level oarg < 0 then Aerror oarg else Astep oarg (tl rest)))"

text \<open>The directory is released after the test; a static one must not be.\<close>

definition parse_log_file :: "fsys \<Rightarrow> dpapp_arg \<Rightarrow> string list \<Rightarrow> arg_step option" where
  "parse_log_file fs oarg rest =
     (if no_value rest then Some (Aerror oarg)
      else
        let (log_dir, static) = dirname (hd rest)
        in if static then None
           else if is_dir fs (hd rest) \<or> \<not> is_dir fs log_dir then Some (Aerror oarg)
           else Some (Astep (oarg\<lparr>ar_log_file := Some (hd rest)\<rparr>) (tl rest)))"

definition parse_log_tsacc :: "dpapp_arg \<Rightarrow> string list \<Rightarrow> arg_step option" where
  "parse_log_tsacc oarg rest =
     (if no_value rest then Some (Aerror oarg)
      else do {
        ta \<leftarrow> atoi (hd rest);
        Some (if ta < 0 \<or> ta > 2 then Aerror oarg else Astep (oarg\<lparr>ar_log_tsacc := ta\<rparr>) (tl rest))
      })"

definition parse_one :: "fsys \<Rightarrow> dpapp_arg \<Rightarrow> string \<Rightarrow> string list \<Rightarrow> arg_step option" where
  "parse_one fs oarg arg rest =
     (if arg = ''-h'' \<or> arg = ''--help'' then Some (Astop oarg 1 (arg # rest))
      else if arg = ''-V'' \<or> arg = ''--version'' then Some (Astop oarg 2 (arg # rest))
      else if arg = ''-m'' \<or> arg = ''--machine'' then parse_machine oarg rest
      else if take 2 arg = ''-n'' then parse_count oarg arg rest
      else if arg = ''-u'' \<or> arg = ''--cpu_off'' then parse_cpu_off oarg rest
      else if arg = ''-d'' \<or> arg = ''--root_dir'' then parse_root_dir fs oarg rest
      else if arg = ''-l'' \<or> arg = ''--log_level'' then parse_log_level oarg rest
      else if arg = ''-o'' \<or> arg = ''--log_file'' then parse_log_file fs oarg rest
      else if arg = ''-t'' \<or> arg = ''--log_tsacc'' then parse_log_tsacc oarg rest
      else Some (Astop oarg 0 (arg # rest)))"

text \<open>The loop; every step takes at least one argument, so as many rounds as arguments are enough.\<close>

fun parse_loop :: "nat \<Rightarrow> fsys \<Rightarrow> dpapp_arg \<Rightarrow> string list \<Rightarrow> arg_step option" where
  "parse_loop fuel fs oarg [] = Some (Astop oarg 0 [])"
| "parse_loop 0 fs oarg (arg # rest) = None"
| "parse_loop (Suc fuel) fs oarg (arg # rest) =
     (case parse_one fs oarg arg rest of
        Some (Astep oarg' rest') \<Rightarrow> parse_loop fuel fs oarg' rest'
      | r \<Rightarrow> r)"

definition dpapp_arg_parse :: "fsys \<Rightarrow> dpapp_arg \<Rightarrow> string list \<Rightarrow> (dpapp_arg \<times> dpret) option" where
  "dpapp_arg_parse fs oarg argv =
     (case argv of
        [] \<Rightarrow> Some (oarg, DPE_INVAL)
      | self # rest \<Rightarrow> do {
          p \<leftarrow> find_executable fs True self;
          bin \<leftarrow> p;
          r \<leftarrow> parse_loop (length rest) fs (oarg\<lparr>ar_bin_file := Some bin\<rparr>) rest;
          (case r of
             Astop oarg r left \<Rightarrow>
               let oarg = (if ar_root_dir oarg = None
                           then oarg\<lparr>ar_root_dir := Some (fst (dirname (fst (dirname bin))))\<rparr> else oarg)
               in Some (oarg\<lparr>ar_argv := left, ar_argc := int (length left)\<rparr>, r)
           | Aerror oarg \<Rightarrow> Some (oarg, DPE_INVAL)
           | Astep oarg left \<Rightarrow> None)
        })"

section \<open>Lemmas\<close>

lemma parse_machine_step: "parse_machine oarg rest = Some (Astep o' l) \<Longrightarrow> l = tl rest"
  by (auto simp: parse_machine_def split: if_splits bind_splits)

lemma parse_count_step: "parse_count oarg arg rest = Some (Astep o' l) \<Longrightarrow> l = tl rest"
  by (simp add: parse_count_def split: if_split_asm bind_split_asm)

lemma parse_cpu_off_step: "parse_cpu_off oarg rest = Some (Astep o' l) \<Longrightarrow> l = tl rest"
  by (auto simp: parse_cpu_off_def split: if_splits bind_splits)

lemma parse_root_dir_step: "parse_root_dir fs oarg rest = Some (Astep o' l) \<Longrightarrow> l = tl rest"
  by (auto simp: parse_root_dir_def split: if_splits bind_splits)

lemma parse_log_level_step: "parse_log_level oarg rest = Some (Astep o' l) \<Longrightarrow> l = tl rest"
  by (auto simp: parse_log_level_def Let_def split: if_splits)

lemma parse_log_file_step: "parse_log_file fs oarg rest = Some (Astep o' l) \<Longrightarrow> l = tl rest"
  by (auto simp: parse_log_file_def Let_def split: if_splits prod.splits)

lemma parse_log_tsacc_step: "parse_log_tsacc oarg rest = Some (Astep o' l) \<Longrightarrow> l = tl rest"
  by (auto simp: parse_log_tsacc_def split: if_splits bind_splits)

lemmas parse_option_steps = parse_machine_step parse_count_step parse_cpu_off_step parse_root_dir_step
  parse_log_level_step parse_log_file_step parse_log_tsacc_step

definition steps_within :: "nat \<Rightarrow> arg_step option \<Rightarrow> bool" where
  "steps_within n r \<longleftrightarrow> (\<forall>o' l. r = Some (Astep o' l) \<longrightarrow> length l \<le> n)"

lemma steps_within_if: "steps_within n a \<Longrightarrow> steps_within n b \<Longrightarrow> steps_within n (if c then a else b)"
  by simp

lemma steps_within_stop: "steps_within n (Some (Astop o' r l))"
  by (simp add: steps_within_def)

lemma steps_within_option:
  "steps_within (length rest) (parse_machine oarg rest)" "steps_within (length rest) (parse_count oarg arg rest)"
  "steps_within (length rest) (parse_cpu_off oarg rest)" "steps_within (length rest) (parse_root_dir fs oarg rest)"
  "steps_within (length rest) (parse_log_level oarg rest)" "steps_within (length rest) (parse_log_file fs oarg rest)"
  "steps_within (length rest) (parse_log_tsacc oarg rest)"
  unfolding steps_within_def by (metis parse_option_steps diff_le_self length_tl)+

lemma parse_one_shorter: "steps_within (length rest) (parse_one fs oarg arg rest)"
  unfolding parse_one_def by (intro steps_within_if steps_within_stop steps_within_option)

text \<open>The rounds given are enough: more make no difference, and the loop never ends on a step.\<close>

lemma parse_loop_enough:
  "length args \<le> fuel \<Longrightarrow> parse_loop (fuel + k) fs oarg args = parse_loop fuel fs oarg args"
proof (induction fuel arbitrary: oarg args)
  case (Suc fuel)
  show ?case
  proof (cases args)
    case (Cons arg rest)
    then show ?thesis using Suc parse_one_shorter [of rest fs oarg arg]
      by (auto simp: steps_within_def split: option.splits arg_step.splits)
  qed simp
qed auto

lemma parse_loop_end: "parse_loop fuel fs oarg args \<noteq> Some (Astep oarg' rest')"
  by (induction fuel fs oarg args rule: parse_loop.induct) (auto split: option.splits arg_step.splits)

end
