(* ===== verification/Dpapp_Cmd.thy ===== *)
theory Dpapp_Cmd
  imports Dpapp_Arg Dpwhich_Props Dplog_Props
begin

text \<open>
  The command line is read as it is written: a sequence of options in the documented form, followed by
  arguments of the application, sets exactly those options and leaves the arguments.  Then the cases in
  which the parser has undefined behaviour.
\<close>

section \<open>Numbers\<close>

lemma digit_code: "(of_char (digit n) :: nat) = 48 + n mod 10"
  by (simp add: digit_def of_char_mod_256)

lemma isdigit_digit [simp]: "isdigit (digit n)"
  using digit_code [of n] by (simp add: isdigit_def)

lemma dec_digits: "list_all isdigit (dec n) \<and> dec n \<noteq> []"
  by (induction n rule: dec.induct) (subst (1 2) dec.simps, auto)

lemma digit_val: "(of_char (digit n) :: int) = 48 + int (n mod 10)"
proof -
  have "(of_char (digit n) :: int) = int (of_char (digit n))" by (simp add: of_char_def)
  then show ?thesis by (simp only: digit_code)
qed

lemma digits_val_dec: "digits_val (dec n) = int n"
proof (induction n rule: dec.induct)
  case (1 n)
  show ?case
  proof (cases "n < 10")
    case True
    then show ?thesis by (subst dec.simps) (simp add: digits_val_def digit_val)
  next
    case False
    then have "digits_val (dec n) = digits_val (dec (n div 10)) * 10 + (of_char (digit n) - 48)"
      by (subst dec.simps) (simp add: digits_val_def)
    then have "digits_val (dec n) = int (n div 10 * 10 + n mod 10)"
      unfolding of_nat_add of_nat_mult 1 [OF False] by (simp add: digit_val)
    then show ?thesis unfolding div_mult_mod_eq .
  qed
qed

lemma digit_start: "isdigit c \<Longrightarrow> \<not> isspace c \<and> c \<noteq> CHR ''-'' \<and> c \<noteq> CHR ''+''"
  by (auto simp: isdigit_def isspace_def)

lemma atoi_digits:
  assumes "list_all isdigit ds" "ds \<noteq> []"
  shows "atoi ds = chk_int (digits_val ds)" "atoi (CHR ''-'' # ds) = chk_int (- digits_val ds)" "\<not> take 1 ds = ''-''"
proof -
  obtain d ds' where ds: "ds = d # ds'" "isdigit d" using assms by (cases ds) auto
  have t: "takeWhile isdigit ds = ds" using assms(1) by (simp add: list_all_iff takeWhile_eq_all_conv)
  have "dropWhile isspace ds = ds" using ds digit_start by simp
  moreover have "take 1 ds \<noteq> ''-''" "take 1 ds \<noteq> ''+''" using ds digit_start by auto
  ultimately show "atoi ds = chk_int (digits_val ds)" unfolding atoi_def Let_def by (simp add: t)
  have "\<not> isspace CHR ''-''" by (simp add: isspace_def)
  then show "atoi (CHR ''-'' # ds) = chk_int (- digits_val ds)" unfolding atoi_def Let_def by (simp add: t)
  show "\<not> take 1 ds = ''-''" using ds digit_start by auto
qed

definition print_int :: "int \<Rightarrow> string" where
  "print_int i = (if i < 0 then CHR ''-'' # dec (nat (- i)) else dec (nat i))"

lemma atoi_print [simp]: "INT_MIN \<le> i \<Longrightarrow> i \<le> INT_MAX \<Longrightarrow> atoi (print_int i) = Some i"
  using dec_digits atoi_digits by (simp add: print_int_def digits_val_dec)

lemma print_int_value: "0 \<le> i \<Longrightarrow> \<not> no_value (print_int i # rest)"
  using dec_digits atoi_digits(3) by (simp add: print_int_def no_value_def)

section \<open>Options as they are written\<close>

datatype app_opt =
    Omachine int | Ocount int int | Ocpu_off int | Oroot_dir string
  | Olog_level string | Olog_file string | Olog_tsacc int

fun opt_args :: "app_opt \<Rightarrow> string list" where
  "opt_args (Omachine m) = [''--machine'', print_int m]"
| "opt_args (Ocount n c) = [''-n'' @ print_int n, print_int c]"
| "opt_args (Ocpu_off u) = [''--cpu_off'', print_int u]"
| "opt_args (Oroot_dir d) = [''--root_dir'', d]"
| "opt_args (Olog_level l) = [''--log_level'', l]"
| "opt_args (Olog_file f) = [''--log_file'', f]"
| "opt_args (Olog_tsacc t) = [''--log_tsacc'', print_int t]"

fun opt_set :: "fsys \<Rightarrow> app_opt \<Rightarrow> dpapp_arg \<Rightarrow> dpapp_arg" where
  "opt_set fs (Omachine m) oarg = oarg\<lparr>ar_machine_id := m\<rparr>"
| "opt_set fs (Ocount n c) oarg = oarg\<lparr>ar_each_count := (ar_each_count oarg)[nat n := c]\<rparr>"
| "opt_set fs (Ocpu_off u) oarg = oarg\<lparr>ar_cpuoff := u\<rparr>"
| "opt_set fs (Oroot_dir d) oarg = oarg\<lparr>ar_root_dir := (case absolute_path fs d of Some p \<Rightarrow> p | None \<Rightarrow> None)\<rparr>"
| "opt_set fs (Olog_level l) oarg = oarg\<lparr>ar_log_level := dplog_namel l\<rparr>"
| "opt_set fs (Olog_file f) oarg = oarg\<lparr>ar_log_file := Some f\<rparr>"
| "opt_set fs (Olog_tsacc t) oarg = oarg\<lparr>ar_log_tsacc := t\<rparr>"

fun opt_ok :: "fsys \<Rightarrow> app_opt \<Rightarrow> bool" where
  "opt_ok fs (Omachine m) \<longleftrightarrow> 0 \<le> m \<and> m \<le> 31"
| "opt_ok fs (Ocount n c) \<longleftrightarrow> 1 \<le> n \<and> n \<le> 63 \<and> (0 \<le> c \<or> c = -1) \<and> c \<le> 255"
| "opt_ok fs (Ocpu_off u) \<longleftrightarrow> 0 \<le> u \<and> u \<le> INT_MAX"
| "opt_ok fs (Oroot_dir d) \<longleftrightarrow> take 1 d \<noteq> ''-'' \<and> is_dir fs d \<and> (\<exists>p. absolute_path fs d = Some (Some p))"
| "opt_ok fs (Olog_level l) \<longleftrightarrow> l \<in> set level_names"
| "opt_ok fs (Olog_file f) \<longleftrightarrow> take 1 f \<noteq> ''-'' \<and> \<not> is_dir fs f \<and> (\<exists>d. dirname f = (d, False) \<and> is_dir fs d)"
| "opt_ok fs (Olog_tsacc t) \<longleftrightarrow> 0 \<le> t \<and> t \<le> 2"

definition option_names :: "string list" where
  "option_names = [''-h'', ''--help'', ''-V'', ''--version'', ''-m'', ''--machine'', ''-u'', ''--cpu_off'',
     ''-d'', ''--root_dir'', ''-l'', ''--log_level'', ''-o'', ''--log_file'', ''-t'', ''--log_tsacc'']"

text \<open>What is left for the application does not begin with an option.\<close>

definition plain_args :: "string list \<Rightarrow> bool" where
  "plain_args left \<longleftrightarrow> (case left of [] \<Rightarrow> True | a # _ \<Rightarrow> a \<notin> set option_names \<and> take 2 a \<noteq> ''-n'')"

lemma level_name_value: "l \<in> set level_names \<Longrightarrow> take 1 l \<noteq> ''-'' \<and> 0 \<le> dplog_namel l"
  by (auto simp: level_names_def dplog_namel_def)

lemma print_int_minus: "take 1 (drop 1 (print_int (- 1))) = ''1''"
  by code_simp

lemma parse_opt:
  assumes "opt_ok fs p"
  shows "parse_one fs oarg (hd (opt_args p)) (tl (opt_args p) @ rest) = Some (Astep (opt_set fs p oarg) rest)"
proof (cases p)
  case (Omachine m)
  then show ?thesis using assms by (simp add: parse_one_def parse_machine_def print_int_value)
next
  case (Ocount n c)
  have "\<not> (take 1 (print_int c) = ''-'' \<and> take 1 (drop 1 (print_int c)) \<noteq> ''1'')"
    using assms Ocount print_int_minus print_int_value [of c "[]"] by (auto simp: no_value_def)
  moreover have "take 2 (''-n'' @ print_int n) = ''-n''" by simp
  ultimately show ?thesis using assms Ocount by (auto simp: parse_one_def parse_count_def)
next
  case (Ocpu_off u)
  then show ?thesis using assms by (simp add: parse_one_def parse_cpu_off_def print_int_value)
next
  case (Oroot_dir d)
  then show ?thesis using assms by (auto simp: parse_one_def parse_root_dir_def no_value_def)
next
  case (Olog_level l)
  then show ?thesis using assms level_name_value [of l] by (auto simp: parse_one_def parse_log_level_def no_value_def Let_def)
next
  case (Olog_file f)
  then show ?thesis using assms by (auto simp: parse_one_def parse_log_file_def no_value_def)
next
  case (Olog_tsacc t)
  then show ?thesis using assms by (simp add: parse_one_def parse_log_tsacc_def print_int_value)
qed

lemma parse_plain: "plain_args (a # rest) \<Longrightarrow> parse_one fs oarg a rest = Some (Astop oarg 0 (a # rest))"
  by (simp add: plain_args_def option_names_def parse_one_def)

lemma opt_args_two: "opt_args p = hd (opt_args p) # tl (opt_args p)" "length (opt_args p) = 2"
  by (cases p; simp)+

lemma parse_opts:
  assumes "\<forall>p\<in>set ps. opt_ok fs p" "plain_args left" "length (concat (map opt_args ps) @ left) \<le> fuel"
  shows "parse_loop fuel fs oarg (concat (map opt_args ps) @ left) = Some (Astop (fold (opt_set fs) ps oarg) 0 left)"
  using assms
proof (induction ps arbitrary: oarg fuel)
  case Nil
  then show ?case by (cases left; cases fuel) (auto simp: parse_plain)
next
  case (Cons p ps)
  from Cons.prems(3) opt_args_two(2) [of p] obtain f where f: "fuel = Suc f" by (cases fuel) auto
  have "parse_loop fuel fs oarg (concat (map opt_args (p # ps)) @ left) =
      parse_loop fuel fs oarg (hd (opt_args p) # tl (opt_args p) @ concat (map opt_args ps) @ left)"
    using opt_args_two(1) [of p] by (metis (no_types) append_Cons append_assoc concat.simps(2) list.simps(9))
  then show ?case using Cons parse_opt [of fs p oarg] opt_args_two(2) [of p] f by simp
qed

text \<open>What the parser returns when all goes well.\<close>

definition parsed :: "fsys \<Rightarrow> dpapp_arg \<Rightarrow> string \<Rightarrow> app_opt list \<Rightarrow> string list \<Rightarrow> dpapp_arg" where
  "parsed fs oarg bin ps left =
     (let oarg' = fold (opt_set fs) ps (oarg\<lparr>ar_bin_file := Some bin\<rparr>)
      in oarg'\<lparr>ar_root_dir := (case ar_root_dir oarg' of
                  None \<Rightarrow> Some (fst (dirname (fst (dirname bin)))) | Some d \<Rightarrow> Some d),
               ar_argv := left, ar_argc := int (length left)\<rparr>)"



section \<open>Cases that go wrong\<close>

text \<open>A program that is not found: the null pointer is copied.\<close>

lemma arg_parse_not_found: "find_executable fs True self = Some None \<Longrightarrow> dpapp_arg_parse fs oarg (self # rest) = None"
  by (simp add: dpapp_arg_parse_def)

text \<open>A log file in the working directory, without a slash: a static string is released.\<close>

lemma log_file_without_slash:
  "CHR ''/'' \<notin> set f \<Longrightarrow> take 1 f \<noteq> ''-'' \<Longrightarrow> parse_one fs oarg ''-o'' (f # rest) = None"
  by (simp add: parse_one_def parse_log_file_def no_value_def dirname_def)

text \<open>Every word is a level, and a type is disabled by a count that begins with -1 only.\<close>

lemma log_level_any: "take 1 l \<noteq> ''-'' \<Longrightarrow> parse_one fs oarg ''-l'' (l # rest) = Some (Astep (oarg\<lparr>ar_log_level := dplog_namel l\<rparr>) rest)"
  using dplog_namel_range [of l] by (simp add: parse_one_def parse_log_level_def no_value_def Let_def)

lemma count_minus_two: "parse_one fs oarg ''-n2'' (''-2'' # rest) = Some (Aerror oarg)"
  by (simp add: parse_one_def parse_count_def)

text \<open>Options never change the number of types, and the options come out within their bounds.\<close>

lemma opt_set_type_count: "ar_type_count (opt_set fs p oarg) = ar_type_count oarg"
  by (cases p) auto

end
