(* ===== verification/Dpapp_Start.thy ===== *)
theory Dpapp_Start
  imports Dpapp Dpevp
begin

text \<open>
  The second half of start-up (\<^verbatim>\<open>dpapp.c\<close>): the loops are created by the operations of the event loop,
  each worker gets its thread, the master runs in the calling one, and at the end, or when something
  fails, every loop of the table is deleted and the layout released.
\<close>

section \<open>Threads\<close>

definition bindcpu :: "app \<Rightarrow> int \<Rightarrow> app option" where
  "bindcpu s i = do {
     x \<leftarrow> chk_int (i + cpuoff s);
     a \<leftarrow> chk_int (abs x);
     if cpunum s \<le> 0 then None else Some (s\<lparr>bound := bound s @ [(i, a mod cpunum s)]\<rparr>)
   }"

text \<open>
  The loops of all types but the first, each with its thread.  \<open>create_ok id\<close> is the outcome of
  \<open>pthread_create\<close>; what the new threads do meanwhile is an argument of \<open>dpapp_start\<close>.
\<close>

fun start_workers ::
  "('d, 's) env \<Rightarrow> (('d, 's) world \<Rightarrow> int) \<Rightarrow> (nat \<Rightarrow> bool) \<Rightarrow> app \<Rightarrow> ('d, 's) world \<Rightarrow> (int \<times> nat) list \<Rightarrow>
     (app \<times> ('d, 's) world \<times> bool) option" where
  "start_workers env epoll_create create_ok s w [] = Some (s, w, True)"
| "start_workers env epoll_create create_ok s w ((t, i) # ws) = do {
     (w1, ok) \<leftarrow> dpevp_new env epoll_create w t i;
     if \<not> ok then Some (s, w1, False)
     else do {
       s1 \<leftarrow> set_evp s i;
       if \<not> create_ok i then Some (s1, w1, False)
       else do { s2 \<leftarrow> bindcpu s1 (int i); start_workers env epoll_create create_ok s2 w1 ws }
     }
   }"

text \<open>Row \<open>t\<close>, column by column: the order of the two loops.\<close>

definition worker_list :: "int list list \<Rightarrow> (int \<times> nat) list" where
  "worker_list ids = concat (map (\<lambda>t. map (\<lambda>i. (int t, nat i)) (ids ! t)) [1..<length ids])"

fun del_all :: "('d, 's) env \<Rightarrow> bool list \<Rightarrow> nat \<Rightarrow> ('d, 's) world \<Rightarrow> ('d, 's) world option" where
  "del_all env [] i w = Some w"
| "del_all env (e # es) i w = (if \<not> e then None else do { w1 \<leftarrow> dpevp_del env w i; del_all env es (i + 1) w1 })"

text \<open>The label \<open>error\<close>, which the normal end also runs through.\<close>

definition start_end :: "('d, 's) env \<Rightarrow> app \<Rightarrow> ('d, 's) world \<Rightarrow> dpret \<Rightarrow> (app \<times> ('d, 's) world \<times> dpret) option" where
  "start_end env s w r = do {
     l \<leftarrow> evps_at s (s_evps s);
     w1 \<leftarrow> (if s_count s \<le> int (length l) then del_all env (take (nat (s_count s)) l) 0 w else None);
     s1 \<leftarrow> dpapp_fini s;
     Some (s1, w1, r)
   }"

text \<open>The layout as the loops read it; the master's loop has no thread of its own to make.\<close>

definition publish :: "app \<Rightarrow> ('d, 's) world \<Rightarrow> ('d, 's) world option" where
  "publish s w = do {
     counts \<leftarrow> ints_at s (s_each_count s);
     ptrs \<leftarrow> ptrs_at s (s_each_ids s);
     ids \<leftarrow> rows_at s ptrs;
     Some (w\<lparr>gcount := s_count s, type_count := s_type_count s, each_count := counts, each_ids := ids\<rparr>)
   }"

definition dpapp_start ::
  "('d, 's) env \<Rightarrow> (('d, 's) world \<Rightarrow> int) \<Rightarrow> (nat \<Rightarrow> bool) \<Rightarrow> (('d, 's) world \<Rightarrow> ('d, 's) world option) \<Rightarrow>
     (('d, 's) world \<Rightarrow> ('d, 's) world option) \<Rightarrow> int \<Rightarrow> app \<Rightarrow> ('d, 's) world \<Rightarrow> dpapp_arg \<Rightarrow>
     (app \<times> ('d, 's) world \<times> dpret) option" where
  "dpapp_start env epoll_create create_ok start_fun others nprocs s w args = do {
     (s, r) \<leftarrow> dpapp_init nprocs s args;
     if dpret_iserr r then Some (s, w, r)
     else do {
       w \<leftarrow> publish s w;
       let ids = each_ids w;
       (w, ok) \<leftarrow> dpevp_new env epoll_create w 0 0;
       if \<not> ok then start_end env s w DPE_UNINIT
       else do {
         s \<leftarrow> set_evp s 0;
         s \<leftarrow> bindcpu s 0;
         (s, w, ok) \<leftarrow> start_workers env epoll_create create_ok s w (worker_list ids);
         if \<not> ok then start_end env s w DPE_UNINIT
         else do {
           w \<leftarrow> dpevp_start w 0 start_fun;
           w \<leftarrow> others w;
           start_end env s w r
         }
       }
     }
   }"

end
