(* ===== verification/Dpapp_Inv.thy ===== *)
theory Dpapp_Inv
  imports Dpapp
begin

text \<open>
  The ownership invariant of the start-up code: which of the live blocks the two structures own, what
  the thread layout looks like while it is built, and that \<open>dpapp_fini\<close> gives back what is owned.
\<close>

named_theorems app_simps \<open>fields of the process record that the memory operations leave alone\<close>

section \<open>Ownership\<close>

text \<open>Exactly the blocks \<open>L\<close> live above the address \<open>b\<close>; below it the heap is \<open>h\<close>.\<close>

definition owns :: "app \<Rightarrow> nat list \<Rightarrow> nat \<Rightarrow> (nat \<Rightarrow> ablock option) \<Rightarrow> bool" where
  "owns s L b h \<longleftrightarrow>
     (\<forall>a < b. heap s a = h a) \<and> (\<forall>a \<ge> b. heap s a \<noteq> None \<longleftrightarrow> a \<in> set L) \<and> distinct L \<and>
     (\<forall>a \<in> set L. b \<le> a \<and> a < heap_brk s) \<and> b \<le> heap_brk s"

definition ptr_list :: "nat option list \<Rightarrow> nat list" where
  "ptr_list ps = map the (filter (\<lambda>p. p \<noteq> None) ps)"

lemma ptr_list_simps [simp]:
  "ptr_list [] = []" "ptr_list (None # ps) = ptr_list ps" "ptr_list (Some a # ps) = a # ptr_list ps"
  "ptr_list (ps @ qs) = ptr_list ps @ ptr_list qs"
  by (simp_all add: ptr_list_def)

lemma ptr_list_replicate [simp]: "ptr_list (replicate n None) = []"
  by (induction n) auto

lemma ptr_list_set: "a \<in> set (ptr_list ps) \<longleftrightarrow> Some a \<in> set ps"
  by (auto simp: ptr_list_def image_iff)

lemma app_alloc_fields [app_simps]:
  assumes "app_alloc s b = (s', p)"
  shows "s_evps s' = s_evps s" "s_count s' = s_count s" "s_type_count s' = s_type_count s"
    "s_each_count s' = s_each_count s" "s_each_ids s' = s_each_ids s" "threads s' = threads s"
    "i_root_dir s' = i_root_dir s" "i_bin_file s' = i_bin_file s" "cpunum s' = cpunum s" "cpuoff s' = cpuoff s"
    "heap_brk s' = heap_brk s + 1" "p = None \<or> p = Some (heap_brk s)"
    "heap s' = (case p of Some a \<Rightarrow> (heap s)(a \<mapsto> b) | None \<Rightarrow> heap s)"
  using assms by (auto simp: app_alloc_def Let_def split: if_splits)

lemma owns_alloc:
  assumes "owns s L b h" "app_alloc s x = (s', p)"
  shows "owns s' (ptr_list [p] @ L) b h"
proof -
  have "heap_brk s \<notin> set L" using assms(1) by (auto simp: owns_def)
  then show ?thesis using assms app_alloc_fields [OF assms(2)] by (cases p) (auto simp: owns_def less_Suc_eq)
qed

lemma app_free_fields [app_simps]:
  assumes "app_free s p = Some s'"
  shows "s_evps s' = s_evps s" "s_count s' = s_count s" "s_type_count s' = s_type_count s"
    "s_each_count s' = s_each_count s" "s_each_ids s' = s_each_ids s" "threads s' = threads s"
    "heap_brk s' = heap_brk s" "heap s' = (case p of Some a \<Rightarrow> (heap s)(a := None) | None \<Rightarrow> heap s)"
  using assms by (auto simp: app_free_def split: option.splits if_splits)

lemma owns_free:
  assumes "owns s L b h" "set (ptr_list [p]) \<subseteq> set L"
  shows "\<exists>s'. app_free s p = Some s' \<and> owns s' (filter (\<lambda>a. p \<noteq> Some a) L) b h"
proof (cases p)
  case (Some a)
  then have "heap s a \<noteq> None" using assms by (auto simp: owns_def)
  then show ?thesis using assms Some by (auto simp: app_free_def owns_def)
qed (use assms in \<open>auto simp: app_free_def\<close>)

lemma free_each_owns:
  assumes "owns s L b h" "set (ptr_list ps) \<subseteq> set L" "distinct (ptr_list ps)"
  shows "\<exists>s'. free_each s ps = Some s' \<and> owns s' (filter (\<lambda>a. Some a \<notin> set ps) L) b h \<and>
    s_each_ids s' = s_each_ids s"
  using assms
proof (induction ps arbitrary: s L)
  case (Cons p ps)
  obtain s1 where s1: "app_free s p = Some s1" "owns s1 (filter (\<lambda>a. p \<noteq> Some a) L) b h"
    using owns_free [OF Cons.prems(1), of p] Cons.prems(2) by (cases p) auto
  have sub: "set (ptr_list ps) \<subseteq> set (filter (\<lambda>a. p \<noteq> Some a) L)" "distinct (ptr_list ps)"
    using Cons.prems(2,3) by (cases p; auto)+
  obtain s' where "free_each s1 ps = Some s'" "s_each_ids s' = s_each_ids s1"
    "owns s' (filter (\<lambda>a. Some a \<notin> set ps) (filter (\<lambda>a. p \<noteq> Some a) L)) b h"
    using Cons.IH [OF s1(2) sub] by blast
  moreover have "filter (\<lambda>a. Some a \<notin> set ps) (filter (\<lambda>a. p \<noteq> Some a) L) = filter (\<lambda>a. Some a \<notin> set (p # ps)) L"
    by (auto intro: filter_cong)
  ultimately show ?case using s1(1) app_free_fields [OF s1(1)] by auto
qed auto

text \<open>The blocks the structures own, the strings apart.\<close>

definition tables :: "app \<Rightarrow> nat option list \<Rightarrow> nat list" where
  "tables s ptrs = ptr_list ([s_evps s, threads s, s_each_count s] @ ptrs @ [s_each_ids s])"

definition blank :: "app \<Rightarrow> bool" where
  "blank s \<longleftrightarrow> s_evps s = None \<and> threads s = None \<and> s_each_count s = None \<and> s_each_ids s = None \<and>
     i_root_dir s = None \<and> i_bin_file s = None"

lemma dpapp_fini_owns:
  assumes "owns s L b h" "set (tables s ptrs) \<subseteq> set L" "distinct (tables s ptrs)"
    and "case s_each_ids s of None \<Rightarrow> ptrs = [] | Some p \<Rightarrow> heap s p = Some (Aptrs ptrs) \<and> s_type_count s = int (length ptrs)"
  shows "\<exists>s'. dpapp_fini s = Some s' \<and> owns s' (filter (\<lambda>a. a \<notin> set (tables s ptrs)) L) b h \<and> blank s'"
proof -
  obtain s1 where s1: "app_free s (s_evps s) = Some s1" "owns s1 (filter (\<lambda>a. s_evps s \<noteq> Some a) L) b h"
    using owns_free [OF assms(1), of "s_evps s"] assms(2) by (cases "s_evps s") (auto simp: tables_def)
  note f1 = app_free_fields [OF s1(1)]
  let ?L1 = "filter (\<lambda>a. s_evps s \<noteq> Some a) L"
  have d: "distinct (ptr_list [s_evps s] @ ptr_list [threads s] @ ptr_list [s_each_count s] @ ptr_list ptrs @ ptr_list [s_each_ids s])"
    using assms(3) by (cases "s_evps s"; cases "threads s"; cases "s_each_count s") (auto simp: tables_def)
  have t: "set (ptr_list [threads s]) \<subseteq> set ?L1"
    using assms(2) d by (cases "threads s"; cases "s_evps s") (auto simp: tables_def ptr_list_set)
  obtain s2 where s2: "app_free s1 (threads s) = Some s2" "owns s2 (filter (\<lambda>a. threads s \<noteq> Some a) ?L1) b h"
    using owns_free [OF s1(2) t] by blast
  note f2 = app_free_fields [OF s2(1)]
  let ?L2 = "filter (\<lambda>a. threads s \<noteq> Some a) ?L1"
  have c: "set (ptr_list [s_each_count s]) \<subseteq> set ?L2"
    using assms(2) d by (cases "threads s"; cases "s_evps s"; cases "s_each_count s") (auto simp: tables_def ptr_list_set)
  obtain s3 where s3: "app_free s2 (s_each_count s) = Some s3" "owns s3 (filter (\<lambda>a. s_each_count s \<noteq> Some a) ?L2) b h"
    using owns_free [OF s2(2) c] by blast
  note f3 = app_free_fields [OF s3(1)]
  let ?L3 = "filter (\<lambda>a. s_each_count s \<noteq> Some a) ?L2"
  show ?thesis
  proof (cases "s_each_ids s")
    case None
    then have "?L3 = filter (\<lambda>a. a \<notin> set (tables s ptrs)) L"
      using assms(4) by (auto simp: tables_def ptr_list_set intro!: filter_cong)
    then show ?thesis using s1(1) s2(1) s3 f1 f2 f3 None
      by (simp add: dpapp_fini_def owns_def blank_def)
  next
    case (Some p)
    have ps: "set (ptr_list ptrs) \<subseteq> set ?L3" "p \<in> set ?L3"
      using assms(2) d Some
      by (cases "threads s"; cases "s_evps s"; cases "s_each_count s"; auto simp: tables_def ptr_list_set)+
    have "heap s3 p = heap s p"
      using f1(8) f2(8) f3(8) d Some by (cases "threads s"; cases "s_evps s"; cases "s_each_count s") auto
    then have at: "ptrs_at s3 (Some p) = Some ptrs" using assms(4) Some by (simp add: ptrs_at_def)
    obtain s4 where s4: "free_each s3 ptrs = Some s4" "s_each_ids s4 = s_each_ids s3"
      "owns s4 (filter (\<lambda>a. Some a \<notin> set ptrs) ?L3) b h"
      using free_each_owns [OF s3(2) ps(1)] d by (auto simp: distinct_append)
    have "set (ptr_list [Some p]) \<subseteq> set (filter (\<lambda>a. Some a \<notin> set ptrs) ?L3)"
      using ps(2) d Some by (auto simp: ptr_list_set)
    from owns_free [OF s4(3) this] obtain s5 where s5: "app_free s4 (Some p) = Some s5"
      "owns s5 (filter (\<lambda>a. Some p \<noteq> Some a) (filter (\<lambda>a. Some a \<notin> set ptrs) ?L3)) b h" by blast
    have "filter (\<lambda>a. Some p \<noteq> Some a) (filter (\<lambda>a. Some a \<notin> set ptrs) ?L3) = filter (\<lambda>a. a \<notin> set (tables s ptrs)) L"
      using Some by (auto simp: tables_def ptr_list_set intro!: filter_cong)
    then show ?thesis using s1(1) s2(1) s3(1) s4(1,2) s5 f1 f2 f3 Some at assms(4)
      by (simp add: dpapp_fini_def owns_def blank_def)
  qed
qed

lemma owns_reorder: "owns s L b h \<Longrightarrow> set L' = set L \<Longrightarrow> distinct L' \<Longrightarrow> owns s L' b h"
  by (simp add: owns_def)

text \<open>Writing to a live block keeps what is owned.\<close>

lemma owns_set_blk:
  assumes "owns s L b h" "a \<in> set L"
  shows "owns (set_blk s (Some a) x) L b h"
proof -
  have "b \<le> a" using assms by (auto simp: owns_def)
  then show ?thesis using assms by (auto simp: owns_def set_blk_def)
qed

lemma set_blk_fields [app_simps, simp]:
  "s_evps (set_blk s p x) = s_evps s" "s_count (set_blk s p x) = s_count s"
  "s_type_count (set_blk s p x) = s_type_count s" "s_each_count (set_blk s p x) = s_each_count s"
  "s_each_ids (set_blk s p x) = s_each_ids s" "threads (set_blk s p x) = threads s"
  "i_root_dir (set_blk s p x) = i_root_dir s" "i_bin_file (set_blk s p x) = i_bin_file s"
  "cpunum (set_blk s p x) = cpunum s" "cpuoff (set_blk s p x) = cpuoff s" "heap_brk (set_blk s p x) = heap_brk s"
  "heap (set_blk s (Some a) x) = (heap s)(a \<mapsto> x)"
  by (simp_all add: set_blk_def split: option.splits)

lemma owns_fields: "heap s' = heap s \<Longrightarrow> heap_brk s' = heap_brk s \<Longrightarrow> owns s' L b h = owns s L b h"
  by (simp add: owns_def)

lemma rows_at_heap:
  "\<forall>a \<in> set (ptr_list ps). heap s' a = heap s a \<Longrightarrow> rows_at s' ps = rows_at s ps"
proof (induction ps)
  case (Cons p ps)
  then show ?case by (cases p) (auto simp: ints_at_def)
qed simp

lemma rows_at_snoc: "rows_at s (ps @ [p]) = do { rs \<leftarrow> rows_at s ps; r \<leftarrow> (if p = None then Some [] else ints_at s p); Some (rs @ [r]) }"
  by (induction ps) (auto split: bind_splits)

lemma fill_ids_eq: "fill_ids n c = (map (\<lambda>k. c + int k) [0..<n], c + int n)"
proof (induction n arbitrary: c)
  case (Suc n)
  have "map (\<lambda>k. c + int k) [0..<Suc n] = c # map (\<lambda>k. (c + 1) + int k) [0..<n]"
    by (simp add: upt_conv_Cons map_Suc_upt [symmetric] algebra_simps del: upt_Suc)
  with Suc show ?case by simp
qed simp

lemma ids_append:
  assumes "0 \<le> c"
  shows "map int [0..<nat c] @ map (\<lambda>k. c + int k) [0..<n] = map int [0..<nat (c + int n)]"
  using assms by (intro nth_equalityI) (auto simp: nth_append nat_add_distrib)

section \<open>The layout while it is built\<close>

definition laid :: "app \<Rightarrow> nat \<Rightarrow> int list list \<Rightarrow> nat \<Rightarrow> (nat \<Rightarrow> ablock option) \<Rightarrow> bool" where
  "laid s n rows b h \<longleftrightarrow> (\<exists>c p cs ps.
     s_each_count s = Some c \<and> s_each_ids s = Some p \<and> s_evps s = None \<and> threads s = None \<and>
     i_root_dir s = None \<and> i_bin_file s = None \<and> s_type_count s = int n \<and>
     heap s c = Some (Aints (map (\<lambda>r. int (length r)) rows @ cs)) \<and> length rows + length cs = n \<and>
     heap s p = Some (Aptrs (ps @ replicate (n - length rows) None)) \<and> length ps = length rows \<and>
     owns s (c # p # ptr_list ps) b h \<and> rows_at s ps = Some rows \<and>
     0 \<le> s_count s \<and> concat rows = map int [0..<nat (s_count s)])"

lemma replicate_update: "k < n \<Longrightarrow> length ps = k \<Longrightarrow>
    (ps @ replicate (n - k) x)[k := y] = (ps @ [y]) @ replicate (n - Suc k) x"
  by (simp add: list_update_append Suc_diff_Suc [symmetric])

lemma counts_update: "length rows + length cs = n \<Longrightarrow> length rows < n \<Longrightarrow>
    (map f rows @ cs)[length rows := f r] = map f (rows @ [r]) @ tl cs"
  by (cases cs) (auto simp: list_update_append)

lemma laid_none:
  assumes "laid s n rows b h" "length rows < n" "s_each_ids s = Some p"
  shows "set_ptr s (Some p) (int (length rows)) None = Some s"
proof -
  obtain ps where ps: "heap s p = Some (Aptrs (ps @ replicate (n - length rows) None))" "length ps = length rows"
    using assms(1,3) by (auto simp: laid_def)
  have "(ps @ replicate (n - length rows) None)[length rows := None] = ps @ replicate (n - length rows) None"
    using replicate_update [OF assms(2) ps(2), of None None] assms(2)
    by (simp add: Suc_diff_Suc [symmetric])
  then show ?thesis using ps assms(2)
    by (simp add: set_ptr_def ptrs_at_def set_blk_def fun_upd_idem)
qed

lemma laid_brk:
  assumes "laid s n rows b h" "app_alloc s x = (s1, None)"
  shows "laid s1 n rows b h"
proof -
  note f = app_alloc_fields [OF assms(2)]
  have "i_root_dir s1 = i_root_dir s" "owns s L b h \<Longrightarrow> owns s1 L b h" "rows_at s1 ps = rows_at s ps" for L ps
    using f owns_alloc [OF _ assms(2)] rows_at_heap [of ps s1 s] by auto
  then show ?thesis using assms(1) f unfolding laid_def by auto
qed

lemma laid_skip:
  assumes "laid s n rows b h" "length rows < n"
  shows "\<exists>s1. set_int s (s_each_count s) (int (length rows)) 0 = Some s1 \<and> laid s1 n (rows @ [[]]) b h \<and>
    s_count s1 = s_count s \<and> cpunum s1 = cpunum s \<and> cpuoff s1 = cpuoff s"
proof -
  obtain c p cs ps where l: "s_each_count s = Some c" "s_each_ids s = Some p" "s_evps s = None" "threads s = None"
    "i_root_dir s = None" "i_bin_file s = None" "s_type_count s = int n"
    "heap s c = Some (Aints (map (\<lambda>r. int (length r)) rows @ cs))" "length rows + length cs = n"
    "heap s p = Some (Aptrs (ps @ replicate (n - length rows) None))" "length ps = length rows"
    "owns s (c # p # ptr_list ps) b h" "rows_at s ps = Some rows"
    "0 \<le> s_count s" "concat rows = map int [0..<nat (s_count s)]"
    using assms(1) unfolding laid_def by blast
  have d: "c \<noteq> p" "c \<notin> set (ptr_list ps)" using l(12) by (auto simp: owns_def)
  let ?cs = "map (\<lambda>r. int (length r)) (rows @ [[]]) @ tl cs"
  let ?s1 = "set_blk s (Some c) (Aints ?cs)"
  have "(map (\<lambda>r. int (length r)) rows @ cs)[length rows := 0] = ?cs"
    using counts_update [OF l(9) assms(2), of "\<lambda>r. int (length r)" "[]"] by simp
  then have set: "set_int s (s_each_count s) (int (length rows)) 0 = Some ?s1"
    using l(1,8,9) assms(2) by (simp add: set_int_def ints_at_def)
  have "owns ?s1 (c # p # ptr_list (ps @ [None])) b h" using owns_set_blk [OF l(12), of c] by simp
  moreover have "rows_at ?s1 (ps @ [None]) = Some (rows @ [[]])"
    using rows_at_heap [of ps ?s1 s] d(2) l(13) by (simp add: rows_at_snoc)
  moreover have "heap ?s1 p = Some (Aptrs ((ps @ [None]) @ replicate (n - length (rows @ [[]])) None))"
    using l(10) d(1) assms(2) by (simp add: Suc_diff_Suc [symmetric])
  ultimately have "laid ?s1 n (rows @ [[]]) b h"
    unfolding laid_def using l assms(2)
    by (intro exI [of _ c] exI [of _ p] exI [of _ "tl cs"] exI [of _ "ps @ [None]"]) (cases cs; simp)
  then show ?thesis using set by simp
qed

lemma laid_add:
  assumes "laid s n rows b h" "length rows < n" "0 < pc" "app_alloc s x = (s1, Some a)"
  defines "ids \<equiv> map (\<lambda>k. s_count s + int k) [0..<nat pc]"
  shows "\<exists>s2 s3. set_ptr s1 (s_each_ids s1) (int (length rows)) (Some a) = Some s2 \<and> s_count s2 = s_count s \<and>
    set_int ((set_blk s2 (Some a) (Aints ids))\<lparr>s_count := s_count s + pc\<rparr>) (s_each_count s2) (int (length rows)) pc = Some s3 \<and>
    laid s3 n (rows @ [ids]) b h \<and> s_count s3 = s_count s + pc \<and> cpunum s3 = cpunum s \<and> cpuoff s3 = cpuoff s"
proof -
  obtain c p cs ps where l: "s_each_count s = Some c" "s_each_ids s = Some p" "s_evps s = None" "threads s = None"
    "i_root_dir s = None" "i_bin_file s = None" "s_type_count s = int n"
    "heap s c = Some (Aints (map (\<lambda>r. int (length r)) rows @ cs))" "length rows + length cs = n"
    "heap s p = Some (Aptrs (ps @ replicate (n - length rows) None))" "length ps = length rows"
    "owns s (c # p # ptr_list ps) b h" "rows_at s ps = Some rows"
    "0 \<le> s_count s" "concat rows = map int [0..<nat (s_count s)]"
    using assms(1) unfolding laid_def by blast
  note f = app_alloc_fields [OF assms(4)]
  have o1: "owns s1 (a # c # p # ptr_list ps) b h" using owns_alloc [OF l(12) assms(4)] by simp
  have d: "a \<noteq> c" "a \<noteq> p" "c \<noteq> p" "a \<notin> set (ptr_list ps)" "c \<notin> set (ptr_list ps)" "p \<notin> set (ptr_list ps)"
    using o1 by (auto simp: owns_def)
  let ?ps = "(ps @ [Some a]) @ replicate (n - Suc (length rows)) None"
  let ?s2 = "set_blk s1 (Some p) (Aptrs ?ps)"
  have ptr: "set_ptr s1 (s_each_ids s1) (int (length rows)) (Some a) = Some ?s2"
    using f(5,13) l(2,10,11) d(2) assms(2) replicate_update [OF assms(2) l(11), of None "Some a"]
    by (simp add: set_ptr_def ptrs_at_def)
  let ?s2' = "(set_blk ?s2 (Some a) (Aints ids))\<lparr>s_count := s_count s + pc\<rparr>"
  let ?cs = "map (\<lambda>r. int (length r)) (rows @ [ids]) @ tl cs"
  let ?s3 = "set_blk ?s2' (Some c) (Aints ?cs)"
  have len: "int (length ids) = pc" using assms(3) by (simp add: ids_def)
  have "(map (\<lambda>r. int (length r)) rows @ cs)[length rows := pc] = ?cs"
    using counts_update [OF l(9) assms(2), of "\<lambda>r. int (length r)" ids] len by simp
  moreover have "ints_at ?s2' (Some c) = Some (map (\<lambda>r. int (length r)) rows @ cs)"
    using f(13) l(8) d(1,3) by (simp add: ints_at_def)
  moreover have "s_each_count ?s2 = Some c" using f(4) l(1) by simp
  ultimately have int: "set_int ?s2' (s_each_count ?s2) (int (length rows)) pc = Some ?s3"
    using l(9) assms(2) by (simp add: set_int_def)
  have "owns ?s2 (a # c # p # ptr_list ps) b h" using o1 by (rule owns_set_blk) simp
  then have "owns (set_blk ?s2 (Some a) (Aints ids)) (a # c # p # ptr_list ps) b h" by (rule owns_set_blk) simp
  then have "owns ?s2' (a # c # p # ptr_list ps) b h"
    using owns_fields [of ?s2' "set_blk ?s2 (Some a) (Aints ids)"] by simp
  then have "owns ?s3 (a # c # p # ptr_list ps) b h" by (rule owns_set_blk) simp
  then have o3: "owns ?s3 (c # p # ptr_list (ps @ [Some a])) b h"
    by (rule owns_reorder) (use d o1 in \<open>auto simp: owns_def\<close>)
  have "\<forall>q \<in> set (ptr_list ps). heap ?s3 q = heap s q"
    using d f(13) by auto
  then have "rows_at ?s3 ps = Some rows" using rows_at_heap l(13) by metis
  then have r3: "rows_at ?s3 (ps @ [Some a]) = Some (rows @ [ids])"
    using d by (simp add: rows_at_snoc ints_at_def)
  have c3: "concat (rows @ [ids]) = map int [0..<nat (s_count s + pc)]"
    using ids_append [OF l(14), of "nat pc"] l(15) assms(3) by (simp add: ids_def)
  have "laid ?s3 n (rows @ [ids]) b h"
    unfolding laid_def using l f o3 r3 c3 assms(2,3) d
    by (intro exI [of _ c] exI [of _ p] exI [of _ "tl cs"] exI [of _ "ps @ [Some a]"]) (cases cs; simp)
  then show ?thesis using ptr int f by (intro exI [of _ ?s2] exI [of _ ?s3]) simp
qed

lemma take_prefix_snoc: "take (length (xs @ [x])) ys = xs @ [x] \<Longrightarrow> take (length xs) ys = xs"
  by (drule arg_cong [where f = "take (length xs)"]) (simp add: min_def)

lemma layout_from_laid:
  assumes "laid s n rows b h" "is = [length rows..<n]" "n \<le> length (ar_each_count args)"
    and "s_count s + (\<Sum>t\<leftarrow>is. max 0 (ar_each_count args ! t)) \<le> INT_MAX"
  shows "\<exists>s' ok rows'. layout_from s args is = Some (s', ok) \<and> laid s' n rows' b h \<and>
    (ok \<longrightarrow> map (\<lambda>r. int (length r)) rows' =
      map (\<lambda>r. int (length r)) rows @ map (\<lambda>t. max 0 (ar_each_count args ! t)) is \<and> take (length rows) rows' = rows) \<and>
    cpunum s' = cpunum s \<and> cpuoff s' = cpuoff s"
  using assms
proof (induction "is" arbitrary: s rows)
  case Nil
  then show ?case by (intro exI [of _ s] exI [of _ True] exI [of _ rows]) simp
next
  case (Cons i "is")
  have lt: "length rows < n" and i: "i = length rows" and rest: "is = [Suc (length rows)..<n]"
    using Cons.prems(2) [symmetric] unfolding upt_eq_Cons_conv by auto
  let ?pc = "ar_each_count args ! i"
  have pc: "elem_at (ar_each_count args) (int i) = Some ?pc"
    using lt i Cons.prems(3) by (simp add: elem_at_def)
  obtain p where p: "s_each_ids s = Some p" using Cons.prems(1) by (auto simp: laid_def)
  show ?case
  proof (cases "?pc > 0")
    case False
    obtain s1 where s1: "set_int s (s_each_count s) (int i) 0 = Some s1" "laid s1 n (rows @ [[]]) b h"
      "s_count s1 = s_count s" "cpunum s1 = cpunum s" "cpuoff s1 = cpuoff s"
      using laid_skip [OF Cons.prems(1) lt] i by blast
    have bnd: "s_count s1 + (\<Sum>t\<leftarrow>is. max 0 (ar_each_count args ! t)) \<le> INT_MAX" using Cons.prems(4) s1(3) False by simp
    have "is = [length (rows @ [[]])..<n]" using rest by simp
    from Cons.IH [OF s1(2) this Cons.prems(3) bnd] obtain s' ok rows' where
      IH: "layout_from s1 args is = Some (s', ok)" "laid s' n rows' b h"
      "ok \<longrightarrow> map (\<lambda>r. int (length r)) rows' = map (\<lambda>r. int (length r)) (rows @ [[]]) @
        map (\<lambda>t. max 0 (ar_each_count args ! t)) is \<and> take (length (rows @ [[]])) rows' = rows @ [[]]"
      "cpunum s' = cpunum s1" "cpuoff s' = cpuoff s1" by (elim exE conjE) (rule that)
    have "take (length rows) rows' = rows" if ok
      by (rule take_prefix_snoc [where x = "[]"]) (use IH(3) that in simp)
    moreover have "layout_from s args (i # is) = Some (s', ok)"
      using pc False laid_none [OF Cons.prems(1) lt p] p i s1(1) IH(1) by simp
    ultimately show ?thesis using IH s1(4,5) False by (intro exI [of _ s'] exI [of _ ok] exI [of _ rows']) auto
  next
    case True
    obtain s1 q where al: "app_alloc s (Aints (replicate (nat ?pc) 0)) = (s1, q)" by fastforce
    note f = app_alloc_fields [OF al]
    have cpu: "cpunum s1 = cpunum s" "cpuoff s1 = cpuoff s" using f by simp_all
    show ?thesis
    proof (cases q)
      case None
      have l1: "laid s1 n rows b h" using laid_brk Cons.prems(1) al None by blast
      have "layout_from s args (i # is) = Some (s1, False)"
        using pc True al None f(5) p i laid_none [OF l1 lt, of p] by simp
      then show ?thesis using l1 cpu by blast
    next
      case (Some a)
      let ?ids = "map (\<lambda>k. s_count s + int k) [0..<nat ?pc]"
      obtain s2 s3 where st: "set_ptr s1 (s_each_ids s1) (int (length rows)) (Some a) = Some s2" "s_count s2 = s_count s"
        "set_int ((set_blk s2 (Some a) (Aints ?ids))\<lparr>s_count := s_count s + ?pc\<rparr>) (s_each_count s2) (int (length rows)) ?pc = Some s3"
        "laid s3 n (rows @ [?ids]) b h" "s_count s3 = s_count s + ?pc" "cpunum s3 = cpunum s" "cpuoff s3 = cpuoff s"
        using laid_add [OF Cons.prems(1) lt True, of "Aints (replicate (nat ?pc) 0)" s1 a] al Some by blast
      have "0 \<le> (\<Sum>t\<leftarrow>is. max 0 (ar_each_count args ! t))" by (rule sum_list_nonneg) auto
      moreover have "0 \<le> s_count s" using Cons.prems(1) by (auto simp: laid_def)
      ultimately have chk: "chk_int (s_count s + ?pc) = Some (s_count s + ?pc)"
        using Cons.prems(4) True by simp
      have bnd: "s_count s3 + (\<Sum>t\<leftarrow>is. max 0 (ar_each_count args ! t)) \<le> INT_MAX" using Cons.prems(4) st(5) True by simp
      have "is = [length (rows @ [?ids])..<n]" using rest by simp
      from Cons.IH [OF st(4) this Cons.prems(3) bnd] obtain s' ok rows' where
        IH: "layout_from s3 args is = Some (s', ok)" "laid s' n rows' b h"
        "ok \<longrightarrow> map (\<lambda>r. int (length r)) rows' = map (\<lambda>r. int (length r)) (rows @ [?ids]) @
          map (\<lambda>t. max 0 (ar_each_count args ! t)) is \<and> take (length (rows @ [?ids])) rows' = rows @ [?ids]"
        "cpunum s' = cpunum s3" "cpuoff s' = cpuoff s3" by (elim exE conjE) (rule that)
      have "take (length rows) rows' = rows" if ok
        by (rule take_prefix_snoc [where x = ?ids]) (use IH(3) that in simp)
      moreover have "layout_from s args (i # is) = Some (s', ok)"
        using pc True al Some st(1,2,3) i chk IH(1) by (simp add: fill_ids_eq)
      ultimately show ?thesis using IH st(6,7) True by (intro exI [of _ s'] exI [of _ ok] exI [of _ rows']) auto
    qed
  qed
qed

section \<open>Releasing what is there\<close>

definition ready :: "app \<Rightarrow> nat option list \<Rightarrow> nat list \<Rightarrow> nat \<Rightarrow> (nat \<Rightarrow> ablock option) \<Rightarrow> bool" where
  "ready s ptrs strs b h \<longleftrightarrow> owns s (tables s ptrs @ strs) b h \<and>
     (case s_each_ids s of None \<Rightarrow> ptrs = []
      | Some p \<Rightarrow> heap s p = Some (Aptrs ptrs) \<and> s_type_count s = int (length ptrs))"

lemma ready_fini:
  assumes "ready s ptrs strs b h"
  shows "\<exists>s'. fini_with s r = Some (s', r) \<and> owns s' strs b h \<and> blank s'"
proof -
  have o: "owns s (tables s ptrs @ strs) b h" using assms by (simp add: ready_def)
  then have "filter (\<lambda>a. a \<notin> set (tables s ptrs)) (tables s ptrs @ strs) = strs"
    by (auto simp: owns_def filter_empty_conv filter_id_conv)
  moreover have "distinct (tables s ptrs)" using o by (auto simp: owns_def)
  ultimately show ?thesis using dpapp_fini_owns [OF o, of ptrs] assms
    by (auto simp: ready_def fini_with_def split: option.splits)
qed

lemma laid_ready:
  assumes "laid s n rows b h"
  shows "\<exists>ptrs. ready s ptrs [] b h \<and> length ptrs = n"
proof -
  obtain c p ps and cs :: "int list" where l: "s_each_count s = Some c" "s_each_ids s = Some p" "s_evps s = None" "threads s = None"
    "s_type_count s = int n" "length rows + length cs = n" "length ps = length rows"
    "heap s p = Some (Aptrs (ps @ replicate (n - length rows) None))" "owns s (c # p # ptr_list ps) b h"
    using assms unfolding laid_def by blast
  let ?ptrs = "ps @ replicate (n - length rows) None"
  have "tables s ?ptrs = c # ptr_list ps @ [p]" using l(1-4) by (simp add: tables_def)
  then have "owns s (tables s ?ptrs @ []) b h" using l(9) by (simp add: owns_def)
  then have "ready s ?ptrs [] b h" using l(2,5,6,7,8) by (simp add: ready_def)
  then show ?thesis using l(6,7) by (intro exI [of _ ?ptrs]) simp
qed

section \<open>Initialisation\<close>

text \<open>The finished layout, as the loops read it.\<close>

definition laid_out :: "app \<Rightarrow> nat option list \<Rightarrow> int list list \<Rightarrow> bool" where
  "laid_out s ptrs rows \<longleftrightarrow> ints_at s (s_each_count s) = Some (map (\<lambda>r. int (length r)) rows) \<and>
     ptrs_at s (s_each_ids s) = Some ptrs \<and> rows_at s ptrs = Some rows \<and>
     0 \<le> s_count s \<and> concat rows = map int [0..<nat (s_count s)]"

lemma laid_done:
  assumes "laid s n rows b h" "length rows = n"
  shows "\<exists>ptrs. ready s ptrs [] b h \<and> laid_out s ptrs rows"
proof -
  obtain c p ps and cs :: "int list" where l: "s_each_count s = Some c" "s_each_ids s = Some p" "s_evps s = None" "threads s = None"
    "s_type_count s = int n" "heap s c = Some (Aints (map (\<lambda>r. int (length r)) rows @ cs))" "length rows + length cs = n"
    "heap s p = Some (Aptrs (ps @ replicate (n - length rows) None))" "length ps = length rows"
    "owns s (c # p # ptr_list ps) b h" "rows_at s ps = Some rows"
    "0 \<le> s_count s" "concat rows = map int [0..<nat (s_count s)]"
    using assms unfolding laid_def by blast
  have "tables s ps = c # ptr_list ps @ [p]" using l(1-4) by (simp add: tables_def)
  then have "owns s (tables s ps @ []) b h" using l(10) by (simp add: owns_def)
  then have "ready s ps [] b h" using l assms(2) by (simp add: ready_def)
  moreover have "laid_out s ps rows" using l assms(2) by (simp add: laid_out_def ints_at_def ptrs_at_def)
  ultimately show ?thesis by blast
qed

lemma laid_out_cong:
  assumes "laid_out s ptrs rows" "\<forall>a \<in> set (tables s ptrs). heap s1 a = heap s a"
    and "s_each_count s1 = s_each_count s" "s_each_ids s1 = s_each_ids s" "s_count s1 = s_count s"
  shows "laid_out s1 ptrs rows"
proof -
  obtain c p where cp: "s_each_count s = Some c" "s_each_ids s = Some p"
    using assms(1) by (auto simp: laid_out_def ints_at_def ptrs_at_def split: option.splits)
  then have "heap s1 c = heap s c" "heap s1 p = heap s p" "\<forall>a \<in> set (ptr_list ptrs). heap s1 a = heap s a"
    using assms(2) by (auto simp: tables_def ptr_list_set)
  then show ?thesis using assms cp rows_at_heap [of ptrs s1 s] by (simp add: laid_out_def ints_at_def ptrs_at_def)
qed

text \<open>An allocation that is stored in one of the fields, whether or not it succeeds.\<close>

lemma ready_alloc:
  assumes "ready s ptrs strs b h" "app_alloc s x = (s1, q)"
    and "heap z = heap s1" "heap_brk z = heap_brk s1" "s_each_ids z = s_each_ids s" "s_type_count z = s_type_count s"
    and "set (tables z ptrs @ strs') = set (ptr_list [q] @ tables s ptrs @ strs)"
    and "length (tables z ptrs @ strs') = length (ptr_list [q] @ tables s ptrs @ strs)"
  shows "ready z ptrs strs' b h" "\<forall>a \<in> set (tables s ptrs @ strs). heap z a = heap s a"
proof -
  have o: "owns s1 (ptr_list [q] @ tables s ptrs @ strs) b h"
    using owns_alloc [OF _ assms(2)] assms(1) by (simp add: ready_def)
  then have "distinct (tables z ptrs @ strs')"
    using assms(7,8) by (metis card_distinct distinct_card owns_def)
  then have "owns s1 (tables z ptrs @ strs') b h" using o assms(7) by (elim owns_reorder) simp_all
  then have o2: "owns z (tables z ptrs @ strs') b h" using assms(3,4) by (simp add: owns_def)
  have "heap_brk s \<notin> set (tables s ptrs @ strs)" using assms(1) by (auto simp: ready_def owns_def)
  then show h: "\<forall>a \<in> set (tables s ptrs @ strs). heap z a = heap s a"
    using app_alloc_fields(12,13) [OF assms(2)] assms(3) by (cases q) auto
  have "p \<in> set (tables s ptrs)" if "s_each_ids s = Some p" for p using that by (simp add: tables_def ptr_list_set)
  then show "ready z ptrs strs' b h"
    using o2 assms(1,5,6) h by (auto simp: ready_def split: option.splits)
qed

lemma init_strings_spec:
  assumes "ready s ptrs [] b h" "laid_out s ptrs rows" "i_root_dir s = None" "i_bin_file s = None"
  shows "\<exists>s' r strs. init_strings s args rootdir = Some (s', r) \<and>
    (r = DPE_OK \<and> ready s' ptrs strs b h \<and> laid_out s' ptrs rows \<and> s_count s' = s_count s \<and> s_evps s' = s_evps s \<and>
       (\<forall>a \<in> set (tables s ptrs). heap s' a = heap s a) \<and> cpunum s' = cpunum s \<and> cpuoff s' = cpuoff s
     \<or> r = DPE_NOMEM \<and> blank s' \<and> owns s' strs b h \<and>
       (strs = [] \<or> length strs = 1 \<and> ar_bin_file args \<noteq> None))"
proof -
  let ?s0 = "s\<lparr>i_count := s_count s, i_each_count := s_each_count s, i_type_count := s_type_count s,
    i_each_ids := s_each_ids s\<rparr>"
  have t0: "tables ?s0 ptrs = tables s ptrs" by (simp add: tables_def)
  have r0: "ready ?s0 ptrs [] b h" using assms(1) unfolding ready_def t0 by (cases "s_each_ids s") (auto simp: owns_def)
  obtain s1 q where a1: "app_alloc ?s0 (Astr rootdir) = (s1, q)" by fastforce
  note f1 = app_alloc_fields [OF a1]
  let ?s1 = "s1\<lparr>i_root_dir := q\<rparr>"
  have t1: "tables ?s1 ptrs = tables ?s0 ptrs" using f1 by (simp add: tables_def)
  have r1: "ready ?s1 ptrs (ptr_list [q]) b h" and h1: "\<forall>a \<in> set (tables s ptrs). heap ?s1 a = heap s a"
    using ready_alloc [OF r0 a1, where z = ?s1 and strs' = "ptr_list [q]"] t1 f1 by (auto simp: tables_def)
  have l1: "laid_out ?s1 ptrs rows" using laid_out_cong [OF assms(2) h1] f1 by simp
  show ?thesis
  proof (cases q)
    case None
    then show ?thesis using ready_fini [of ?s1 ptrs "[]" b h DPE_NOMEM] r1 a1
      by (auto simp: init_strings_def Let_def)
  next
    case (Some a)
    show ?thesis
    proof (cases "ar_bin_file args")
      case None
      then show ?thesis using Some r1 l1 h1 a1 f1
        by (intro exI [of _ ?s1] exI [of _ DPE_OK] exI [of _ "[a]"]) (simp add: init_strings_def Let_def)
    next
      case (Some bin)
      obtain s2 q2 where a2: "app_alloc ?s1 (Astr bin) = (s2, q2)" by fastforce
      note f2 = app_alloc_fields [OF a2]
      let ?s2 = "s2\<lparr>i_bin_file := q2\<rparr>"
      have t2: "tables ?s2 ptrs = tables ?s1 ptrs" using f2 by (simp add: tables_def)
      have r2: "ready ?s2 ptrs (ptr_list [q2] @ ptr_list [q]) b h" and h2: "\<forall>a \<in> set (tables ?s1 ptrs). heap ?s2 a = heap ?s1 a"
        using ready_alloc [OF r1 a2, where z = ?s2 and strs' = "ptr_list [q2] @ ptr_list [q]"] t2 f2 by auto
      have h: "\<forall>a \<in> set (tables s ptrs). heap ?s2 a = heap s a" using h1 h2 t1 by (simp add: tables_def)
      have l2: "laid_out ?s2 ptrs rows" using laid_out_cong [OF assms(2) h] f1 f2 by simp
      show ?thesis
      proof (cases q2)
        case None
        then show ?thesis using ready_fini [of ?s2 ptrs "[a]" b h DPE_NOMEM] r2 a1 a2 \<open>q = Some a\<close> \<open>ar_bin_file args = Some bin\<close>
          by (auto simp: init_strings_def Let_def) (rule exI [of _ "[a]"], simp)
      next
        case (Some a')
        then show ?thesis using r2 l2 h a1 a2 f1(1-10) f2(1-10) \<open>q = Some a\<close> \<open>ar_bin_file args = Some bin\<close>
          by (intro exI [of _ ?s2] exI [of _ DPE_OK] exI [of _ "[a', a]"]) (simp add: init_strings_def Let_def del: fun_upd_apply)
      qed
    qed
  qed
qed

lemma app_free_none [simp]: "app_free s None = Some s"
  by (simp add: app_free_def)

lemma init_loops_spec:
  assumes "ready s ptrs [] b h" "laid_out s ptrs rows" "s_evps s = None" "threads s = None"
    and "i_root_dir s = None" "i_bin_file s = None"
  shows "\<exists>s' r strs. init_loops s args rootdir = Some (s', r) \<and>
    (r = DPE_OK \<and> ready s' ptrs strs b h \<and> laid_out s' ptrs rows \<and>
      evps_at s' (s_evps s') = Some (replicate (nat (s_count s')) False) \<and> cpunum s' = cpunum s \<and> cpuoff s' = cpuoff s
     \<or> r = DPE_NOMEM \<and> blank s' \<and> owns s' strs b h \<and>
       (strs = [] \<or> length strs = 1 \<and> ar_bin_file args \<noteq> None))"
proof -
  obtain s1 q where a1: "app_alloc s (Aevps (replicate (nat (s_count s)) False)) = (s1, q)" by fastforce
  note f1 = app_alloc_fields [OF a1]
  let ?s1 = "s1\<lparr>s_evps := q\<rparr>"
  have t1: "tables ?s1 ptrs = ptr_list [q] @ tables s ptrs" using f1 assms(3,4) by (cases q) (simp_all add: tables_def)
  have r1: "ready ?s1 ptrs [] b h" and h1: "\<forall>a \<in> set (tables s ptrs). heap ?s1 a = heap s a"
    using ready_alloc [OF assms(1) a1, where z = ?s1 and strs' = "[]"] t1 f1(1-11) by auto
  have l1: "laid_out ?s1 ptrs rows" using laid_out_cong [OF assms(2) h1] f1(1-11) by simp
  show ?thesis
  proof (cases q)
    case None
    then show ?thesis using ready_fini [OF r1, of DPE_NOMEM] a1 by (auto simp: init_loops_def)
  next
    case (Some e)
    obtain s2 t where a2: "app_alloc ?s1 (Athreads (replicate (nat (s_count ?s1)) False)) = (s2, t)" by fastforce
    note f2 = app_alloc_fields [OF a2]
    let ?s2 = "s2\<lparr>threads := t\<rparr>"
    have t2: "set (tables ?s2 ptrs) = set (ptr_list [t] @ tables ?s1 ptrs)"
      "length (tables ?s2 ptrs) = length (ptr_list [t] @ tables ?s1 ptrs)"
      using f1(1-11) f2(1-11) assms(3,4) Some by (cases t; auto simp: tables_def)+
    have r2: "ready ?s2 ptrs [] b h" and h2: "\<forall>a \<in> set (tables ?s1 ptrs). heap ?s2 a = heap ?s1 a"
      using ready_alloc [OF r1 a2, where z = ?s2 and strs' = "[]"] t2 f2(1-11) by auto
    have l2: "laid_out ?s2 ptrs rows" using laid_out_cong [OF l1 h2] f2(1-11) by simp
    show ?thesis
    proof (cases t)
      case None
      then show ?thesis using ready_fini [OF r2, of DPE_NOMEM] a1 a2 Some by (auto simp: init_loops_def)
    next
      case (Some t')
      have "init_loops s args rootdir = init_strings ?s2 args rootdir"
        using a1 a2 Some \<open>q = Some e\<close> by (simp add: init_loops_def)
      moreover have e: "e \<in> set (tables ?s1 ptrs)" "heap ?s1 e = Some (Aevps (replicate (nat (s_count s)) False))"
        using t1 \<open>q = Some e\<close> f1(13) by simp_all
      have "\<forall>a \<in> set (tables ?s2 ptrs). heap s' a = heap ?s2 a \<Longrightarrow> s_count s' = s_count ?s2 \<Longrightarrow> s_evps s' = s_evps ?s2 \<Longrightarrow>
          evps_at s' (s_evps s') = Some (replicate (nat (s_count s')) False)" for s'
        using e h2 t2(1) f1(1-11) f2(1-11) \<open>q = Some e\<close> by (simp add: evps_at_def)
      ultimately show ?thesis
        using init_strings_spec [OF r2 l2, of args rootdir] f1(7-10) f2(7-10) assms(5,6) by (auto simp: f1 f2)
    qed
  qed
qed

text \<open>The first row, of the master.\<close>

lemma first_row:
  assumes o: "owns s [e, c] b h" and f: "s_each_count s = Some c" "s_each_ids s = Some e" "s_evps s = None" "threads s = None"
      "i_root_dir s = None" "i_bin_file s = None" "s_type_count s = int n" "s_count s = 1"
    and hp: "heap s c = Some (Aints (replicate n 0))" "heap s e = Some (Aptrs (replicate n None))" and n: "0 < n"
    and al: "set_int s (Some c) 0 1 = Some s1" "app_alloc s1 x = (s2, m)"
  shows "m = None \<Longrightarrow> set_ptr s2 (Some e) 0 m = Some s2 \<and> ready s2 (replicate n None) [] b h"
    and "m = Some g \<Longrightarrow> x = Aints [0] \<Longrightarrow> \<exists>s3. set_ptr s2 (Some e) 0 m = Some s3 \<and>
      set_int s3 m 0 0 = Some s3 \<and> laid s3 n [[0]] b h \<and> s_count s3 = 1 \<and> cpunum s3 = cpunum s \<and> cpuoff s3 = cpuoff s"
proof -
  obtain k where k: "n = Suc k" using n by (cases n) auto
  have d: "c \<noteq> e" using o by (auto simp: owns_def)
  have s1: "s1 = set_blk s (Some c) (Aints (1 # replicate k 0))"
    using al(1) hp(1) k by (simp add: set_int_def ints_at_def split: if_splits)
  note f2 = app_alloc_fields [OF al(2)]
  have "owns s1 [e, c] b h" unfolding s1 using o by (rule owns_set_blk) simp
  from owns_alloc [OF this al(2)] have o2: "owns s2 (ptr_list [m] @ [e, c]) b h" by simp
  then have fresh: "m = Some g \<Longrightarrow> g \<noteq> e \<and> g \<noteq> c" for g by (auto simp: owns_def)
  have h2: "heap s2 c = Some (Aints (1 # replicate k 0))" "heap s2 e = Some (Aptrs (replicate n None))"
    using f2(13) s1 hp(2) d fresh by (cases m; auto)+
  have f: "s_each_count s2 = Some c" "s_each_ids s2 = Some e" "s_evps s2 = None" "threads s2 = None"
      "i_root_dir s2 = None" "i_bin_file s2 = None" "s_type_count s2 = int n" "s_count s2 = 1"
      "cpunum s2 = cpunum s" "cpuoff s2 = cpuoff s"
    using f2(1-10) s1 f by simp_all
  {
    assume m: "m = None"
    have t: "tables s2 (replicate n None) = [c, e]" using f by (simp add: tables_def)
    have "owns s2 [c, e] b h" using o2 m by (elim owns_reorder) (use d in auto)
    then have "ready s2 (replicate n None) [] b h" using t f h2 by (simp add: ready_def)
    moreover have "set_ptr s2 (Some e) 0 m = Some s2"
      using h2(2) m k by (simp add: set_ptr_def ptrs_at_def set_blk_def fun_upd_idem)
    ultimately show "set_ptr s2 (Some e) 0 m = Some s2 \<and> ready s2 (replicate n None) [] b h" by simp
  }
  assume m: "m = Some g" "x = Aints [0]"
  let ?s3 = "set_blk s2 (Some e) (Aptrs (Some g # replicate k None))"
  have g: "heap s2 g = Some (Aints [0])" using f2(13) m by simp
  have ne: "g \<noteq> e" "g \<noteq> c" using fresh m by auto
  have "set_ptr s2 (Some e) 0 m = Some ?s3" using h2(2) m k by (simp add: set_ptr_def ptrs_at_def)
  moreover have "set_int ?s3 m 0 0 = Some ?s3" using g ne m by (simp add: set_int_def ints_at_def set_blk_def fun_upd_idem)
  moreover have "owns ?s3 (g # [e, c]) b h" using o2 m by (intro owns_set_blk) simp_all
  then have "owns ?s3 (c # e # ptr_list [Some g]) b h" by (rule owns_reorder) (use d ne in auto)
  then have "laid ?s3 n [[0]] b h"
    unfolding laid_def using f h2 d ne g k
    by (intro exI [of _ c] exI [of _ e] exI [of _ "replicate k 0"] exI [of _ "[Some g]"]) (simp add: ints_at_def)
  ultimately show "\<exists>s3. set_ptr s2 (Some e) 0 m = Some s3 \<and>
      set_int s3 m 0 0 = Some s3 \<and> laid s3 n [[0]] b h \<and> s_count s3 = 1 \<and> cpunum s3 = cpunum s \<and> cpuoff s3 = cpuoff s"
    using f by auto
qed

text \<open>From the start of the tables to the strings.\<close>

lemma init_tables_spec:
  assumes "owns s [] b h" "blank s" "0 < ar_type_count args" "ar_type_count args \<le> int (length (ar_each_count args))"
    and "1 + (\<Sum>t\<leftarrow>[1..<nat (ar_type_count args)]. max 0 (ar_each_count args ! t)) \<le> INT_MAX"
  shows "\<exists>s' r strs. init_tables s args rootdir = Some (s', r) \<and>
    (r = DPE_OK \<and> (\<exists>ptrs rows. ready s' ptrs strs b h \<and> laid_out s' ptrs rows \<and>
        map (\<lambda>r. int (length r)) rows = 1 # map (\<lambda>t. max 0 (ar_each_count args ! t)) [1..<nat (ar_type_count args)] \<and>
        hd rows = [0]) \<and>
      evps_at s' (s_evps s') = Some (replicate (nat (s_count s')) False) \<and> cpunum s' = cpunum s \<and> cpuoff s' = cpuoff s
     \<or> r = DPE_NOMEM \<and> blank s' \<and> owns s' strs b h \<and>
       (strs = [] \<or> length strs = 1 \<and> ar_bin_file args \<noteq> None))"
proof -
  let ?n = "nat (ar_type_count args)"
  let ?s0 = "s\<lparr>i_machine_id := ar_machine_id args, s_count := 1, s_type_count := ar_type_count args\<rparr>"
  have n: "0 < ?n" "?n \<le> length (ar_each_count args)" "int ?n = ar_type_count args" using assms(3,4) by simp_all
  obtain s1 p where a1: "app_alloc ?s0 (Aints (replicate ?n 0)) = (s1, p)" by fastforce
  note f1 = app_alloc_fields [OF a1]
  let ?s1 = "s1\<lparr>s_each_count := p\<rparr>"
  obtain s2 q where a2: "app_alloc ?s1 (Aptrs (replicate ?n None)) = (s2, q)" by fastforce
  note f2 = app_alloc_fields [OF a2]
  let ?s2 = "s2\<lparr>s_each_ids := q\<rparr>"
  have "owns ?s0 [] b h" using assms(1) by (simp add: owns_def)
  from owns_alloc [OF this a1] have "owns ?s1 (ptr_list [p]) b h" by (simp add: owns_def)
  from owns_alloc [OF this a2] have o2: "owns ?s2 (ptr_list [q] @ ptr_list [p]) b h" by (simp add: owns_def)
  have bl: "s_evps ?s2 = None" "threads ?s2 = None" "i_root_dir ?s2 = None" "i_bin_file ?s2 = None"
    "s_each_count ?s2 = p" "s_each_ids ?s2 = q" "s_count ?s2 = 1" "s_type_count ?s2 = int ?n"
    "cpunum ?s2 = cpunum s" "cpuoff ?s2 = cpuoff s"
    using f1 f2 assms(2) n(3) by (simp_all add: blank_def)
  have hq: "heap ?s2 a = Some (Aptrs (replicate ?n None))" if "q = Some a" for a using f2 that by auto
  have r2: "ready ?s2 (case q of None \<Rightarrow> [] | Some _ \<Rightarrow> replicate ?n None) [] b h"
  proof -
    let ?ptrs = "case q of None \<Rightarrow> [] | Some _ \<Rightarrow> replicate ?n None"
    have "tables ?s2 ?ptrs = ptr_list [p] @ ptr_list [q]"
      using bl(1,2,5,6) by (cases p; cases q) (simp_all add: tables_def)
    then have "owns ?s2 (tables ?s2 ?ptrs @ []) b h" using o2 by (auto simp: owns_def)
    then show ?thesis using bl(6,8) hq by (cases q) (simp_all add: ready_def)
  qed
  show ?thesis
  proof (cases "p = None \<or> q = None")
    case True
    then have "init_tables s args rootdir = fini_with ?s2 DPE_NOMEM"
      using a1 a2 by (simp add: init_tables_def Let_def)
    then show ?thesis using ready_fini [OF r2, of DPE_NOMEM] by auto
  next
    case False
    then obtain c e where pq: "p = Some c" "q = Some e" by auto
    have hp: "heap ?s2 c = Some (Aints (replicate ?n 0))" "heap ?s2 e = Some (Aptrs (replicate ?n None))"
      using f1(12,13) f2(12,13) pq f1(11) by auto
    have o: "owns ?s2 [e, c] b h" using o2 pq by simp
    let ?s3 = "set_blk ?s2 (Some c) (Aints ((replicate ?n 0)[0 := 1]))"
    have s3: "set_int ?s2 (Some c) 0 1 = Some ?s3" using hp(1) n(1) by (simp add: set_int_def ints_at_def)
    obtain s4 m where a4: "app_alloc ?s3 (Aints [0]) = (s4, m)" by fastforce
    note row = first_row [OF o, of ?n ?s3 "Aints [0]" s4 m, OF _ _ bl(1-4,8,7) hp n(1) s3 a4] bl(5,6) pq
    have go: "init_tables s args rootdir = (do {
        s \<leftarrow> set_ptr s4 (Some e) 0 m;
        if m = None then fini_with s DPE_NOMEM
        else do {
          s \<leftarrow> set_int s m 0 0;
          (s, ok) \<leftarrow> layout_from s args [1..<?n];
          if \<not> ok then fini_with s DPE_NOMEM
          else init_loops s args rootdir
        }
      })"
      using a1 a2 pq s3 a4 by (simp add: init_tables_def Let_def)
    show ?thesis
    proof (cases m)
      case None
      then have r4: "set_ptr s4 (Some e) 0 m = Some s4" "ready s4 (replicate ?n None) [] b h" using row by simp_all
      then show ?thesis using ready_fini [OF r4(2), of DPE_NOMEM] None go by auto
    next
      case (Some g)
      then obtain s5 where s5: "set_ptr s4 (Some e) 0 m = Some s5" "set_int s5 m 0 0 = Some s5" "laid s5 ?n [[0]] b h"
        "s_count s5 = 1" "cpunum s5 = cpunum s" "cpuoff s5 = cpuoff s"
        using row bl(9,10) by auto
      obtain s6 ok rows where s6: "layout_from s5 args [1..<?n] = Some (s6, ok)" "laid s6 ?n rows b h"
        "ok \<longrightarrow> map (\<lambda>r. int (length r)) rows = 1 # map (\<lambda>t. max 0 (ar_each_count args ! t)) [1..<?n] \<and> take 1 rows = [[0]]"
        "cpunum s6 = cpunum s5" "cpuoff s6 = cpuoff s5"
        using layout_from_laid [OF s5(3) _ n(2)] s5(4) assms(5) by auto
      have go2: "init_tables s args rootdir = (if \<not> ok then fini_with s6 DPE_NOMEM else init_loops s6 args rootdir)"
        using go s5(1,2) s6(1) Some by simp
      show ?thesis
      proof (cases ok)
        case False
        obtain ptrs where "ready s6 ptrs [] b h" using laid_ready [OF s6(2)] by blast
        then show ?thesis using ready_fini [of s6 ptrs "[]" b h DPE_NOMEM] False go2 by auto
      next
        case True
        have "length (map (\<lambda>r. int (length r)) rows) = ?n" using s6(3) True n(1) by simp
        then have "length rows = ?n" by simp
        then obtain ptrs where l: "ready s6 ptrs [] b h" "laid_out s6 ptrs rows" using laid_done [OF s6(2)] by blast
        have z: "s_evps s6 = None" "threads s6 = None" "i_root_dir s6 = None" "i_bin_file s6 = None"
          using s6(2) by (auto simp: laid_def)
        have "hd rows = [0]" using s6(3) True by (cases rows) auto
        then have R: "map (\<lambda>r. int (length r)) rows = 1 # map (\<lambda>t. max 0 (ar_each_count args ! t)) [1..<?n] \<and> hd rows = [0]"
          using s6(3) True by simp
        obtain s' r strs where L: "init_loops s6 args rootdir = Some (s', r)"
          "r = DPE_OK \<and> ready s' ptrs strs b h \<and> laid_out s' ptrs rows \<and>
            evps_at s' (s_evps s') = Some (replicate (nat (s_count s')) False) \<and> cpunum s' = cpunum s6 \<and> cpuoff s' = cpuoff s6
           \<or> r = DPE_NOMEM \<and> blank s' \<and> owns s' strs b h \<and> (strs = [] \<or> length strs = 1 \<and> ar_bin_file args \<noteq> None)"
          using init_loops_spec [OF l z] by blast
        have "init_tables s args rootdir = Some (s', r)" using go2 True L(1) by simp
        moreover have "cpunum s6 = cpunum s" "cpuoff s6 = cpuoff s" using s6(4,5) s5(5,6) by simp_all
        ultimately show ?thesis using L(2) R by (intro exI [of _ s'] exI [of _ r] exI [of _ strs]) metis
      qed
    qed
  qed
qed

end
