(* ===== verification/Dpapp_Props.thy ===== *)
theory Dpapp_Props
  imports Dpapp_Inv Dplog_Props
begin

text \<open>What \<^verbatim>\<open>dpapp_init\<close> promises, and the cases it lets through that it should not.\<close>

section \<open>The sum of the counts\<close>

lemma sum_count_app: "sum_count args (is @ [i]) t = do {
    u \<leftarrow> sum_count args is t; c \<leftarrow> elem_at (ar_each_count args) (int i); chk_int (u + c) }"
proof (induction "is" arbitrary: t)
  case Nil
  show ?case by (cases "elem_at (ar_each_count args) (int i)") (auto split: bind_split)
next
  case (Cons j js)
  then show ?case by (cases "elem_at (ar_each_count args) (int j)") (auto split: bind_split)
qed

lemma sum_count_total:
  assumes "n \<le> length (ar_each_count args)" "\<forall>t<n. 0 \<le> ar_each_count args ! t"
    and "(\<Sum>t\<leftarrow>[0..<n]. ar_each_count args ! t) \<le> INT_MAX"
  shows "sum_count args [0..<n] 0 = Some (\<Sum>t\<leftarrow>[0..<n]. ar_each_count args ! t)"
  using assms
proof (induction n)
  case (Suc n)
  have nn: "0 \<le> (\<Sum>t\<leftarrow>[0..<n]. ar_each_count args ! t)" using Suc.prems(2) by (intro sum_list_nonneg) auto
  moreover have "0 \<le> ar_each_count args ! n" using Suc.prems(2) by simp
  moreover from this have "(\<Sum>t\<leftarrow>[0..<n]. ar_each_count args ! t) \<le> INT_MAX" using Suc.prems(3) by simp
  ultimately have "sum_count args [0..<n] 0 = Some (\<Sum>t\<leftarrow>[0..<n]. ar_each_count args ! t)"
    using Suc by simp
  moreover have "0 \<le> (\<Sum>t\<leftarrow>[0..<n]. ar_each_count args ! t) + ar_each_count args ! n"
    using nn Suc.prems(2) by simp
  ultimately show ?case using Suc.prems
    by (simp add: sum_count_app elem_at_def)
qed auto

lemma sum_max_tail:
  assumes "0 < n" "\<forall>t<n. 0 \<le> c t"
  shows "(\<Sum>t\<leftarrow>[1..<n]. max 0 (c t)) \<le> (\<Sum>t\<leftarrow>[0..<n]. c t :: int)"
proof -
  have e: "map (\<lambda>t. max 0 (c t)) [1..<n] = map c [1..<n]" using assms(2) by auto
  have "[0..<n] = 0 # [1..<n]" using assms(1) by (simp add: upt_conv_Cons)
  then show ?thesis using assms unfolding e by simp
qed

section \<open>The contract\<close>

text \<open>The ids of the threads of each type, as the structure holds them.\<close>

definition thread_rows :: "app \<Rightarrow> int list list option" where
  "thread_rows s = do { ptrs \<leftarrow> ptrs_at s (s_each_ids s); rows_at s ptrs }"

text \<open>Valid options: a root directory, at least the type of the master, and at most 255 threads.\<close>

definition valid_arg :: "dpapp_arg \<Rightarrow> bool" where
  "valid_arg args \<longleftrightarrow> ar_root_dir args \<noteq> None \<and> 0 < ar_type_count args \<and>
     ar_type_count args \<le> int (length (ar_each_count args)) \<and>
     (\<forall>t < nat (ar_type_count args). 0 \<le> ar_each_count args ! t) \<and>
     (\<Sum>t\<leftarrow>[0..<nat (ar_type_count args)]. ar_each_count args ! t) \<le> 255"

lemma dpapp_init_valid:
  assumes "valid_arg args" "blank s"
  shows "\<exists>d s0. dpapp_init nprocs s args = init_tables s0 args d \<and> blank s0 \<and> heap s0 = heap s \<and> heap_brk s0 = heap_brk s \<and>
    cpunum s0 = nprocs \<and> cpuoff s0 = ar_cpuoff args"
proof -
  obtain d where d: "ar_root_dir args = Some d" using assms(1) by (auto simp: valid_arg_def)
  have c: "sum_count args [0..<nat (ar_type_count args)] 0 =
      Some (\<Sum>t\<leftarrow>[0..<nat (ar_type_count args)]. ar_each_count args ! t)"
    by (rule sum_count_total) (use assms(1) in \<open>auto simp: valid_arg_def\<close>)
  have v: "0 < ar_type_count args" "(\<Sum>t\<leftarrow>[0..<nat (ar_type_count args)]. ar_each_count args ! t) \<le> 255"
    using assms(1) by (simp_all add: valid_arg_def)
  let ?s0 = "s\<lparr>alog := fst (dplog_init (alog s) (ar_log_file args) (ar_log_level args) (ar_log_tsacc args)),
    cpunum := nprocs, cpuoff := ar_cpuoff args, blocked := [SIGPIPE]\<rparr>"
  have "dpapp_init nprocs s args = init_tables ?s0 args d"
    using d c v assms(2) by (simp add: dpapp_init_def blank_def)
  moreover have "blank ?s0" using assms(2) by (simp add: blank_def)
  ultimately show ?thesis by (intro exI [of _ d] exI [of _ ?s0]) simp
qed

lemma owns_fresh: "\<forall>a \<ge> heap_brk s. heap s a = None \<Longrightarrow> owns s [] (heap_brk s) (heap s)"
  by (simp add: owns_def)

lemma owns_few:
  assumes "owns s' strs (heap_brk s) (heap s)" "\<forall>a \<ge> heap_brk s. heap s a = None"
  shows "heap s' a = heap s a \<or> a \<in> set strs"
  using assms by (cases "a < heap_brk s") (auto simp: owns_def not_less)

lemma laid_out_size:
  assumes "laid_out s ptrs rows"
  shows "s_count s = (\<Sum>r\<leftarrow>rows. int (length r))"
proof -
  have "length (concat rows) = nat (s_count s)" "0 \<le> s_count s" using assms by (auto simp: laid_out_def)
  moreover have "int (length (concat rows)) = (\<Sum>r\<leftarrow>rows. int (length r))" by (induction rows) auto
  ultimately show ?thesis by simp
qed

lemma dpapp_init_outcome:
  assumes "valid_arg args" and "blank s" and "\<forall>a \<ge> heap_brk s. heap s a = None"
  shows "\<exists>s' r. dpapp_init nprocs s args = Some (s', r) \<and>
    (r = DPE_OK \<and>
       (\<exists>rows. thread_rows s' = Some rows \<and> hd rows = [0] \<and>
         map (\<lambda>r. int (length r)) rows = 1 # map (\<lambda>t. ar_each_count args ! t) [1..<nat (ar_type_count args)] \<and>
         concat rows = map int [0..<nat (s_count s')]) \<and>
       ints_at s' (s_each_count s') = Some (1 # map (\<lambda>t. ar_each_count args ! t) [1..<nat (ar_type_count args)]) \<and>
       1 \<le> s_count s' \<and> s_count s' \<le> 256 \<and> evps_at s' (s_evps s') = Some (replicate (nat (s_count s')) False) \<and>
       (\<exists>s2. dpapp_fini s' = Some s2 \<and> blank s2)
     \<or> r = DPE_NOMEM \<and> blank s' \<and>
       (\<exists>x. \<forall>a. heap s' a \<noteq> heap s a \<longrightarrow> ar_bin_file args \<noteq> None \<and> a = x))"
proof -
  let ?n = "nat (ar_type_count args)"
  obtain d s0 where s0: "dpapp_init nprocs s args = init_tables s0 args d" "blank s0" "heap s0 = heap s" "heap_brk s0 = heap_brk s"
    using dpapp_init_valid [OF assms(1,2)] by blast
  have v: "0 < ar_type_count args" "ar_type_count args \<le> int (length (ar_each_count args))"
    "\<forall>t < ?n. 0 \<le> ar_each_count args ! t" "(\<Sum>t\<leftarrow>[0..<?n]. ar_each_count args ! t) \<le> 255"
    using assms(1) by (simp_all add: valid_arg_def)
  have m: "map (\<lambda>t. max 0 (ar_each_count args ! t)) [1..<?n] = map (\<lambda>t. ar_each_count args ! t) [1..<?n]"
    using v(3) by auto
  have sum: "(\<Sum>t\<leftarrow>[1..<?n]. max 0 (ar_each_count args ! t)) \<le> 255"
    using sum_max_tail [of ?n "\<lambda>t. ar_each_count args ! t"] v by simp
  have ow: "owns s0 [] (heap_brk s) (heap s)" using owns_fresh [OF assms(3)] s0(3,4) by (simp add: owns_def)
  have le: "1 + (\<Sum>t\<leftarrow>[1..<?n]. max 0 (ar_each_count args ! t)) \<le> INT_MAX" using sum by simp
  note spec = init_tables_spec [OF ow s0(2) v(1,2) le, of d]
  obtain s' r strs where R: "init_tables s0 args d = Some (s', r)"
    "r = DPE_OK \<and> (\<exists>ptrs rows. ready s' ptrs strs (heap_brk s) (heap s) \<and> laid_out s' ptrs rows \<and>
        map (\<lambda>r. int (length r)) rows = 1 # map (\<lambda>t. max 0 (ar_each_count args ! t)) [1..<?n] \<and> hd rows = [0]) \<and>
      evps_at s' (s_evps s') = Some (replicate (nat (s_count s')) False) \<and> cpunum s' = cpunum s0 \<and> cpuoff s' = cpuoff s0
     \<or> r = DPE_NOMEM \<and> blank s' \<and> owns s' strs (heap_brk s) (heap s) \<and>
       (strs = [] \<or> length strs = 1 \<and> ar_bin_file args \<noteq> None)"
    using spec by (elim exE) (rule that, blast+)
  from R(2) show ?thesis
  proof
    assume ok: "r = DPE_OK \<and> (\<exists>ptrs rows. ready s' ptrs strs (heap_brk s) (heap s) \<and> laid_out s' ptrs rows \<and>
        map (\<lambda>r. int (length r)) rows = 1 # map (\<lambda>t. max 0 (ar_each_count args ! t)) [1..<?n] \<and> hd rows = [0]) \<and>
      evps_at s' (s_evps s') = Some (replicate (nat (s_count s')) False) \<and> cpunum s' = cpunum s0 \<and> cpuoff s' = cpuoff s0"
    then obtain ptrs and rows :: "int list list" where l: "ready s' ptrs strs (heap_brk s) (heap s)" "laid_out s' ptrs rows"
      "map (\<lambda>r. int (length r)) rows = 1 # map (\<lambda>t. ar_each_count args ! t) [1..<?n]" "hd rows = [0]"
      unfolding m by (elim conjE exE) (rule that, assumption+)
    have "s_count s' = sum_list (1 # map (\<lambda>t. ar_each_count args ! t) [1..<?n])"
      using laid_out_size [OF l(2)] l(3) by simp
    moreover have "0 \<le> sum_list (map (\<lambda>t. ar_each_count args ! t) [1..<?n])" using v(3) by (intro sum_list_nonneg) auto
    ultimately have c: "1 \<le> s_count s'" "s_count s' \<le> 256" using sum unfolding m by simp_all
    obtain s2 where "dpapp_fini s' = Some s2" "blank s2"
      using ready_fini [OF l(1), of 0] by (auto simp: fini_with_def split: bind_splits)
    moreover have "thread_rows s' = Some rows" "concat rows = map int [0..<nat (s_count s')]"
      "ints_at s' (s_each_count s') = Some (1 # map (\<lambda>t. ar_each_count args ! t) [1..<?n])"
      using l(2,3) by (simp_all add: laid_out_def thread_rows_def)
    ultimately show ?thesis using s0(1) R(1) ok l(3,4) c by auto
  next
    assume no: "r = DPE_NOMEM \<and> blank s' \<and> owns s' strs (heap_brk s) (heap s) \<and>
       (strs = [] \<or> length strs = 1 \<and> ar_bin_file args \<noteq> None)"
    then have "\<exists>x. \<forall>a. heap s' a \<noteq> heap s a \<longrightarrow> ar_bin_file args \<noteq> None \<and> a = x"
      using owns_few [of s' strs s, OF _ assms(3)] by (cases strs) auto
    then show ?thesis using s0(1) R(1) no by (intro exI [of _ s'] exI [of _ r]) simp
  qed
qed


definition app_zero :: app where
  "app_zero = \<lparr>heap = (\<lambda>_. None), heap_brk = 0, heap_ok = (\<lambda>_. True), s_evps = None, s_count = 0, s_type_count = 0,
     s_each_count = None, s_each_ids = None, i_machine_id = 0, i_root_dir = None, i_bin_file = None, i_count = 0,
     i_type_count = 0, i_each_count = None, i_each_ids = None, cpunum = 0, cpuoff = 0, threads = None, blocked = [],
     bound = [], alog = quiet_log\<rparr>"

text \<open>Three types, with two workers in the last.\<close>

definition some_arg :: dpapp_arg where
  "some_arg = dpapp_arg_init\<lparr>ar_root_dir := Some ''/'', ar_bin_file := Some ''/app'', ar_type_count := 3,
     ar_each_count := [1, 0, 2]\<rparr>"


section \<open>Rejected and let through\<close>

lemma dpapp_init_rejects:
  assumes "s_evps s = None"
  shows "ar_root_dir args = None \<or> ar_type_count args \<le> 0 \<Longrightarrow>
      \<exists>s'. dpapp_init nprocs s args = Some (s', DPE_INVAL) \<and> heap s' = heap s"
    and "ar_root_dir args \<noteq> None \<Longrightarrow> 0 < ar_type_count args \<Longrightarrow>
      ar_type_count args \<le> int (length (ar_each_count args)) \<Longrightarrow>
      \<forall>t < nat (ar_type_count args). 0 \<le> ar_each_count args ! t \<Longrightarrow>
      (\<Sum>t\<leftarrow>[0..<nat (ar_type_count args)]. ar_each_count args ! t) \<in> {255<..INT_MAX} \<Longrightarrow>
      \<exists>s'. dpapp_init nprocs s args = Some (s', DPE_INVAL) \<and> heap s' = heap s"
proof -
  show "ar_root_dir args = None \<or> ar_type_count args \<le> 0 \<Longrightarrow>
      \<exists>s'. dpapp_init nprocs s args = Some (s', DPE_INVAL) \<and> heap s' = heap s"
    using assms by (cases "ar_root_dir args") (simp_all add: dpapp_init_def Let_def)
next
  assume a: "ar_root_dir args \<noteq> None" "0 < ar_type_count args" "ar_type_count args \<le> int (length (ar_each_count args))"
    "\<forall>t < nat (ar_type_count args). 0 \<le> ar_each_count args ! t"
    "(\<Sum>t\<leftarrow>[0..<nat (ar_type_count args)]. ar_each_count args ! t) \<in> {255<..INT_MAX}"
  then have "sum_count args [0..<nat (ar_type_count args)] 0 = Some (\<Sum>t\<leftarrow>[0..<nat (ar_type_count args)]. ar_each_count args ! t)"
    by (intro sum_count_total) auto
  then show "\<exists>s'. dpapp_init nprocs s args = Some (s', DPE_INVAL) \<and> heap s' = heap s"
    using assms a by (auto simp: dpapp_init_def Let_def)
qed

lemma dpapp_init_once: "s_evps s \<noteq> None \<Longrightarrow> dpapp_init nprocs s args = Some (s, DPE_REPEAT)"
  by (simp add: dpapp_init_def)

text \<open>Types that are switched off by a negative count make room in the sum for more threads than 255.\<close>

definition many_arg :: dpapp_arg where
  "many_arg = dpapp_arg_init\<lparr>ar_root_dir := Some ''/'', ar_type_count := 4, ar_each_count := [1, 200, 200, -200]\<rparr>"

lemma many_threads: "sum_count many_arg [0..<4] 0 = Some 201"
  "1 + (\<Sum>t\<leftarrow>[1..<4]. max 0 (ar_each_count many_arg ! t)) = 401"
  by (code_simp)+

lemma too_many_threads: "\<exists>s' r. dpapp_init 4 app_zero many_arg = Some (s', r) \<and> (r = DPE_OK \<longrightarrow> s_count s' = 401)"
proof -
  let ?s = "app_zero\<lparr>alog := fst (dplog_init (alog app_zero) (ar_log_file many_arg) (ar_log_level many_arg) (ar_log_tsacc many_arg)),
    cpunum := 4, cpuoff := ar_cpuoff many_arg, blocked := [SIGPIPE]\<rparr>"
  have go: "dpapp_init 4 app_zero many_arg = init_tables ?s many_arg ''/''"
    using many_threads(1) by (simp add: dpapp_init_def many_arg_def app_zero_def)
  have "owns ?s [] 0 (\<lambda>_. None)" "blank ?s" by (simp_all add: owns_def blank_def app_zero_def)
  moreover have "0 < ar_type_count many_arg" "ar_type_count many_arg \<le> int (length (ar_each_count many_arg))"
    "nat (ar_type_count many_arg) = 4" by (simp_all add: many_arg_def)
  ultimately have "\<exists>s' r strs. init_tables ?s many_arg ''/'' = Some (s', r) \<and>
    (r = DPE_OK \<and> (\<exists>ptrs rows. ready s' ptrs strs 0 (\<lambda>_. None) \<and> laid_out s' ptrs rows \<and>
        map (\<lambda>r. int (length r)) rows = 1 # map (\<lambda>t. max 0 (ar_each_count many_arg ! t)) [1..<4] \<and> hd rows = [0]) \<and>
      evps_at s' (s_evps s') = Some (replicate (nat (s_count s')) False) \<and> cpunum s' = cpunum ?s \<and> cpuoff s' = cpuoff ?s
     \<or> r = DPE_NOMEM \<and> blank s' \<and> owns s' strs 0 (\<lambda>_. None) \<and>
       (strs = [] \<or> length strs = 1 \<and> ar_bin_file many_arg \<noteq> None))"
    using init_tables_spec [of ?s 0 "\<lambda>_. None" many_arg "''/''"] many_threads(2) by simp
  then obtain s' r ptrs and rows :: "int list list" where s: "init_tables ?s many_arg ''/'' = Some (s', r)"
    "r = DPE_OK \<longrightarrow> laid_out s' ptrs rows \<and> map (\<lambda>r. int (length r)) rows = 1 # map (\<lambda>t. max 0 (ar_each_count many_arg ! t)) [1..<4]"
    by (elim exE conjE disjE) (rule that, assumption, simp)+
  have "r = DPE_OK \<longrightarrow> s_count s' = 401" using s(2) laid_out_size [of s' ptrs rows] many_threads(2) by auto
  then show ?thesis using go s(1) by auto
qed

end
