(* ===== verification/Dpapp_Launch.thy ===== *)
theory Dpapp_Launch
  imports Dpapp_Start Dpapp_Props Dpevp_Props
begin

text \<open>
  Start-up as a whole (\<^verbatim>\<open>dpapp_start\<close>): the order in which the loops are made, where the threads run, and
  what happens when a loop cannot be made.
\<close>

section \<open>The workers in order\<close>

lemma map_nth_tl: "map ((!) xs) [1..<length xs] = tl xs"
  by (rule nth_equalityI) (auto simp: nth_tl)

lemma worker_list_ids: "map snd (worker_list ids) = map nat (concat (tl ids))"
proof -
  have "map snd (worker_list ids) = map nat (concat (map ((!) ids) [1..<length ids]))"
    by (simp add: worker_list_def map_concat comp_def)
  then show ?thesis unfolding map_nth_tl .
qed

lemma worker_list_consecutive:
  assumes "concat ids = map int [0..<n]" "hd ids = [0]" "ids \<noteq> []"
  shows "map snd (worker_list ids) = [1..<n]"
proof -
  have e: "concat ids = 0 # concat (tl ids)" using assms(2,3) by (cases ids) auto
  then have "n \<noteq> 0" using assms(1) by (cases n) auto
  then have "[0..<n] = 0 # [1..<n]" by (simp add: upt_conv_Cons)
  then have "concat (tl ids) = map int [1..<n]" using assms(1) e by simp
  then show ?thesis by (simp add: worker_list_ids comp_def)
qed

section \<open>The table of loops\<close>

lemma set_evp_table:
  assumes "set_evp s i = Some s'" "evps_at s (s_evps s) = Some l"
  shows "i < length l" "evps_at s' (s_evps s') = Some (l[i := True])" "s_count s' = s_count s" "bound s' = bound s"
    "cpuoff s' = cpuoff s" "cpunum s' = cpunum s"
proof -
  obtain a where a: "s_evps s = Some a" using assms(2) by (auto simp: evps_at_def split: option.splits)
  then show "i < length l" "evps_at s' (s_evps s') = Some (l[i := True])" "s_count s' = s_count s" "bound s' = bound s"
    "cpuoff s' = cpuoff s" "cpunum s' = cpunum s"
    using assms by (auto simp: set_evp_def set_blk_def evps_at_def split: if_splits)
qed

lemma bindcpu_table:
  assumes "bindcpu s i = Some s'"
  shows "evps_at s' p = evps_at s p" "s_evps s' = s_evps s" "s_count s' = s_count s" "cpuoff s' = cpuoff s" "cpunum s' = cpunum s"
    "bound s' = bound s @ [(i, abs (i + cpuoff s) mod cpunum s)]" "0 < cpunum s"
  using assms by (cases p; auto simp: bindcpu_def evps_at_def split: bind_splits if_splits)+

lemma bindcpu_cpu: "bindcpu s i = Some s' \<Longrightarrow> (j, c) \<in> set (drop (length (bound s)) (bound s')) \<Longrightarrow> 0 \<le> c \<and> c < cpunum s"
  using bindcpu_table(6,7) [of s i s'] by auto

lemma del_all_missing: "False \<in> set l \<Longrightarrow> del_all env l k w = None"
proof (induction l arbitrary: k w)
  case (Cons e es)
  then show ?case by (cases e) (auto split: bind_split)
qed simp

lemma start_end_missing:
  assumes "evps_at s (s_evps s) = Some l" "False \<in> set l" "length l = nat (s_count s)"
  shows "start_end env s w r = None"
proof (cases "s_count s \<le> int (length l)")
  case True
  then have "take (nat (s_count s)) l = l" using assms(3) by simp
  then show ?thesis using assms by (simp add: start_end_def del_all_missing [OF assms(2)])
qed (use assms in \<open>simp add: start_end_def\<close>)

text \<open>What the workers' loop does to the process record when all goes well.\<close>

lemma start_workers_done:
  assumes "start_workers env ec ok s w ws = Some (s', w', True)" "evps_at s (s_evps s) = Some l"
  shows "\<exists>l'. evps_at s' (s_evps s') = Some l' \<and> length l' = length l \<and>
      (\<forall>j < length l. l' ! j \<longleftrightarrow> l ! j \<or> j \<in> snd ` set ws) \<and> s_count s' = s_count s \<and>
      bound s' = bound s @ map (\<lambda>(t, i). (int i, abs (int i + cpuoff s) mod cpunum s)) ws"
  using assms
proof (induction ws arbitrary: s w l)
  case (Cons p ws)
  obtain t i where p: "p = (t, i)" by (cases p)
  obtain w1 s1 s2 where st: "dpevp_new env ec w t i = Some (w1, True)" "set_evp s i = Some s1" "ok i"
    "bindcpu s1 (int i) = Some s2" "start_workers env ec ok s2 w1 ws = Some (s', w', True)"
    using Cons.prems(1) p by (auto split: bind_splits if_splits)
  note e = set_evp_table [OF st(2) Cons.prems(2)] bindcpu_table [OF st(4)]
  have "evps_at s2 (s_evps s2) = Some (l[i := True])" using e by simp
  from Cons.IH [OF st(5) this] e p show ?case by (auto simp: nth_list_update)
qed auto

section \<open>A loop that cannot be made\<close>

text \<open>Some loop of the list cannot be made, and every thread before it can.\<close>

fun new_fails ::
  "('d, 's) env \<Rightarrow> (('d, 's) world \<Rightarrow> int) \<Rightarrow> (nat \<Rightarrow> bool) \<Rightarrow> ('d, 's) world \<Rightarrow> (int \<times> nat) list \<Rightarrow> bool" where
  "new_fails env epoll_create create_ok w [] = False"
| "new_fails env epoll_create create_ok w ((t, i) # ws) =
     (case dpevp_new env epoll_create w t i of
        None \<Rightarrow> False
      | Some (w1, ok) \<Rightarrow> \<not> ok \<or> (i = 0 \<or> create_ok i) \<and> new_fails env epoll_create create_ok w1 ws)"

lemma start_workers_fail:
  assumes "new_fails env ec ok w ws" "evps_at s (s_evps s) = Some l" "length l = nat (s_count s)"
    and "distinct (map snd ws)" "\<forall>i \<in> snd ` set ws. i \<noteq> 0 \<and> i < length l \<and> \<not> l ! i"
  shows "do { (s1, w1, good) \<leftarrow> start_workers env ec ok s w ws; if \<not> good then start_end env s1 w1 r else X s1 w1 } = None"
  using assms
proof (induction ws arbitrary: s w l)
  case (Cons p ws)
  obtain t i where p: "p = (t, i)" by (cases p)
  obtain w1 good where new: "dpevp_new env ec w t i = Some (w1, good)"
    using Cons.prems(1) p by (auto split: option.splits)
  show ?case
  proof (cases good)
    case False
    have "False \<in> set l" using Cons.prems(5) p in_set_conv_nth [of False l] by auto
    then show ?thesis using p new False start_end_missing [OF Cons.prems(2)] Cons.prems(3) by simp
  next
    case True
    then have ok: "ok i" "new_fails env ec ok w1 ws" using Cons.prems(1,5) p new by auto
    show ?thesis
    proof (cases "set_evp s i")
      case (Some s1)
      note e = set_evp_table [OF Some Cons.prems(2)]
      show ?thesis
      proof (cases "bindcpu s1 (int i)")
        case (Some s2)
        note b = bindcpu_table [OF Some]
        have "evps_at s2 (s_evps s2) = Some (l[i := True])" "length (l[i := True]) = nat (s_count s2)"
          using e b Cons.prems(3) by simp_all
        moreover have "distinct (map snd ws)"
          "\<forall>j \<in> snd ` set ws. j \<noteq> 0 \<and> j < length (l[i := True]) \<and> \<not> l[i := True] ! j"
          using Cons.prems(4,5) p by (force simp: nth_list_update)+
        ultimately show ?thesis using Cons.IH [OF ok(2)] new True ok(1) \<open>set_evp s i = Some s1\<close> Some p by simp
      qed (use p new True ok \<open>set_evp s i = Some s1\<close> in simp)
    qed (use p new True ok in simp)
  qed
qed simp

lemma publish_ids: "publish s w = Some w1 \<Longrightarrow> thread_rows s = Some (each_ids w1)"
  by (auto simp: publish_def thread_rows_def split: bind_splits)

text \<open>
  When the loop of the master or of any worker cannot be made, start-up ends in undefined behaviour: the error path deletes
  every loop of the table, and the place of the loop that is missing holds a null pointer.
\<close>

theorem start_failure_crashes:
  assumes "valid_arg args" and "blank s" and "\<forall>a \<ge> heap_brk s. heap s a = None"
    and "dpapp_init nprocs s args = Some (s1, DPE_OK)" and "publish s1 w = Some w1"
    and "new_fails env epoll_create create_ok w1 ((0, 0) # worker_list (each_ids w1))"
  shows "dpapp_start env epoll_create create_ok start_fun others nprocs s w args = None"
proof -
  let ?n = "nat (s_count s1)"
  obtain "rows" where R: "thread_rows s1 = Some rows" "hd rows = [0]" "concat rows = map int [0..<?n]"
    "map (\<lambda>r. int (length r)) rows = 1 # map (\<lambda>t. ar_each_count args ! t) [1..<nat (ar_type_count args)]"
    "evps_at s1 (s_evps s1) = Some (replicate ?n False)" "1 \<le> s_count s1"
    using dpapp_init_outcome [OF assms(1-3), of nprocs] assms(4) by auto
  have ids: "each_ids w1 = rows" using publish_ids [OF assms(5)] R(1) by simp
  have "rows \<noteq> []" using R(4) by auto
  then have wl: "map snd (worker_list rows) = [1..<?n]" using worker_list_consecutive R(2,3) by blast
  have nz: "False \<in> set (replicate ?n False)" using R(6) by simp
  obtain w2 good where new: "dpevp_new env epoll_create w1 0 0 = Some (w2, good)"
    using assms(6) by (auto split: option.splits)
  have go: "dpapp_start env epoll_create create_ok start_fun others nprocs s w args =
     (if \<not> good then start_end env s1 w2 DPE_UNINIT
      else do {
        s \<leftarrow> set_evp s1 0;
        s \<leftarrow> bindcpu s 0;
        (s, w, ok) \<leftarrow> start_workers env epoll_create create_ok s w2 (worker_list rows);
        if \<not> ok then start_end env s w DPE_UNINIT
        else do { w \<leftarrow> dpevp_start w 0 start_fun; w \<leftarrow> others w; start_end env s w DPE_OK }
      })"
    using assms(4,5) new ids by (simp add: dpapp_start_def dpret_iserr_def)
  show ?thesis
  proof (cases good)
    case False
    then show ?thesis using go start_end_missing [OF R(5) nz] by simp
  next
    case True
    then have nf: "new_fails env epoll_create create_ok w2 (worker_list rows)" using assms(6) new ids by simp
    show ?thesis
    proof (cases "do { s \<leftarrow> set_evp s1 0; bindcpu s 0 }")
      case (Some s3)
      then obtain s2 where s2: "set_evp s1 0 = Some s2" "bindcpu s2 0 = Some s3" by (auto split: bind_splits)
      note e = set_evp_table [OF s2(1) R(5)] bindcpu_table [OF s2(2)]
      let ?l = "(replicate ?n False)[0 := True]"
      have "\<forall>i \<in> snd ` set (worker_list rows). i \<noteq> 0 \<and> i < length ?l \<and> \<not> ?l ! i"
        using wl by (auto simp: nth_list_update simp flip: set_map)
      moreover have "distinct (map snd (worker_list rows))" using wl by simp
      moreover have "evps_at s3 (s_evps s3) = Some ?l" "length ?l = nat (s_count s3)" using e by simp_all
      ultimately have "do { (s, w, ok) \<leftarrow> start_workers env epoll_create create_ok s3 w2 (worker_list rows);
          if \<not> ok then start_end env s w DPE_UNINIT
          else do { w \<leftarrow> dpevp_start w 0 start_fun; w \<leftarrow> others w; start_end env s w DPE_OK } } = None"
        by (intro start_workers_fail [OF nf])
      then show ?thesis unfolding go using True s2 by simp
    qed (use go True in \<open>auto split: bind_splits\<close>)
  qed
qed

text \<open>One type only, so that the master's loop is the first to be made.\<close>

definition lone_arg :: dpapp_arg where
  "lone_arg = dpapp_arg_init\<lparr>ar_root_dir := Some ''/'', ar_each_count := [1]\<rparr>"

definition lone_app :: app where
  "lone_app = app_zero\<lparr>alog := fst (dplog_init quiet_log (Some ''/dev/stdout'') 2 0), heap :=
     [0 \<mapsto> Aints [1], 1 \<mapsto> Aptrs [Some 2], 2 \<mapsto> Aints [0], 3 \<mapsto> Aevps [False], 4 \<mapsto> Athreads [False], 5 \<mapsto> Astr ''/''],
     heap_brk := 6, s_evps := Some 3, s_count := 1, s_type_count := 1, s_each_count := Some 0, s_each_ids := Some 1,
     i_root_dir := Some 5, i_count := 1, i_type_count := 1, i_each_count := Some 0, i_each_ids := Some 1, cpunum := 4,
     threads := Some 4, blocked := [SIGPIPE]\<rparr>"

lemma lone_init: "dpapp_init 4 app_zero lone_arg = Some (lone_app, DPE_OK)"
  by (simp add: dpapp_init_def lone_arg_def lone_app_def dpapp_arg_init_def app_zero_def elem_at_def init_tables_def
      app_alloc_def set_int_def ints_at_def set_blk_def set_ptr_def ptrs_at_def init_loops_def init_strings_def
      fun_upd_twist numeral_2_eq_2 numeral_3_eq_3 eval_nat_numeral)

lemma start_failure_crashes_witness:
  "dpapp_start demo_env (\<lambda>_. 5) (\<lambda>_. True) Some Some 4 app_zero (demo_world\<lparr>mem_ok := \<lambda>_. False\<rparr>) lone_arg = None"
proof -
  let ?w = "demo_world\<lparr>mem_ok := \<lambda>_. False\<rparr>"
  have v: "valid_arg lone_arg" by (simp add: valid_arg_def lone_arg_def dpapp_arg_init_def)
  have b: "blank app_zero" "\<forall>a \<ge> heap_brk app_zero. heap app_zero a = None" by (simp_all add: blank_def app_zero_def)
  obtain w1 where w1: "publish lone_app ?w = Some w1" "mem_ok w1 = (\<lambda>_. False)"
    by (simp add: publish_def lone_app_def ints_at_def ptrs_at_def)
  have "new_fails demo_env (\<lambda>_. 5) (\<lambda>_. True) w1 ((0, 0) # worker_list (each_ids w1))"
    using w1(2) by (simp add: dpevp_new_def master_new_def try_alloc_def)
  from start_failure_crashes [OF v b lone_init w1(1) this] show ?thesis .
qed

end
