(* ===== verification/Dpspd.thy ===== *)
theory Dpspd
  imports Dpele
begin

text \<open>
  Serial ports (\<^verbatim>\<open>dpspd.c\<close>): the settings written to the terminal and read back.

  A terminal holds a \<open>termios\<close>; the speeds are fields of their own, as \<open>cfsetispeed\<close> and \<open>cfgetispeed\<close>
  present them, and the flags are those of Linux.  What a driver makes of settings it is given is a
  field of the world.
\<close>

section \<open>Terminals\<close>

record termios =
  c_iflag :: u32
  c_oflag :: u32
  c_cflag :: u32
  c_lflag :: u32
  c_vmin :: byte
  c_vtime :: byte
  c_ispeed :: u32
  c_ospeed :: u32

record ttys =
  tty_open :: "string \<Rightarrow> int"
  tty_tio :: "int \<Rightarrow> termios option"
  tty_drv :: "termios \<Rightarrow> termios"
  tty_err :: "nat \<Rightarrow> int option"
  tty_calls :: nat
  tty_errno :: int
  tty_closed :: "int list"
  tty_flushed :: "int list"

text \<open>\<open>open\<close> gives a descriptor, or \<open>-1\<close> minus the error.\<close>

definition spd_open :: "ttys \<Rightarrow> string \<Rightarrow> ttys \<times> int" where
  "spd_open k path =
     (let r = tty_open k path in if r < 0 then (k\<lparr>tty_errno := - r\<rparr>, - 1) else (k, r))"

definition tty_fail :: "ttys \<Rightarrow> ttys \<times> int option" where
  "tty_fail k = (k\<lparr>tty_calls := tty_calls k + 1\<rparr>, tty_err k (tty_calls k))"

definition tcgetattr :: "ttys \<Rightarrow> int \<Rightarrow> ttys \<times> termios option" where
  "tcgetattr k f =
     (let (k, e) = tty_fail k
      in case e of
           Some n \<Rightarrow> (k\<lparr>tty_errno := n\<rparr>, None)
         | None \<Rightarrow> (case tty_tio k f of None \<Rightarrow> (k\<lparr>tty_errno := 25\<rparr>, None) | Some t \<Rightarrow> (k, Some t)))"

definition tcsetattr :: "ttys \<Rightarrow> int \<Rightarrow> termios \<Rightarrow> ttys \<times> int" where
  "tcsetattr k f t =
     (let (k, e) = tty_fail k
      in case e of
           Some n \<Rightarrow> (k\<lparr>tty_errno := n\<rparr>, - 1)
         | None \<Rightarrow> (k\<lparr>tty_tio := (tty_tio k)(f \<mapsto> tty_drv k t)\<rparr>, 0))"

definition tcflush :: "ttys \<Rightarrow> int \<Rightarrow> ttys" where
  "tcflush k f = k\<lparr>tty_flushed := f # tty_flushed k\<rparr>"

definition tty_close :: "ttys \<Rightarrow> int \<Rightarrow> ttys" where
  "tty_close k f = k\<lparr>tty_closed := f # tty_closed k\<rparr>"

abbreviation (input) CSIZE :: u32 where "CSIZE \<equiv> 0x30"
abbreviation (input) CS5 :: u32 where "CS5 \<equiv> 0"
abbreviation (input) CS6 :: u32 where "CS6 \<equiv> 0x10"
abbreviation (input) CS7 :: u32 where "CS7 \<equiv> 0x20"
abbreviation (input) CS8 :: u32 where "CS8 \<equiv> 0x30"
abbreviation (input) CSTOPB :: u32 where "CSTOPB \<equiv> 0x40"
abbreviation (input) CREAD :: u32 where "CREAD \<equiv> 0x80"
abbreviation (input) PARENB :: u32 where "PARENB \<equiv> 0x100"
abbreviation (input) PARODD :: u32 where "PARODD \<equiv> 0x200"
abbreviation (input) CLOCAL :: u32 where "CLOCAL \<equiv> 0x800"
abbreviation (input) INPCK :: u32 where "INPCK \<equiv> 0x10"
abbreviation (input) IXON :: u32 where "IXON \<equiv> 0x400"
abbreviation (input) IXANY :: u32 where "IXANY \<equiv> 0x800"
abbreviation (input) IXOFF :: u32 where "IXOFF \<equiv> 0x1000"
abbreviation (input) OPOST :: u32 where "OPOST \<equiv> 1"
abbreviation (input) ISIG :: u32 where "ISIG \<equiv> 1"
abbreviation (input) ICANON :: u32 where "ICANON \<equiv> 2"
abbreviation (input) ECHO :: u32 where "ECHO \<equiv> 8"
abbreviation (input) ECHOE :: u32 where "ECHOE \<equiv> 0x10"

section \<open>Settings\<close>

record dpspd_udata =
  tio :: termios
  has_tio :: bool
  device :: string

definition dpspd_baud_to_flag :: "int \<Rightarrow> u32" where
  "dpspd_baud_to_flag baud =
     (if baud = 0 then 0 else if baud = 50 then 1 else if baud = 75 then 2 else if baud = 110 then 3
      else if baud = 134 then 4 else if baud = 150 then 5 else if baud = 200 then 6 else if baud = 300 then 7
      else if baud = 600 then 8 else if baud = 1200 then 9 else if baud = 1800 then 10 else if baud = 2400 then 11
      else if baud = 4800 then 12 else if baud = 9600 then 13 else if baud = 19200 then 14
      else if baud = 38400 then 15 else if baud = 57600 then 0x1001 else if baud = 115200 then 0x1002
      else if baud = 230400 then 0x1003 else 0)"

definition dpspd_flag_to_baud :: "u32 \<Rightarrow> int" where
  "dpspd_flag_to_baud sp =
     (if sp = 0 then 0 else if sp = 1 then 50 else if sp = 2 then 75 else if sp = 3 then 110
      else if sp = 4 then 134 else if sp = 5 then 150 else if sp = 6 then 200 else if sp = 7 then 300
      else if sp = 8 then 600 else if sp = 9 then 1200 else if sp = 10 then 1800 else if sp = 11 then 2400
      else if sp = 12 then 4800 else if sp = 13 then 9600 else if sp = 14 then 19200
      else if sp = 15 then 38400 else if sp = 0x1001 then 57600 else if sp = 0x1002 then 115200
      else if sp = 0x1003 then 230400 else - 1)"

text \<open>A \<open>char\<close> is a byte here; \<open>N\<close>, \<open>E\<close> and \<open>O\<close> are 78, 69 and 79.\<close>

definition dpspd_apply_defaults :: "int \<Rightarrow> byte \<Rightarrow> int \<Rightarrow> int \<Rightarrow> int \<times> byte \<times> int \<times> int" where
  "dpspd_apply_defaults baud parity databits stopbits =
     (if baud \<le> 0 then 115200 else baud,
      if parity \<noteq> 78 \<and> parity \<noteq> 69 \<and> parity \<noteq> 79 then 78 else parity,
      if databits < 5 \<or> databits > 8 then 8 else databits,
      if stopbits \<noteq> 1 \<and> stopbits \<noteq> 2 then 1 else stopbits)"

definition spd_frame :: "termios \<Rightarrow> byte \<Rightarrow> int \<Rightarrow> int \<Rightarrow> termios" where
  "spd_frame t parity databits stopbits =
     (let t = t\<lparr>c_cflag := c_cflag t OR (CLOCAL OR CREAD)\<rparr>;
          t = t\<lparr>c_cflag := c_cflag t AND NOT CSIZE\<rparr>;
          t = t\<lparr>c_cflag := c_cflag t OR
                 (if databits = 5 then CS5 else if databits = 6 then CS6 else if databits = 7 then CS7 else CS8)\<rparr>;
          t = (if parity = 69 then
                 t\<lparr>c_cflag := (c_cflag t OR PARENB) AND NOT PARODD, c_iflag := c_iflag t OR INPCK\<rparr>
               else if parity = 79 then
                 t\<lparr>c_cflag := c_cflag t OR (PARENB OR PARODD), c_iflag := c_iflag t OR INPCK\<rparr>
               else t\<lparr>c_cflag := c_cflag t AND NOT PARENB, c_iflag := c_iflag t AND NOT INPCK\<rparr>);
          t = t\<lparr>c_cflag := (if stopbits = 2 then c_cflag t OR CSTOPB else c_cflag t AND NOT CSTOPB)\<rparr>;
          t = t\<lparr>c_lflag := c_lflag t AND NOT (ICANON OR ECHO OR ECHOE OR ISIG)\<rparr>;
          t = t\<lparr>c_oflag := c_oflag t AND NOT OPOST\<rparr>;
          t = t\<lparr>c_iflag := c_iflag t AND NOT (IXON OR IXOFF OR IXANY)\<rparr>
      in t\<lparr>c_vmin := 0, c_vtime := 0\<rparr>)"

definition dpspd_configure_fd :: "ttys \<Rightarrow> int \<Rightarrow> int \<Rightarrow> byte \<Rightarrow> int \<Rightarrow> int \<Rightarrow> ttys \<times> dpret" where
  "dpspd_configure_fd k f baud parity databits stopbits =
     (let (k, t) = tcgetattr k f
      in case t of
           None \<Rightarrow> (k, - tty_errno k)
         | Some t \<Rightarrow>
             let sp = dpspd_baud_to_flag baud
             in if sp = 0 then (k, DPE_INVAL)
                else
                  let t = spd_frame (t\<lparr>c_ispeed := sp, c_ospeed := sp\<rparr>) parity databits stopbits;
                      (k, r) = tcsetattr (tcflush k f) f t
                  in if r \<noteq> 0 then (k, - tty_errno k) else (tcflush k f, DPE_OK))"

text \<open>The path is an option, \<open>None\<close> the null pointer; the parity arrives as an \<open>int\<close> and is cut to a \<open>char\<close>.\<close>

definition dpspd_vopen ::
  "ttys \<Rightarrow> dpspd_udata \<Rightarrow> string option \<Rightarrow> int \<Rightarrow> int \<Rightarrow> int \<Rightarrow> int \<Rightarrow> ttys \<times> dpspd_udata \<times> dpret" where
  "dpspd_vopen k udata spdfile baud databits stopbits parity_ch =
     (let (baud, parity, databits, stopbits) = dpspd_apply_defaults baud (word_of_int parity_ch) databits stopbits
      in case spdfile of
           None \<Rightarrow> (k, udata, DPE_INVAL)
         | Some path \<Rightarrow>
             let (k, f) = spd_open k path
             in if f < 0 then (k, udata, - tty_errno k)
                else
                  let udata = udata\<lparr>has_tio := False, device := take 127 path\<rparr>;
                      (k, rc) = dpspd_configure_fd k f baud parity databits stopbits
                  in if rc < 0 then (tty_close k f, udata, rc)
                     else
                       let (k, t) = tcgetattr k f
                       in case t of
                            None \<Rightarrow> (k, udata, f)
                          | Some t \<Rightarrow> (k, udata\<lparr>tio := t, has_tio := True\<rparr>, f))"

definition dpspd_copy :: "dpspd_udata \<Rightarrow> dpspd_udata \<Rightarrow> dpspd_udata \<times> dpret" where
  "dpspd_copy dst src = (dst\<lparr>tio := tio src, has_tio := has_tio src, device := device src\<rparr>, DPE_OK)"

definition dpspd_fini :: "dpspd_udata \<Rightarrow> dpspd_udata" where
  "dpspd_fini udata = udata"

section \<open>Properties of an element\<close>

text \<open>The type tables hold the addresses of functions, given by the symbol table of the program.\<close>

definition dpspd_type :: "(string \<Rightarrow> nat) \<Rightarrow> dpele_type" where
  "dpspd_type symtab = \<lparr>ty_name = ''spd'', ty_type = DPELE_TYPE_EFD, ty_size = 192, ty_iotype = DPAIO_TYPE_GFD,
     ty_events = DPEVT_IN OR DPEVT_OUT, ty_init = Some (symtab ''_dpspd_vopen''), ty_copy = Some (symtab ''_dpspd_copy''),
     ty_fini = Some (symtab ''_dpspd_fini'')\<rparr>"

text \<open>An element: its type, its descriptor and its data.\<close>

record spd_ele =
  sp_type :: dpele_type
  sp_fd :: int
  sp_data :: dpspd_udata

definition dpspd_device :: "(string \<Rightarrow> nat) \<Rightarrow> spd_ele \<Rightarrow> string option" where
  "dpspd_device symtab self = (if sp_type self \<noteq> dpspd_type symtab then None else Some (device (sp_data self)))"

definition dpspd_ensure_tio :: "(string \<Rightarrow> nat) \<Rightarrow> ttys \<Rightarrow> spd_ele \<Rightarrow> ttys \<times> spd_ele \<times> dpret" where
  "dpspd_ensure_tio symtab k self =
     (if sp_type self \<noteq> dpspd_type symtab then (k, self, DPE_INVAL)
      else if has_tio (sp_data self) then (k, self, DPE_OK)
      else
        let (k, t) = tcgetattr k (sp_fd self)
        in case t of
             None \<Rightarrow> (k, self, - tty_errno k)
           | Some t \<Rightarrow> (k, self\<lparr>sp_data := (sp_data self)\<lparr>tio := t, has_tio := True\<rparr>\<rparr>, DPE_OK))"

definition dpspd_baud :: "(string \<Rightarrow> nat) \<Rightarrow> ttys \<Rightarrow> spd_ele \<Rightarrow> ttys \<times> spd_ele \<times> int" where
  "dpspd_baud symtab k self =
     (let (k, self, rc) = dpspd_ensure_tio symtab k self
      in if rc < 0 then (k, self, rc) else (k, self, dpspd_flag_to_baud (c_ispeed (tio (sp_data self)))))"

definition dpspd_databits :: "(string \<Rightarrow> nat) \<Rightarrow> ttys \<Rightarrow> spd_ele \<Rightarrow> ttys \<times> spd_ele \<times> int" where
  "dpspd_databits symtab k self =
     (let (k, self, rc) = dpspd_ensure_tio symtab k self
      in if rc < 0 then (k, self, rc)
         else
           let cs = c_cflag (tio (sp_data self)) AND CSIZE
           in (k, self, if cs = CS5 then 5 else if cs = CS6 then 6 else if cs = CS7 then 7 else 8))"

definition dpspd_parity :: "(string \<Rightarrow> nat) \<Rightarrow> ttys \<Rightarrow> spd_ele \<Rightarrow> ttys \<times> spd_ele \<times> byte" where
  "dpspd_parity symtab k self =
     (let (k, self, rc) = dpspd_ensure_tio symtab k self
      in if rc < 0 then (k, self, 63)
         else
           let c = c_cflag (tio (sp_data self))
           in (k, self, if c AND PARENB = 0 then 78 else if c AND PARODD \<noteq> 0 then 79 else 69))"

definition dpspd_stopbits :: "(string \<Rightarrow> nat) \<Rightarrow> ttys \<Rightarrow> spd_ele \<Rightarrow> ttys \<times> spd_ele \<times> int" where
  "dpspd_stopbits symtab k self =
     (let (k, self, rc) = dpspd_ensure_tio symtab k self
      in if rc < 0 then (k, self, rc)
         else (k, self, if c_cflag (tio (sp_data self)) AND CSTOPB \<noteq> 0 then 2 else 1))"

end
