(* ===== verification/Dpspd_Props.thy ===== *)
theory Dpspd_Props
  imports Dpspd
begin

text \<open>Serial ports: what is set is read back, and a port that cannot be set up is closed.\<close>

section \<open>Speeds\<close>

definition bauds :: "int list" where
  "bauds = [50, 75, 110, 134, 150, 200, 300, 600, 1200, 1800, 2400, 4800, 9600, 19200, 38400, 57600, 115200, 230400]"

lemma baud_roundtrip: "b \<in> set bauds \<Longrightarrow> dpspd_flag_to_baud (dpspd_baud_to_flag b) = b \<and> dpspd_baud_to_flag b \<noteq> 0"
  unfolding bauds_def dpspd_flag_to_baud_def dpspd_baud_to_flag_def by (simp, elim disjE; simp)

lemma baud_unknown: "b \<notin> set bauds \<Longrightarrow> dpspd_baud_to_flag b = 0"
  unfolding bauds_def dpspd_baud_to_flag_def by auto

section \<open>Flags\<close>

lemma frame_size:
  "c_cflag (spd_frame t p d s) AND CSIZE = (if d = 5 then CS5 else if d = 6 then CS6 else if d = 7 then CS7 else CS8)"
  by (simp add: spd_frame_def Let_def bit.conj_disj_distrib2 and.assoc)

lemma frame_stop: "c_cflag (spd_frame t p d s) AND CSTOPB \<noteq> 0 \<longleftrightarrow> s = 2"
  by (simp add: spd_frame_def Let_def bit.conj_disj_distrib2 and.assoc)

lemma frame_parity:
  "c_cflag (spd_frame t p d s) AND PARENB = 0 \<longleftrightarrow> p \<noteq> 69 \<and> p \<noteq> 79"
  "p = 69 \<Longrightarrow> c_cflag (spd_frame t p d s) AND PARODD = 0"
  "p = 79 \<Longrightarrow> c_cflag (spd_frame t p d s) AND PARODD \<noteq> 0"
  by (simp_all add: spd_frame_def Let_def bit.conj_disj_distrib2 and.assoc)

lemma frame_speed: "c_ispeed (spd_frame t p d s) = c_ispeed t"
  by (simp add: spd_frame_def Let_def)

section \<open>Opening\<close>

lemma configure_result:
  assumes "dpspd_configure_fd k f baud p d s = (k', rc)"
  shows "rc < 0 \<or> rc = DPE_OK \<or> rc = - tty_errno k'" "tty_closed k' = tty_closed k"
  using assms unfolding dpspd_configure_fd_def Let_def tcgetattr_def tcsetattr_def tcflush_def tty_fail_def
  by (auto split: prod.splits option.splits if_splits)

text \<open>A terminal that answers, and whose driver keeps speed and frame of what it is given.\<close>

definition honest :: "ttys \<Rightarrow> int \<Rightarrow> bool" where
  "honest k f \<longleftrightarrow> tty_err k = (\<lambda>_. None) \<and> tty_tio k f \<noteq> None \<and>
     (\<forall>t. c_cflag (tty_drv k t) = c_cflag t \<and> c_ispeed (tty_drv k t) = c_ispeed t)"

lemma configure_honest:
  assumes "honest k f" "b \<in> set bauds"
  shows "\<exists>k' t. dpspd_configure_fd k f b p d s = (k', DPE_OK) \<and> tty_err k' = (\<lambda>_. None) \<and> tty_closed k' = tty_closed k \<and>
    tty_tio k' f = Some (tty_drv k (spd_frame t p d s)) \<and> c_ispeed t = dpspd_baud_to_flag b"
proof -
  obtain t where t: "tty_tio k f = Some t" using assms(1) by (auto simp: honest_def)
  have e: "tty_err k = (\<lambda>_. None)" "dpspd_baud_to_flag b \<noteq> 0" using assms baud_roundtrip by (auto simp: honest_def)
  let ?t = "t\<lparr>c_ispeed := dpspd_baud_to_flag b, c_ospeed := dpspd_baud_to_flag b\<rparr>"
  let ?k = "k\<lparr>tty_calls := tty_calls k + 2, tty_tio := (tty_tio k)(f \<mapsto> tty_drv k (spd_frame ?t p d s)),
    tty_flushed := f # f # tty_flushed k\<rparr>"
  have "dpspd_configure_fd k f b p d s = (?k, DPE_OK)"
    using e t by (simp add: dpspd_configure_fd_def tcgetattr_def tcsetattr_def tcflush_def tty_fail_def Let_def)
  then show ?thesis using e(1) by (intro exI [of _ ?k] exI [of _ ?t]) simp
qed

text \<open>The four questions an element answers, all from the settings it holds.\<close>

definition spd_answers :: "(string \<Rightarrow> nat) \<Rightarrow> ttys \<Rightarrow> spd_ele \<Rightarrow> int \<Rightarrow> int \<Rightarrow> byte \<Rightarrow> int \<Rightarrow> bool" where
  "spd_answers symtab k e baud databits parity stopbits \<longleftrightarrow>
     dpspd_baud symtab k e = (k, e, baud) \<and> dpspd_databits symtab k e = (k, e, databits) \<and>
     dpspd_parity symtab k e = (k, e, parity) \<and> dpspd_stopbits symtab k e = (k, e, stopbits)"

lemma answers_frame:
  assumes "sp_type e = dpspd_type symtab" "has_tio (sp_data e)" "c_cflag (tio (sp_data e)) = c_cflag (spd_frame t p d s)"
    and "c_ispeed (tio (sp_data e)) = dpspd_baud_to_flag b" "b \<in> set bauds" "d \<in> {5..8}" "p \<in> {78, 69, 79}" "s \<in> {1, 2}"
  shows "spd_answers symtab k e b d p s"
proof -
  have en: "dpspd_ensure_tio symtab k e = (k, e, DPE_OK)" using assms(1,2) by (simp add: dpspd_ensure_tio_def)
  have "d = 5 \<or> d = 6 \<or> d = 7 \<or> d = 8" using assms(6) by auto
  then have "dpspd_databits symtab k e = (k, e, d)" using en assms(3)
    by (elim disjE) (simp_all add: dpspd_databits_def frame_size Let_def)
  moreover have "dpspd_parity symtab k e = (k, e, p)" using en assms(3,7)
    by (auto simp: dpspd_parity_def Let_def frame_parity)
  moreover have "dpspd_stopbits symtab k e = (k, e, s)" using en assms(3,8)
    by (auto simp: dpspd_stopbits_def frame_stop)
  moreover have "dpspd_baud symtab k e = (k, e, b)" using en assms(4,5) baud_roundtrip
    by (simp add: dpspd_baud_def)
  ultimately show ?thesis by (simp add: spd_answers_def)
qed

text \<open>
  A serial port opened with supported settings answers with exactly those settings: speed, data bits, parity
  and stop bits are read back from the terminal as they were asked for, and the device is the path, cut to what the
  element can hold.
\<close>

theorem spd_settings_roundtrip:
  assumes "tty_open k path = f" and "0 \<le> f" and "honest k f"
    and "baud \<in> set bauds" and "databits \<in> {5..8}" and "parity \<in> {78, 69, 79}" and "stopbits \<in> {1, 2}"
  shows "\<exists>k' u. dpspd_vopen k udata (Some path) baud databits stopbits parity = (k', u, f) \<and>
     tty_closed k' = tty_closed k \<and>
     spd_answers symtab k' \<lparr>sp_type = dpspd_type symtab, sp_fd = f, sp_data = u\<rparr> baud databits (word_of_int parity) stopbits \<and>
     dpspd_device symtab \<lparr>sp_type = dpspd_type symtab, sp_fd = f, sp_data = u\<rparr> = Some (take 127 path)"
proof -
  let ?p = "word_of_int parity :: byte"
  have p: "?p \<in> {78, 69, 79}" using assms(6) by auto
  have "0 < baud" using assms(4) by (auto simp: bauds_def)
  then have df: "dpspd_apply_defaults baud ?p databits stopbits = (baud, ?p, databits, stopbits)"
    using assms(5,7) p by (auto simp: dpspd_apply_defaults_def)
  obtain k1 t where c: "dpspd_configure_fd k f baud ?p databits stopbits = (k1, DPE_OK)" "tty_err k1 = (\<lambda>_. None)"
    "tty_closed k1 = tty_closed k" "tty_tio k1 f = Some (tty_drv k (spd_frame t ?p databits stopbits))"
    "c_ispeed t = dpspd_baud_to_flag baud"
    using configure_honest [OF assms(3,4)] by blast
  let ?T = "tty_drv k (spd_frame t ?p databits stopbits)"
  let ?k = "k1\<lparr>tty_calls := tty_calls k1 + 1\<rparr>"
  let ?u = "udata\<lparr>has_tio := True, device := take 127 path, tio := ?T\<rparr>"
  have "dpspd_vopen k udata (Some path) baud databits stopbits parity = (?k, ?u, f)"
    using df c(1,2,4) assms(1,2) by (simp add: dpspd_vopen_def spd_open_def tcgetattr_def tty_fail_def)
  moreover have "c_cflag ?T = c_cflag (spd_frame t ?p databits stopbits)" "c_ispeed ?T = dpspd_baud_to_flag baud"
    using assms(3) c(5) by (simp_all add: honest_def frame_speed)
  then have "spd_answers symtab ?k \<lparr>sp_type = dpspd_type symtab, sp_fd = f, sp_data = ?u\<rparr> baud databits ?p stopbits"
    using assms(4,5,7) p by (intro answers_frame [of _ _ t]) auto
  ultimately show ?thesis using c(3) by (intro exI [of _ ?k] exI [of _ ?u]) (simp add: dpspd_device_def)
qed

definition some_tty :: ttys where
  "some_tty = \<lparr>tty_open = (\<lambda>_. 7), tty_tio = (\<lambda>_. Some \<lparr>c_iflag = 0x500, c_oflag = 5, c_cflag = 0xBF, c_lflag = 0x8A3B, c_vmin = 1,
     c_vtime = 0, c_ispeed = 15, c_ospeed = 15\<rparr>), tty_drv = (\<lambda>t. t), tty_err = (\<lambda>_. None), tty_calls = 0, tty_errno = 0,
     tty_closed = [], tty_flushed = []\<rparr>"

definition no_udata :: dpspd_udata where
  "no_udata = \<lparr>tio = \<lparr>c_iflag = 0, c_oflag = 0, c_cflag = 0, c_lflag = 0, c_vmin = 0, c_vtime = 0, c_ispeed = 0, c_ospeed = 0\<rparr>,
     has_tio = False, device = []\<rparr>"

lemma spd_settings_roundtrip_witness:
  "\<exists>k u. dpspd_vopen some_tty no_udata (Some ''/dev/ttyS0'') 9600 7 2 69 = (k, u, 7) \<and>
     spd_answers (\<lambda>_. 1) k \<lparr>sp_type = dpspd_type (\<lambda>_. 1), sp_fd = 7, sp_data = u\<rparr> 9600 7 69 2"
proof -
  have "honest some_tty 7" by (simp add: honest_def some_tty_def)
  from spd_settings_roundtrip [of some_tty "''/dev/ttyS0''" 7 9600 7 69 2 no_udata "\<lambda>_. 1", OF _ _ this]
  show ?thesis by (auto simp: some_tty_def bauds_def)
qed

text \<open>A descriptor that was opened is closed again when the settings are refused, and only then.\<close>

lemma spd_no_leak:
  assumes "\<forall>n e. tty_err k n = Some e \<longrightarrow> 0 < e" "\<forall>p. tty_open k p \<noteq> 0"
    and "dpspd_vopen k udata (Some path) baud databits stopbits parity = (k', u, r)"
  shows "0 \<le> r \<and> r = tty_open k path \<and> tty_closed k' = tty_closed k \<or>
    r < 0 \<and> tty_closed k' = (if tty_open k path < 0 then tty_closed k else tty_open k path # tty_closed k)"
proof -
  obtain b p d s where df: "dpspd_apply_defaults baud (word_of_int parity) databits stopbits = (b, p, d, s)" by (metis prod_cases4)
  show ?thesis
  proof (cases "tty_open k path < 0")
    case True
    then show ?thesis using assms(3) df by (auto simp: dpspd_vopen_def spd_open_def)
  next
    case False
    obtain k1 rc where c: "dpspd_configure_fd k (tty_open k path) b p d s = (k1, rc)" by fastforce
    show ?thesis using assms(2,3) df False c configure_result [OF c]
      by (auto simp: dpspd_vopen_def spd_open_def tty_close_def tcgetattr_def tty_fail_def Let_def
          split: option.splits if_splits prod.splits)
  qed
qed

text \<open>A speed that the table does not hold is refused, although the caller may have asked for more than the default.\<close>

lemma spd_unknown_baud:
  "b \<notin> set bauds \<Longrightarrow> tcgetattr k f = (k1, Some t) \<Longrightarrow> dpspd_configure_fd k f b p d s = (k1, DPE_INVAL)"
  using baud_unknown by (simp add: dpspd_configure_fd_def)

end
