(* ===== verification/Dpdev.thy ===== *)
theory Dpdev
  imports Dpele
begin

text \<open>
  Named pipes, signals and file watches as elements (\<^verbatim>\<open>dppip.c\<close>, \<^verbatim>\<open>dpsig.c\<close>, \<^verbatim>\<open>dpfsm.c\<close>).  Each part has the
  piece of the kernel it calls: the nodes of the file tree, the signal masks, the watches.
\<close>

section \<open>Named pipes\<close>

datatype pnode = Pfifo | Pother

text \<open>\<open>pp_open\<close> gives a descriptor, or minus the error; \<open>open\<close> is taken to return.\<close>

record pipes =
  pp_node :: "string \<Rightarrow> pnode option"
  pp_stat_err :: "string \<Rightarrow> int option"
  pp_mkfifo_err :: "string \<Rightarrow> int option"
  pp_open :: "string \<Rightarrow> int \<Rightarrow> int"
  pp_strdup_ok :: bool
  pp_closed :: "int list"
  pp_errno :: int

record dppip_udata =
  pip_path :: "string option"
  unlink_on_del :: int

definition p_stat :: "pipes \<Rightarrow> string \<Rightarrow> pipes \<times> pnode option" where
  "p_stat k path =
     (case pp_stat_err k path of
        Some e \<Rightarrow> (k\<lparr>pp_errno := e\<rparr>, None)
      | None \<Rightarrow> (case pp_node k path of None \<Rightarrow> (k\<lparr>pp_errno := 2\<rparr>, None) | Some n \<Rightarrow> (k, Some n)))"

definition p_mkfifo :: "pipes \<Rightarrow> string \<Rightarrow> pipes \<times> int" where
  "p_mkfifo k path =
     (case pp_mkfifo_err k path of
        Some e \<Rightarrow> (k\<lparr>pp_errno := e\<rparr>, - 1)
      | None \<Rightarrow>
          if pp_node k path \<noteq> None then (k\<lparr>pp_errno := 17\<rparr>, - 1)
          else (k\<lparr>pp_node := (pp_node k)(path \<mapsto> Pfifo)\<rparr>, 0))"

definition pip_exists :: "pipes \<Rightarrow> string \<Rightarrow> pipes \<times> dpret" where
  "pip_exists k path =
     (let (k, st) = p_stat k path
      in case st of
           None \<Rightarrow>
             if pp_errno k = 2 then
               (let (k, r) = p_mkfifo k path
                in if r \<noteq> 0 \<and> pp_errno k \<noteq> 17 then (k, - pp_errno k) else (k, DPE_OK))
             else (k, - pp_errno k)
         | Some n \<Rightarrow> if n \<noteq> Pfifo then (k, DPE_INVAL) else (k, DPE_OK))"

definition dppip_vopen :: "pipes \<Rightarrow> dppip_udata option \<Rightarrow> string option \<Rightarrow> int \<Rightarrow> int \<Rightarrow> pipes \<times> dppip_udata option \<times> dpret" where
  "dppip_vopen k pip fifo_path ev unlink_on =
     (case fifo_path of
        None \<Rightarrow> (k, pip, DPE_INVAL)
      | Some path \<Rightarrow>
          let (k, r) = pip_exists k path
          in if r \<noteq> DPE_OK then (k, pip, r)
             else if ev \<noteq> 1 \<and> ev \<noteq> 4 then (k, pip, DPE_INVAL)
             else
               let open_mode = (if ev = 1 then 0 else 1 :: int); f = pp_open k path open_mode
               in if f < 0 then (k\<lparr>pp_errno := - f\<rparr>, pip, f)
                  else
                    case pip of
                      None \<Rightarrow> (k, pip, f)
                    | Some p \<Rightarrow>
                        if \<not> pp_strdup_ok k then
                          (k\<lparr>pp_closed := f # pp_closed k\<rparr>, Some (p\<lparr>pip_path := None\<rparr>), DPE_NOMEM)
                        else (k, Some (p\<lparr>pip_path := Some path, unlink_on_del := (if unlink_on \<noteq> 0 then 1 else 0)\<rparr>), f))"

text \<open>Without symbolic links \<open>lstat\<close> sees the same node as \<open>stat\<close>.\<close>

definition dppip_fini :: "pipes \<Rightarrow> dppip_udata option \<Rightarrow> pipes \<times> dppip_udata option" where
  "dppip_fini k pip =
     (case pip of
        None \<Rightarrow> (k, None)
      | Some p \<Rightarrow>
          (case pip_path p of
             None \<Rightarrow> (k, Some p)
           | Some path \<Rightarrow>
               let k = (if unlink_on_del p \<noteq> 0 then
                          (let (k, st) = p_stat k path
                           in if st = Some Pfifo then k\<lparr>pp_node := (pp_node k)(path := None)\<rparr> else k)
                        else k)
               in (k, Some (p\<lparr>pip_path := None\<rparr>))))"

definition dppip_copy :: "pipes \<Rightarrow> dppip_udata option \<Rightarrow> dppip_udata option \<Rightarrow> dppip_udata option \<times> dpret" where
  "dppip_copy k dst src =
     (case dst of
        None \<Rightarrow> (None, DPE_INVAL)
      | Some d \<Rightarrow>
          let d = d\<lparr>pip_path := None, unlink_on_del := 0\<rparr>
          in case (case src of None \<Rightarrow> None | Some s \<Rightarrow> pip_path s) of
               None \<Rightarrow> (Some d, DPE_OK)
             | Some path \<Rightarrow>
                 if \<not> pp_strdup_ok k then (Some d, DPE_NOMEM) else (Some (d\<lparr>pip_path := Some path\<rparr>), DPE_OK))"

definition dppip_type :: "(string \<Rightarrow> nat) \<Rightarrow> dpele_type" where
  "dppip_type symtab = \<lparr>ty_name = ''pip'', ty_type = DPELE_TYPE_EFD, ty_size = 16, ty_iotype = DPAIO_TYPE_GFD,
     ty_events = DPEVT_IN OR DPEVT_OUT, ty_init = Some (symtab ''_dppip_vopen''), ty_copy = Some (symtab ''_dppip_copy''),
     ty_fini = Some (symtab ''_dppip_fini'')\<rparr>"

definition dppip_path :: "(string \<Rightarrow> nat) \<Rightarrow> dpele_type \<Rightarrow> dppip_udata \<Rightarrow> string option" where
  "dppip_path symtab ty pip = (if ty \<noteq> dppip_type symtab then None else pip_path pip)"

section \<open>Signals\<close>

text \<open>The signals a descriptor reads, those the thread blocks (that \<open>SIGKILL\<close> and \<open>SIGSTOP\<close> cannot be is left out), and which calls fail.\<close>

record signals =
  sg_fd :: "int \<Rightarrow> int set"
  sg_blocked :: "int set"
  sg_err :: "nat \<Rightarrow> int option"
  sg_calls :: nat
  sg_errno :: int
  sg_next :: int

definition valid_signo :: "int \<Rightarrow> bool" where
  "valid_signo n \<longleftrightarrow> 1 \<le> n \<and> n \<le> 64"

definition s_try :: "signals \<Rightarrow> signals \<times> bool" where
  "s_try k =
     (let k1 = k\<lparr>sg_calls := sg_calls k + 1\<rparr>
      in case sg_err k (sg_calls k) of Some e \<Rightarrow> (k1\<lparr>sg_errno := e\<rparr>, False) | None \<Rightarrow> (k1, True))"

definition s_signalfd :: "signals \<Rightarrow> int \<Rightarrow> int set \<Rightarrow> signals \<times> int" where
  "s_signalfd k f sset =
     (let (k, ok) = s_try k
      in if \<not> ok then (k, - 1)
         else if f < 0 then (k\<lparr>sg_fd := (sg_fd k)(sg_next k := sset), sg_next := sg_next k + 1\<rparr>, sg_next k)
         else (k\<lparr>sg_fd := (sg_fd k)(f := sset)\<rparr>, f))"

definition dpsig_vopen :: "signals \<Rightarrow> int set \<Rightarrow> signals \<times> int set \<times> dpret" where
  "dpsig_vopen k sset = (let (k, f) = s_signalfd k (- 1) {} in (k, {}, f))"

definition dpsig_copy :: "int set \<Rightarrow> int set \<Rightarrow> int set \<times> dpret" where
  "dpsig_copy dst src = (src, DPE_OK)"

definition dpsig_type :: "(string \<Rightarrow> nat) \<Rightarrow> dpele_type" where
  "dpsig_type symtab = \<lparr>ty_name = ''sig'', ty_type = DPELE_TYPE_EFD, ty_size = 128, ty_iotype = DPAIO_TYPE_GFD,
     ty_events = DPEVT_IN, ty_init = Some (symtab ''dpsig_vopen''), ty_copy = Some (symtab ''dpsig_copy''), ty_fini = None\<rparr>"

text \<open>\<open>f\<close> is the descriptor of the element and \<open>sset\<close> the set it holds.\<close>

definition dpsig_addno :: "signals \<Rightarrow> int \<Rightarrow> int set \<Rightarrow> int \<Rightarrow> signals \<times> int set \<times> dpret" where
  "dpsig_addno k f sset signo =
     (if \<not> valid_signo signo then (k\<lparr>sg_errno := 22\<rparr>, sset, - 22)
      else
        let sset = insert signo sset; (k, r) = s_signalfd k f sset
        in if r < 0 then (k, sset, - sg_errno k)
           else
             let (k, ok) = s_try k
             in if \<not> ok then (k, sset, - sg_errno k) else (k\<lparr>sg_blocked := sg_blocked k \<union> sset\<rparr>, sset, DPE_OK))"

definition dpsig_delno :: "signals \<Rightarrow> int \<Rightarrow> int set \<Rightarrow> int \<Rightarrow> signals \<times> int set \<times> dpret" where
  "dpsig_delno k f sset signo =
     (if \<not> valid_signo signo then (k\<lparr>sg_errno := 22\<rparr>, sset, - 22)
      else
        let sset = sset - {signo}; (k, r) = s_signalfd k f sset
        in if r < 0 then (k, sset, - sg_errno k)
           else
             let (k, ok) = s_try k
             in if \<not> ok then (k, sset, - sg_errno k) else (k\<lparr>sg_blocked := sset\<rparr>, sset, DPE_OK))"

definition dpsig_hasno :: "int set \<Rightarrow> int \<Rightarrow> bool" where
  "dpsig_hasno sset signo \<longleftrightarrow> valid_signo signo \<and> signo \<in> sset"

section \<open>File watches\<close>

text \<open>The answers of the three calls of inotify: a number, or minus the error.\<close>

record watches =
  in_init :: int
  in_add :: "int \<Rightarrow> string \<Rightarrow> u32 \<Rightarrow> int"
  in_rm :: "int \<Rightarrow> int \<Rightarrow> int"

text \<open>\<open>inotify_init1\<close> itself gives \<open>-1\<close>.\<close>

definition dpfsm_vopen :: "watches \<Rightarrow> dpret" where
  "dpfsm_vopen k = (if in_init k < 0 then - 1 else in_init k)"

definition dpfsm_type :: "(string \<Rightarrow> nat) \<Rightarrow> dpele_type" where
  "dpfsm_type symtab = \<lparr>ty_name = ''fsm'', ty_type = DPELE_TYPE_EFD, ty_size = 0, ty_iotype = DPAIO_TYPE_GFD,
     ty_events = DPEVT_IN, ty_init = Some (symtab ''dpfsm_vopen''), ty_copy = None, ty_fini = None\<rparr>"

definition dpfsm_addev :: "watches \<Rightarrow> int \<Rightarrow> string \<Rightarrow> u32 \<Rightarrow> dpret" where
  "dpfsm_addev k f path evm = in_add k f path evm"

definition dpfsm_delev :: "watches \<Rightarrow> int \<Rightarrow> int \<Rightarrow> dpret" where
  "dpfsm_delev k f wd = (let r = in_rm k f wd in if r < 0 then r else DPE_OK)"

end
