(* ===== verification/Dpdev_Props.thy ===== *)
theory Dpdev_Props
  imports Dpdev
begin

text \<open>Named pipes and signals: what the operations promise, and what they do beyond it.\<close>

section \<open>Named pipes\<close>

lemma pip_exists_cases:
  assumes "pip_exists k path = (k', r)" "\<forall>p e. pp_stat_err k p = Some e \<longrightarrow> 0 < e" "\<forall>p e. pp_mkfifo_err k p = Some e \<longrightarrow> 0 < e"
  shows "pp_closed k' = pp_closed k \<and> pp_strdup_ok k' = pp_strdup_ok k \<and> pp_open k' = pp_open k \<and> (r = DPE_OK \<or> r < 0)"
  using assms by (auto simp: pip_exists_def p_stat_def p_mkfifo_def Let_def split: option.splits if_splits pnode.splits)

text \<open>A descriptor that was opened is closed again when the path cannot be kept, and only then.\<close>

lemma pip_no_leak:
  assumes "\<forall>p e. pp_stat_err k p = Some e \<longrightarrow> 0 < e" "\<forall>p e. pp_mkfifo_err k p = Some e \<longrightarrow> 0 < e"
    and "dppip_vopen k pip (Some path) ev u = (k', pip', r)"
  shows "0 \<le> r \<and> pp_closed k' = pp_closed k \<or> r < 0 \<and> (pp_closed k' = pp_closed k \<or>
    (\<exists>f. 0 \<le> f \<and> f \<in> {pp_open k path 0, pp_open k path 1} \<and> pp_closed k' = f # pp_closed k))"
proof -
  obtain k1 r1 where e: "pip_exists k path = (k1, r1)" by fastforce
  show ?thesis using assms(3) e pip_exists_cases [OF e assms(1,2)]
    by (cases pip) (auto simp: dppip_vopen_def Let_def split: if_splits)
qed

text \<open>A request for both directions or none is refused only after the pipe has been made, and the pipe stays.\<close>

lemma pip_left_behind:
  assumes "pp_node k path = None" "pp_stat_err k path = None" "pp_mkfifo_err k path = None" "ev \<noteq> 1" "ev \<noteq> 4"
  shows "\<exists>k'. dppip_vopen k pip (Some path) ev u = (k', pip, DPE_INVAL) \<and> pp_node k' path = Some Pfifo"
  using assms by (simp add: dppip_vopen_def pip_exists_def p_stat_def p_mkfifo_def)

text \<open>The end of a copy removes nothing.\<close>

lemma pip_copy_keeps_node:
  assumes "dppip_copy k (Some dst) src = (Some d, r)"
  shows "pp_node (fst (dppip_fini k (Some d))) = pp_node k"
  using assms by (auto simp: dppip_copy_def dppip_fini_def Let_def split: option.splits if_splits)

text \<open>The end of an original that asked for it removes its pipe, and nothing else.\<close>

lemma pip_fini_unlinks:
  assumes "pip_path d = Some path" "unlink_on_del d \<noteq> 0" "pp_stat_err k path = None" "pp_node k path = Some n"
  shows "pp_node (fst (dppip_fini k (Some d))) = (if n = Pfifo then (pp_node k)(path := None) else pp_node k)"
  using assms by (simp add: dppip_fini_def p_stat_def)

section \<open>Signals\<close>

lemma sig_add_contract:
  assumes "dpsig_addno k f s n = (k', s', DPE_OK)" "0 \<le> f" "\<forall>n e. sg_err k n = Some e \<longrightarrow> 0 < e"
  shows "s' = insert n s \<and> dpsig_hasno s' n \<and> sg_fd k' f = s' \<and> sg_blocked k' = sg_blocked k \<union> s'"
  using assms by (auto simp: dpsig_addno_def dpsig_hasno_def s_signalfd_def s_try_def Let_def split: option.splits if_splits)

text \<open>
  Removing a signal sets the mask of the thread to the remaining set of the element, so that every other signal, also one that the
  application blocks for good (as start-up does with \<open>SIGPIPE\<close>) or that another element reads, is delivered again.
\<close>

lemma sig_del_unblocks_all:
  assumes "dpsig_delno k f s n = (k', s', DPE_OK)" "0 \<le> f" "\<forall>n e. sg_err k n = Some e \<longrightarrow> 0 < e"
  shows "s' = s - {n} \<and> sg_blocked k' = s - {n} \<and> (i \<in> sg_blocked k \<and> i \<notin> s \<longrightarrow> i \<notin> sg_blocked k')"
  using assms by (auto simp: dpsig_delno_def s_signalfd_def s_try_def Let_def split: option.splits if_splits)

end
