(* ===== verification/Dpnet.thy ===== *)
theory Dpnet
  imports Dpio Dplog
begin

text \<open>
  Sockets as elements are made of them (\<^verbatim>\<open>dptcp.c\<close>, \<^verbatim>\<open>dpudp.c\<close>, \<^verbatim>\<open>dpuds.c\<close>): the functions that open
  them, and the questions asked of them afterwards.

  The kernel is the set of open descriptors, a number for the next one, an oracle that says which calls fail
  with which error, and the calls made.  Resolution of names, \<open>getnameinfo\<close>, \<open>getsockname\<close>,
  \<open>getpeername\<close> and \<open>SO_ERROR\<close> are fields.  An address is its bytes, the first two the family, in the
  order of a little-endian machine.  \<open>None\<close> is a copy outside a structure.
\<close>

section \<open>The kernel\<close>

record addrinfo =
  ai_family :: int
  ai_socktype :: int
  ai_protocol :: int
  ai_addr :: "byte list"

datatype net_call =
    Nsocket int int int int | Nsockopt int int int int | Nbind int "byte list" | Nlisten int int
  | Nconnect int "byte list" | Nunlink string | Nclose int

record net =
  nk_fds :: "int list"
  nk_next :: int
  nk_err :: "nat \<Rightarrow> int option"
  nk_calls :: nat
  nk_errno :: int
  nk_log :: "net_call list"
  nk_resolve :: "string \<Rightarrow> string \<Rightarrow> int \<Rightarrow> int \<Rightarrow> int + addrinfo list"
  nk_nameinfo :: "byte list \<Rightarrow> (string \<times> string) option"
  nk_sockname :: "int \<Rightarrow> byte list"
  nk_peername :: "int \<Rightarrow> byte list option"
  nk_so_error :: "int \<Rightarrow> int option"
  nk_isblock :: "int \<Rightarrow> u32"

abbreviation (input) AF_UNIX :: int where "AF_UNIX \<equiv> 1"
abbreviation (input) AF_INET :: int where "AF_INET \<equiv> 2"
abbreviation (input) AF_INET6 :: int where "AF_INET6 \<equiv> 10"
abbreviation (input) SOCK_STREAM :: int where "SOCK_STREAM \<equiv> 1"
abbreviation (input) SOCK_DGRAM :: int where "SOCK_DGRAM \<equiv> 2"
abbreviation (input) SOL_SOCKET :: int where "SOL_SOCKET \<equiv> 1"
abbreviation (input) SO_REUSEPORT :: int where "SO_REUSEPORT \<equiv> 15"
abbreviation (input) IPPROTO_TCP :: int where "IPPROTO_TCP \<equiv> 6"
abbreviation (input) TCP_NODELAY :: int where "TCP_NODELAY \<equiv> 1"
abbreviation (input) TCP_KEEPIDLE :: int where "TCP_KEEPIDLE \<equiv> 4"
abbreviation (input) TCP_KEEPINTVL :: int where "TCP_KEEPINTVL \<equiv> 5"
abbreviation (input) TCP_KEEPCNT :: int where "TCP_KEEPCNT \<equiv> 6"
abbreviation (input) AI_PASSIVE :: int where "AI_PASSIVE \<equiv> 1"
abbreviation (input) UINT16_MAX :: int where "UINT16_MAX \<equiv> 65535"

text \<open>The next answer of the oracle: an error sets \<open>errno\<close>.\<close>

definition net_try :: "net \<Rightarrow> net \<times> bool" where
  "net_try k =
     (let k1 = k\<lparr>nk_calls := nk_calls k + 1\<rparr>
      in case nk_err k (nk_calls k) of Some e \<Rightarrow> (k1\<lparr>nk_errno := e\<rparr>, False) | None \<Rightarrow> (k1, True))"

definition n_socket :: "net \<Rightarrow> int \<Rightarrow> int \<Rightarrow> int \<Rightarrow> net \<times> int" where
  "n_socket k fam ty proto =
     (let (k1, ok) = net_try k; f = nk_next k1
      in if ok then (k1\<lparr>nk_fds := f # nk_fds k1, nk_next := f + 1, nk_log := nk_log k1 @ [Nsocket f fam ty proto]\<rparr>, f)
         else (k1, - 1))"

text \<open>A call on an open descriptor: \<open>EBADF\<close> is 9.\<close>

definition n_call :: "net \<Rightarrow> int \<Rightarrow> net_call \<Rightarrow> net \<times> int" where
  "n_call k f c =
     (if f \<notin> set (nk_fds k) then (k\<lparr>nk_errno := 9\<rparr>, - 1)
      else
        let (k1, ok) = net_try k
        in if ok then (k1\<lparr>nk_log := nk_log k1 @ [c]\<rparr>, 0) else (k1, - 1))"

definition n_close :: "net \<Rightarrow> int \<Rightarrow> net" where
  "n_close k f =
     (if f \<in> set (nk_fds k) then k\<lparr>nk_fds := removeAll f (nk_fds k), nk_log := nk_log k @ [Nclose f]\<rparr>
      else k\<lparr>nk_errno := 9\<rparr>)"

section \<open>TCP\<close>

definition set_nodelay :: "net \<Rightarrow> int \<Rightarrow> net \<times> bool" where
  "set_nodelay k f = (let (k, r) = n_call k f (Nsockopt f IPPROTO_TCP TCP_NODELAY 1) in (k, r = 0))"

text \<open>\<open>memcpy\<close> of an address into a \<open>sockaddr_storage\<close>.\<close>

definition put_addr :: "dpsockaddr \<Rightarrow> byte list \<Rightarrow> dpsockaddr option" where
  "put_addr ios a = do { b \<leftarrow> mem_write 0 a (sa_addr ios); Some \<lparr>sa_addr = b, sa_real = int (length a)\<rparr> }"

definition get_address :: "net \<Rightarrow> string \<Rightarrow> dpsockaddr \<Rightarrow> string option" where
  "get_address k scheme sa =
     (if sa_real sa = 0 then Some []
      else do {
        a \<leftarrow> mem_read 0 (sa_real sa) (sa_addr sa);
        (case nk_nameinfo k a of None \<Rightarrow> Some [] | Some (ip, port) \<Rightarrow> Some (scheme @ ''://'' @ ip @ '':'' @ port))
      })"

fun tcp_client_try :: "net \<Rightarrow> dpsockaddr \<Rightarrow> addrinfo list \<Rightarrow> (net \<times> dpsockaddr \<times> int) option" where
  "tcp_client_try k ios [] = Some (k, ios, - 1)"
| "tcp_client_try k ios (rp # rps) =
     (let (k, f) = n_socket k (ai_family rp) (ai_socktype rp) (ai_protocol rp)
      in if f = - 1 then tcp_client_try k ios rps
         else
           let (k, ok) = set_nodelay k f
           in if \<not> ok then tcp_client_try (n_close k f) ios rps
              else do { ios \<leftarrow> put_addr ios (ai_addr rp); Some (k, ios, f) })"

definition bad_target :: "string option \<Rightarrow> int \<Rightarrow> bool" where
  "bad_target host port \<longleftrightarrow> host = None \<or> port \<le> 0 \<or> port > UINT16_MAX"

definition dptcp_client_vopen :: "net \<Rightarrow> dpsockaddr \<Rightarrow> string option \<Rightarrow> int \<Rightarrow> (net \<times> dpsockaddr \<times> dpret) option" where
  "dptcp_client_vopen k ios host port =
     (if bad_target host port then Some (k, ios, DPE_INVAL)
      else case nk_resolve k (the host) (dec (nat port)) SOCK_STREAM 0 of
        Inl r \<Rightarrow> Some (k, ios, - r)
      | Inr result \<Rightarrow> tcp_client_try k ios result)"

definition dptcp_server_vopen :: "net \<Rightarrow> dpsockaddr \<Rightarrow> int \<Rightarrow> dpsockaddr option \<Rightarrow> net \<times> dpsockaddr \<times> dpret" where
  "dptcp_server_vopen k d f addr = (case addr of None \<Rightarrow> (k, d, DPE_INVAL) | Some a \<Rightarrow> (k, a, f))"

definition tcp_listen_on :: "net \<Rightarrow> int \<Rightarrow> byte list \<Rightarrow> int \<Rightarrow> net \<times> bool" where
  "tcp_listen_on k f a backlog =
     (let (k, ok) = set_nodelay k f
      in if \<not> ok then (k, False)
         else
           let (k, r) = n_call k f (Nbind f a)
           in if r \<noteq> 0 then (k, False) else let (k, r) = n_call k f (Nlisten f backlog) in (k, r = 0))"

fun tcp_listen_try :: "net \<Rightarrow> dpsockaddr \<Rightarrow> int \<Rightarrow> addrinfo list \<Rightarrow> (net \<times> dpsockaddr \<times> int) option" where
  "tcp_listen_try k ios backlog [] = Some (k, ios, - 1)"
| "tcp_listen_try k ios backlog (rp # rps) =
     (let (k, f) = n_socket k (ai_family rp) (ai_socktype rp) (ai_protocol rp)
      in if f = - 1 then tcp_listen_try k ios backlog rps
         else
           let (k, r) = n_call k f (Nsockopt f SOL_SOCKET SO_REUSEPORT 1)
           in if r \<noteq> 0 then tcp_listen_try (n_close k f) ios backlog rps
              else
                let (k, ok) = tcp_listen_on k f (ai_addr rp) backlog
                in if ok then do { ios \<leftarrow> put_addr ios (ai_addr rp); Some (k, ios, f) }
                   else tcp_listen_try (n_close k f) ios backlog rps)"

definition dptcp_listen_vopen ::
  "net \<Rightarrow> dpsockaddr \<Rightarrow> string option \<Rightarrow> int \<Rightarrow> int \<Rightarrow> (net \<times> dpsockaddr \<times> dpret) option" where
  "dptcp_listen_vopen k ios host port backlog =
     (if bad_target host port then Some (k, ios, DPE_INVAL)
      else case nk_resolve k (the host) (dec (nat port)) SOCK_STREAM AI_PASSIVE of
        Inl r \<Rightarrow> Some (k, ios, - r)
      | Inr result \<Rightarrow> tcp_listen_try k ios backlog result)"

definition dptcp_ctx_copy :: "dpsockaddr \<Rightarrow> dpsockaddr \<Rightarrow> dpsockaddr \<times> dpret" where
  "dptcp_ctx_copy dst src = (src, DPE_OK)"

text \<open>The function as the creation of an element calls it: its arguments are the host and the port, and the data of the element is zero before.\<close>

definition le32 :: "int \<Rightarrow> byte list" where
  "le32 i = map (\<lambda>j. word_of_int (i div 256 ^ j)) [0..<4]"

definition sock_bytes :: "dpsockaddr \<Rightarrow> byte list" where
  "sock_bytes a = sa_addr a @ le32 (sa_real a) @ replicate 4 0"

definition tcp_client_init ::
  "(va_list \<Rightarrow> (string option \<times> int) option) \<Rightarrow> nat \<Rightarrow> va_list \<Rightarrow> ('d, net) world \<Rightarrow> (('d, net) world \<times> dpret) option" where
  "tcp_client_init args_of a args w = do {
     (host, port) \<leftarrow> args_of args;
     (k, ios, r) \<leftarrow> dptcp_client_vopen (ext w) \<lparr>sa_addr = replicate 128 0, sa_real = 0\<rparr> host port;
     w1 \<leftarrow> upd_ele (w\<lparr>ext := k\<rparr>) a (aux_data_update (\<lambda>_. sock_bytes ios));
     Some (w1, r)
   }"

text \<open>The type tables; the addresses of functions come from the symbol table of the program.\<close>

definition dptcp_client_type :: "(string \<Rightarrow> nat) \<Rightarrow> dpele_type" where
  "dptcp_client_type symtab = \<lparr>ty_name = ''tcp_client'', ty_type = DPELE_TYPE_EFD, ty_size = 136, ty_iotype = DPAIO_TYPE_SKT,
     ty_events = DPEVT_IN OR DPEVT_OUT, ty_init = Some (symtab ''_dptcp_client_vopen''),
     ty_copy = Some (symtab ''_dptcp_ctx_copy''), ty_fini = Some (symtab ''_dptcp_ctx_clean'')\<rparr>"

definition dptcp_server_type :: "(string \<Rightarrow> nat) \<Rightarrow> dpele_type" where
  "dptcp_server_type symtab = \<lparr>ty_name = ''tcp_server'', ty_type = DPELE_TYPE_EFD, ty_size = 136, ty_iotype = DPAIO_TYPE_SKT,
     ty_events = DPEVT_IN OR DPEVT_OUT, ty_init = Some (symtab ''_dptcp_server_vopen''),
     ty_copy = Some (symtab ''_dptcp_ctx_copy''), ty_fini = Some (symtab ''_dptcp_ctx_clean'')\<rparr>"

definition dptcp_listen_type :: "(string \<Rightarrow> nat) \<Rightarrow> dpele_type" where
  "dptcp_listen_type symtab = \<lparr>ty_name = ''tcp_listen'', ty_type = DPELE_TYPE_EFD, ty_size = 136, ty_iotype = DPAIO_TYPE_SKT,
     ty_events = DPEVT_IN, ty_init = Some (symtab ''_dptcp_listen_vopen''),
     ty_copy = Some (symtab ''_dptcp_ctx_copy''), ty_fini = Some (symtab ''_dptcp_ctx_clean'')\<rparr>"

text \<open>An element as the questions see it; the outer option is undefined behaviour, the inner one a null pointer.\<close>

record sk_ele =
  sk_type :: dpele_type
  sk_fd :: int
  sk_data :: dpsockaddr

definition dptcp_addr :: "(string \<Rightarrow> nat) \<Rightarrow> net \<Rightarrow> sk_ele \<Rightarrow> string option option" where
  "dptcp_addr symtab k e =
     (if sk_type e = dptcp_listen_type symtab \<or> sk_type e = dptcp_server_type symtab \<or> sk_type e = dptcp_client_type symtab
      then map_option Some (get_address k ''tcp'' (sk_data e)) else Some None)"

definition dptcp_peeraddr :: "(string \<Rightarrow> nat) \<Rightarrow> net \<Rightarrow> sk_ele \<Rightarrow> string option option" where
  "dptcp_peeraddr symtab k e =
     (if sk_type e = dptcp_server_type symtab then
        (case nk_peername k (sk_fd e) of
           None \<Rightarrow> Some (Some [])
         | Some a \<Rightarrow> map_option Some (get_address k ''tcp'' \<lparr>sa_addr = a, sa_real = int (length a)\<rparr>))
      else if sk_type e = dptcp_client_type symtab then map_option Some (get_address k ''tcp'' (sk_data e))
      else Some None)"

definition dptcp_set_keepalive :: "(string \<Rightarrow> nat) \<Rightarrow> net \<Rightarrow> sk_ele \<Rightarrow> int \<Rightarrow> int \<Rightarrow> int \<Rightarrow> net \<times> bool" where
  "dptcp_set_keepalive symtab k e idle intvl cnt =
     (if sk_type e = dptcp_listen_type symtab then (k, False)
      else
        let (k, r) = n_call k (sk_fd e) (Nsockopt (sk_fd e) IPPROTO_TCP TCP_KEEPIDLE idle)
        in if r < 0 then (k, False)
           else
             let (k, r) = n_call k (sk_fd e) (Nsockopt (sk_fd e) IPPROTO_TCP TCP_KEEPINTVL intvl)
             in if r < 0 then (k, False)
                else
                  let (k, r) = n_call k (sk_fd e) (Nsockopt (sk_fd e) IPPROTO_TCP TCP_KEEPCNT cnt)
                  in if r < 0 then (k, False) else (k, True))"

definition dptcp_errno :: "net \<Rightarrow> sk_ele \<Rightarrow> int" where
  "dptcp_errno k e = (case nk_so_error k (sk_fd e) of None \<Rightarrow> - 1 | Some err \<Rightarrow> err)"

section \<open>UDP\<close>

record dpudp_client =
  local_addr :: dpsockaddr
  peer_addr :: dpsockaddr

text \<open>The family of an address.\<close>

definition family :: "byte list \<Rightarrow> int option" where
  "family a = do { b \<leftarrow> mem_read 0 2 a; Some (uint (b ! 0) + 256 * uint (b ! 1)) }"

fun udp_client_try :: "net \<Rightarrow> dpudp_client \<Rightarrow> addrinfo list \<Rightarrow> (net \<times> dpudp_client \<times> int) option" where
  "udp_client_try k u [] = Some (k, u, - 1)"
| "udp_client_try k u (rp # rps) =
     (let (k, f) = n_socket k (ai_family rp) (ai_socktype rp) (ai_protocol rp)
      in if f = - 1 then udp_client_try k u rps
         else do { a \<leftarrow> put_addr (peer_addr u) (ai_addr rp); Some (k, u\<lparr>peer_addr := a\<rparr>, f) })"

text \<open>The label \<open>ERROR\<close>.\<close>

definition udp_error :: "net \<Rightarrow> dpudp_client \<Rightarrow> int \<Rightarrow> net \<times> dpudp_client \<times> dpret" where
  "udp_error k u f = (let r = - nk_errno k in (n_close k f, u, r))"

text \<open>The local address is built in a union of the two kinds of address, 28 bytes; the padding is taken as zero.\<close>

definition udp_client_bind :: "net \<Rightarrow> dpudp_client \<Rightarrow> int \<Rightarrow> byte list \<Rightarrow> (net \<times> dpudp_client \<times> dpret) option" where
  "udp_client_bind k u f sa_local = do {
     let (k, r) = n_call k f (Nbind f sa_local);
     if r \<noteq> 0 then Some (udp_error k u f)
     else do {
       peer \<leftarrow> mem_read 0 (sa_real (peer_addr u)) (sa_addr (peer_addr u));
       let (k, r) = n_call k f (Nconnect f peer);
       if r \<noteq> 0 then Some (udp_error k u f)
       else
         let (k, ok) = net_try k
         in if \<not> ok then Some (udp_error k u f)
            else do {
              let name = nk_sockname k f;
              un \<leftarrow> mem_write 0 (take (length sa_local) name) (replicate 28 0);
              a \<leftarrow> mem_read 0 (int (length name)) un;
              l \<leftarrow> put_addr (local_addr u) a;
              Some (k, u\<lparr>local_addr := l\<rparr>, f)
            }
     }
   }"

definition dpudp_client_vopen :: "net \<Rightarrow> dpudp_client \<Rightarrow> string option \<Rightarrow> int \<Rightarrow> (net \<times> dpudp_client \<times> dpret) option" where
  "dpudp_client_vopen k u host port =
     (if bad_target host port then Some (k, u, DPE_INVAL)
      else case nk_resolve k (the host) (dec (nat port)) SOCK_DGRAM 0 of
        Inl r \<Rightarrow> Some (k, u, - r)
      | Inr result \<Rightarrow> do {
          (k, u, f) \<leftarrow> udp_client_try k u result;
          fam \<leftarrow> family (sa_addr (peer_addr u));
          if fam = AF_INET then udp_client_bind k u f ([2, 0] @ replicate 14 0)
          else if fam = AF_INET6 then udp_client_bind k u f ([10, 0] @ replicate 26 0)
          else Some (udp_error (k\<lparr>nk_errno := DPE_INVAL\<rparr>) u f)
        })"

fun udp_server_try :: "net \<Rightarrow> dpsockaddr \<Rightarrow> addrinfo list \<Rightarrow> (net \<times> dpsockaddr \<times> int) option" where
  "udp_server_try k u [] = Some (k, u, - 1)"
| "udp_server_try k u (rp # rps) =
     (let (k, f) = n_socket k (ai_family rp) (ai_socktype rp) (ai_protocol rp)
      in if f = - 1 then udp_server_try k u rps
         else
           let (k, r) = n_call k f (Nsockopt f SOL_SOCKET SO_REUSEPORT 1)
           in if r \<noteq> 0 then udp_server_try (n_close k f) u rps
              else
                let (k, r) = n_call k f (Nbind f (ai_addr rp))
                in if r = 0 then do { a \<leftarrow> put_addr u (ai_addr rp); Some (k, a, f) }
                   else udp_server_try (n_close k f) u rps)"

definition dpudp_server_vopen :: "net \<Rightarrow> dpsockaddr \<Rightarrow> string option \<Rightarrow> int \<Rightarrow> (net \<times> dpsockaddr \<times> dpret) option" where
  "dpudp_server_vopen k u host port =
     (if bad_target host port then Some (k, u, DPE_INVAL)
      else case nk_resolve k (the host) (dec (nat port)) SOCK_DGRAM AI_PASSIVE of
        Inl r \<Rightarrow> Some (k, u, - r)
      | Inr result \<Rightarrow> udp_server_try k u result)"

definition dpudp_addr_clean :: "dpsockaddr \<Rightarrow> dpsockaddr" where
  "dpudp_addr_clean addr = addr"

definition dpudp_client_clean :: "dpudp_client \<Rightarrow> dpudp_client" where
  "dpudp_client_clean u = u\<lparr>peer_addr := dpudp_addr_clean (peer_addr u), local_addr := dpudp_addr_clean (local_addr u)\<rparr>"

definition dpudp_server_clean :: "dpsockaddr \<Rightarrow> dpsockaddr" where
  "dpudp_server_clean u = dpudp_addr_clean u"

definition dpudp_client_copy :: "dpudp_client \<Rightarrow> dpudp_client \<Rightarrow> dpudp_client \<times> dpret" where
  "dpudp_client_copy dst src = (src, DPE_OK)"

definition dpudp_server_copy :: "dpsockaddr \<Rightarrow> dpsockaddr \<Rightarrow> dpsockaddr \<times> dpret" where
  "dpudp_server_copy dst src = (src, DPE_OK)"

definition dpudp_client_type :: "(string \<Rightarrow> nat) \<Rightarrow> dpele_type" where
  "dpudp_client_type symtab = \<lparr>ty_name = ''udp_client'', ty_type = DPELE_TYPE_EFD, ty_size = 272, ty_iotype = DPAIO_TYPE_SKT,
     ty_events = DPEVT_IN OR DPEVT_OUT, ty_init = Some (symtab ''dpudp_client_vopen''),
     ty_copy = Some (symtab ''_dpudp_client_copy''), ty_fini = Some (symtab ''dpudp_client_clean'')\<rparr>"

definition dpudp_server_type :: "(string \<Rightarrow> nat) \<Rightarrow> dpele_type" where
  "dpudp_server_type symtab = \<lparr>ty_name = ''udp_server'', ty_type = DPELE_TYPE_EFD, ty_size = 136, ty_iotype = DPAIO_TYPE_SKT,
     ty_events = DPEVT_IN OR DPEVT_OUT, ty_init = Some (symtab ''dpudp_server_vopen''),
     ty_copy = Some (symtab ''_dpudp_server_copy''), ty_fini = Some (symtab ''dpudp_server_clean'')\<rparr>"

text \<open>The data of an element is a client's or a server's.\<close>

datatype udp_data = Uclient dpudp_client | Userver dpsockaddr

definition dpudp_addr :: "(string \<Rightarrow> nat) \<Rightarrow> net \<Rightarrow> dpele_type \<Rightarrow> udp_data \<Rightarrow> string option option" where
  "dpudp_addr symtab k ty d =
     (if ty = dpudp_server_type symtab then
        (case d of Userver a \<Rightarrow> map_option Some (get_address k ''udp'' a) | Uclient u \<Rightarrow> None)
      else if ty = dpudp_client_type symtab then
        (case d of Uclient u \<Rightarrow> map_option Some (get_address k ''udp'' (local_addr u)) | Userver a \<Rightarrow> None)
      else Some None)"

definition dpudp_peeraddr :: "(string \<Rightarrow> nat) \<Rightarrow> net \<Rightarrow> dpele_type \<Rightarrow> udp_data \<Rightarrow> string option option" where
  "dpudp_peeraddr symtab k ty d =
     (if ty = dpudp_client_type symtab then
        (case d of Uclient u \<Rightarrow> map_option Some (get_address k ''udp'' (peer_addr u)) | Userver a \<Rightarrow> None)
      else Some None)"

section \<open>Unix domain sockets\<close>

text \<open>The address is a \<open>sockaddr_un\<close>: two bytes for the family and 108 for the path.\<close>

record dpuds_data =
  un_real :: int
  un_pending :: u32
  un_addr :: "byte list"

definition bytes_of :: "string \<Rightarrow> byte list" where
  "bytes_of s = map of_char s"

definition SUN_LEN :: "byte list \<Rightarrow> int option" where
  "SUN_LEN a = do { n \<leftarrow> strlen (drop 2 a); Some (2 + n) }"

text \<open>\<open>strncpy\<close> of a string into \<open>n\<close> bytes at an offset: what is left is filled with zeros.\<close>

definition strncpy_at :: "byte list \<Rightarrow> int \<Rightarrow> string \<Rightarrow> nat \<Rightarrow> byte list option" where
  "strncpy_at a off s n = mem_write off (take n (bytes_of s @ replicate n 0)) a"

definition dpuds_client_vopen :: "net \<Rightarrow> dpuds_data \<Rightarrow> string option \<Rightarrow> (net \<times> dpuds_data \<times> dpret) option" where
  "dpuds_client_vopen k ios udsfile =
     (case udsfile of
        None \<Rightarrow> Some (k, ios, DPE_INVAL)
      | Some path \<Rightarrow>
          let (k, f) = n_socket k AF_UNIX SOCK_STREAM 0
          in if f < 0 then Some (k, ios, - nk_errno k)
             else do {
               real \<leftarrow> SUN_LEN (un_addr ios);
               a \<leftarrow> mem_write 0 [1, 0] (un_addr ios);
               a \<leftarrow> strncpy_at a 2 path 107;
               a \<leftarrow> mem_write 109 [0] a;
               Some (k, ios\<lparr>un_real := real, un_addr := a\<rparr>, f)
             })"

definition dpuds_server_vopen :: "net \<Rightarrow> dpuds_data \<Rightarrow> int \<Rightarrow> dpuds_data option \<Rightarrow> (net \<times> dpuds_data \<times> dpret) option" where
  "dpuds_server_vopen k ios f d = (case d of None \<Rightarrow> None | Some a \<Rightarrow> Some (k, a, f))"

text \<open>\<open>unlink\<close> may fail, which the code ignores.\<close>

definition n_unlink :: "net \<Rightarrow> string \<Rightarrow> net" where
  "n_unlink k path = (let (k, ok) = net_try k in if ok then k\<lparr>nk_log := nk_log k @ [Nunlink path]\<rparr> else k)"

definition dpuds_listen_vopen :: "net \<Rightarrow> dpuds_data \<Rightarrow> string option \<Rightarrow> (net \<times> dpuds_data \<times> dpret) option" where
  "dpuds_listen_vopen k ios udsfile =
     (case udsfile of
        None \<Rightarrow> Some (k, ios, DPE_INVAL)
      | Some path \<Rightarrow>
          let (k, f) = n_socket k AF_UNIX SOCK_STREAM 0
          in if f < 0 then Some (k, ios, - nk_errno k)
             else do {
               real \<leftarrow> SUN_LEN (un_addr ios);
               a \<leftarrow> mem_write 0 [1, 0] (replicate 110 0);
               a \<leftarrow> strncpy_at a 2 path 107;
               let k = n_unlink k path;
               name \<leftarrow> mem_read 0 real a;
               let (k, r) = n_call k f (Nbind f name);
               let (k, r) = (if r \<noteq> 0 then (k, r) else n_call k f (Nlisten f 100));
               let ios = ios\<lparr>un_real := real, un_addr := a\<rparr>;
               if r \<noteq> 0 then (let k = n_close k f in Some (k, ios, - nk_errno k)) else Some (k, ios, f)
             })"

definition dpuds_ctx_copy :: "dpuds_data \<Rightarrow> dpuds_data \<Rightarrow> dpuds_data \<times> dpret" where
  "dpuds_ctx_copy dst src = (src, DPE_OK)"

definition dpuds_client_type :: "(string \<Rightarrow> nat) \<Rightarrow> dpele_type" where
  "dpuds_client_type symtab = \<lparr>ty_name = ''uds_client'', ty_type = DPELE_TYPE_EFD, ty_size = 120, ty_iotype = DPAIO_TYPE_SKT,
     ty_events = DPEVT_IN OR DPEVT_OUT, ty_init = Some (symtab ''_dpuds_client_vopen''),
     ty_copy = Some (symtab ''_dpuds_ctx_copy''), ty_fini = Some (symtab ''_dpuds_ctx_clean'')\<rparr>"

definition dpuds_server_type :: "(string \<Rightarrow> nat) \<Rightarrow> dpele_type" where
  "dpuds_server_type symtab = \<lparr>ty_name = ''uds_server'', ty_type = DPELE_TYPE_EFD, ty_size = 120, ty_iotype = DPAIO_TYPE_SKT,
     ty_events = DPEVT_IN OR DPEVT_OUT, ty_init = Some (symtab ''_dpuds_server_vopen''),
     ty_copy = Some (symtab ''_dpuds_ctx_copy''), ty_fini = Some (symtab ''_dpuds_ctx_clean'')\<rparr>"

definition dpuds_listen_type :: "(string \<Rightarrow> nat) \<Rightarrow> dpele_type" where
  "dpuds_listen_type symtab = \<lparr>ty_name = ''uds_listen'', ty_type = DPELE_TYPE_EFD, ty_size = 120, ty_iotype = DPAIO_TYPE_SKT,
     ty_events = DPEVT_IN, ty_init = Some (symtab ''_dpuds_listen_vopen''),
     ty_copy = Some (symtab ''_dpuds_ctx_copy''), ty_fini = Some (symtab ''_dpuds_ctx_clean'')\<rparr>"

section \<open>Blocking mode\<close>

abbreviation (input) O_NONBLOCK :: u32 where "O_NONBLOCK \<equiv> 0x800"

text \<open>\<open>fcntl\<close> on the status flags of a descriptor.\<close>

definition n_getfl :: "net \<Rightarrow> int \<Rightarrow> net \<times> u32 option" where
  "n_getfl k f =
     (if f \<notin> set (nk_fds k) then (k\<lparr>nk_errno := 9\<rparr>, None) else (k, Some (nk_isblock k f)))"

definition n_setfl :: "net \<Rightarrow> int \<Rightarrow> u32 \<Rightarrow> net \<times> bool" where
  "n_setfl k f x =
     (if f \<notin> set (nk_fds k) then (k\<lparr>nk_errno := 9\<rparr>, False)
      else
        let (k, ok) = net_try k
        in if ok then (k\<lparr>nk_isblock := (nk_isblock k)(f := x)\<rparr>, True) else (k, False))"

definition dpefd_set_block :: "net \<Rightarrow> int \<Rightarrow> bool \<Rightarrow> net \<times> dpret" where
  "dpefd_set_block k f block =
     (if f \<ge> 0 then
        (let (k, flags) = n_getfl k f
         in case flags of
              None \<Rightarrow> (k, - nk_errno k)
            | Some flags \<Rightarrow>
                let desired = (if block then flags AND NOT O_NONBLOCK else flags OR O_NONBLOCK)
                in if desired = flags then (k, DPE_OK)
                   else
                     let (k, ok) = n_setfl k f desired
                     in if ok then (k, DPE_OK) else (k, - nk_errno k))
      else (k, DPE_INVAL))"

end
