(* ===== verification/Dpnet_Props.thy ===== *)
theory Dpnet_Props
  imports Dpnet
begin

text \<open>Opening a socket gives one descriptor more, or none and an error; and where that fails.\<close>

section \<open>Descriptors\<close>

text \<open>Open descriptors are numbers below the next one, errors are positive, and the name of a socket is an IPv4 or IPv6 address.\<close>

definition sane :: "net \<Rightarrow> bool" where
  "sane k \<longleftrightarrow> 0 \<le> nk_next k \<and> (\<forall>f \<in> set (nk_fds k). 0 \<le> f \<and> f < nk_next k) \<and> distinct (nk_fds k) \<and>
     (\<forall>n e. nk_err k n = Some e \<longrightarrow> 0 < e) \<and> (\<forall>f. length (nk_sockname k f) \<le> 28)"

definition same_fds :: "net \<Rightarrow> net \<Rightarrow> bool" where
  "same_fds k k' \<longleftrightarrow> sane k' \<and> nk_fds k' = nk_fds k"

text \<open>One descriptor more, not open before.\<close>

definition more_fds :: "net \<Rightarrow> net \<Rightarrow> int \<Rightarrow> bool" where
  "more_fds k k' f \<longleftrightarrow> sane k' \<and> nk_fds k' = f # nk_fds k \<and> 0 \<le> f \<and> f \<notin> set (nk_fds k)"

definition opened :: "net \<Rightarrow> net \<Rightarrow> dpret \<Rightarrow> bool" where
  "opened k k' r \<longleftrightarrow> (if 0 \<le> r then more_fds k k' r else same_fds k k')"

lemma same_refl: "sane k \<Longrightarrow> same_fds k k"
  by (simp add: same_fds_def)

lemma same_more: "same_fds k k' \<Longrightarrow> more_fds k' k'' f \<Longrightarrow> more_fds k k'' f"
  by (simp add: same_fds_def more_fds_def)

lemma same_same: "same_fds k k' \<Longrightarrow> same_fds k' k'' \<Longrightarrow> same_fds k k''"
  by (simp add: same_fds_def)

lemma same_opened: "same_fds k k' \<Longrightarrow> opened k' k'' r = opened k k'' r"
  by (simp add: opened_def same_fds_def more_fds_def)

lemma more_same: "more_fds k k' f \<Longrightarrow> same_fds k' k'' \<Longrightarrow> more_fds k k'' f"
  by (simp add: same_fds_def more_fds_def)

lemma opened_more: "more_fds k k' f \<Longrightarrow> opened k k' f"
  by (simp add: opened_def more_fds_def)

lemma opened_none: "same_fds k k' \<Longrightarrow> r < 0 \<Longrightarrow> opened k k' r"
  by (simp add: opened_def)

lemma net_try_same: "sane k \<Longrightarrow> net_try k = (k', ok) \<Longrightarrow> same_fds k k' \<and> (\<not> ok \<longrightarrow> 0 < nk_errno k') \<and> nk_next k' = nk_next k"
  by (auto simp: net_try_def Let_def same_fds_def sane_def split: option.splits)

lemma n_call_same: "sane k \<Longrightarrow> n_call k f c = (k', r) \<Longrightarrow> same_fds k k' \<and> (r = 0 \<or> 0 < nk_errno k')"
proof -
  assume a: "sane k" "n_call k f c = (k', r)"
  obtain k1 ok where t: "net_try k = (k1, ok)" by fastforce
  from net_try_same [OF a(1) t] a t show ?thesis
    by (cases "f \<in> set (nk_fds k)"; cases ok) (auto simp: n_call_def same_fds_def sane_def)
qed

lemma n_socket_opened:
  assumes "sane k" "n_socket k a b c = (k', f)"
  shows "if f = - 1 then same_fds k k' \<and> 0 < nk_errno k' else more_fds k k' f"
proof -
  obtain k1 ok where t: "net_try k = (k1, ok)" by fastforce
  from net_try_same [OF assms(1) t] assms t show ?thesis
    by (cases ok) (auto simp: n_socket_def Let_def same_fds_def more_fds_def sane_def net_try_def
      split: option.splits, fastforce)
qed

lemma n_close_more: "more_fds k k' f \<Longrightarrow> same_fds k (n_close k' f)"
  by (auto simp: n_close_def more_fds_def same_fds_def sane_def)

lemma n_close_errno: "more_fds k k' f \<Longrightarrow> nk_errno (n_close k' f) = nk_errno k'"
  by (simp add: n_close_def more_fds_def)

lemma set_nodelay_same: "sane k \<Longrightarrow> set_nodelay k f = (k', ok) \<Longrightarrow> same_fds k k'"
  using n_call_same by (auto simp: set_nodelay_def split: prod.splits)

lemma tcp_listen_on_same:
  assumes "sane k" "tcp_listen_on k f a b = (k', ok)"
  shows "same_fds k k'"
proof -
  obtain k1 o1 where 1: "set_nodelay k f = (k1, o1)" by fastforce
  obtain k2 r2 where 2: "n_call k1 f (Nbind f a) = (k2, r2)" by fastforce
  obtain k3 r3 where 3: "n_call k2 f (Nlisten f b) = (k3, r3)" by fastforce
  have s1: "same_fds k k1" using set_nodelay_same [OF assms(1) 1] .
  then have s2: "same_fds k1 k2" using n_call_same [OF _ 2] by (simp add: same_fds_def)
  then have s3: "same_fds k2 k3" using n_call_same [OF _ 3] by (simp add: same_fds_def)
  show ?thesis using assms(2) 1 2 3 s1 same_same [OF s1 s2] same_same [OF same_same [OF s1 s2] s3]
    by (auto simp: tcp_listen_on_def split: if_splits)
qed

lemma put_addr_fits: "length a \<le> 128 \<Longrightarrow> length (sa_addr ios) = 128 \<Longrightarrow>
    \<exists>ios'. put_addr ios a = Some ios' \<and> length (sa_addr ios') = 128 \<and> sa_real ios' = int (length a) \<and>
      take (length a) (sa_addr ios') = a"
  by (simp add: put_addr_def mem_write_def length_poke) (simp add: poke_def)

section \<open>The loops over addresses\<close>

lemma tcp_client_try_opened:
  assumes "sane k" "length (sa_addr ios) = 128" "\<forall>rp \<in> set rps. length (ai_addr rp) \<le> 128"
  shows "\<exists>k' ios' f. tcp_client_try k ios rps = Some (k', ios', f) \<and> opened k k' f"
  using assms
proof (induction rps arbitrary: k)
  case Nil
  then show ?case by (auto simp: opened_def same_refl)
next
  case (Cons rp rps)
  obtain k1 f where s: "n_socket k (ai_family rp) (ai_socktype rp) (ai_protocol rp) = (k1, f)" by fastforce
  note o = n_socket_opened [OF Cons.prems(1) s]
  show ?case
  proof (cases "f = - 1")
    case True
    then have "same_fds k k1" "sane k1" using o by (auto simp: same_fds_def)
    then show ?thesis using Cons.IH [of k1] Cons.prems(2,3) s True same_opened [of k k1] by auto
  next
    case False
    obtain k2 ok where n: "set_nodelay k1 f = (k2, ok)" by fastforce
    have m: "more_fds k k1 f" "sane k1" using o False by (auto simp: more_fds_def)
    have m2: "more_fds k k2 f" using more_same [OF m(1) set_nodelay_same [OF m(2) n]] .
    show ?thesis
    proof (cases ok)
      case True
      then show ?thesis using put_addr_fits [of "ai_addr rp" ios] Cons.prems(2,3) s n False opened_more [OF m2] by auto
    next
      case no: False
      have "same_fds k (n_close k2 f)" by (rule n_close_more [OF m2])
      then show ?thesis using Cons.IH [of "n_close k2 f"] Cons.prems(2,3) s n False no
          same_opened [of k "n_close k2 f"] by (auto simp: same_fds_def)
    qed
  qed
qed

lemma tcp_listen_try_opened:
  assumes "sane k" "length (sa_addr ios) = 128" "\<forall>rp \<in> set rps. length (ai_addr rp) \<le> 128"
  shows "\<exists>k' ios' f. tcp_listen_try k ios backlog rps = Some (k', ios', f) \<and> opened k k' f"
  using assms
proof (induction rps arbitrary: k)
  case Nil
  then show ?case by (auto simp: opened_def same_refl)
next
  case (Cons rp rps)
  obtain k1 f where s: "n_socket k (ai_family rp) (ai_socktype rp) (ai_protocol rp) = (k1, f)" by fastforce
  note o = n_socket_opened [OF Cons.prems(1) s]
  have again: "\<exists>k' ios' f. tcp_listen_try k2 ios backlog rps = Some (k', ios', f) \<and> opened k k' f"
    if "same_fds k k2" for k2
    using Cons.IH [of k2] Cons.prems(2,3) same_opened [OF that] that by (auto simp: same_fds_def)
  show ?case
  proof (cases "f = - 1")
    case True
    then show ?thesis using o again [of k1] s by auto
  next
    case False
    have m: "more_fds k k1 f" "sane k1" using o False by (auto simp: more_fds_def)
    obtain k2 r where n: "n_call k1 f (Nsockopt f SOL_SOCKET SO_REUSEPORT 1) = (k2, r)" by fastforce
    have m2: "more_fds k k2 f" using more_same [OF m(1)] n_call_same [OF m(2) n] by blast
    obtain k3 ok where l: "tcp_listen_on k2 f (ai_addr rp) backlog = (k3, ok)" by fastforce
    have m3: "more_fds k k3 f" using more_same [OF m2] tcp_listen_on_same [OF _ l] m2 by (auto simp: more_fds_def)
    show ?thesis
    proof (cases "r = 0")
      case False
      then show ?thesis using again [OF n_close_more [OF m2]] s n \<open>f \<noteq> - 1\<close> by auto
    next
      case True
      then show ?thesis using again [OF n_close_more [OF m3]] s n l \<open>f \<noteq> - 1\<close> opened_more [OF m3]
          put_addr_fits [of "ai_addr rp" ios] Cons.prems(2,3) by (cases ok) auto
    qed
  qed
qed

lemma udp_server_try_opened:
  assumes "sane k" "length (sa_addr u) = 128" "\<forall>rp \<in> set rps. length (ai_addr rp) \<le> 128"
  shows "\<exists>k' u' f. udp_server_try k u rps = Some (k', u', f) \<and> opened k k' f"
  using assms
proof (induction rps arbitrary: k)
  case Nil
  then show ?case by (auto simp: opened_def same_refl)
next
  case (Cons rp rps)
  obtain k1 f where s: "n_socket k (ai_family rp) (ai_socktype rp) (ai_protocol rp) = (k1, f)" by fastforce
  note o = n_socket_opened [OF Cons.prems(1) s]
  have again: "\<exists>k' u' f. udp_server_try k2 u rps = Some (k', u', f) \<and> opened k k' f" if "same_fds k k2" for k2
    using Cons.IH [of k2] Cons.prems(2,3) same_opened [OF that] that by (auto simp: same_fds_def)
  show ?case
  proof (cases "f = - 1")
    case True
    then show ?thesis using o again [of k1] s by auto
  next
    case False
    have m: "more_fds k k1 f" "sane k1" using o False by (auto simp: more_fds_def)
    obtain k2 r where n: "n_call k1 f (Nsockopt f SOL_SOCKET SO_REUSEPORT 1) = (k2, r)" by fastforce
    have m2: "more_fds k k2 f" using more_same [OF m(1)] n_call_same [OF m(2) n] by blast
    obtain k3 r3 where l: "n_call k2 f (Nbind f (ai_addr rp)) = (k3, r3)" by fastforce
    have m3: "more_fds k k3 f" using more_same [OF m2] n_call_same [OF _ l] m2 by (auto simp: more_fds_def)
    show ?thesis
    proof (cases "r = 0")
      case False
      then show ?thesis using again [OF n_close_more [OF m2]] s n \<open>f \<noteq> - 1\<close> by auto
    next
      case True
      then show ?thesis using again [OF n_close_more [OF m3]] s n l \<open>f \<noteq> - 1\<close> opened_more [OF m3]
          put_addr_fits [of "ai_addr rp" u] Cons.prems(2,3) by (cases "r3 = 0") auto
    qed
  qed
qed

section \<open>The UDP client\<close>

text \<open>The address of a result is one of the two kinds.\<close>

definition inet :: "addrinfo \<Rightarrow> bool" where
  "inet rp \<longleftrightarrow> (\<exists>x. ai_addr rp = [2, 0] @ x \<and> length x = 14) \<or> (\<exists>x. ai_addr rp = [10, 0] @ x \<and> length x = 26)"

lemma family_put: "put_addr ios (a # b # x) = Some ios' \<Longrightarrow> family (sa_addr ios') = Some (uint a + 256 * uint b)"
  by (auto simp: put_addr_def family_def mem_write_def mem_read_def poke_def seg_def peek_def split: bind_splits if_splits)

lemma inet_length: "inet rp \<Longrightarrow> length (ai_addr rp) \<le> 128"
  by (auto simp: inet_def)

lemma udp_client_try_result:
  assumes "sane k" "\<forall>rp \<in> set rps. inet rp" "length (sa_addr (peer_addr u)) = 128"
  shows "\<exists>k' u' f. udp_client_try k u rps = Some (k', u', f) \<and> local_addr u' = local_addr u \<and>
    (f = - 1 \<and> same_fds k k' \<and> u' = u \<or>
     more_fds k k' f \<and> length (sa_addr (peer_addr u')) = 128 \<and> 0 \<le> sa_real (peer_addr u') \<and> sa_real (peer_addr u') \<le> 128 \<and>
       family (sa_addr (peer_addr u')) \<in> {Some 2, Some 10})"
  using assms
proof (induction rps arbitrary: k)
  case Nil
  then show ?case by (auto simp: same_refl)
next
  case (Cons rp rps)
  obtain k1 f where s: "n_socket k (ai_family rp) (ai_socktype rp) (ai_protocol rp) = (k1, f)" by fastforce
  note o = n_socket_opened [OF Cons.prems(1) s]
  show ?case
  proof (cases "f = - 1")
    case True
    then have a: "same_fds k k1" "sane k1" using o by (auto simp: same_fds_def)
    from Cons.IH [OF a(2)] Cons.prems(2,3) obtain k' u' g where
      "udp_client_try k1 u rps = Some (k', u', g)" "local_addr u' = local_addr u"
      "g = - 1 \<and> same_fds k1 k' \<and> u' = u \<or>
       more_fds k1 k' g \<and> length (sa_addr (peer_addr u')) = 128 \<and> 0 \<le> sa_real (peer_addr u') \<and> sa_real (peer_addr u') \<le> 128 \<and>
         family (sa_addr (peer_addr u')) \<in> {Some 2, Some 10}"
      by auto
    then show ?thesis using s True same_same [OF a(1)] same_more [OF a(1)] by auto
  next
    case False
    then have m: "more_fds k k1 f" using o by simp
    have i: "inet rp" using Cons.prems(2) by simp
    obtain ios where p: "put_addr (peer_addr u) (ai_addr rp) = Some ios" "length (sa_addr ios) = 128"
      "sa_real ios = int (length (ai_addr rp))"
      using put_addr_fits [OF inet_length [OF i] Cons.prems(3)] by auto
    have "family (sa_addr ios) \<in> {Some 2, Some 10}" using i p(1) by (auto simp: inet_def dest!: family_put)
    then show ?thesis using s False m p inet_length [OF i] by simp
  qed
qed

lemma udp_error_opened:
  assumes "more_fds k k1 f" "0 < nk_errno k1" "udp_error k1 u f = (k', u', r)"
  shows "opened k k' r"
proof -
  have "same_fds k k'" "r < 0" using assms n_close_more [OF assms(1)] by (auto simp: udp_error_def)
  then show ?thesis by (rule opened_none)
qed

lemma udp_client_bind_opened:
  assumes "more_fds k k1 f" "length (sa_addr (peer_addr u)) = 128" "0 \<le> sa_real (peer_addr u)" "sa_real (peer_addr u) \<le> 128"
    and "length (sa_addr (local_addr u)) = 128" "length sa \<le> 28"
  shows "\<exists>k' u' r. udp_client_bind k1 u f sa = Some (k', u', r) \<and> opened k k' r"
proof -
  have sn: "sane k1" using assms(1) by (simp add: more_fds_def)
  obtain k2 r2 where b: "n_call k1 f (Nbind f sa) = (k2, r2)" by fastforce
  have m2: "more_fds k k2 f" "r2 = 0 \<or> 0 < nk_errno k2" using n_call_same [OF sn b] more_same [OF assms(1)] by auto
  show ?thesis
  proof (cases "r2 = 0")
    case False
    then show ?thesis using b m2 udp_error_opened [OF m2(1)] by (cases "udp_error k2 u f") (auto simp: udp_client_bind_def)
  next
    case True
    obtain pa where pa: "mem_read 0 (sa_real (peer_addr u)) (sa_addr (peer_addr u)) = Some pa"
      using assms(2-4) by (simp add: mem_read_def)
    obtain k3 r3 where c: "n_call k2 f (Nconnect f pa) = (k3, r3)" by fastforce
    have s2: "sane k2" using m2(1) by (simp add: more_fds_def)
    have m3: "more_fds k k3 f" "r3 = 0 \<or> 0 < nk_errno k3" using n_call_same [OF s2 c] more_same [OF m2(1)] by auto
    show ?thesis
    proof (cases "r3 = 0")
      case False
      then show ?thesis using b c True pa m3 udp_error_opened [OF m3(1)] by (cases "udp_error k3 u f") (auto simp: udp_client_bind_def)
    next
      case r3: True
      obtain k4 ok where g: "net_try k3 = (k4, ok)" by fastforce
      have s3: "sane k3" using m3(1) by (simp add: more_fds_def)
      have m4: "more_fds k k4 f" "\<not> ok \<longrightarrow> 0 < nk_errno k4" using net_try_same [OF s3 g] more_same [OF m3(1)] by auto
      show ?thesis
      proof (cases ok)
        case False
        then show ?thesis using b c g True r3 pa m4 udp_error_opened [OF m4(1)]
          by (cases "udp_error k4 u f") (auto simp: udp_client_bind_def)
      next
        case ok: True
        let ?n = "nk_sockname k4 f"
        have l: "length ?n \<le> 28" using m4(1) by (simp add: more_fds_def sane_def)
        obtain un where un: "mem_write 0 (take (length sa) ?n) (replicate 28 0) = Some un" "length un = 28"
          by (rule that [of "poke 0 (take (length sa) ?n) (replicate 28 0)"])
            (use assms(6) l in \<open>auto simp: mem_write_def poke_def min_def\<close>)
        obtain a where a: "mem_read 0 (int (length ?n)) un = Some a" "length a = length ?n"
          using l un(2) by (auto simp: mem_read_def)
        obtain la where "put_addr (local_addr u) a = Some la" using put_addr_fits [of a "local_addr u"] assms(5) l a(2) by auto
        then show ?thesis using b c g True r3 ok pa un(1) a(1) opened_more [OF m4(1)] by (simp add: udp_client_bind_def)
      qed
    qed
  qed
qed

section \<open>The contract\<close>

text \<open>A fresh element: its data is zero.\<close>

definition zero_addr :: dpsockaddr where
  "zero_addr = \<lparr>sa_addr = replicate 128 0, sa_real = 0\<rparr>"

definition zero_client :: dpudp_client where
  "zero_client = \<lparr>local_addr = zero_addr, peer_addr = zero_addr\<rparr>"


definition some_net :: net where
  "some_net = \<lparr>nk_fds = [0, 1, 2], nk_next = 3, nk_err = (\<lambda>n. if n = 2 then Some 98 else None), nk_calls = 0, nk_errno = 0, nk_log = [],
     nk_resolve = (\<lambda>h p ty fl. if h = ''localhost'' then
         Inr [\<lparr>ai_family = 10, ai_socktype = ty, ai_protocol = 0, ai_addr = [10, 0] @ replicate 26 1\<rparr>,
              \<lparr>ai_family = 2, ai_socktype = ty, ai_protocol = 0, ai_addr = [2, 0] @ replicate 14 1\<rparr>]
       else Inl (- 2)),
     nk_nameinfo = (\<lambda>_. None), nk_sockname = (\<lambda>_. [2, 0] @ replicate 14 7), nk_peername = (\<lambda>_. None),
     nk_so_error = (\<lambda>_. None), nk_isblock = (\<lambda>_. 0)\<rparr>"


section \<open>Where it goes wrong\<close>

text \<open>A UDP client that gets no socket: the error is put into \<open>errno\<close> with its sign and negated again.\<close>

lemma udp_client_try_none: "\<forall>n. nk_err k n \<noteq> None \<Longrightarrow> \<exists>k'. udp_client_try k u rps = Some (k', u, - 1)"
proof (induction rps arbitrary: k)
  case (Cons rp rps)
  obtain k1 f where s: "n_socket k (ai_family rp) (ai_socktype rp) (ai_protocol rp) = (k1, f)" by fastforce
  obtain e where "nk_err k (nk_calls k) = Some e" using Cons.prems by auto
  then have "f = - 1 \<and> (\<forall>n. nk_err k1 n \<noteq> None)" using s Cons.prems
    by (auto simp: n_socket_def net_try_def Let_def)
  then show ?case using Cons.IH [of k1] s by simp
qed simp

lemma udp_client_no_socket:
  assumes "\<forall>n. nk_err k n \<noteq> None" "0 < port" "port \<le> UINT16_MAX" "nk_resolve k h (dec (nat port)) SOCK_DGRAM 0 = Inr rs"
  shows "\<exists>k'. dpudp_client_vopen k zero_client (Some h) port = Some (k', zero_client, 22)"
proof -
  obtain k1 where "udp_client_try k zero_client rs = Some (k1, zero_client, - 1)" using udp_client_try_none [OF assms(1)] by blast
  moreover have "family (sa_addr (peer_addr zero_client)) = Some 0"
    by (simp add: zero_client_def zero_addr_def family_def mem_read_def seg_def peek_def)
  ultimately show ?thesis using assms(2-4) by (simp add: dpudp_client_vopen_def bad_target_def udp_error_def)
qed

text \<open>The registration with the loop leaves elements alone.\<close>

lemma epoll_ctl_keeps:
  "epoll_ctl_add w i f evt = (w', r) \<Longrightarrow> eles w' = eles w \<and> gevp w' = gevp w"
  "epoll_ctl_mod w i f evt = (w', r) \<Longrightarrow> eles w' = eles w \<and> gevp w' = gevp w"
  "epoll_ctl_del w i f = (w', r) \<Longrightarrow> eles w' = eles w \<and> gevp w' = gevp w"
  by (auto simp: epoll_ctl_add_def epoll_ctl_mod_def epoll_ctl_del_def try_sys_def Let_def split: option.splits if_splits)

lemma watch_returns:
  assumes "eles w a = Some e" "gevp w = Some g"
  shows "\<exists>w' r. dpevp_watch_efd w a = Some (w', r) \<and> eles w' = eles w \<and> gevp w' = gevp w"
proof -
  let ?evt = "(EPOLLRDHUP OR EPOLLET OR ((ucast (poll_events e) :: u32) AND DPEVT_AIO), Pele a)"
  let ?w0 = "if fd_flags w (fd e) = Some False then w\<lparr>fd_flags := (fd_flags w)(fd e := Some True)\<rparr> else w"
  obtain w1 r1 where a: "epoll_ctl_add ?w0 g (fd e) ?evt = (w1, r1)" by fastforce
  obtain w2 r2 where m: "epoll_ctl_mod w1 g (fd e) ?evt = (w2, r2)" by fastforce
  have "eles ?w0 = eles w" "gevp ?w0 = Some g" using assms(2) by simp_all
  then show ?thesis using assms a m epoll_ctl_keeps(1) [OF a] epoll_ctl_keeps(2) [OF m]
    by (simp add: dpevp_watch_efd_def Let_def)
qed

lemma unwatch_returns:
  assumes "eles w a = Some e" "gevp w = Some g"
  shows "\<exists>w' r. dpevp_unwch_efd w a = Some (w', r) \<and> eles w' = eles w"
proof -
  obtain w1 r1 where d: "epoll_ctl_del w g (fd e) = (w1, r1)" by fastforce
  show ?thesis using assms d epoll_ctl_keeps(3) [OF d] by (simp add: dpevp_unwch_efd_def)
qed

text \<open>
  A host that does not resolve: the resolver's code, which is negative, is negated, so that the opening function
  returns a positive number, and the element that is created takes the descriptor of that number for its own; when the loop
  refuses to watch it, the descriptor is closed.
\<close>

theorem lookup_failure_takes_descriptor:
  assumes "args_of args = Some (Some h, port)" and "0 < port" and "port \<le> UINT16_MAX"
    and "nk_resolve (ext w) h (dec (nat port)) SOCK_STREAM 0 = Inl (- e)" and "0 < e"
    and "fn_init env (symtab ''_dptcp_client_vopen'') = tcp_client_init args_of"
    and "\<And>d w. fn_fini env (symtab ''_dptcp_ctx_clean'') d w = w"
    and "mem_ok w (mem_calls w)" and "gevp w = Some g"
  shows "\<exists>w' r. dpele_newv env w (Some (dptcp_client_type symtab)) args = Some (w', r) \<and>
     (case r of Some a \<Rightarrow> \<exists>el. eles w' a = Some el \<and> fd el = e \<and> is_close el | None \<Rightarrow> e \<in> set (closed w'))"
proof -
  let ?ty = "dptcp_client_type symtab" and ?a = "ele_brk w"
  let ?w1 = "put_ele (w\<lparr>mem_calls := mem_calls w + 1, ele_brk := ?a + 1\<rparr>) ?a (dpefd_init (ele_zero ?ty))"
  have n: "dpele_new_pri w ?ty = (?w1, Some ?a)"
    using assms(8) by (simp add: dpele_new_pri_def try_alloc_def dptcp_client_type_def Let_def)
  have v: "dptcp_client_vopen (ext w) \<lparr>sa_addr = replicate 128 0, sa_real = 0\<rparr> (Some h) port =
      Some (ext w, \<lparr>sa_addr = replicate 128 0, sa_real = 0\<rparr>, e)"
    using assms(2-4) by (simp add: dptcp_client_vopen_def bad_target_def)
  obtain w2 el where i: "fn_init env (symtab ''_dptcp_client_vopen'') ?a args ?w1 = Some (w2, e)" "eles w2 ?a = Some el"
    "is_close el" "etype el = ?ty" "gevp w2 = Some g"
    using v assms(1,6,9)
    by (simp add: tcp_client_init_def upd_ele_def put_ele_def dpefd_init_def ele_zero_def)
  let ?w3 = "put_ele w2 ?a (el\<lparr>fd := e\<rparr>)"
  obtain w4 r where w: "dpevp_watch_efd ?w3 ?a = Some (w4, r)" "eles w4 = eles ?w3" "gevp w4 = gevp ?w3"
    using watch_returns [of ?w3 ?a "el\<lparr>fd := e\<rparr>" g] i(5) by auto
  have go: "dpele_newv env w (Some ?ty) args = (if dpret_iserr r then do { w5 \<leftarrow> dpele_del_pri env w4 ?a; Some (w5, None) }
      else Some (w4, Some ?a))"
    using n i w(1) assms(5) by (simp add: dpele_newv_def dptcp_client_type_def dpret_isok_def upd_ele_def)
  show ?thesis
  proof (cases "dpret_iserr r")
    case False
    then show ?thesis using go w(2) i(3) by simp
  next
    case True
    have el: "eles w4 ?a = Some (el\<lparr>fd := e\<rparr>)" using w(2) by simp
    obtain w5 r5 where u: "dpevp_unwch_efd w4 ?a = Some (w5, r5)" "eles w5 = eles w4"
      using unwatch_returns [OF el] w(3) i(5) by auto
    have "\<exists>w6. dpele_del_pri env w4 ?a = Some w6 \<and> e \<in> set (closed w6)"
      using el u i(3,4) assms(5,7)
      by (simp add: dpele_del_pri_def upd_ele_def put_ele_def dptcp_client_type_def)
    then show ?thesis using go True by auto
  qed
qed

definition net_world :: "(unit, net) world" where
  "net_world = \<lparr>eles = (\<lambda>_. None), ele_brk = 5, deqs = (\<lambda>_. \<lparr>dq_head = None, dq_tail = None\<rparr>), evps = (\<lambda>i. dpevp_zero\<lparr>evp_id := i\<rparr>),
     gevp = Some 0, gcount = 1, type_count = 1, each_count = [1], each_ids = [[0]], eventfd = (\<lambda>_. 0), interest = (\<lambda>_ _. None),
     wake_interest = (\<lambda>_. None), fd_flags = (\<lambda>_. None), closed = [], errno = 0, clock = (\<lambda>_. 1000), clock_reads = 0,
     mem_ok = (\<lambda>_. True), mem_calls = 0, sys_err = (\<lambda>_. None), sys_calls = 0, ext = some_net\<rparr>"

definition net_env :: "(unit, net) env" where
  "net_env = \<lparr>ascs = (\<lambda>_. dpctc_submit (\<lambda>_ _. ())), fn_init = (\<lambda>_. tcp_client_init (\<lambda>_. Some (Some ''nowhere'', 80))),
     fn_copy = (\<lambda>_ xs. (xs, 0)), fn_fini = (\<lambda>_ _ w. w)\<rparr>"

lemma lookup_failure_takes_descriptor_witness:
  "\<exists>w' r. dpele_newv net_env net_world (Some (dptcp_client_type length)) [] = Some (w', r) \<and>
     (case r of Some a \<Rightarrow> \<exists>el. eles w' a = Some el \<and> fd el = 2 \<and> is_close el | None \<Rightarrow> 2 \<in> set (closed w'))"
  by (rule lookup_failure_takes_descriptor [of "\<lambda>_. Some (Some ''nowhere'', 80)" _ "''nowhere''" 80 _ _ _ _ 0])
    (simp_all add: net_env_def net_world_def some_net_def)

text \<open>
  The length of a Unix domain address is taken before the path is there: the listener is bound to the two bytes of
  the family alone, whatever the path, and the client keeps that length for its connection.
\<close>

definition zero_uds :: dpuds_data where
  "zero_uds = \<lparr>un_real = 0, un_pending = 0, un_addr = replicate 110 0\<rparr>"

lemma SUN_LEN_zero: "SUN_LEN (replicate 110 0) = Some 2"
  by (simp add: SUN_LEN_def strlen_def strnlen_def)

lemma uds_client_length:
  assumes "sane k"
  shows "\<exists>k' ios r. dpuds_client_vopen k zero_uds (Some path) = Some (k', ios, r) \<and> opened k k' r \<and>
    (0 \<le> r \<longrightarrow> un_real ios = 2 \<and> length (un_addr ios) = 110)"
proof -
  obtain k1 f where s: "n_socket k AF_UNIX SOCK_STREAM 0 = (k1, f)" by fastforce
  note o = n_socket_opened [OF assms s]
  show ?thesis
  proof (cases "f = - 1")
    case True
    then show ?thesis using o s by (simp add: dpuds_client_vopen_def opened_def)
  next
    case False
    then have m: "more_fds k k1 f" "0 \<le> f" using o by (auto simp: more_fds_def)
    have "length (take 107 (bytes_of path @ replicate 107 (0 :: byte))) = 107" by (simp add: min_def)
    then show ?thesis using s m opened_more [OF m(1)]
      by (simp add: dpuds_client_vopen_def zero_uds_def SUN_LEN_zero strncpy_at_def mem_write_def length_poke)
  qed
qed

lemma uds_name:
  "\<exists>a. mem_write 0 [1, 0] (replicate 110 (0 :: byte)) = Some ([1, 0] @ replicate 108 0) \<and>
    strncpy_at ([1, 0] @ replicate 108 0) 2 path 107 = Some a \<and> mem_read 0 2 a = Some [1, 0]"
proof -
  have "length (take 107 (bytes_of path @ replicate 107 (0 :: byte))) = 107" by (simp add: min_def)
  moreover have "mem_write 0 [1, 0] (replicate 110 (0 :: byte)) = Some ([1, 0] @ replicate 108 0)"
    by (simp add: mem_write_def poke_def)
  ultimately show ?thesis
    by (simp add: strncpy_at_def mem_write_def mem_read_def poke_def seg_def peek_def numeral_2_eq_2)
qed

lemma n_call_log: "n_call k f c = (k', 0) \<Longrightarrow> c \<in> set (nk_log k') \<and> set (nk_log k) \<subseteq> set (nk_log k')"
  by (auto simp: n_call_def net_try_def Let_def split: if_splits option.splits)

lemma n_unlink_same: "sane k \<Longrightarrow> same_fds k (n_unlink k path)"
proof -
  assume a: "sane k"
  obtain k1 ok where t: "net_try k = (k1, ok)" by fastforce
  from net_try_same [OF a t] t show ?thesis by (auto simp add: n_unlink_def same_fds_def sane_def)
qed

lemma uds_listen_binds_nothing:
  assumes "sane k" "dpuds_listen_vopen k zero_uds (Some path) = Some (k', ios, r)" "0 \<le> r"
  shows "Nbind r [1, 0] \<in> set (nk_log k')"
proof -
  obtain k1 f where s: "n_socket k AF_UNIX SOCK_STREAM 0 = (k1, f)" by fastforce
  note o = n_socket_opened [OF assms(1) s]
  show ?thesis
  proof (cases "f = - 1")
    case True
    then show ?thesis using o s assms(2,3) by (simp add: dpuds_listen_vopen_def)
  next
    case False
    then have m: "more_fds k k1 f" "0 \<le> f" using o by (auto simp: more_fds_def)
    obtain a where a: "mem_write 0 [1, 0] (replicate 110 (0 :: byte)) = Some ([1, 0] @ replicate 108 0)"
      "strncpy_at ([1, 0] @ replicate 108 0) 2 path 107 = Some a" "mem_read 0 2 a = Some [1, 0]"
      using uds_name by blast
    let ?k2 = "n_unlink k1 path"
    obtain k3 r3 where b: "n_call ?k2 f (Nbind f [1, 0]) = (k3, r3)" by fastforce
    obtain k4 r4 where l: "n_call k3 f (Nlisten f 100) = (k4, r4)" by fastforce
    have k2: "more_fds k ?k2 f"
      using more_same [OF m(1) n_unlink_same] m(1) by (simp add: more_fds_def)
    then have m3: "more_fds k k3 f" "r3 = 0 \<or> 0 < nk_errno k3"
      using n_call_same [OF _ b] more_same [OF k2] by (auto simp: more_fds_def)
    then have m4: "more_fds k k4 f" "r4 = 0 \<or> 0 < nk_errno k4"
      using n_call_same [OF _ l] more_same [OF m3(1)] by (auto simp: more_fds_def)
    let ?ios = "zero_uds\<lparr>un_real := 2, un_addr := a\<rparr>"
    have e: "dpuds_listen_vopen k zero_uds (Some path) =
      (if r3 \<noteq> 0 then Some (n_close k3 f, ?ios, - nk_errno (n_close k3 f))
       else if r4 \<noteq> 0 then Some (n_close k4 f, ?ios, - nk_errno (n_close k4 f)) else Some (k4, ?ios, f))"
      using s m(2) a b l by (simp add: dpuds_listen_vopen_def zero_uds_def SUN_LEN_zero Let_def)
    have "r3 = 0 \<and> r4 = 0 \<and> k' = k4 \<and> r = f"
      using assms(2,3) m3(2) m4(2) unfolding e n_close_errno [OF m3(1)] n_close_errno [OF m4(1)]
      by (cases "r3 = 0"; cases "r4 = 0") simp_all
    then show ?thesis using n_call_log [of ?k2 f "Nbind f [1, 0]" k3] n_call_log [of k3 f "Nlisten f 100" k4] b l by auto
  qed
qed

section \<open>Blocking mode\<close>

lemma set_block_idempotent:
  assumes "dpefd_set_block k f b = (k', DPE_OK)" "f \<in> set (nk_fds k)" "0 \<le> f" "sane k"
  shows "dpefd_set_block k' f b = (k', DPE_OK)"
proof -
  have i: "(x AND NOT O_NONBLOCK) AND NOT O_NONBLOCK = x AND NOT O_NONBLOCK" "(x OR O_NONBLOCK) OR O_NONBLOCK = x OR O_NONBLOCK"
    for x :: u32 by (simp_all add: and.assoc or.assoc)
  obtain k1 ok where t: "net_try k = (k1, ok)" by fastforce
  show ?thesis using assms i t net_try_same [OF assms(4) t]
    by (cases ok; cases b) (auto simp: dpefd_set_block_def n_getfl_def n_setfl_def Let_def same_fds_def split: if_splits)
qed

end
