(* ===== verification/Dpcwc_Id.thy ===== *)
theory Dpcwc_Id
  imports Dp_Prelude
begin

text \<open>
  Identifiers (\<^verbatim>\<open>dpcwc_aux.c\<close>): 64-bit numbers made of a time, a machine, a thread and a counter, and their
  form as eleven characters to the base 62.  The counter is per thread; while an identifier waits for the
  clock, other coroutines of the thread may run, and what they do is an argument.
\<close>

section \<open>Base 62\<close>

definition base62_chars :: string where
  "base62_chars = ''0123456789ABCDEFGHIJKLMNOPQRSTUVWXYZabcdefghijklmnopqrstuvwxyz''"

fun base62_fill :: "nat \<Rightarrow> 64 word \<Rightarrow> string \<Rightarrow> string" where
  "base62_fill 0 value buffer = buffer"
| "base62_fill (Suc i) value buffer =
     (if value > 0 then base62_fill i (value div 62) (buffer[i := base62_chars ! unat (value mod 62)]) else buffer)"

definition to_base62 :: "64 word \<Rightarrow> string \<Rightarrow> string option" where
  "to_base62 value buffer = do {
     buffer \<leftarrow> mem_write 0 (replicate 11 CHR ''0'') buffer;
     Some (base62_fill 11 value buffer)
   }"

definition base62_digit :: "char \<Rightarrow> 64 word option" where
  "base62_digit ch =
     (let c = of_char ch :: int in
      if 48 \<le> c \<and> c \<le> 57 then Some (word_of_int (c - 48))
      else if 65 \<le> c \<and> c \<le> 90 then Some (word_of_int (10 + (c - 65)))
      else if 97 \<le> c \<and> c \<le> 122 then Some (word_of_int (36 + (c - 97)))
      else None)"

fun base62_read :: "64 word \<Rightarrow> string \<Rightarrow> 64 word" where
  "base62_read v [] = v"
| "base62_read v (c # cs) = (case base62_digit c of Some d \<Rightarrow> base62_read (v * 62 + d) cs | None \<Rightarrow> 0)"

text \<open>A C string is the list of its characters, without the terminator.\<close>

definition to_uint64 :: "string option \<Rightarrow> 64 word" where
  "to_uint64 b62 = (case b62 of None \<Rightarrow> 0 | Some s \<Rightarrow> base62_read 0 (take 11 s))"

definition dpcwc_id_2u64 :: "string option \<Rightarrow> 64 word" where
  "dpcwc_id_2u64 str = to_uint64 str"

definition dpcwc_id_2str :: "64 word \<Rightarrow> string \<Rightarrow> string option" where
  "dpcwc_id_2str i out_str = to_base62 i out_str"

section \<open>Identifiers\<close>

text \<open>The bit fields, from the least significant one on.\<close>

record dpcwc_id =
  id_sequence :: "10 word"
  id_thread_id :: "8 word"
  id_machine_id :: "5 word"
  id_timestamp :: "41 word"

definition id_u64 :: "dpcwc_id \<Rightarrow> 64 word" where
  "id_u64 i = ucast (id_sequence i) OR push_bit 10 (ucast (id_thread_id i)) OR
     push_bit 18 (ucast (id_machine_id i)) OR push_bit 23 (ucast (id_timestamp i))"

record id_world =
  ctx_sequence :: int
  ctx_timestamp :: "64 word"
  millis :: "nat \<Rightarrow> int"
  millis_reads :: nat
  my_machine :: int
  my_thread :: int

definition baseTS :: int where "baseTS = 1735660800000"

definition read_millis :: "id_world \<Rightarrow> id_world \<times> 41 word" where
  "read_millis w = (w\<lparr>millis_reads := millis_reads w + 1\<rparr>, word_of_int (millis w (millis_reads w) - baseTS))"

text \<open>The loop that sleeps while the clock shows the time of the identifier before.\<close>

partial_function (option) id_wait ::
  "(id_world \<Rightarrow> id_world option) \<Rightarrow> id_world \<Rightarrow> 41 word \<Rightarrow> (id_world \<times> 41 word) option" where
  "id_wait others w ts =
     (if ucast ts = ctx_timestamp w then
        Option.bind (others w) (\<lambda>w1. case read_millis w1 of (w2, ts2) \<Rightarrow> id_wait others w2 ts2)
      else Some (w, ts))"

definition id_make :: "(id_world \<Rightarrow> id_world option) \<Rightarrow> id_world \<Rightarrow> (id_world \<times> 64 word) option" where
  "id_make others w = do {
     let m = word_of_int (my_machine w);
     let t = word_of_int (my_thread w);
     let s = word_of_int (ctx_sequence w);
     sq \<leftarrow> chk_int (ctx_sequence w + 1);
     let w = w\<lparr>ctx_sequence := sq\<rparr>;
     let (w, ts) = read_millis w;
     (w, ts) \<leftarrow> (if uint s = 1023 then id_wait others (w\<lparr>ctx_sequence := 0\<rparr>) ts else Some (w, ts));
     Some (w\<lparr>ctx_timestamp := ucast ts\<rparr>,
       id_u64 \<lparr>id_sequence = s, id_thread_id = t, id_machine_id = m, id_timestamp = ts\<rparr>)
   }"

definition dpcwc_id_next ::
  "(id_world \<Rightarrow> id_world option) \<Rightarrow> id_world \<Rightarrow> string option \<Rightarrow> (id_world \<times> 64 word \<times> string option) option" where
  "dpcwc_id_next others w out_str = do {
     (w, r) \<leftarrow> id_make others w;
     (case out_str of
        None \<Rightarrow> Some (w, r, None)
      | Some b \<Rightarrow> do { b \<leftarrow> to_base62 r b; Some (w, r, Some b) })
   }"

end
