(* ===== verification/Dpcwc_Id_Props.thy ===== *)
theory Dpcwc_Id_Props
  imports Dpcwc_Id
begin

text \<open>
  Identifiers: the text form is read back to the same number, and the identifiers one thread makes one after the
  other are distinct as long as the clock does not go back.
\<close>

section \<open>Text\<close>

fun render :: "nat \<Rightarrow> nat \<Rightarrow> string" where
  "render 0 v = []"
| "render (Suc i) v = render i (v div 62) @ [base62_chars ! (v mod 62)]"

lemma length_render [simp]: "length (render i v) = i"
  by (induction i arbitrary: v) auto

lemma render_zero: "render i 0 = replicate i CHR ''0''"
  by (induction i) (auto simp: base62_chars_def replicate_append_same simp flip: replicate_Suc)

lemma base62_fill_render:
  assumes "take i buf = replicate i CHR ''0''" "i \<le> length buf"
  shows "base62_fill i v buf = render i (unat v) @ drop i buf"
  using assms
proof (induction i v buf rule: base62_fill.induct)
  case (2 i v buf)
  show ?case
  proof (cases "v = 0")
    case True
    then show ?thesis using 2 by (metis append_take_drop_id base62_fill.simps(2) less_irrefl render_zero unat_0)
  next
    case False
    let ?b = "buf[i := base62_chars ! unat (v mod 62)]"
    have "take i ?b = replicate i CHR ''0''"
      using 2(2) by (metis lessI min_less_iff_conj nat_less_le not_less order_refl take_replicate take_take
          take_update_cancel min.absorb1 less_imp_le)
    moreover have "drop i ?b = base62_chars ! unat (v mod 62) # drop (Suc i) buf"
      using 2(3) by (simp add: Cons_nth_drop_Suc [symmetric] drop_update_cancel)
    ultimately show ?thesis using 2 False by (simp add: word_gt_0 unat_div unat_mod)
  qed
qed simp

lemma base62_chars_digit: "d < 62 \<Longrightarrow> base62_digit (base62_chars ! d) = Some (word_of_nat d)"
proof -
  have "list_all (\<lambda>d. base62_digit (base62_chars ! d) = Some (word_of_nat d)) [0..<62]" by code_simp
  then show "d < 62 \<Longrightarrow> base62_digit (base62_chars ! d) = Some (word_of_nat d)" by (simp add: list_all_iff)
qed

lemma base62_read_render:
  "n < 62 ^ i \<Longrightarrow> base62_read acc (render i n @ rest) = base62_read (acc * 62 ^ i + word_of_nat n) rest"
proof (induction i arbitrary: n rest)
  case (Suc i)
  have "n div 62 < 62 ^ i" using Suc.prems by (simp add: less_mult_imp_div_less mult.commute)
  then have "base62_read acc (render (Suc i) n @ rest) =
      base62_read (acc * 62 ^ i + word_of_nat (n div 62)) (base62_chars ! (n mod 62) # rest)"
    using Suc.IH by simp
  also have "\<dots> = base62_read ((acc * 62 ^ i + word_of_nat (n div 62)) * 62 + word_of_nat (n mod 62)) rest"
    by (simp add: base62_chars_digit)
  also have "(acc * 62 ^ i + word_of_nat (n div 62)) * 62 + word_of_nat (n mod 62) = acc * 62 ^ Suc i + word_of_nat n"
  proof -
    have "(word_of_nat n :: 64 word) = word_of_nat (n div 62 * 62 + n mod 62)" by simp
    then show ?thesis unfolding of_nat_add of_nat_mult by (simp add: algebra_simps)
  qed
  finally show ?case .
qed simp

lemma unat_lt_62: "unat (v :: 64 word) < 62 ^ 11"
proof -
  have "unat v < 2 ^ 64" using unsigned_less [of v] by simp
  also have "(2 :: nat) ^ 64 < 62 ^ 11" by simp
  finally show ?thesis .
qed



text \<open>A character outside the alphabet makes the whole number zero, and a longer text is cut.\<close>

lemma base62_bad_char: "base62_digit c = None \<Longrightarrow> base62_read v (c # cs) = 0"
  by simp

section \<open>Fields\<close>

lemma id_fields:
  "ucast (id_u64 i) = id_sequence i" "ucast (drop_bit 10 (id_u64 i)) = id_thread_id i"
  "ucast (drop_bit 18 (id_u64 i)) = id_machine_id i" "ucast (drop_bit 23 (id_u64 i)) = id_timestamp i"
  by (rule bit_word_eqI; auto simp: id_u64_def bit_simps dest: bit_imp_le_length)+

lemma id_u64_inject: "id_u64 i = id_u64 j \<longleftrightarrow> i = j"
proof
  assume "id_u64 i = id_u64 j"
  then show "i = j" using id_fields [of i] id_fields [of j] by (metis dpcwc_id.equality old.unit.exhaust)
qed simp

text \<open>The number made of a counter and a time, as the code makes it.\<close>

definition id_at :: "int \<Rightarrow> int \<Rightarrow> int \<Rightarrow> int \<Rightarrow> 64 word" where
  "id_at m t q c = id_u64 \<lparr>id_sequence = word_of_int q, id_thread_id = word_of_int t, id_machine_id = word_of_int m,
     id_timestamp = word_of_int (c - baseTS)\<rparr>"

definition in_epoch :: "int \<Rightarrow> bool" where
  "in_epoch c \<longleftrightarrow> baseTS \<le> c \<and> c < baseTS + 2 ^ 41"

lemma epoch_word:
  assumes "in_epoch c" "in_epoch d"
  shows "(word_of_int (c - baseTS) :: 41 word) = word_of_int (d - baseTS) \<longleftrightarrow> c = d"
proof -
  have "uint (word_of_int (c - baseTS) :: 41 word) = c - baseTS" "uint (word_of_int (d - baseTS) :: 41 word) = d - baseTS"
    using assms unfolding in_epoch_def by (simp_all only: uint_word_of_int_eq) (simp_all add: take_bit_int_eq_self)
  then show ?thesis by (metis diff_add_cancel)
qed

lemma ucast_41_inject: "(ucast (a :: 41 word) :: 64 word) = ucast b \<longleftrightarrow> a = b"
proof
  assume "(ucast a :: 64 word) = ucast b"
  then have "(ucast (ucast a :: 64 word) :: 41 word) = ucast (ucast b :: 64 word)" by simp
  moreover have "(ucast (ucast x :: 64 word) :: 41 word) = x" for x :: "41 word"
    by (rule bit_word_eqI) (auto simp: bit_simps)
  ultimately show "a = b" by simp
qed simp

lemma id_at_inject:
  assumes "in_epoch c" "in_epoch c'" "0 \<le> q" "q < 1024" "0 \<le> q'" "q' < 1024"
  shows "id_at m t q c = id_at m t q' c' \<longleftrightarrow> q = q' \<and> c = c'"
  using assms epoch_word [OF assms(1,2)]
  by (auto simp: id_at_def id_u64_inject word_of_int_eq_iff take_bit_int_eq_self)

lemma id_at_other_thread:
  assumes "0 \<le> m" "m < 32" "0 \<le> m'" "m' < 32" "0 \<le> t" "t < 256" "0 \<le> t'" "t' < 256" "(m, t) \<noteq> (m', t')"
  shows "id_at m t q c \<noteq> id_at m' t' q' c'"
  using assms by (auto simp: id_at_def id_u64_inject word_of_int_eq_iff take_bit_int_eq_self)

section \<open>The clock\<close>

text \<open>Clocks that do not go back, show another time after at most \<open>p\<close> further reads, and stay in the range of the field for \<open>k\<close> reads.\<close>

definition good_clock :: "(nat \<Rightarrow> int) \<Rightarrow> nat \<Rightarrow> nat \<Rightarrow> bool" where
  "good_clock f p k \<longleftrightarrow> mono f \<and> (\<forall>i. i + p < k \<longrightarrow> f i < f (i + p)) \<and> (\<forall>i < k. in_epoch (f i))"

lemma id_wait_ends:
  assumes "good_clock (millis w) p k" "0 < millis_reads w" "millis_reads w + j \<le> k"
    and "ctx_timestamp w = ucast (word_of_int (l - baseTS) :: 41 word)" "in_epoch l"
    and "l < millis w (millis_reads w - 1 + j)" "l \<le> millis w (millis_reads w - 1)"
  shows "\<exists>r. millis_reads w \<le> r \<and> r \<le> millis_reads w + j \<and> l < millis w (r - 1) \<and>
    id_wait Some w (word_of_int (millis w (millis_reads w - 1) - baseTS)) =
      Some (w\<lparr>millis_reads := r\<rparr>, word_of_int (millis w (r - 1) - baseTS))"
  using assms
proof (induction j arbitrary: w)
  case 0
  have "in_epoch (millis w (millis_reads w - 1))" using 0(1-3) by (auto simp: good_clock_def)
  then have "(word_of_int (millis w (millis_reads w - 1) - baseTS) :: 41 word) \<noteq> word_of_int (l - baseTS)"
    using 0(5,6) epoch_word by auto
  then show ?case using 0 by (intro exI [of _ "millis_reads w"]) (simp add: id_wait.simps ucast_41_inject)
next
  case (Suc j)
  let ?r = "millis_reads w"
  have ep: "in_epoch (millis w (?r - 1))" using Suc.prems(1-3) by (auto simp: good_clock_def)
  show ?case
  proof (cases "millis w (?r - 1) = l")
    case False
    then have "(word_of_int (millis w (?r - 1) - baseTS) :: 41 word) \<noteq> word_of_int (l - baseTS)"
      using Suc.prems(5) ep epoch_word by auto
    then show ?thesis using Suc.prems False by (intro exI [of _ ?r]) (simp add: id_wait.simps ucast_41_inject)
  next
    case True
    let ?w = "w\<lparr>millis_reads := ?r + 1\<rparr>"
    have "l \<le> millis w ?r" using True Suc.prems(1) by (auto simp: good_clock_def mono_def)
    then have pre: "good_clock (millis ?w) p k" "0 < millis_reads ?w" "millis_reads ?w + j \<le> k"
      "ctx_timestamp ?w = ucast (word_of_int (l - baseTS) :: 41 word)" "l < millis ?w (millis_reads ?w - 1 + j)"
      "l \<le> millis ?w (millis_reads ?w - 1)"
      using Suc.prems by auto
    obtain r where r: "?r + 1 \<le> r" "r \<le> ?r + 1 + j" "l < millis w (r - 1)"
      "id_wait Some ?w (word_of_int (millis w ?r - baseTS)) = Some (w\<lparr>millis_reads := r\<rparr>, word_of_int (millis w (r - 1) - baseTS))"
      using Suc.IH [OF pre(1-4) Suc.prems(5) pre(5,6)] by auto
    have "id_wait Some w (word_of_int (millis w (?r - 1) - baseTS)) = id_wait Some ?w (word_of_int (millis w ?r - baseTS))"
      using True Suc.prems(4) by (subst id_wait.simps) (simp add: read_millis_def)
    then show ?thesis using r by (intro exI [of _ r]) auto
  qed
qed

text \<open>The state between two identifiers of a thread: the counter, and \<open>l\<close> the time of the last one.\<close>

definition id_state :: "id_world \<Rightarrow> int \<Rightarrow> int \<Rightarrow> bool" where
  "id_state w q l \<longleftrightarrow> ctx_sequence w = q \<and> 0 \<le> q \<and> q < 1024 \<and> in_epoch l \<and>
     ctx_timestamp w = ucast (word_of_int (l - baseTS) :: 41 word) \<and> l \<le> millis w (millis_reads w)"

lemma uint_sequence: "0 \<le> q \<Longrightarrow> q < 1024 \<Longrightarrow> uint (word_of_int q :: 10 word) = q"
  by (simp add: uint_word_of_int_eq take_bit_int_eq_self)

lemma id_make_step:
  assumes "id_state w q l" "good_clock (millis w) p k" "millis_reads w + p + 1 \<le> k"
  shows "\<exists>w' c. id_make Some w = Some (w', id_at (my_machine w) (my_thread w) q c) \<and>
    id_state w' ((q + 1) mod 1024) c \<and> l \<le> c \<and> (q = 1023 \<longrightarrow> l < c) \<and>
    millis_reads w' \<le> millis_reads w + p + 1 \<and>
    millis w' = millis w \<and> my_machine w' = my_machine w \<and> my_thread w' = my_thread w"
proof -
  let ?r = "millis_reads w"
  have st: "ctx_sequence w = q" "0 \<le> q" "q < 1024" "in_epoch l" "l \<le> millis w ?r"
    "ctx_timestamp w = ucast (word_of_int (l - baseTS) :: 41 word)"
    using assms(1) by (auto simp: id_state_def)
  have mon: "i \<le> j \<Longrightarrow> millis w i \<le> millis w j" for i j using assms(2) by (simp add: good_clock_def monoD)
  have ep: "i < k \<Longrightarrow> in_epoch (millis w i)" for i using assms(2) by (simp add: good_clock_def)
  show ?thesis
  proof (cases "q = 1023")
    case False
    let ?w = "w\<lparr>ctx_sequence := q + 1, millis_reads := ?r + 1,
      ctx_timestamp := ucast (word_of_int (millis w ?r - baseTS) :: 41 word)\<rparr>"
    have "id_make Some w = Some (?w, id_at (my_machine w) (my_thread w) q (millis w ?r))"
      using False st(1-3) by (simp add: id_make_def read_millis_def id_at_def uint_sequence)
    moreover have "id_state ?w ((q + 1) mod 1024) (millis w ?r)"
      using False st(2,3) ep [of ?r] assms(3) mon by (simp add: id_state_def)
    ultimately show ?thesis using False st(5)
      by (intro exI [of _ ?w] exI [of _ "millis w ?r"]) simp
  next
    case True
    let ?w = "w\<lparr>millis_reads := ?r + 1, ctx_sequence := 0\<rparr>"
    have "l < millis w (?r + p)"
    proof -
      have "millis w ?r < millis w (?r + p)" using assms(2,3) by (simp add: good_clock_def)
      then show ?thesis using st(5) by simp
    qed
    then obtain r where r: "?r + 1 \<le> r" "r \<le> ?r + 1 + p" "l < millis w (r - 1)"
      "id_wait Some ?w (word_of_int (millis w ?r - baseTS)) = Some (?w\<lparr>millis_reads := r\<rparr>, word_of_int (millis w (r - 1) - baseTS))"
      using id_wait_ends [of ?w p k p l] assms(2,3) st(4-6) by auto
    let ?v = "w\<lparr>ctx_sequence := 0, millis_reads := r, ctx_timestamp := ucast (word_of_int (millis w (r - 1) - baseTS) :: 41 word)\<rparr>"
    have "id_make Some w = Some (?v, id_at (my_machine w) (my_thread w) q (millis w (r - 1)))"
      using True st(1) r(4) by (simp add: id_make_def read_millis_def id_at_def uint_sequence)
    moreover have "id_state ?v ((q + 1) mod 1024) (millis w (r - 1))"
      using True r(1,2) assms(3) ep [of "r - 1"] mon by (simp add: id_state_def)
    ultimately show ?thesis using r(2,3)
      by (intro exI [of _ ?v] exI [of _ "millis w (r - 1)"]) simp
  qed
qed

section \<open>Many identifiers\<close>

text \<open>One identifier after the other, with nothing in between that makes another.\<close>

fun id_run :: "nat \<Rightarrow> id_world \<Rightarrow> (id_world \<times> 64 word list) option" where
  "id_run 0 w = Some (w, [])"
| "id_run (Suc n) w = do { (w, i) \<leftarrow> id_make Some w; (w, is) \<leftarrow> id_run n w; Some (w, i # is) }"

lemma id_run_pairs:
  assumes "id_state w q l" "good_clock (millis w) p k" "millis_reads w + n * (p + 1) \<le> k"
  shows "\<exists>w' ps. id_run n w = Some (w', map (\<lambda>(q, c). id_at (my_machine w) (my_thread w) q c) ps) \<and> length ps = n \<and>
    (\<forall>j < n. fst (ps ! j) = (q + int j) mod 1024 \<and> in_epoch (snd (ps ! j)) \<and> l \<le> snd (ps ! j) \<and>
       (1023 \<le> q + int j \<longrightarrow> l < snd (ps ! j))) \<and>
    (\<forall>i j. i < j \<longrightarrow> j < n \<longrightarrow> fst (ps ! i) = fst (ps ! j) \<longrightarrow> snd (ps ! i) < snd (ps ! j))"
  using assms
proof (induction n arbitrary: w q l)
  case (Suc n)
  obtain w1 c where s: "id_make Some w = Some (w1, id_at (my_machine w) (my_thread w) q c)"
    "id_state w1 ((q + 1) mod 1024) c" "l \<le> c" "q = 1023 \<longrightarrow> l < c" "millis_reads w1 \<le> millis_reads w + p + 1"
    "millis w1 = millis w" "my_machine w1 = my_machine w" "my_thread w1 = my_thread w"
    using id_make_step [OF Suc.prems(1,2)] Suc.prems(3) by auto
  have "good_clock (millis w1) p k" "millis_reads w1 + n * (p + 1) \<le> k" using s(5,6) Suc.prems(2,3) by simp_all
  from Suc.IH [OF s(2) this] obtain w' ps where r:
    "id_run n w1 = Some (w', map (\<lambda>(q, c). id_at (my_machine w) (my_thread w) q c) ps)" "length ps = n"
    "\<forall>j < n. fst (ps ! j) = ((q + 1) mod 1024 + int j) mod 1024 \<and> in_epoch (snd (ps ! j)) \<and> c \<le> snd (ps ! j) \<and>
       (1023 \<le> (q + 1) mod 1024 + int j \<longrightarrow> c < snd (ps ! j))"
    "\<forall>i j. i < j \<longrightarrow> j < n \<longrightarrow> fst (ps ! i) = fst (ps ! j) \<longrightarrow> snd (ps ! i) < snd (ps ! j)"
    unfolding s(7,8) by blast
  have q: "0 \<le> q" "q < 1024" using Suc.prems(1) by (auto simp: id_state_def)
  have q1: "(q + 1) mod 1024 = (if q = 1023 then 0 else q + 1)" using q by auto
  let ?ps = "(q, c) # ps"
  have "fst (?ps ! j) = (q + int j) mod 1024 \<and> in_epoch (snd (?ps ! j)) \<and> l \<le> snd (?ps ! j) \<and>
       (1023 \<le> q + int j \<longrightarrow> l < snd (?ps ! j))" if "j < Suc n" for j
  proof (cases j)
    case 0
    then show ?thesis using s(2-4) q by (auto simp: id_state_def)
  next
    case (Suc i)
    have i: "i < n" using that Suc by simp
    have m: "((q + 1) mod 1024 + int i) mod 1024 = (q + int j) mod 1024" unfolding mod_add_left_eq using Suc by (simp add: ac_simps)
    have "1023 \<le> q + int j \<Longrightarrow> l < snd (ps ! i)"
    proof -
      assume a: "1023 \<le> q + int j"
      show ?thesis
      proof (cases "q = 1023")
        case True
        then show ?thesis using s(4) r(3) i by force
      next
        case False
        then have "1023 \<le> (q + 1) mod 1024 + int i" using a Suc q1 by simp
        then show ?thesis using r(3) i s(3) by force
      qed
    qed
    then show ?thesis using r(3) i m s(3) Suc by force
  qed
  moreover have "snd (?ps ! i) < snd (?ps ! j)" if ij: "i < j" "j < Suc n" "fst (?ps ! i) = fst (?ps ! j)" for i j
  proof -
    obtain j' where j': "j = Suc j'" "j' < n" using ij(1,2) by (cases j) auto
    show ?thesis
    proof (cases i)
      case 0
      then have "q = ((q + 1) mod 1024 + int j') mod 1024" using ij(3) j' r(3) by auto
      then have "1023 \<le> (q + 1) mod 1024 + int j'" using q q1
        by (cases "(q + 1) mod 1024 + int j' < 1024") (auto split: if_splits)
      then show ?thesis using r(3) j' 0 by simp
    next
      case (Suc i')
      then show ?thesis using r(4) ij j' by simp
    qed
  qed
  moreover have "id_run (Suc n) w = Some (w', map (\<lambda>(q, c). id_at (my_machine w) (my_thread w) q c) ?ps)"
    using s(1) r(1) by simp
  ultimately show ?case using r(2) by (intro exI [of _ w'] exI [of _ ?ps]) simp
qed auto

text \<open>
  C34.  A thread that makes identifiers one after the other, with a clock that does not go back and moves on after at most
  \<open>p\<close> readings, gets them all, and no two of them are equal, however many fall into the same millisecond.
\<close>

theorem id_run_distinct:
  assumes "good_clock (millis w) p k" and "millis_reads w + n * (p + 1) \<le> k"
    and "ctx_sequence w = 0" and "ctx_timestamp w = 0" and "baseTS \<le> millis w (millis_reads w)"
  shows "\<exists>w' ids. id_run n w = Some (w', ids) \<and> length ids = n \<and> distinct ids"
proof -
  have "id_state w 0 baseTS" using assms(3-5) by (simp add: id_state_def in_epoch_def)
  from id_run_pairs [OF this assms(1,2)] obtain w' ps where r:
    "id_run n w = Some (w', map (\<lambda>(q, c). id_at (my_machine w) (my_thread w) q c) ps)" "length ps = n"
    "\<forall>j < n. fst (ps ! j) = int j mod 1024 \<and> in_epoch (snd (ps ! j))"
    "\<forall>i j. i < j \<longrightarrow> j < n \<longrightarrow> fst (ps ! i) = fst (ps ! j) \<longrightarrow> snd (ps ! i) < snd (ps ! j)"
    by auto
  let ?f = "\<lambda>(q, c). id_at (my_machine w) (my_thread w) q c"
  have ne: "?f (ps ! i) \<noteq> ?f (ps ! j)" if ij: "i < j" "j < n" for i j
  proof -
    obtain q c q' c' where e: "ps ! i = (q, c)" "ps ! j = (q', c')" by fastforce
    have "0 \<le> q" "q < 1024" "0 \<le> q'" "q' < 1024" "in_epoch c" "in_epoch c'"
      using r(3) [rule_format, of i] r(3) [rule_format, of j] ij e by auto
    moreover have "q = q' \<longrightarrow> c < c'" using r(4) ij e by fastforce
    ultimately show ?thesis using e id_at_inject by auto
  qed
  have "distinct (map ?f ps)" unfolding distinct_conv_nth
  proof (intro allI impI)
    fix i j assume a: "i < length (map ?f ps)" "j < length (map ?f ps)" "i \<noteq> j"
    then show "map ?f ps ! i \<noteq> map ?f ps ! j" using ne [of i j] ne [of j i] r(2) by (cases "i < j") auto
  qed
  then show ?thesis using r(1,2) by auto
qed

definition tick_world :: id_world where
  "tick_world = \<lparr>ctx_sequence = 0, ctx_timestamp = 0, millis = (\<lambda>i. baseTS + 5 + int i), millis_reads = 0, my_machine = 3, my_thread = 2\<rparr>"

lemma id_run_distinct_witness: "\<exists>w ids. id_run 3000 tick_world = Some (w, ids) \<and> length ids = 3000 \<and> distinct ids"
proof -
  have "good_clock (millis tick_world) 1 6000"
    by (auto simp: good_clock_def tick_world_def mono_def in_epoch_def)
  from id_run_distinct [OF this, of 3000] show ?thesis by (simp add: tick_world_def)
qed

section \<open>What is not promised\<close>

text \<open>
  The counter is back at zero as soon as a call begins to wait, so another coroutine that makes an identifier while it sleeps, in
  the millisecond that is used up, gets the number that the first identifier of that millisecond had.
\<close>

lemma id_next_zero:
  "ctx_sequence w = 0 \<Longrightarrow> \<exists>w'. id_make others w = Some (w', id_at (my_machine w) (my_thread w) 0 (millis w (millis_reads w)))"
  by (simp add: id_make_def read_millis_def id_at_def)

lemma id_repeats_while_waiting:
  assumes "ctx_sequence w = 1023" "millis w (millis_reads w) = c" "millis w (millis_reads w + 1) = c"
    and "ctx_timestamp w = ucast (word_of_int (c - baseTS) :: 41 word)"
    and "\<And>v. others v = (if v = w\<lparr>millis_reads := millis_reads w + 1, ctx_sequence := 0\<rparr> then None else Some v)"
  shows "id_make others w = None"
    and "\<exists>v. id_make Some (w\<lparr>millis_reads := millis_reads w + 1, ctx_sequence := 0\<rparr>) =
      Some (v, id_at (my_machine w) (my_thread w) 0 c)"
proof -
  show "id_make others w = None"
    using assms by (simp add: id_make_def read_millis_def id_wait.simps uint_sequence)
  show "\<exists>v. id_make Some (w\<lparr>millis_reads := millis_reads w + 1, ctx_sequence := 0\<rparr>) =
      Some (v, id_at (my_machine w) (my_thread w) 0 c)"
    using id_next_zero [of "w\<lparr>millis_reads := millis_reads w + 1, ctx_sequence := 0\<rparr>"] assms(3) by simp
qed

text \<open>Within a millisecond the number with the counter 1023 is the largest, and the one after it may be the smallest.\<close>

lemma id_not_monotone: "id_at m t 0 c < id_at m t 1023 c"
proof -
  have "id_at m t 1023 c = id_at m t 0 c OR 1023"
    by (rule bit_word_eqI) (auto simp: id_at_def id_u64_def bit_simps)
  moreover have "id_at m t 0 c \<noteq> id_at m t 1023 c" by (simp add: id_at_def id_u64_inject)
  ultimately show ?thesis by (metis le_word_or2 word_le_less_eq)
qed

end
