(* ===== verification/Dpaco.thy ===== *)
theory Dpaco
  imports Dp_Prelude
begin

text \<open>
  The stackful coroutines of \<^verbatim>\<open>dpaco.c\<close>: one environment per thread, coroutine blocks on a heap
  (a map from addresses; \<open>None\<close> is free memory), the list of released blocks, and the operations
  create, resume, yield, release and wrap.

  The switch of contexts is modelled by what it does to control.  A saved context is the point at
  which the stack stopped: at the entry of \<open>_mainfunc\<close>, inside a resume (plain, or the one of
  \<open>dpaco_wrap\<close>) or inside a yield.  \<open>land\<close> continues a stack at its point until the library gives
  control back to the code of that stack, which sees an \<open>aevent\<close>: its function is entered with an
  argument, or its call returns.  What the functions of the coroutines do is the sequence of calls
  they make; the code of a coroutine is a number.
\<close>

section \<open>The blocks and the environment\<close>

datatype dpaco_status = DPACO_CREATED | DPACO_RUNNING | DPACO_SUSPEND | DPACO_DEAD

datatype copoint = No_ctx | At_entry nat | In_resume nat | In_wrap nat | In_yield

type_synonym dpv64 = "64 word"

abbreviation (input) DPV64_NULL :: dpv64 where "DPV64_NULL \<equiv> 0"

text \<open>\<open>lnk\<close> is the union of \<open>next\<close> and \<open>prev\<close>.\<close>

record dpaco =
  ctx :: copoint
  func :: "nat option"
  msg :: dpv64
  lnk :: "nat option"
  costatus :: dpaco_status
  delater :: bool
  cosize :: int

record aco_thenv =
  comain :: "nat option"
  cocurr :: "nat option"
  recycle :: "nat option"
  recycle_count :: int
  costack_size :: int
  coheap :: "nat \<Rightarrow> dpaco option"

datatype aevent = Enter nat dpv64 | Ret dpv64 | Handle "nat option" | Done

definition aco_zero :: aco_thenv where
  "aco_zero = \<lparr>comain = None, cocurr = None, recycle = None, recycle_count = 0, costack_size = 0,
     coheap = Map.empty\<rparr>"

definition co_calloc :: "int \<Rightarrow> dpaco" where
  "co_calloc sz = \<lparr>ctx = No_ctx, func = None, msg = 0, lnk = None, costatus = DPACO_CREATED,
     delater = False, cosize = sz\<rparr>"

definition co_upd :: "nat \<Rightarrow> (dpaco \<Rightarrow> dpaco) \<Rightarrow> aco_thenv \<Rightarrow> aco_thenv option" where
  "co_upd a f e = (case coheap e a of
     None \<Rightarrow> None
   | Some c \<Rightarrow> Some (e\<lparr>coheap := (coheap e)(a \<mapsto> f c)\<rparr>))"

definition co_free :: "nat \<Rightarrow> aco_thenv \<Rightarrow> aco_thenv option" where
  "co_free a e = (case coheap e a of
     None \<Rightarrow> None
   | Some c \<Rightarrow> Some (e\<lparr>coheap := (coheap e)(a := None)\<rparr>))"

section \<open>Start and end of a thread\<close>

text \<open>\<open>new\<close> is what \<open>calloc\<close> returns.\<close>

definition dpaco_thinit :: "int \<Rightarrow> nat option \<Rightarrow> aco_thenv \<Rightarrow> bool \<times> aco_thenv" where
  "dpaco_thinit sz new e =
     (if comain e \<noteq> None then (False, e)
      else case new of
        None \<Rightarrow> (False, e)
      | Some m \<Rightarrow>
          (True, e\<lparr>comain := Some m, cocurr := Some m, recycle := None, recycle_count := 0,
             costack_size := (if sz > 0 then if sz < 1024 then 1024 else sz else 128 * 1024),
             coheap := (coheap e)(m \<mapsto> (co_calloc 0)\<lparr>costatus := DPACO_RUNNING\<rparr>)\<rparr>))"

partial_function (option) free_recycled :: "aco_thenv \<Rightarrow> aco_thenv option" where
  "free_recycled e =
     (case recycle e of
        None \<Rightarrow> Some e
      | Some a \<Rightarrow> do {
          c \<leftarrow> coheap e a;
          e1 \<leftarrow> co_free a (e\<lparr>recycle := lnk c\<rparr>);
          free_recycled e1 })"

definition dpaco_thfree :: "aco_thenv \<Rightarrow> aco_thenv option" where
  "dpaco_thfree e = do {
     e1 \<leftarrow> (case comain e of None \<Rightarrow> Some e | Some m \<Rightarrow> co_free m e);
     e2 \<leftarrow> free_recycled e1;
     Some (aco_zero\<lparr>coheap := coheap e2\<rparr>) }"

section \<open>Creation\<close>

text \<open>
  Where \<open>cocontext_init\<close> puts the entry address (amd64): the last word of the stack, rounded down
  to 16.  The stack begins at offset 136 of a block, which \<open>malloc\<close> aligns to 16; a place outside
  the stack is a write into the header of the block.
\<close>

definition CO_STACK :: int where "CO_STACK = 136"

definition cocontext_sp :: "int \<Rightarrow> int" where
  "cocontext_sp sz = (CO_STACK + sz - 8) div 16 * 16"

definition cocontext_init :: "nat \<Rightarrow> aco_thenv \<Rightarrow> aco_thenv option" where
  "cocontext_init a e = do {
     c \<leftarrow> coheap e a;
     guard (CO_STACK \<le> cocontext_sp (cosize c) \<and>
            cocontext_sp (cosize c) + 8 \<le> CO_STACK + cosize c);
     co_upd a (ctx_update (\<lambda>_. At_entry a)) e }"

text \<open>A block from the recycle list, or a new one; \<open>new\<close> is what \<open>calloc\<close> returns.\<close>

definition co_take :: "int \<Rightarrow> nat option \<Rightarrow> aco_thenv \<Rightarrow> (nat option \<times> aco_thenv) option" where
  "co_take sz new e =
     (case recycle e of
        Some a \<Rightarrow> do {
          c \<leftarrow> coheap e a;
          Some (Some a, e\<lparr>recycle := lnk c, recycle_count := recycle_count e - 1\<rparr>) }
      | None \<Rightarrow>
          (case new of
             None \<Rightarrow> Some (None, e)
           | Some a \<Rightarrow> Some (Some a, e\<lparr>coheap := (coheap e)(a \<mapsto> co_calloc sz)\<rparr>)))"

text \<open>\<open>moved\<close> is what \<open>realloc\<close> returns; when it fails the block keeps its size.\<close>

definition co_resize :: "nat \<Rightarrow> int \<Rightarrow> nat option \<Rightarrow> aco_thenv \<Rightarrow> (nat \<times> aco_thenv) option" where
  "co_resize a sz moved e = do {
     c \<leftarrow> coheap e a;
     if cosize c \<noteq> sz then
       (case moved of
          None \<Rightarrow> Some (a, e)
        | Some b \<Rightarrow>
            Some (b, e\<lparr>coheap := ((coheap e)(a := None))(b \<mapsto> c\<lparr>cosize := sz\<rparr>)\<rparr>))
     else Some (a, e) }"

definition dpaco_create ::
    "nat option \<Rightarrow> int \<Rightarrow> nat option \<Rightarrow> nat option \<Rightarrow> aco_thenv
     \<Rightarrow> (nat option \<times> aco_thenv) option" where
  "dpaco_create fn stack_size new moved e =
     (case fn of
        None \<Rightarrow> Some (None, e)
      | Some f \<Rightarrow> do {
          let sz = (if stack_size \<le> 0 then costack_size e else stack_size);
          (co, e1) \<leftarrow> co_take sz new e;
          (case co of
             None \<Rightarrow> Some (None, e1)
           | Some a \<Rightarrow> do {
               e2 \<leftarrow> co_upd a (\<lambda>c. c\<lparr>func := Some f, costatus := DPACO_CREATED, lnk := None,
                        delater := False\<rparr>) e1;
               (b, e3) \<leftarrow> co_resize a sz moved e2;
               e4 \<leftarrow> cocontext_init b e3;
               Some (Some b, e4) }) })"

section \<open>Release\<close>

definition dpaco_delater :: "nat option \<Rightarrow> aco_thenv \<Rightarrow> aco_thenv option" where
  "dpaco_delater co e =
     (case co of
        None \<Rightarrow> Some e
      | Some a \<Rightarrow> do {
          c \<leftarrow> coheap e a;
          if costatus c = DPACO_CREATED \<or> costatus c = DPACO_DEAD then
            (if recycle_count e < 1024 then do {
               e1 \<leftarrow> co_upd a (\<lambda>c. c\<lparr>func := None, msg := 0, delater := False,
                        lnk := recycle e\<rparr>) e;
               Some (e1\<lparr>recycle := Some a, recycle_count := recycle_count e + 1\<rparr>) }
             else co_free a e)
          else co_upd a (delater_update (\<lambda>_. True)) e })"

section \<open>Control\<close>

definition curr_msg :: "aco_thenv \<Rightarrow> dpv64 option" where
  "curr_msg e = do { a \<leftarrow> cocurr e; c \<leftarrow> coheap e a; Some (msg c) }"

text \<open>The end of \<open>dpaco_resume(co)\<close>, after the switch came back.\<close>

definition after_resume :: "nat \<Rightarrow> aco_thenv \<Rightarrow> (dpv64 \<times> aco_thenv) option" where
  "after_resume co e = do {
     c \<leftarrow> coheap e co;
     e1 \<leftarrow> (if costatus c = DPACO_DEAD \<and> delater c then dpaco_delater (Some co) e else Some e);
     v \<leftarrow> curr_msg e1;
     Some (v, e1) }"

text \<open>The end of \<open>dpaco_wrap\<close>: the released value is the one resume returned.\<close>

definition after_wrap :: "nat \<Rightarrow> aco_thenv \<Rightarrow> (dpv64 \<times> aco_thenv) option" where
  "after_wrap co e = do {
     (v, e1) \<leftarrow> after_resume co e;
     e2 \<leftarrow> dpaco_delater (Some co) e1;
     Some (v, e2) }"

definition land :: "nat \<Rightarrow> aco_thenv \<Rightarrow> (aevent \<times> aco_thenv) option" where
  "land a e = do {
     c \<leftarrow> coheap e a;
     (case ctx c of
        No_ctx \<Rightarrow> None
      | At_entry b \<Rightarrow> do {
          d \<leftarrow> coheap e b;
          f \<leftarrow> func d;
          Some (Enter f (msg d), e) }
      | In_resume b \<Rightarrow> do { (v, e1) \<leftarrow> after_resume b e; Some (Ret v, e1) }
      | In_wrap b \<Rightarrow> do { (v, e1) \<leftarrow> after_wrap b e; Some (Ret v, e1) }
      | In_yield \<Rightarrow> do { v \<leftarrow> curr_msg e; Some (Ret v, e) }) }"

definition cocontext_swap :: "nat \<Rightarrow> copoint \<Rightarrow> nat \<Rightarrow> aco_thenv \<Rightarrow> (aevent \<times> aco_thenv) option" where
  "cocontext_swap self k nxt e = do { e1 \<leftarrow> co_upd self (ctx_update (\<lambda>_. k)) e; land nxt e1 }"

text \<open>\<open>k\<close> says whose resume it is: a plain one or that of a wrap.\<close>

definition resume_at ::
    "copoint \<Rightarrow> nat \<Rightarrow> dpv64 \<Rightarrow> aco_thenv \<Rightarrow> (aevent \<times> aco_thenv) option" where
  "resume_at k co v e = do {
     c \<leftarrow> coheap e co;
     if costatus c = DPACO_CREATED \<or> costatus c = DPACO_SUSPEND then do {
       self \<leftarrow> cocurr e;
       e1 \<leftarrow> co_upd co (\<lambda>c. c\<lparr>lnk := Some self, msg := v, costatus := DPACO_RUNNING\<rparr>) e;
       e2 \<leftarrow> co_upd self (costatus_update (\<lambda>_. DPACO_SUSPEND)) e1;
       cocontext_swap self k co (e2\<lparr>cocurr := Some co\<rparr>) }
     else Some (Ret DPV64_NULL, e) }"

definition dpaco_resume :: "nat option \<Rightarrow> dpv64 \<Rightarrow> aco_thenv \<Rightarrow> (aevent \<times> aco_thenv) option" where
  "dpaco_resume co v e =
     (case co of
        None \<Rightarrow> Some (Ret DPV64_NULL, e)
      | Some a \<Rightarrow> resume_at (In_resume a) a v e)"

definition dpaco_yield :: "dpv64 \<Rightarrow> aco_thenv \<Rightarrow> (aevent \<times> aco_thenv) option" where
  "dpaco_yield v e = do {
     self \<leftarrow> cocurr e;
     c \<leftarrow> coheap e self;
     (case lnk c of
        None \<Rightarrow> Some (Ret DPV64_NULL, e)
      | Some prev \<Rightarrow> do {
          e1 \<leftarrow> (if costatus c \<noteq> DPACO_DEAD
                  then co_upd self (costatus_update (\<lambda>_. DPACO_SUSPEND)) e else Some e);
          e2 \<leftarrow> co_upd prev (\<lambda>p. p\<lparr>costatus := DPACO_RUNNING, msg := v\<rparr>) e1;
          cocontext_swap self In_yield prev (e2\<lparr>cocurr := Some prev\<rparr>) }) }"

text \<open>
  The function of the running coroutine returns \<open>res\<close> to \<open>_mainfunc\<close>.  When its yield comes back
  at once the routine runs off its end, into no caller.
\<close>

definition mainfunc_end :: "dpv64 \<Rightarrow> aco_thenv \<Rightarrow> (aevent \<times> aco_thenv) option" where
  "mainfunc_end res e = do {
     co \<leftarrow> cocurr e;
     e1 \<leftarrow> co_upd co (costatus_update (\<lambda>_. DPACO_DEAD)) e;
     c \<leftarrow> coheap e1 co;
     guard (lnk c \<noteq> None);
     dpaco_yield res e1 }"

definition dpaco_status_of :: "nat \<Rightarrow> aco_thenv \<Rightarrow> dpaco_status option" where
  "dpaco_status_of a e = map_option costatus (coheap e a)"

definition dpaco_running :: "aco_thenv \<Rightarrow> nat option" where
  "dpaco_running e = cocurr e"

text \<open>The block is fresh from \<open>dpaco_create\<close>, so its resume always switches.\<close>

definition dpaco_wrap ::
    "nat option \<Rightarrow> dpv64 \<Rightarrow> int \<Rightarrow> nat option \<Rightarrow> nat option \<Rightarrow> aco_thenv
     \<Rightarrow> (aevent \<times> aco_thenv) option" where
  "dpaco_wrap fn v stack_size new moved e = do {
     (co, e1) \<leftarrow> dpaco_create fn stack_size new moved e;
     (case co of
        None \<Rightarrow> Some (Ret DPV64_NULL, e1)
      | Some a \<Rightarrow> resume_at (In_wrap a) a v e1) }"

section \<open>The calls of the running coroutine\<close>

datatype acall =
    ACreate "nat option" int "nat option" "nat option"
  | AResume "nat option" dpv64
  | AYield dpv64
  | AFinish dpv64
  | ADelater "nat option"
  | AWrap "nat option" dpv64 int "nat option" "nat option"

fun aco_call :: "acall \<Rightarrow> aco_thenv \<Rightarrow> (aevent \<times> aco_thenv) option" where
  "aco_call (ACreate f sz new moved) e =
     do { (h, e1) \<leftarrow> dpaco_create f sz new moved e; Some (Handle h, e1) }"
| "aco_call (AResume co v) e = dpaco_resume co v e"
| "aco_call (AYield v) e = dpaco_yield v e"
| "aco_call (AFinish v) e = mainfunc_end v e"
| "aco_call (ADelater co) e = do { e1 \<leftarrow> dpaco_delater co e; Some (Done, e1) }"
| "aco_call (AWrap f v sz new moved) e = dpaco_wrap f v sz new moved e"

fun aco_calls :: "acall list \<Rightarrow> aco_thenv \<Rightarrow> (aevent list \<times> aco_thenv) option" where
  "aco_calls [] e = Some ([], e)"
| "aco_calls (x # xs) e = do {
     (v, e1) \<leftarrow> aco_call x e;
     (vs, e2) \<leftarrow> aco_calls xs e1;
     Some (v # vs, e2) }"

end
