(* ===== verification/Dpaco_Inv.thy ===== *)
theory Dpaco_Inv
  imports Dpaco
begin

text \<open>
  The invariant of the coroutines of a thread: the running coroutine and the ones waiting in a
  resume form a chain of \<open>prev\<close> links that ends in the main stack, the released blocks form a list
  of \<open>next\<close> links of the counted length, and every other block is idle (created, suspended in a
  yield, or dead).  \<open>allowed\<close> is what the code of the coroutines must respect for it to be kept.
\<close>

section \<open>Linked blocks\<close>

primrec links :: "(nat \<Rightarrow> dpaco option) \<Rightarrow> nat option \<Rightarrow> nat list \<Rightarrow> bool" where
  "links h p [] \<longleftrightarrow> p = None"
| "links h p (a # as) \<longleftrightarrow> p = Some a \<and> (\<exists>c. h a = Some c \<and> links h (lnk c) as)"

lemma links_None [simp]: "links h None as \<longleftrightarrow> as = []"
  by (cases as) simp_all

lemma links_Some: "links h (Some a) as \<longleftrightarrow> (\<exists>c bs. as = a # bs \<and> h a = Some c \<and> links h (lnk c) bs)"
  by (cases as) auto

lemma links_notin [simp]: "a \<notin> set as \<Longrightarrow> links (h(a := y)) p as \<longleftrightarrow> links h p as"
  by (induction as arbitrary: p) auto

lemma links_same:
  "h a = Some c \<Longrightarrow> lnk c' = lnk c \<Longrightarrow> links (h(a \<mapsto> c')) p as \<longleftrightarrow> links h p as"
  by (induction as arbitrary: p) auto

lemma links_unique: "links h p as \<Longrightarrow> links h p bs \<Longrightarrow> as = bs"
proof (induction as arbitrary: p bs)
  case Nil
  then show ?case by (cases bs) auto
next
  case (Cons a as)
  then show ?case by (cases bs) auto
qed

lemma links_split: "links h p (as @ b # bs) \<Longrightarrow> links h (Some b) (b # bs)"
  by (induction as arbitrary: p) auto

lemma links_distinct: "links h p as \<Longrightarrow> distinct as"
proof (induction as arbitrary: p)
  case (Cons a as)
  have "a \<notin> set as"
  proof
    assume "a \<in> set as"
    then obtain xs ys where as: "as = xs @ a # ys" by (auto dest: split_list)
    have "links h (Some a) (a # ys)" "links h (Some a) (a # as)"
      using Cons.prems links_split [of h p "a # xs" a ys] as by auto
    then have "a # ys = a # as" by (rule links_unique)
    then show False using as by simp
  qed
  then show ?case using Cons by auto
qed simp

lemma links_dom: "links h p as \<Longrightarrow> a \<in> set as \<Longrightarrow> \<exists>c. h a = Some c"
  by (induction as arbitrary: p) auto

section \<open>The invariant\<close>

text \<open>Each coroutine of the chain runs inside a resume of the next one.\<close>

fun waits :: "(nat \<Rightarrow> dpaco option) \<Rightarrow> nat list \<Rightarrow> bool" where
  "waits h (a # b # cs) \<longleftrightarrow>
     (\<exists>c d. h a = Some c \<and> h b = Some d \<and>
        (ctx d = In_resume a \<or> ctx d = In_wrap a \<and> \<not> delater c)) \<and> waits h (b # cs)"
| "waits h _ \<longleftrightarrow> True"

definition released :: "dpaco \<Rightarrow> bool" where
  "released c \<longleftrightarrow>
     (costatus c = DPACO_CREATED \<or> costatus c = DPACO_DEAD) \<and> func c = None \<and> 16 \<le> cosize c"

definition idle :: "nat \<Rightarrow> dpaco \<Rightarrow> bool" where
  "idle a c \<longleftrightarrow> func c \<noteq> None \<and> 16 \<le> cosize c \<and>
     (costatus c = DPACO_CREATED \<and> ctx c = At_entry a \<or>
      costatus c = DPACO_SUSPEND \<and> ctx c = In_yield \<or> costatus c = DPACO_DEAD)"

definition on_chain :: "nat list \<Rightarrow> nat \<Rightarrow> dpaco \<Rightarrow> bool" where
  "on_chain cs a c \<longleftrightarrow>
     costatus c = (if a = hd cs then DPACO_RUNNING else DPACO_SUSPEND) \<and>
     (a \<noteq> last cs \<longrightarrow> func c \<noteq> None \<and> 16 \<le> cosize c)"

definition aco_inv :: "nat list \<Rightarrow> nat list \<Rightarrow> aco_thenv \<Rightarrow> bool" where
  "aco_inv cs rs e \<longleftrightarrow>
     cs \<noteq> [] \<and> set cs \<inter> set rs = {} \<and> comain e = Some (last cs) \<and> links (coheap e) (cocurr e) cs \<and>
     waits (coheap e) cs \<and> links (coheap e) (recycle e) rs \<and>
     recycle_count e = int (length rs) \<and> length rs \<le> 1024 \<and> 16 \<le> costack_size e \<and>
     (\<forall>a c. coheap e a = Some c \<longrightarrow>
        (if a \<in> set cs then on_chain cs a c
         else if a \<in> set rs then released c else idle a c))"

lemma aco_invI:
  assumes "cs \<noteq> []" "set cs \<inter> set rs = {}" "comain e = Some (last cs)" "links (coheap e) (cocurr e) cs"
    and "waits (coheap e) cs" "links (coheap e) (recycle e) rs"
    and "recycle_count e = int (length rs)" "length rs \<le> 1024" "16 \<le> costack_size e"
    and "\<And>a c. coheap e a = Some c \<Longrightarrow> a \<in> set cs \<Longrightarrow> on_chain cs a c"
    and "\<And>a c. coheap e a = Some c \<Longrightarrow> a \<in> set rs \<Longrightarrow> released c"
    and "\<And>a c. coheap e a = Some c \<Longrightarrow> a \<notin> set cs \<Longrightarrow> a \<notin> set rs \<Longrightarrow> idle a c"
  shows "aco_inv cs rs e"
  using assms unfolding aco_inv_def by auto

lemma aco_invD:
  assumes "aco_inv cs rs e"
  shows "cs \<noteq> []" "set cs \<inter> set rs = {}" "comain e = Some (last cs)" "links (coheap e) (cocurr e) cs"
    "waits (coheap e) cs" "links (coheap e) (recycle e) rs"
    "recycle_count e = int (length rs)" "length rs \<le> 1024" "16 \<le> costack_size e"
    "\<And>a c. coheap e a = Some c \<Longrightarrow> a \<in> set cs \<Longrightarrow> on_chain cs a c"
    "\<And>a c. coheap e a = Some c \<Longrightarrow> a \<in> set rs \<Longrightarrow> released c"
    "\<And>a c. coheap e a = Some c \<Longrightarrow> a \<notin> set cs \<Longrightarrow> a \<notin> set rs \<Longrightarrow> idle a c"
  using assms unfolding aco_inv_def by (auto split: if_splits)

lemma aco_inv_distinct:
  assumes "aco_inv cs rs e" shows "distinct cs" "distinct rs"
  using aco_invD(4,6) [OF assms] links_distinct by blast+

lemma aco_inv_curr:
  assumes "aco_inv cs rs e"
  obtains b bs d where "cs = b # bs" "b \<notin> set bs" "cocurr e = Some b" "coheap e b = Some d"
    "costatus d = DPACO_RUNNING" "links (coheap e) (lnk d) bs" "b \<notin> set rs"
proof -
  note i = aco_invD [OF assms]
  obtain b bs where cs: "cs = b # bs" using i(1) by (cases cs) auto
  then obtain d where d: "cocurr e = Some b" "coheap e b = Some d" "links (coheap e) (lnk d) bs"
    using i(4) by auto
  then have "costatus d = DPACO_RUNNING" using i(10) [of b d] cs by (auto simp: on_chain_def)
  then show ?thesis using that cs d i(2) aco_inv_distinct(1) [OF assms] by auto
qed

lemma aco_inv_live:
  "aco_inv cs rs e \<Longrightarrow> coheap e a = Some c \<Longrightarrow> func c \<noteq> None \<Longrightarrow> a \<notin> set rs"
  using aco_invD(11) by (auto simp: released_def)

lemma waits_not_yield:
  "waits h cs \<Longrightarrow> a \<in> set (tl cs) \<Longrightarrow> h a = Some c \<Longrightarrow> ctx c \<noteq> In_yield"
proof (induction cs)
  case (Cons x xs)
  then show ?case by (cases xs) auto
qed simp

lemma aco_inv_idle:
  assumes "aco_inv cs rs e" "coheap e a = Some c" "func c \<noteq> None"
    and "costatus c \<noteq> DPACO_RUNNING" "costatus c = DPACO_SUSPEND \<Longrightarrow> ctx c = In_yield"
  shows "a \<notin> set cs \<and> a \<notin> set rs \<and> idle a c"
proof -
  note i = aco_invD [OF assms(1)]
  have "a \<notin> set rs" using aco_inv_live assms by blast
  moreover have "a \<notin> set cs"
  proof
    assume a: "a \<in> set cs"
    then have c: "costatus c = DPACO_SUSPEND" "a \<noteq> hd cs"
      using i(10) [OF assms(2)] assms(4) by (auto simp: on_chain_def split: if_splits)
    then have "a \<in> set (tl cs)" using a by (cases cs) auto
    then have "ctx c \<noteq> In_yield" using waits_not_yield [OF i(5) _ assms(2)] by blast
    then show False using assms(5) c by simp
  qed
  ultimately show ?thesis using i(12) [OF assms(2)] by blast
qed

section \<open>Updates\<close>

lemma waits_notin [simp]: "a \<notin> set cs \<Longrightarrow> waits (h(a := y)) cs \<longleftrightarrow> waits h cs"
  by (induction h cs rule: waits.induct) auto

lemma waits_hd:
  "b \<notin> set bs \<Longrightarrow> h b = Some d \<Longrightarrow> delater d' = delater d \<Longrightarrow>
   waits (h(b \<mapsto> d')) (b # bs) \<longleftrightarrow> waits h (b # bs)"
  by (cases bs) auto

lemma waits_tl: "waits h (a # cs) \<Longrightarrow> waits h cs"
  by (cases cs) auto

lemma waits_mark:
  assumes "waits h cs" "h a = Some c" "ctx c' = ctx c"
    and "\<And>b d. lnk c = Some b \<Longrightarrow> h b = Some d \<Longrightarrow> ctx d \<noteq> In_wrap a" "links h p cs"
  shows "waits (h(a \<mapsto> c')) cs"
  using assms(1,5)
proof (induction cs arbitrary: p)
  case (Cons x xs)
  then show ?case using assms(2-4) by (cases xs) (auto split: if_splits)
qed simp


section \<open>The steps of the chain\<close>

lemma push_inv:
  assumes I: "aco_inv cs rs e" and c: "coheap e co = Some c" "co \<notin> set cs" "co \<notin> set rs" "idle co c"
    and b: "cocurr e = Some b" "coheap e b = Some d"
    and k: "k = In_resume co \<or> k = In_wrap co \<and> \<not> delater c"
  shows "aco_inv (co # cs) rs (e\<lparr>cocurr := Some co, coheap := (coheap e)
    (co \<mapsto> c\<lparr>lnk := Some b, msg := v, costatus := DPACO_RUNNING\<rparr>,
     b \<mapsto> d\<lparr>costatus := DPACO_SUSPEND, ctx := k\<rparr>)\<rparr>)" (is "aco_inv _ _ ?e")
proof -
  obtain b' bs d' where x: "cs = b' # bs" "b' \<notin> set bs" "cocurr e = Some b'" "coheap e b' = Some d'"
    "costatus d' = DPACO_RUNNING" "links (coheap e) (lnk d') bs" "b' \<notin> set rs"
    by (rule aco_inv_curr [OF I])
  then have "b' = b" "d' = d" using b by simp_all
  note cs = x [unfolded this]
  note i = aco_invD [OF I]
  have cb: "co \<noteq> b" using c(2) cs(1) by auto
  show ?thesis
  proof (rule aco_invI)
    show "links (coheap ?e) (cocurr ?e) (co # cs)" using cb cs c i(4) by simp
    show "waits (coheap ?e) (co # cs)"
      using i(5) cs c cb k b by (auto simp: fun_upd_twist waits_hd)
    show "links (coheap ?e) (recycle ?e) rs" using i(6) cs c by simp
    show "on_chain (co # cs) a x" if "coheap ?e a = Some x" "a \<in> set (co # cs)" for a x
      using that i(10) [of a] cs c cb b i(10) [of b d]
      by (auto simp: on_chain_def idle_def split: if_splits)
    show "released x" if "coheap ?e a = Some x" "a \<in> set rs" for a x
      using that i(11) [of a x] cs c by (auto split: if_splits)
    show "idle a x" if "coheap ?e a = Some x" "a \<notin> set (co # cs)" "a \<notin> set rs" for a x
      using that i(12) [of a x] cs c by (auto split: if_splits)
  qed (use i(1-3,7-9) c cs in auto)
qed

lemma pop_inv:
  assumes I: "aco_inv (a # b # cs) rs e" and a: "coheap e a = Some c" and b: "coheap e b = Some d"
    and c': "func c' = func c" "cosize c' = cosize c"
      "costatus c' = DPACO_SUSPEND \<and> ctx c' = In_yield \<or> costatus c' = DPACO_DEAD"
  shows "aco_inv (b # cs) rs (e\<lparr>cocurr := Some b, coheap := (coheap e)
    (a \<mapsto> c', b \<mapsto> d\<lparr>costatus := DPACO_RUNNING, msg := v\<rparr>)\<rparr>)" (is "aco_inv _ _ ?e")
proof -
  note i = aco_invD [OF I]
  have ds: "a \<noteq> b" "a \<notin> set cs" "b \<notin> set cs" "a \<notin> set rs" "b \<notin> set rs"
    using aco_inv_distinct(1) [OF I] i(2) by auto
  have la: "a \<noteq> last (b # cs)" using ds by (auto simp: last_in_set)
  show ?thesis
  proof (rule aco_invI)
    show "links (coheap ?e) (cocurr ?e) (b # cs)" using i(4) ds a b by (auto simp: links_Some)
    show "waits (coheap ?e) (b # cs)"
      using waits_tl [OF i(5)] ds b by (simp add: waits_hd)
    show "links (coheap ?e) (recycle ?e) rs" using i(6) ds by simp
    show "on_chain (b # cs) x y" if "coheap ?e x = Some y" "x \<in> set (b # cs)" for x y
      using that i(10) [of x y] i(10) [OF b] ds by (auto simp: on_chain_def split: if_splits)
    show "released y" if "coheap ?e x = Some y" "x \<in> set rs" for x y
      using that i(11) [of x y] ds by (auto split: if_splits)
    show "idle x y" if "coheap ?e x = Some y" "x \<notin> set (b # cs)" "x \<notin> set rs" for x y
      using that i(12) [of x y] i(10) [OF a] c' la ds
      by (auto simp: on_chain_def idle_def split: if_splits)
  qed (use i(1-3,7-9) ds in auto)
qed

lemma mark_inv:
  assumes I: "aco_inv cs rs e" and a: "coheap e a = Some c"
    and s: "costatus c = DPACO_RUNNING \<or> costatus c = DPACO_SUSPEND"
    and w: "a \<in> set cs \<Longrightarrow> \<forall>b d. lnk c = Some b \<longrightarrow> coheap e b = Some d \<longrightarrow> ctx d \<noteq> In_wrap a"
  shows "aco_inv cs rs (e\<lparr>coheap := (coheap e)(a \<mapsto> c\<lparr>delater := True\<rparr>)\<rparr>)"
    (is "aco_inv _ _ ?e")
proof -
  note i = aco_invD [OF I]
  have r: "a \<notin> set rs" using i(11) [OF a] s by (auto simp: released_def)
  show ?thesis
  proof (rule aco_invI)
    show "waits (coheap ?e) cs"
      using i(5) waits_mark [OF i(5) a, of "c\<lparr>delater := True\<rparr>" "cocurr e"] i(4) w
      by (cases "a \<in> set cs") auto
    show "on_chain cs x y" if "coheap ?e x = Some y" "x \<in> set cs" for x y
      using that i(10) [of x y] i(10) [OF a] by (auto simp: on_chain_def split: if_splits)
    show "released y" if "coheap ?e x = Some y" "x \<in> set rs" for x y
      using that i(11) [of x y] r by (auto split: if_splits)
    show "idle x y" if "coheap ?e x = Some y" "x \<notin> set cs" "x \<notin> set rs" for x y
      using that i(12) [of x y] i(12) [OF a] by (auto simp: idle_def split: if_splits)
  qed (use i(1-9) links_same [of "coheap e" a c "c\<lparr>delater := True\<rparr>"] a in auto)
qed

lemma co_release_inv:
  assumes I: "aco_inv cs rs e" and a: "coheap e a = Some c" and f: "func c \<noteq> None"
    and s: "costatus c = DPACO_CREATED \<or> costatus c = DPACO_DEAD"
  obtains e' where "dpaco_delater (Some a) e = Some e'" "cocurr e' = cocurr e"
    "\<forall>x. x \<noteq> a \<longrightarrow> coheap e' x = coheap e x"
    "length rs < 1024 \<Longrightarrow> aco_inv cs (a # rs) e'"
    "length rs = 1024 \<Longrightarrow> aco_inv cs rs e' \<and> coheap e' a = None"
proof -
  note i = aco_invD [OF I]
  have cs: "a \<notin> set cs" using i(10) [OF a] s by (auto simp: on_chain_def split: if_splits)
  have rs: "a \<notin> set rs" using aco_inv_live [OF I a f] .
  have id: "idle a c" using i(12) [OF a cs rs] .
  show ?thesis
  proof (cases "length rs < 1024")
    case True
    let ?e = "e\<lparr>coheap := (coheap e)(a \<mapsto> c\<lparr>func := None, msg := 0, delater := False,
        lnk := recycle e\<rparr>), recycle := Some a, recycle_count := recycle_count e + 1\<rparr>"
    have "aco_inv cs (a # rs) ?e"
    proof (rule aco_invI)
      show "released y" if "coheap ?e x = Some y" "x \<in> set (a # rs)" for x y
        using that i(11) [of x y] id s by (auto simp: released_def idle_def split: if_splits)
      show "on_chain cs x y" if "coheap ?e x = Some y" "x \<in> set cs" for x y
        using that i(10) [of x y] cs by (auto split: if_splits)
      show "idle x y" if "coheap ?e x = Some y" "x \<notin> set cs" "x \<notin> set (a # rs)" for x y
        using that i(12) [of x y] by auto
    qed (use i(1-4,5-9) cs rs True in auto)
    then show ?thesis
      using that [of ?e] True a s i(7) by (simp add: dpaco_delater_def co_upd_def)
  next
    case False
    let ?e = "e\<lparr>coheap := (coheap e)(a := None)\<rparr>"
    have "aco_inv cs rs ?e"
    proof (rule aco_invI)
      show "released y" if "coheap ?e x = Some y" "x \<in> set rs" for x y
        using that i(11) [of x y] by (auto split: if_splits)
      show "on_chain cs x y" if "coheap ?e x = Some y" "x \<in> set cs" for x y
        using that i(10) [of x y] by (auto split: if_splits)
      show "idle x y" if "coheap ?e x = Some y" "x \<notin> set cs" "x \<notin> set rs" for x y
        using that i(12) [of x y] by (auto split: if_splits)
    qed (use i(1-9) cs rs in auto)
    then show ?thesis
      using that [of ?e] False a s i(7,8) by (simp add: dpaco_delater_def co_free_def)
  qed
qed

end
