(* ===== verification/Dpaco_Step.thy ===== *)
theory Dpaco_Step
  imports Dpaco_Inv
begin

text \<open>
  What the calls of a coroutine do in a state of the invariant: each is defined (no use of freed
  memory, no switch to an empty context), says which stack runs next and with which value, and
  keeps the invariant.
\<close>

section \<open>Resume\<close>

definition resumed :: "copoint \<Rightarrow> nat \<Rightarrow> dpv64 \<Rightarrow> nat \<Rightarrow> dpaco \<Rightarrow> dpaco \<Rightarrow> aco_thenv \<Rightarrow> aco_thenv" where
  "resumed k co v b c d e = e\<lparr>cocurr := Some co, coheap := (coheap e)
     (co \<mapsto> c\<lparr>lnk := Some b, msg := v, costatus := DPACO_RUNNING\<rparr>,
      b \<mapsto> d\<lparr>costatus := DPACO_SUSPEND, ctx := k\<rparr>)\<rparr>"

definition entered :: "dpaco \<Rightarrow> dpv64 \<Rightarrow> aevent" where
  "entered c v = (if costatus c = DPACO_CREATED then Enter (the (func c)) v else Ret v)"

lemma resume_at_switch:
  assumes "coheap e co = Some c" "idle co c" "costatus c \<noteq> DPACO_DEAD"
    and "cocurr e = Some b" "coheap e b = Some d" "co \<noteq> b"
  shows "resume_at k co v e = Some (entered c v, resumed k co v b c d e)"
  using assms
  by (auto simp: resume_at_def co_upd_def cocontext_swap_def land_def curr_msg_def idle_def
        entered_def resumed_def fun_upd_twist)

lemma resume_inv:
  assumes I: "aco_inv cs rs e" and c: "coheap e co = Some c" "func c \<noteq> None"
    and s: "costatus c = DPACO_CREATED \<or> costatus c = DPACO_SUSPEND \<and> ctx c = In_yield"
    and k: "k = In_resume co \<or> k = In_wrap co \<and> \<not> delater c"
  obtains b d where "cocurr e = Some b" "coheap e b = Some d" "b \<noteq> co" "hd cs = b"
    "resume_at k co v e = Some (entered c v, resumed k co v b c d e)"
    "aco_inv (co # cs) rs (resumed k co v b c d e)"
proof -
  have n: "co \<notin> set cs \<and> co \<notin> set rs \<and> idle co c"
    using aco_inv_idle [OF I c] s by auto
  obtain b bs d where b: "cs = b # bs" "cocurr e = Some b" "coheap e b = Some d"
    by (rule aco_inv_curr [OF I])
  have "aco_inv (co # cs) rs (resumed k co v b c d e)"
    using push_inv [OF I c(1) _ _ _ b(2,3) k] n by (simp add: resumed_def)
  moreover have "resume_at k co v e = Some (entered c v, resumed k co v b c d e)"
    using resume_at_switch [OF c(1) _ _ b(2,3)] n b(1) s by auto
  ultimately show ?thesis using that b n by auto
qed

section \<open>Yield and end\<close>

text \<open>What a stack sees when the coroutine it resumed gives control back.\<close>

lemma land_inv:
  assumes I: "aco_inv (b # cs) rs e" and b: "coheap e b = Some d"
    and a: "coheap e a = Some c" "func c \<noteq> None" "a \<noteq> b"
    and s: "costatus c = DPACO_SUSPEND \<and> ctx c = In_yield \<or> costatus c = DPACO_DEAD"
    and k: "ctx d = In_resume a \<or> ctx d = In_wrap a \<and> \<not> delater c"
  obtains e' rs' where "land b e = Some (Ret (msg d), e')" "aco_inv (b # cs) rs' e'"
    "cocurr e' = Some b" "\<forall>x. x \<noteq> a \<longrightarrow> coheap e' x = coheap e x"
    "costatus c = DPACO_SUSPEND \<longrightarrow>
       (\<exists>c'. coheap e' a = Some c' \<and> costatus c' = DPACO_SUSPEND \<and> ctx c' = In_yield \<and>
         func c' = func c)"
proof -
  have n: "a \<notin> set (b # cs)" "a \<notin> set rs" "idle a c"
    using aco_inv_idle [OF I a(1,2)] s by auto
  have cur: "cocurr e = Some b" using aco_invD(4) [OF I] by simp
  have v: "curr_msg e' = Some (msg d)" if "cocurr e' = cocurr e" "coheap e' b = coheap e b" for e'
    using that cur b by (simp add: curr_msg_def)
  consider (keep) "ctx d = In_resume a" "\<not> (costatus c = DPACO_DEAD \<and> delater c)"
    | (free) "ctx d = In_resume a" "costatus c = DPACO_DEAD" "delater c"
    | (wfree) "ctx d = In_wrap a" "costatus c = DPACO_DEAD" "\<not> delater c"
    | (wmark) "ctx d = In_wrap a" "costatus c = DPACO_SUSPEND" "ctx c = In_yield" "\<not> delater c"
    using k s by auto
  then show ?thesis
  proof cases
    case keep
    then have "land b e = Some (Ret (msg d), e)"
      using b a v [of e] by (auto simp: land_def after_resume_def)
    then show ?thesis using that [of e rs] I cur a s by auto
  next
    case free
    obtain e' where e': "dpaco_delater (Some a) e = Some e'" "cocurr e' = cocurr e"
      "\<forall>x. x \<noteq> a \<longrightarrow> coheap e' x = coheap e x"
      "length rs < 1024 \<Longrightarrow> aco_inv (b # cs) (a # rs) e'"
      "length rs = 1024 \<Longrightarrow> aco_inv (b # cs) rs e' \<and> coheap e' a = None"
      using free(2) by (blast intro: co_release_inv [OF I a(1,2)])
    have "land b e = Some (Ret (msg d), e')"
      using b a e'(1-3) v [of e'] free by (simp add: land_def after_resume_def)
    moreover have "\<exists>rs'. aco_inv (b # cs) rs' e'"
      using e'(4,5) aco_invD(8) [OF I] by (cases "length rs < 1024") (auto simp: not_less)
    ultimately show ?thesis using that e'(2,3) cur free by auto
  next
    case wfree
    obtain e' where e': "dpaco_delater (Some a) e = Some e'" "cocurr e' = cocurr e"
      "\<forall>x. x \<noteq> a \<longrightarrow> coheap e' x = coheap e x"
      "length rs < 1024 \<Longrightarrow> aco_inv (b # cs) (a # rs) e'"
      "length rs = 1024 \<Longrightarrow> aco_inv (b # cs) rs e' \<and> coheap e' a = None"
      using wfree(2) by (blast intro: co_release_inv [OF I a(1,2)])
    have "land b e = Some (Ret (msg d), e')"
      using b a e'(1) v [of e] wfree by (simp add: land_def after_wrap_def after_resume_def)
    moreover have "\<exists>rs'. aco_inv (b # cs) rs' e'"
      using e'(4,5) aco_invD(8) [OF I] by (cases "length rs < 1024") (auto simp: not_less)
    ultimately show ?thesis using that e'(2,3) cur wfree by auto
  next
    case wmark
    let ?e = "e\<lparr>coheap := (coheap e)(a \<mapsto> c\<lparr>delater := True\<rparr>)\<rparr>"
    have "land b e = Some (Ret (msg d), ?e)"
      using b a v [of e] wmark
      by (simp add: land_def after_wrap_def after_resume_def dpaco_delater_def co_upd_def)
    moreover have "aco_inv (b # cs) rs ?e" using mark_inv [OF I a(1)] wmark n by auto
    ultimately show ?thesis using that [of ?e rs] cur wmark by auto
  qed
qed

definition left :: "dpaco_status \<Rightarrow> nat \<Rightarrow> nat \<Rightarrow> dpv64 \<Rightarrow> dpaco \<Rightarrow> dpaco \<Rightarrow> aco_thenv \<Rightarrow> aco_thenv" where
  "left s a b v c d e = e\<lparr>cocurr := Some b, coheap := (coheap e)
     (a \<mapsto> c\<lparr>costatus := s, ctx := In_yield\<rparr>, b \<mapsto> d\<lparr>costatus := DPACO_RUNNING, msg := v\<rparr>)\<rparr>"

lemma yield_switch:
  assumes "cocurr e = Some a" "coheap e a = Some c" "lnk c = Some b" "coheap e b = Some d" "a \<noteq> b"
    and "costatus c = DPACO_RUNNING"
  shows "dpaco_yield v e = land b (left DPACO_SUSPEND a b v c d e)"
    and "mainfunc_end v e = land b (left DPACO_DEAD a b v c d e)"
  using assms
  by (simp_all add: dpaco_yield_def mainfunc_end_def co_upd_def cocontext_swap_def left_def
      fun_upd_twist)

lemma leave_inv:
  assumes I: "aco_inv (a # b # cs) rs e" and s: "s = DPACO_SUSPEND \<or> s = DPACO_DEAD"
  obtains c d e' rs' where "coheap e a = Some c" "coheap e b = Some d"
    "(if s = DPACO_DEAD then mainfunc_end v e else dpaco_yield v e) = Some (Ret v, e')"
    "aco_inv (b # cs) rs' e'" "cocurr e' = Some b"
    "\<forall>x. x \<noteq> a \<longrightarrow> x \<noteq> b \<longrightarrow> coheap e' x = coheap e x"
    "s = DPACO_SUSPEND \<longrightarrow> (\<exists>c'. coheap e' a = Some c' \<and> costatus c' = DPACO_SUSPEND \<and>
       ctx c' = In_yield \<and> func c' \<noteq> None)"
proof -
  note i = aco_invD [OF I]
  have ab: "a \<noteq> b" "a \<notin> set cs" using aco_inv_distinct(1) [OF I] by auto
  obtain c d where cd: "coheap e a = Some c" "coheap e b = Some d" "lnk c = Some b"
    "ctx d = In_resume a \<or> ctx d = In_wrap a \<and> \<not> delater c"
    using i(4,5) by auto
  have "a \<noteq> last (a # b # cs)" using ab by (auto simp: last_in_set)
  then have c: "func c \<noteq> None" "costatus c = DPACO_RUNNING" "cocurr e = Some a"
    using i(10) [OF cd(1)] i(4) by (auto simp: on_chain_def)
  have P: "aco_inv (b # cs) rs (left s a b v c d e)"
    unfolding left_def by (rule pop_inv [OF I cd(1,2)]) (use s in auto)
  obtain e' rs' where e': "land b (left s a b v c d e) = Some (Ret v, e')"
    "aco_inv (b # cs) rs' e'" "cocurr e' = Some b"
    "\<forall>x. x \<noteq> a \<longrightarrow> coheap e' x = coheap (left s a b v c d e) x"
    "s = DPACO_SUSPEND \<longrightarrow> (\<exists>c'. coheap e' a = Some c' \<and> costatus c' = DPACO_SUSPEND \<and>
       ctx c' = In_yield \<and> func c' = func c)"
    by (rule land_inv [OF P, of "d\<lparr>costatus := DPACO_RUNNING, msg := v\<rparr>" a
          "c\<lparr>costatus := s, ctx := In_yield\<rparr>"])
      (use ab cd c s in \<open>auto simp: left_def\<close>)
  have "(if s = DPACO_DEAD then mainfunc_end v e else dpaco_yield v e) = Some (Ret v, e')"
    using yield_switch [OF c(3) cd(1,3,2) ab(1) c(2)] e'(1) s by auto
  then show ?thesis using that [OF cd(1,2)] e'(2-5) c(1) by (auto simp: left_def)
qed

section \<open>Creation\<close>

lemma cocontext_sp_inside:
  "16 \<le> sz \<Longrightarrow> CO_STACK \<le> cocontext_sp sz \<and> cocontext_sp sz + 8 \<le> CO_STACK + sz"
  unfolding cocontext_sp_def CO_STACK_def by presburger

lemma cocontext_sp_outside:
  "0 < sz \<Longrightarrow> sz < 16 \<Longrightarrow> cocontext_sp sz = CO_STACK - 8"
  unfolding cocontext_sp_def CO_STACK_def by presburger

lemma add_inv:
  assumes I: "aco_inv cs rs e" and b: "coheap e b = None" "idle b c"
  shows "aco_inv cs rs (e\<lparr>coheap := (coheap e)(b \<mapsto> c)\<rparr>)" (is "aco_inv _ _ ?e")
proof -
  note i = aco_invD [OF I]
  have n: "b \<notin> set cs" "b \<notin> set rs" using links_dom [OF i(4)] links_dom [OF i(6)] b by fastforce+
  show ?thesis
  proof (rule aco_invI)
    show "on_chain cs x y" if "coheap ?e x = Some y" "x \<in> set cs" for x y
      using that i(10) [of x y] n by (auto split: if_splits)
    show "released y" if "coheap ?e x = Some y" "x \<in> set rs" for x y
      using that i(11) [of x y] n by (auto split: if_splits)
    show "idle x y" if "coheap ?e x = Some y" "x \<notin> set cs" "x \<notin> set rs" for x y
      using that i(12) [of x y] b by (auto split: if_splits)
  qed (use i(1-9) n in auto)
qed

lemma drop_inv:
  assumes I: "aco_inv cs (a # rs) e" and a: "coheap e a = Some c"
  shows "aco_inv cs rs (e\<lparr>recycle := lnk c, recycle_count := recycle_count e - 1,
    coheap := (coheap e)(a := None)\<rparr>)" (is "aco_inv _ _ ?e")
proof -
  note i = aco_invD [OF I]
  have n: "a \<notin> set cs" "a \<notin> set rs" using i(2) aco_inv_distinct(2) [OF I] by auto
  show ?thesis
  proof (rule aco_invI)
    show "on_chain cs x y" if "coheap ?e x = Some y" "x \<in> set cs" for x y
      using that i(10) [of x y] by (auto split: if_splits)
    show "released y" if "coheap ?e x = Some y" "x \<in> set rs" for x y
      using that i(11) [of x y] by (auto split: if_splits)
    show "idle x y" if "coheap ?e x = Some y" "x \<notin> set cs" "x \<notin> set rs" for x y
      using that i(12) [of x y] by (auto split: if_splits)
  qed (use i(1-9) n a in auto)
qed

definition stack_ok :: "int \<Rightarrow> bool" where
  "stack_ok sz \<longleftrightarrow> sz \<le> 0 \<or> 16 \<le> sz"

text \<open>What the allocator promises: new memory is not in use, and a moved block is new or in place.\<close>

definition alloc_ok :: "nat option \<Rightarrow> nat option \<Rightarrow> aco_thenv \<Rightarrow> bool" where
  "alloc_ok new moved e \<longleftrightarrow>
     (case new of None \<Rightarrow> True | Some a \<Rightarrow> coheap e a = None) \<and>
     (case moved of None \<Rightarrow> True | Some b \<Rightarrow> coheap e b = None \<or> recycle e = Some b)"

definition co_fresh :: "nat \<Rightarrow> nat \<Rightarrow> dpaco \<Rightarrow> bool" where
  "co_fresh b f c \<longleftrightarrow> ctx c = At_entry b \<and> func c = Some f \<and> costatus c = DPACO_CREATED \<and>
     lnk c = None \<and> \<not> delater c \<and> 16 \<le> cosize c"

lemma co_fresh_idle: "co_fresh b f c \<Longrightarrow> idle b c"
  by (simp add: co_fresh_def idle_def)

lemma create_inv:
  assumes I: "aco_inv cs rs e" and sz: "stack_ok sz" and m: "alloc_ok new moved e"
  shows "(rs = [] \<and> new = None \<and> dpaco_create (Some f) sz new moved e = Some (None, e)) \<or>
    (\<exists>b c e' rs'. dpaco_create (Some f) sz new moved e = Some (Some b, e') \<and>
       aco_inv cs rs' e' \<and> coheap e' b = Some c \<and> co_fresh b f c \<and> cocurr e' = cocurr e)"
proof -
  note i = aco_invD [OF I]
  define z where "z = (if sz \<le> 0 then costack_size e else sz)"
  have z: "16 \<le> z" using i(9) sz by (auto simp: z_def stack_ok_def)
  have created: ?thesis if "dpaco_create (Some f) sz new moved e = Some (Some b, e')"
    "aco_inv cs rs' e'" "coheap e' b = Some c" "co_fresh b f c" "cocurr e' = cocurr e"
    for b c e' rs' using that by blast
  show ?thesis
  proof (cases "recycle e")
    case None
    then have rs: "rs = []" using i(6) by simp
    show ?thesis
    proof (cases new)
      case (Some a)
      let ?c = "(co_calloc z)\<lparr>func := Some f, costatus := DPACO_CREATED, lnk := None,
        delater := False, ctx := At_entry a\<rparr>"
      have fr: "co_fresh a f ?c" using z by (simp add: co_fresh_def co_calloc_def)
      have n: "coheap e a = None" using m Some by (simp add: alloc_ok_def)
      have "dpaco_create (Some f) sz new moved e
          = Some (Some a, e\<lparr>coheap := (coheap e)(a \<mapsto> ?c)\<rparr>)"
        using None Some cocontext_sp_inside [OF z]
        by (simp add: dpaco_create_def z_def [symmetric] co_take_def co_upd_def co_resize_def
            cocontext_init_def co_calloc_def)
      then show ?thesis
        by (rule created [OF _ add_inv [OF I n co_fresh_idle [OF fr]] _ fr]) simp_all
    qed (use None rs in \<open>simp add: dpaco_create_def co_take_def\<close>)
  next
    case (Some a)
    then obtain c rs' where rs: "rs = a # rs'" "coheap e a = Some c"
      using i(6) by (auto simp: links_Some)
    then have c: "16 \<le> cosize c" using i(11) [OF rs(2)] by (simp add: released_def)
    define b where "b = (if cosize c \<noteq> z \<and> moved \<noteq> None then the moved else a)"
    define y where "y = (if cosize c \<noteq> z \<and> moved \<noteq> None then z else cosize c)"
    let ?c = "c\<lparr>func := Some f, costatus := DPACO_CREATED, lnk := None,
        delater := False, cosize := y, ctx := At_entry b\<rparr>"
    let ?e = "e\<lparr>recycle := lnk c, recycle_count := recycle_count e - 1,
        coheap := (coheap e)(a := None)\<rparr>"
    have y: "16 \<le> y" using c z by (simp add: y_def)
    have D: "aco_inv cs rs' ?e" by (rule drop_inv) (use I rs in auto)
    have fr: "co_fresh b f ?c" using y by (simp add: co_fresh_def)
    have "coheap ?e b = None" using m Some by (auto simp: alloc_ok_def b_def)
    then have A: "aco_inv cs rs' (?e\<lparr>coheap := (coheap ?e)(b \<mapsto> ?c)\<rparr>)"
      by (rule add_inv [OF D _ co_fresh_idle [OF fr]])
    have "dpaco_create (Some f) sz new moved e
        = Some (Some b, ?e\<lparr>coheap := (coheap ?e)(b \<mapsto> ?c)\<rparr>)"
      using Some rs(2) cocontext_sp_inside [OF z] cocontext_sp_inside [OF c]
      by (cases moved)
        (auto simp: dpaco_create_def z_def [symmetric] co_take_def co_upd_def co_resize_def
            cocontext_init_def b_def y_def)
    then show ?thesis by (rule created [OF _ A _ fr]) simp_all
  qed
qed

end
