(* ===== verification/Dpaco_Props.thy ===== *)
theory Dpaco_Props
  imports Dpaco_Step
begin

text \<open>
  The properties of the coroutines: which calls are safe, what passes between a coroutine and its
  resumer, and what goes wrong when the code resumes a coroutine that waits for it, or releases a
  coroutine that a wrap will release.
\<close>

section \<open>The calls that are safe\<close>

text \<open>
  The code of the coroutines uses a handle only while it is not released, does not resume a
  coroutine that itself waits in a resume, does not release one that a wrap is running, and the main
  stack does not end as a coroutine does.  Stack sizes leave room for the entry address.
\<close>

fun client_ok :: "acall \<Rightarrow> aco_thenv \<Rightarrow> bool" where
  "client_ok (ACreate f sz new moved) e \<longleftrightarrow> stack_ok sz \<and> alloc_ok new moved e"
| "client_ok (AResume co v) e \<longleftrightarrow>
     (case co of None \<Rightarrow> True
      | Some a \<Rightarrow> (case coheap e a of None \<Rightarrow> False
         | Some c \<Rightarrow> costatus c = DPACO_RUNNING \<or>
             func c \<noteq> None \<and> (costatus c = DPACO_SUSPEND \<longrightarrow> ctx c = In_yield)))"
| "client_ok (AYield v) e \<longleftrightarrow> True"
| "client_ok (AFinish v) e \<longleftrightarrow> cocurr e \<noteq> comain e"
| "client_ok (ADelater co) e \<longleftrightarrow>
     (case co of None \<Rightarrow> True
      | Some a \<Rightarrow> (case coheap e a of None \<Rightarrow> False
         | Some c \<Rightarrow>
             if costatus c = DPACO_CREATED \<or> costatus c = DPACO_DEAD then func c \<noteq> None
             else (case lnk c of None \<Rightarrow> True
                   | Some b \<Rightarrow> (case coheap e b of None \<Rightarrow> True
                      | Some d \<Rightarrow> ctx d \<noteq> In_wrap a))))"
| "client_ok (AWrap f v sz new moved) e \<longleftrightarrow> stack_ok sz \<and> alloc_ok new moved e"

fun client_run :: "acall list \<Rightarrow> aco_thenv \<Rightarrow> bool" where
  "client_run [] e \<longleftrightarrow> True"
| "client_run (x # xs) e \<longleftrightarrow> client_ok x e \<and>
     (case aco_call x e of None \<Rightarrow> True | Some (v, e1) \<Rightarrow> client_run xs e1)"

lemma create_none: "dpaco_create None sz new moved e = Some (None, e)"
  by (simp add: dpaco_create_def)

lemma create_step:
  assumes "aco_inv cs rs e" "stack_ok sz" "alloc_ok new moved e"
  obtains h e' rs' where "dpaco_create f sz new moved e = Some (h, e')" "aco_inv cs rs' e'"
    "\<forall>b. h = Some b \<longrightarrow> (\<exists>c. coheap e' b = Some c \<and> co_fresh b (the f) c)"
proof (cases f)
  case None
  then show ?thesis using that [of None e rs] assms by (simp add: create_none)
next
  case (Some g)
  show ?thesis using create_inv [OF assms, of g]
  proof (elim disjE exE conjE)
    assume "dpaco_create (Some g) sz new moved e = Some (None, e)"
    then show ?thesis using that [of None e rs] assms Some by simp
  next
    fix b c e' rs'
    assume "dpaco_create (Some g) sz new moved e = Some (Some b, e')" "aco_inv cs rs' e'"
      "coheap e' b = Some c" "co_fresh b g c"
    then show ?thesis using that [of "Some b" e' rs'] Some by simp
  qed
qed

lemma wrap_step:
  assumes "aco_inv cs rs e" "stack_ok sz" "alloc_ok new moved e"
  shows "\<exists>w cs' rs'. dpaco_wrap f v sz new moved e = Some w \<and> aco_inv cs' rs' (snd w)"
proof -
  obtain h e1 rs' where h: "dpaco_create f sz new moved e = Some (h, e1)" "aco_inv cs rs' e1"
    "\<forall>b. h = Some b \<longrightarrow> (\<exists>c. coheap e1 b = Some c \<and> co_fresh b (the f) c)"
    by (rule create_step [OF assms])
  show ?thesis
  proof (cases h)
    case (Some b)
    then obtain c where c: "coheap e1 b = Some c" "co_fresh b (the f) c" using h by auto
    obtain a d where "resume_at (In_wrap b) b v e1 = Some (entered c v, resumed (In_wrap b) b v a c d e1)"
      "aco_inv (b # cs) rs' (resumed (In_wrap b) b v a c d e1)"
      by (rule resume_inv [OF h(2) c(1), of "In_wrap b" v]) (use c(2) in \<open>auto simp: co_fresh_def\<close>)
    then show ?thesis using h(1) Some by (auto simp: dpaco_wrap_def)
  qed (use h in \<open>auto simp: dpaco_wrap_def\<close>)
qed

lemma resume_step:
  assumes I: "aco_inv cs rs e" and ok: "client_ok (AResume co v) e"
  shows "\<exists>w cs'. dpaco_resume co v e = Some w \<and> aco_inv cs' rs (snd w)"
proof (cases co)
  case (Some a)
  then obtain c where c: "coheap e a = Some c" using ok by (auto split: option.splits)
  show ?thesis
  proof (cases "costatus c = DPACO_RUNNING \<or> costatus c = DPACO_DEAD")
    case False
    then have s: "costatus c = DPACO_CREATED \<or> costatus c = DPACO_SUSPEND \<and> ctx c = In_yield"
      "func c \<noteq> None" using ok Some c by (cases "costatus c"; simp)+
    obtain b d where "resume_at (In_resume a) a v e = Some (entered c v, resumed (In_resume a) a v b c d e)"
      "aco_inv (a # cs) rs (resumed (In_resume a) a v b c d e)"
      by (rule resume_inv [OF I c s(2,1), of "In_resume a" v]) auto
    then show ?thesis using Some by (auto simp: dpaco_resume_def)
  qed (use I c Some in \<open>auto simp: dpaco_resume_def resume_at_def\<close>)
qed (use I in \<open>auto simp: dpaco_resume_def\<close>)

lemma yield_step:
  assumes I: "aco_inv cs rs e"
  shows "\<exists>w cs' rs'. dpaco_yield v e = Some w \<and> aco_inv cs' rs' (snd w)"
proof -
  obtain a as c where a: "cs = a # as" "cocurr e = Some a" "coheap e a = Some c"
    "links (coheap e) (lnk c) as" by (rule aco_inv_curr [OF I])
  show ?thesis
  proof (cases as)
    case Nil
    then show ?thesis using a I by (auto simp: dpaco_yield_def)
  next
    case (Cons b bs)
    obtain e' rs' where "(if DPACO_SUSPEND = DPACO_DEAD then mainfunc_end v e else dpaco_yield v e)
        = Some (Ret v, e')" "aco_inv (b # bs) rs' e'"
      using I unfolding a(1) Cons by (rule leave_inv) auto
    then show ?thesis by auto
  qed
qed

lemma finish_step:
  assumes I: "aco_inv cs rs e" and n: "cocurr e \<noteq> comain e"
  shows "\<exists>w cs' rs'. mainfunc_end v e = Some w \<and> aco_inv cs' rs' (snd w)"
proof -
  obtain a as where a: "cs = a # as" "cocurr e = Some a" by (rule aco_inv_curr [OF I])
  then obtain b bs where b: "as = b # bs" using n aco_invD(3) [OF I] by (cases as) auto
  obtain e' rs' where "(if DPACO_DEAD = DPACO_DEAD then mainfunc_end v e else dpaco_yield v e)
        = Some (Ret v, e')" "aco_inv (b # bs) rs' e'"
    by (rule leave_inv [OF I [unfolded a(1) b], of DPACO_DEAD v]) auto
  then show ?thesis by auto
qed

lemma delater_step:
  assumes I: "aco_inv cs rs e" and ok: "client_ok (ADelater co) e"
  shows "\<exists>e' rs'. dpaco_delater co e = Some e' \<and> aco_inv cs rs' e'"
proof (cases co)
  case (Some a)
  then obtain c where c: "coheap e a = Some c" using ok by (auto split: option.splits)
  show ?thesis
  proof (cases "costatus c = DPACO_CREATED \<or> costatus c = DPACO_DEAD")
    case True
    then have f: "func c \<noteq> None" using ok Some c by simp
    obtain e' where "dpaco_delater (Some a) e = Some e'"
      "length rs < 1024 \<Longrightarrow> aco_inv cs (a # rs) e'"
      "length rs = 1024 \<Longrightarrow> aco_inv cs rs e' \<and> coheap e' a = None"
      using True by (blast intro: co_release_inv [OF I c f])
    then show ?thesis using aco_invD(8) [OF I] Some
      by (cases "length rs < 1024") (auto simp: not_less)
  next
    case False
    then have "costatus c = DPACO_RUNNING \<or> costatus c = DPACO_SUSPEND" by (cases "costatus c") auto
    moreover have "\<forall>b d. lnk c = Some b \<longrightarrow> coheap e b = Some d \<longrightarrow> ctx d \<noteq> In_wrap a"
      using ok Some c False by auto
    ultimately have "aco_inv cs rs (e\<lparr>coheap := (coheap e)(a \<mapsto> c\<lparr>delater := True\<rparr>)\<rparr>)"
      by (intro mark_inv [OF I c]) auto
    then show ?thesis using Some False c by (auto simp: dpaco_delater_def co_upd_def)
  qed
qed (use I in \<open>auto simp: dpaco_delater_def\<close>)

lemma aco_call_step:
  assumes I: "aco_inv cs rs e" and ok: "client_ok x e"
  shows "\<exists>w cs' rs'. aco_call x e = Some w \<and> aco_inv cs' rs' (snd w)"
proof (cases x)
  case (ACreate f sz new moved)
  then obtain h e' rs' where "dpaco_create f sz new moved e = Some (h, e')" "aco_inv cs rs' e'"
    using ok by (auto intro: create_step [OF I])
  then show ?thesis using ACreate by auto
next
  case (AResume co v)
  then show ?thesis using resume_step [OF I] ok by (metis aco_call.simps(2))
next
  case (AYield v)
  then show ?thesis using yield_step [OF I] by simp
next
  case (AFinish v)
  then show ?thesis using finish_step [OF I] ok by simp
next
  case (ADelater co)
  then show ?thesis using delater_step [OF I] ok by (fastforce simp del: client_ok.simps)
next
  case (AWrap f v sz new moved)
  then show ?thesis using wrap_step [OF I] ok by simp
qed

lemma aco_calls_step:
  "aco_inv cs rs e \<Longrightarrow> client_run xs e \<Longrightarrow>
   \<exists>vs e' cs' rs'. aco_calls xs e = Some (vs, e') \<and> aco_inv cs' rs' e'"
proof (induction xs arbitrary: cs rs e)
  case (Cons x xs)
  obtain w cs' rs' where w: "aco_call x e = Some w" "aco_inv cs' rs' (snd w)"
    using aco_call_step [OF Cons.prems(1), of x] Cons.prems(2) unfolding client_run.simps by blast
  obtain v e1 where "w = (v, e1)" by (cases w)
  then show ?case using w Cons.IH [of cs' rs' e1] Cons.prems(2) by fastforce
qed auto

lemma thinit_inv:
  assumes "dpaco_thinit sz (Some m) aco_zero = (True, e)"
  shows "aco_inv [m] [] e"
proof -
  have "e = snd (dpaco_thinit sz (Some m) aco_zero)" using assms by simp
  then show ?thesis
    by (intro aco_invI)
      (auto simp: dpaco_thinit_def aco_zero_def on_chain_def co_calloc_def split: if_splits)
qed

section \<open>The end of a thread\<close>

lemma free_recycled_list:
  "links (coheap e) (recycle e) rs \<Longrightarrow>
   free_recycled e = Some (e\<lparr>recycle := None,
     coheap := (\<lambda>a. if a \<in> set rs then None else coheap e a)\<rparr>)"
proof (induction rs arbitrary: e)
  case Nil
  then show ?case by (subst free_recycled.simps) simp
next
  case (Cons a rs)
  then obtain c where c: "recycle e = Some a" "coheap e a = Some c" "links (coheap e) (lnk c) rs"
    by auto
  let ?e = "e\<lparr>recycle := lnk c, coheap := (coheap e)(a := None)\<rparr>"
  have "a \<notin> set rs" using links_distinct [OF Cons.prems] by simp
  then have "links (coheap ?e) (recycle ?e) rs" using c(3) by simp
  note IH = Cons.IH [OF this]
  have "(\<lambda>x. if x \<in> set rs then None else coheap ?e x) =
      (\<lambda>x. if x \<in> set (a # rs) then None else coheap e x)" by auto
  then show ?case
    using c IH by (subst free_recycled.simps) (simp add: co_free_def)
qed

lemma thfree_result:
  assumes I: "aco_inv cs rs e"
  shows "dpaco_thfree e = Some (aco_zero\<lparr>coheap :=
    (\<lambda>a. if a = last cs \<or> a \<in> set rs then None else coheap e a)\<rparr>)"
proof -
  note i = aco_invD [OF I]
  have m: "last cs \<in> set cs" using i(1) by simp
  then obtain d where d: "coheap e (last cs) = Some d" using links_dom [OF i(4)] by blast
  have "last cs \<notin> set rs" using m i(2) by blast
  then have "links ((coheap e)(last cs := None)) (recycle e) rs" using i(6) by simp
  then show ?thesis
    using i(3) d free_recycled_list [of "e\<lparr>coheap := (coheap e)(last cs := None)\<rparr>" rs]
    by (auto simp: dpaco_thfree_def co_free_def fun_eq_iff aco_zero_def)
qed

section \<open>Properties\<close>

text \<open>
  C8. From the start of a thread, any sequence of safe calls of the coroutines is defined: no freed
  block is used and no switch goes to an empty context.  At every moment the running coroutine and
  the ones waiting for it are a chain that ends in the main stack, the released blocks are exactly
  those counted and at most 1024, and the end of the thread returns and frees the main block and
  every released block.
\<close>

theorem aco_run_safe:
  assumes "dpaco_thinit sz (Some m) aco_zero = (True, e0)" and "client_run xs e0"
  shows "\<exists>vs e cs rs e'. aco_calls xs e0 = Some (vs, e) \<and> aco_inv cs rs e \<and>
    dpaco_thfree e = Some e' \<and>
    coheap e' = (\<lambda>a. if a = last cs \<or> a \<in> set rs then None else coheap e a)"
proof -
  obtain vs e cs rs where e: "aco_calls xs e0 = Some (vs, e)" "aco_inv cs rs e"
    using aco_calls_step [OF thinit_inv [OF assms(1)] assms(2)] by blast
  then show ?thesis using thfree_result [OF e(2)] by auto
qed

definition demo_calls :: "acall list" where
  "demo_calls = [ACreate (Some 7) 8192 (Some 2) None, AResume (Some 2) 10, AYield 100,
     AResume (Some 2) 20, AFinish 200, ADelater (Some 2),
     AWrap (Some 9) 5 0 (Some 3) (Some 4), AFinish 6]"

lemma aco_run_safe_witness:
  "\<exists>vs e cs rs e'. aco_calls demo_calls (snd (dpaco_thinit 0 (Some 1) aco_zero)) = Some (vs, e) \<and>
    aco_inv cs rs e \<and> dpaco_thfree e = Some e' \<and>
    coheap e' = (\<lambda>a. if a = last cs \<or> a \<in> set rs then None else coheap e a)"
proof (rule aco_run_safe [of 0 1])
  show "dpaco_thinit 0 (Some 1) aco_zero = (True, snd (dpaco_thinit 0 (Some 1) aco_zero))"
    by (simp add: dpaco_thinit_def aco_zero_def)
  show "client_run demo_calls (snd (dpaco_thinit 0 (Some 1) aco_zero))" by code_simp
qed

text \<open>
  C9. What passes between a coroutine and its resumer: the first resume enters the function with the
  value, a later one returns it from the yield; the value of the yield is what the resume returns,
  and the resumer runs again; the value of the return of the function is passed in the same way.
\<close>

theorem resume_yield_exchange:
  assumes I: "aco_inv cs rs e" and c: "coheap e co = Some c" "func c = Some f"
    and s: "costatus c = DPACO_CREATED \<or> costatus c = DPACO_SUSPEND \<and> ctx c = In_yield"
  shows "\<exists>e1 e2 e3 e4.
    dpaco_resume (Some co) v e =
      Some (if costatus c = DPACO_CREATED then Enter f v else Ret v, e1) \<and>
    dpaco_running e1 = Some co \<and> dpaco_status_of co e1 = Some DPACO_RUNNING \<and>
    dpaco_yield w e1 = Some (Ret w, e2) \<and>
    dpaco_running e2 = dpaco_running e \<and> dpaco_status_of co e2 = Some DPACO_SUSPEND \<and>
    dpaco_resume (Some co) u e2 = Some (Ret u, e3) \<and> dpaco_running e3 = Some co \<and>
    mainfunc_end r e3 = Some (Ret r, e4) \<and> dpaco_running e4 = dpaco_running e"
proof -
  have f: "func c \<noteq> None" using c by simp
  obtain b d where e1: "cocurr e = Some b" "hd cs = b"
    "resume_at (In_resume co) co v e = Some (entered c v, resumed (In_resume co) co v b c d e)"
    "aco_inv (co # cs) rs (resumed (In_resume co) co v b c d e)" "b \<noteq> co"
    by (rule resume_inv [OF I c(1) f s, of "In_resume co" v]) simp_all
  let ?e1 = "resumed (In_resume co) co v b c d e"
  obtain bs where cs: "cs = b # bs" using e1(2) aco_invD(1) [OF I] by (cases cs) auto
  obtain e2 rs2 c2 where e2: "dpaco_yield w ?e1 = Some (Ret w, e2)" "aco_inv cs rs2 e2"
    "cocurr e2 = Some b" "coheap e2 co = Some c2" "costatus c2 = DPACO_SUSPEND"
    "ctx c2 = In_yield" "func c2 \<noteq> None"
    by (rule leave_inv [OF e1(4) [unfolded cs], of DPACO_SUSPEND w]) (auto simp: cs)
  obtain d2 where e3: "resume_at (In_resume co) co u e2
      = Some (entered c2 u, resumed (In_resume co) co u b c2 d2 e2)"
    "aco_inv (co # cs) rs2 (resumed (In_resume co) co u b c2 d2 e2)"
    by (rule resume_inv [OF e2(2,4,7), of "In_resume co" u]) (use e2 in auto)
  obtain e4 rs4 where e4: "mainfunc_end r (resumed (In_resume co) co u b c2 d2 e2) = Some (Ret r, e4)"
    "cocurr e4 = Some b"
    by (rule leave_inv [OF e3(2) [unfolded cs], of DPACO_DEAD r]) auto
  have "entered c v = (if costatus c = DPACO_CREATED then Enter f v else Ret v)"
    "entered c2 u = Ret u" using c e2 by (simp_all add: entered_def)
  then show ?thesis using e1 e2 e3 e4
    by (simp add: dpaco_resume_def dpaco_running_def dpaco_status_of_def) (simp add: resumed_def)
qed

definition demo_state :: aco_thenv where
  "demo_state = \<lparr>comain = Some 1, cocurr = Some 1, recycle = None, recycle_count = 0,
     costack_size = 1024, coheap = [1 \<mapsto> (co_calloc 0)\<lparr>costatus := DPACO_RUNNING\<rparr>,
       2 \<mapsto> (co_calloc 8192)\<lparr>func := Some 7, ctx := At_entry 2\<rparr>]\<rparr>"

lemma demo_state_inv: "aco_inv [1] [] demo_state"
  by (intro aco_invI)
    (auto simp: demo_state_def on_chain_def idle_def co_calloc_def split: if_splits)

lemma resume_yield_exchange_witness:
  "\<exists>e1 e2 e3 e4.
    dpaco_resume (Some 2) 10 demo_state = Some (Enter 7 10, e1) \<and>
    dpaco_running e1 = Some 2 \<and> dpaco_status_of 2 e1 = Some DPACO_RUNNING \<and>
    dpaco_yield 100 e1 = Some (Ret 100, e2) \<and>
    dpaco_running e2 = dpaco_running demo_state \<and> dpaco_status_of 2 e2 = Some DPACO_SUSPEND \<and>
    dpaco_resume (Some 2) 20 e2 = Some (Ret 20, e3) \<and> dpaco_running e3 = Some 2 \<and>
    mainfunc_end 200 e3 = Some (Ret 200, e4) \<and> dpaco_running e4 = dpaco_running demo_state"
  using resume_yield_exchange [OF demo_state_inv, of 2
      "(co_calloc 8192)\<lparr>func := Some 7, ctx := At_entry 2\<rparr>" 7 10 100 20 200]
  by (simp add: demo_state_def co_calloc_def)

text \<open>
  The shape of two coroutines that took each other for their resumer: neither is on a chain that
  ends in the main stack.
\<close>

definition tangled :: "nat \<Rightarrow> nat \<Rightarrow> aco_thenv \<Rightarrow> bool" where
  "tangled a b e \<longleftrightarrow> a \<noteq> b \<and> cocurr e = Some a \<and>
     (\<exists>c d. coheap e a = Some c \<and> coheap e b = Some d \<and> lnk c = Some b \<and> lnk d = Some a \<and>
        costatus c = DPACO_RUNNING \<and> costatus d = DPACO_SUSPEND \<and>
        ctx d \<in> {In_yield, In_resume a, In_wrap a})"

lemma tangled_yield:
  assumes "tangled a b e"
  shows "\<exists>e'. dpaco_yield v e = Some (Ret v, e') \<and> tangled b a e'"
proof -
  obtain c d where *: "a \<noteq> b" "cocurr e = Some a" "coheap e a = Some c" "coheap e b = Some d"
    "lnk c = Some b" "lnk d = Some a" "costatus c = DPACO_RUNNING" "costatus d = DPACO_SUSPEND"
    "ctx d = In_yield \<or> ctx d = In_resume a \<or> ctx d = In_wrap a"
    using assms by (auto simp: tangled_def)
  have y: "dpaco_yield v e = land b (left DPACO_SUSPEND a b v c d e)"
    by (rule yield_switch(1) [OF *(2,3,5,4,1,7)])
  show ?thesis using *(9)
  proof (elim disjE)
    assume "ctx d = In_wrap a"
    then show ?thesis unfolding y using *(1-8)
      by (simp add: land_def after_wrap_def after_resume_def curr_msg_def dpaco_delater_def
          co_upd_def left_def tangled_def)
  qed (use *(1-8) in \<open>simp_all add: y land_def after_resume_def curr_msg_def left_def tangled_def\<close>)
qed

lemma tangled_yields:
  "tangled a b e \<Longrightarrow> \<exists>e'. aco_calls (map AYield vs) e = Some (map Ret vs, e') \<and>
     (tangled a b e' \<or> tangled b a e')"
proof (induction vs arbitrary: a b e)
  case (Cons v vs)
  obtain e1 where e1: "dpaco_yield v e = Some (Ret v, e1)" "tangled b a e1"
    using tangled_yield [OF Cons.prems] by blast
  then show ?case using Cons.IH [OF e1(2)] by auto
qed simp


definition nested_state :: aco_thenv where
  "nested_state = \<lparr>comain = Some 1, cocurr = Some 3, recycle = None, recycle_count = 0,
     costack_size = 1024, coheap = [
       1 \<mapsto> (co_calloc 0)\<lparr>costatus := DPACO_SUSPEND, ctx := In_resume 2\<rparr>,
       2 \<mapsto> (co_calloc 8192)\<lparr>func := Some 7, ctx := In_resume 3, lnk := Some 1,
              costatus := DPACO_SUSPEND\<rparr>,
       3 \<mapsto> (co_calloc 8192)\<lparr>func := Some 8, ctx := At_entry 3, lnk := Some 2,
              costatus := DPACO_RUNNING\<rparr>]\<rparr>"

lemma nested_state_reached:
  "aco_calls [ACreate (Some 7) 8192 (Some 2) None, AResume (Some 2) 0,
      ACreate (Some 8) 8192 (Some 3) None, AResume (Some 3) 0]
     (demo_state\<lparr>coheap := (coheap demo_state)(2 := None)\<rparr>)
   = Some ([Handle (Some 2), Enter 7 0, Handle (Some 3), Enter 8 0], nested_state)"
  by (simp add: demo_state_def nested_state_def co_calloc_def dpaco_create_def co_take_def
      co_upd_def co_resize_def cocontext_init_def cocontext_sp_def CO_STACK_def dpaco_resume_def
      resume_at_def cocontext_swap_def land_def fun_eq_iff)


text \<open>
  A coroutine run by a wrap that releases itself is released twice when it ends, so that the
  next two creations return the same block.
\<close>

theorem wrap_released_twice:
  "\<exists>e. aco_calls [AWrap (Some f) v 0 (Some 2) None, ADelater (Some 2), AFinish w,
         ACreate (Some g) 0 None None, ACreate (Some h) 0 None None]
      (snd (dpaco_thinit 0 (Some 1) aco_zero))
    = Some ([Enter f v, Done, Ret w, Handle (Some 2), Handle (Some 2)], e) \<and>
    map_option func (coheap e 2) = Some (Some h)"
  by (simp add: dpaco_thinit_def aco_zero_def co_calloc_def dpaco_create_def co_take_def
      co_upd_def co_resize_def cocontext_init_def cocontext_sp_def CO_STACK_def dpaco_wrap_def
      resume_at_def cocontext_swap_def land_def after_wrap_def after_resume_def curr_msg_def
      dpaco_delater_def dpaco_yield_def mainfunc_end_def)

end
