(* ===== verification/Dpcwc.thy ===== *)
theory Dpcwc
  imports Dpevp Dpaco
begin

text \<open>
  The coroutine runtime (\<^verbatim>\<open>dpcwc.c\<close>): a thread runs an event loop on its main stack and coroutines that
  wait for elements of that loop.  The state is the world of the loops, the coroutines of the
  thread, and the thread-local context.

  A function that gives control to another stack ends, in the model, with the event that stack
  sees; what it does after it got control back is a second definition, over the value the yield or
  resume returned.  The pointer stored in \<open>cop\<close> is the address of a coroutine block; the entry
  functions of the runtime have the codes below, the code of a module is any other number.
\<close>

section \<open>The state of a thread\<close>

record ('d, 's) cwc =
  cw :: "('d, 's) world"
  ca :: aco_thenv
  step_toms :: int
  usrdata :: dpv64

text \<open>
  What the runtime calls: the loop's callbacks, \<open>epoll_wait\<close>, the two words of scratch data of an
  element, and the addresses of the descriptors \<open>dptmr_timeout()\<close> and \<open>dpctc_submit()\<close>.
\<close>

record ('d, 's) cwc_env =
  loop_env :: "('d, 's) env"
  loop_wait :: "nat \<Rightarrow> int \<Rightarrow> int \<Rightarrow> ('d, 's) world \<Rightarrow> ('d, 's) world \<times> epoll_event list option"
  get_slots :: "'d option \<Rightarrow> (dpv64 \<times> dpv64) option"
  timeout_asc :: nat
  submit_asc :: nat
  ctc_init_fn :: nat

definition RUN_CTC :: nat where "RUN_CTC = 1"

definition RUN_TMR :: nat where "RUN_TMR = 2"

definition RUN_APP :: nat where "RUN_APP = 3"

text \<open>\<open>(dpv64_t){.a32.s32 = ret}\<close>, and the field read back.\<close>

definition ret64 :: "dpret \<Rightarrow> dpv64" where
  "ret64 r = ucast (word_of_int r :: u32)"

definition v64_ret :: "dpv64 \<Rightarrow> dpret" where
  "v64_ret v = sint (ucast v :: u32)"

definition co_ptr :: "dpv64 \<Rightarrow> nat option" where
  "co_ptr v = (if v = 0 then None else Some (unat v))"

definition ptr_word :: "nat option \<Rightarrow> dpv64" where
  "ptr_word p = (case p of None \<Rightarrow> 0 | Some a \<Rightarrow> of_nat a)"

section \<open>The step of the main stack\<close>

definition resume_waiting ::
  "('d, 's) cwc \<Rightarrow> dpv64 \<Rightarrow> dpret \<Rightarrow> (aevent option \<times> ('d, 's) cwc) option" where
  "resume_waiting c co r =
     (case co_ptr co of
        None \<Rightarrow> Some (None, c)
      | Some p \<Rightarrow> do {
          s \<leftarrow> dpaco_status_of p (ca c);
          if s = DPACO_SUSPEND then do {
            (ev, a') \<leftarrow> dpaco_resume (Some p) (ret64 r) (ca c);
            Some (Some ev, c\<lparr>ca := a'\<rparr>) }
          else Some (None, c) })"

definition wrap_run ::
  "nat \<Rightarrow> nat \<Rightarrow> nat option \<Rightarrow> nat option \<Rightarrow> ('d, 's) cwc \<Rightarrow> (aevent option \<times> ('d, 's) cwc) option" where
  "wrap_run f ele new moved c = do {
     (ev, a') \<leftarrow> dpaco_wrap (Some f) (of_nat ele) 0 new moved (ca c);
     Some (Some ev, c\<lparr>ca := a'\<rparr>) }"

definition slot0 :: "('d, 's) cwc_env \<Rightarrow> 'd dpele \<Rightarrow> dpv64 option" where
  "slot0 R e =
     (case asc_data e of
        None \<Rightarrow> Some 0
      | Some (cap, d) \<Rightarrow> do { (x, y) \<leftarrow> get_slots R d; Some x })"

text \<open>
  \<open>new\<close> and \<open>moved\<close> are what the allocator returns when a coroutine is made.  The result says
  whether an element was taken, and what the stack sees that was switched to, if any.
\<close>

definition thread_main_step ::
  "('d, 's) cwc_env \<Rightarrow> nat option \<Rightarrow> nat option \<Rightarrow> ('d, 's) cwc
     \<Rightarrow> (bool \<times> aevent option \<times> ('d, 's) cwc) option" where
  "thread_main_step R new moved c = do {
     (w1, r) \<leftarrow> dpevp_pop (loop_env R) (loop_wait R) (cw c) (step_toms c);
     let c1 = c\<lparr>cw := w1, step_toms := - 1\<rparr>;
     (case r of
        None \<Rightarrow> Some (False, None, c1)
      | Some a \<Rightarrow> do {
          e \<leftarrow> eles w1 a;
          (ev, c2) \<leftarrow> (case ty_type (etype e) of
              DPELE_TYPE_EFD \<Rightarrow> resume_waiting c1 (cop e) (dpele_ret e)
            | DPELE_TYPE_USD \<Rightarrow> resume_waiting c1 (cop e) (dpele_ret e)
            | DPELE_TYPE_TMR \<Rightarrow> do {
                x \<leftarrow> slot0 R e;
                if x \<noteq> 0 then wrap_run RUN_TMR a new moved c1
                else resume_waiting c1 (cop e) (dpele_ret e) }
            | DPELE_TYPE_CTC \<Rightarrow>
                if dpele_is_doing e \<and>
                   Option.bind (asc_type e) (\<lambda>t. asc_post (ascs (loop_env R) t)) = None
                then wrap_run RUN_CTC a new moved c1
                else resume_waiting c1 (cop e) (dpele_ret e));
          Some (True, ev, c2) }) }"

section \<open>The entry functions of the runtime\<close>

text \<open>Each reads the function and its argument; the other half runs when the function returned.\<close>

definition run_call :: "('d, 's) cwc_env \<Rightarrow> ('d, 's) cwc \<Rightarrow> dpv64 \<Rightarrow> (dpv64 \<times> dpv64) option" where
  "run_call R c arg = do {
     e \<leftarrow> eles (cw c) (unat arg);
     (cap, d) \<leftarrow> asc_data e;
     (f, x) \<leftarrow> get_slots R d;
     guard (f \<noteq> 0);
     Some (f, x) }"

definition co_finish :: "dpv64 \<Rightarrow> ('d, 's) cwc \<Rightarrow> (aevent \<times> ('d, 's) cwc) option" where
  "co_finish v c = do { (ev, a') \<leftarrow> mainfunc_end v (ca c); Some (ev, c\<lparr>ca := a'\<rparr>) }"

definition run_ctc_end ::
  "('d, 's) cwc_env \<Rightarrow> ('d, 's) cwc \<Rightarrow> dpv64 \<Rightarrow> dpret \<Rightarrow> (aevent \<times> ('d, 's) cwc) option" where
  "run_ctc_end R c arg err = do {
     (w1, _) \<leftarrow> dpevp_end_ctc (loop_env R) (cw c) (co_ptr arg) err;
     co_finish DPV64_NULL (c\<lparr>cw := w1\<rparr>) }"

definition run_tmr_end ::
  "('d, 's) cwc_env \<Rightarrow> ('d, 's) cwc \<Rightarrow> dpv64 \<Rightarrow> dpret \<Rightarrow> (aevent \<times> ('d, 's) cwc) option" where
  "run_tmr_end R c arg r = do {
     w1 \<leftarrow> upd_ele (cw c) (unat arg) (\<lambda>e. dpele_set_ret e r);
     w2 \<leftarrow> dpele_del (loop_env R) w1 (Some (unat arg));
     co_finish DPV64_NULL (c\<lparr>cw := w2\<rparr>) }"

definition run_app_end :: "('d, 's) cwc \<Rightarrow> dpv64 \<Rightarrow> (aevent \<times> ('d, 's) cwc) option" where
  "run_app_end c v = co_finish DPV64_NULL (c\<lparr>usrdata := v\<rparr>)"

section \<open>The life of a thread\<close>

definition set_default_stack_size :: "int \<Rightarrow> int" where
  "set_default_stack_size sz = (if sz < 1024 then 1024 else sz)"

text \<open>
  \<open>ssl\<close> and \<open>qic\<close> are the results of \<open>dpssl_thrd_init\<close> and \<open>dpqic_thrd_init\<close>, \<open>main\<close> what the
  allocator returns for the main block; \<open>init\<close> says whether the type has an init function.
  The first component is whether the loop is entered.
\<close>

definition thread_begin ::
  "int \<Rightarrow> nat option \<Rightarrow> dpret \<Rightarrow> dpret \<Rightarrow> bool \<Rightarrow> dpv64 \<Rightarrow> nat option \<Rightarrow> nat option \<Rightarrow> ('d, 's) cwc
     \<Rightarrow> (bool \<times> aevent option \<times> ('d, 's) cwc) option" where
  "thread_begin stack_size main ssl qic init fargs new moved c =
     (let (ok, a1) = dpaco_thinit stack_size main (ca c) in
      if \<not> ok then Some (False, None, c\<lparr>ca := a1\<rparr>)
      else if ssl \<noteq> DPE_OK \<and> ssl \<noteq> DPE_UNSUPPORT then do {
        a2 \<leftarrow> dpaco_thfree a1; Some (False, None, c\<lparr>ca := a2\<rparr>) }
      else if qic \<noteq> DPE_OK \<and> qic \<noteq> DPE_UNSUPPORT then do {
        a2 \<leftarrow> dpaco_thfree a1; Some (False, None, c\<lparr>ca := a2\<rparr>) }
      else if init then do {
        (ev, a2) \<leftarrow> dpaco_wrap (Some RUN_APP) fargs 0 new moved a1;
        Some (True, Some ev, c\<lparr>ca := a2\<rparr>) }
      else Some (True, None, c\<lparr>ca := a1\<rparr>))"

text \<open>After the step of the main stack: \<open>mstep\<close> is what the step function of the type returned.\<close>

definition after_mstep :: "dpret option \<Rightarrow> ('d, 's) cwc \<Rightarrow> bool \<times> ('d, 's) cwc" where
  "after_mstep mstep c =
     (case mstep of
        None \<Rightarrow> (True, c)
      | Some r \<Rightarrow> if r \<ge> 0 then (True, c\<lparr>step_toms := r\<rparr>) else (False, c))"

definition thread_end :: "bool \<Rightarrow> ('d, 's) cwc \<Rightarrow> ('d, 's) cwc option" where
  "thread_end has_exit c = do {
     a1 \<leftarrow> dpaco_thfree (ca c);
     Some ((if has_exit then c\<lparr>usrdata := DPV64_NULL\<rparr> else c)\<lparr>ca := a1\<rparr>) }"

definition dpcwc_usrdata :: "('d, 's) cwc \<Rightarrow> dpv64" where
  "dpcwc_usrdata c = usrdata c"

definition dpcwc_set_step_timeout :: "int \<Rightarrow> ('d, 's) cwc \<Rightarrow> ('d, 's) cwc" where
  "dpcwc_set_step_timeout ms c = c\<lparr>step_toms := ms\<rparr>"

section \<open>Waiting\<close>

text \<open>
  A call that may wait ends at once with a result (\<open>Now\<close>), or in a switch: then it returns
  \<open>v64_ret\<close> of the value with which its coroutine is resumed.
\<close>

datatype wait_res = Now dpret | Switch aevent

definition dpcwc_await :: "('d, 's) cwc \<Rightarrow> nat \<Rightarrow> dpv64 \<Rightarrow> (wait_res \<times> ('d, 's) cwc) option" where
  "dpcwc_await c a yield_msg = do {
     e \<leftarrow> eles (cw c) a;
     let (e1, waits) = dpele_wait e (ptr_word (dpaco_running (ca c)));
     if waits then do {
       (ev, a') \<leftarrow> dpaco_yield yield_msg (ca c);
       Some (Switch ev, c\<lparr>cw := put_ele (cw c) a e1, ca := a'\<rparr>) }
     else Some (Now (dpele_ret e), c) }"

definition dpcwc_cease ::
  "('d, 's) cwc \<Rightarrow> nat \<Rightarrow> dpret \<Rightarrow> (dpret \<times> aevent option \<times> ('d, 's) cwc) option" where
  "dpcwc_cease c a r = do {
     e \<leftarrow> eles (cw c) a;
     (w1, r1) \<leftarrow> dpevp_end (cw c) a r;
     (case co_ptr (cop e) of
        Some p \<Rightarrow>
          if dpret_isok r1 then do {
            (ev, a') \<leftarrow> dpaco_resume (Some p) (ret64 r) (ca c);
            Some (r1, Some ev, c\<lparr>cw := w1, ca := a'\<rparr>) }
          else Some (r1, None, c\<lparr>cw := w1\<rparr>)
      | None \<Rightarrow> Some (r1, None, c\<lparr>cw := w1\<rparr>)) }"

definition long_wait :: "rat \<Rightarrow> rat" where
  "long_wait sec = (if sec < 0 then 4294967296 else sec)"

text \<open>\<open>fn\<close> is the address of the callback.\<close>

definition dpcwc_timer ::
  "('d, 's) cwc_env \<Rightarrow> ('d, 's) cwc \<Rightarrow> rat \<Rightarrow> dpv64 \<Rightarrow> bool \<Rightarrow> dpv64
     \<Rightarrow> (dpret \<times> nat option \<times> ('d, 's) cwc) option" where
  "dpcwc_timer R c sec fn want_ptr arg =
     (if fn = 0 then Some (DPE_INVAL, None, c)
      else do {
        (w1, tmr) \<leftarrow> dpele_newv (loop_env R) (cw c) (Some dptmr_init_type) [];
        (case tmr of
           None \<Rightarrow> Some (errno w1, None, c\<lparr>cw := w1\<rparr>)
         | Some t \<Rightarrow> do {
             (w2, r) \<leftarrow> dpevp_addv (loop_env R) w1 (Some t) (Some (timeout_asc R))
                [Vdbl (long_wait sec), Vw64 fn, Vw64 arg];
             if r \<noteq> DPE_WAIT then do {
               w3 \<leftarrow> dpele_del (loop_env R) w2 (Some t);
               Some (r, None, c\<lparr>cw := w3\<rparr>) }
             else if want_ptr then do {
               w3 \<leftarrow> dpele_ref w2 t;
               Some (DPE_OK, Some t, c\<lparr>cw := w3\<rparr>) }
             else Some (DPE_OK, None, c\<lparr>cw := w2\<rparr>) }) })"

text \<open>The first half of a sleep also gives the timer that its second half deletes.\<close>

definition dpcwc_sleep ::
  "('d, 's) cwc_env \<Rightarrow> ('d, 's) cwc \<Rightarrow> rat \<Rightarrow> dpv64 \<Rightarrow> (wait_res \<times> nat option \<times> ('d, 's) cwc) option" where
  "dpcwc_sleep R c sec yield_msg = do {
     (w1, tmr) \<leftarrow> dpele_newv (loop_env R) (cw c) (Some dptmr_init_type) [];
     (case tmr of
        None \<Rightarrow> Some (Now (errno w1), None, c\<lparr>cw := w1\<rparr>)
      | Some t \<Rightarrow> do {
          (w2, r) \<leftarrow> dpevp_addv (loop_env R) w1 (Some t) (Some (timeout_asc R))
             [Vdbl (long_wait sec), Vw64 DPV64_NULL, Vw64 DPV64_NULL];
          if r \<noteq> DPE_WAIT then do {
            w3 \<leftarrow> dpele_del (loop_env R) w2 (Some t);
            Some (Now r, None, c\<lparr>cw := w3\<rparr>) }
          else do {
            (x, c3) \<leftarrow> dpcwc_await (c\<lparr>cw := w2\<rparr>) t yield_msg;
            (case x of
               Switch ev \<Rightarrow> Some (Switch ev, Some t, c3)
             | Now r \<Rightarrow> do {
                 w4 \<leftarrow> dpele_del (loop_env R) (cw c3) (Some t);
                 Some (Now r, None, c3\<lparr>cw := w4\<rparr>) }) } }) }"

definition sleep_back :: "('d, 's) cwc_env \<Rightarrow> ('d, 's) cwc \<Rightarrow> nat \<Rightarrow> dpv64 \<Rightarrow> (dpret \<times> ('d, 's) cwc) option" where
  "sleep_back R c t v = do {
     w1 \<leftarrow> dpele_del (loop_env R) (cw c) (Some t);
     Some (v64_ret v, c\<lparr>cw := w1\<rparr>) }"

definition dpcwc_aexec ::
  "('d, 's) cwc_env \<Rightarrow> ('d, 's) cwc \<Rightarrow> nat option \<Rightarrow> nat option \<Rightarrow> va_list
     \<Rightarrow> (wait_res \<times> ('d, 's) cwc) option" where
  "dpcwc_aexec R c ele asc vargs = do {
     (w1, r) \<leftarrow> dpevp_addv (loop_env R) (cw c) ele asc vargs;
     if r = DPE_WAIT then do { a \<leftarrow> ele; dpcwc_await (c\<lparr>cw := w1\<rparr>) a DPV64_NULL }
     else Some (Now r, c\<lparr>cw := w1\<rparr>) }"

end
