(* ===== verification/Dpcwc_Props.thy ===== *)
theory Dpcwc_Props
  imports Dpcwc Dpaco_Step Dpctc_Life
begin

text \<open>
  The runtime and its two components together: what a coroutine that waits for an element gets, and
  what happens to one whose element is ended early.
\<close>

section \<open>Values\<close>

lemma v64_ret64 [simp]: "INT_MIN \<le> r \<Longrightarrow> r \<le> INT_MAX \<Longrightarrow> v64_ret (ret64 r) = r"
proof -
  assume "INT_MIN \<le> r" "r \<le> INT_MAX"
  moreover have "ucast (ucast (word_of_int r :: u32) :: dpv64) = (word_of_int r :: u32)"
    by (intro bit_word_eqI) (simp add: bit_simps)
  ultimately show ?thesis
    by (simp add: v64_ret_def ret64_def sint_sbintrunc' signed_take_bit_int_eq_self)
qed

lemma co_ptr_word [simp]: "0 < p \<Longrightarrow> p < 2 ^ 64 \<Longrightarrow> co_ptr (ptr_word (Some p)) = Some p"
proof -
  assume "0 < p" "p < 2 ^ 64"
  then have "unat (of_nat p :: dpv64) = p" "unat (of_nat p :: dpv64) \<noteq> 0"
    by (simp_all add: unat_of_nat)
  then show ?thesis by (auto simp: co_ptr_def ptr_word_def)
qed

section \<open>What the loop hands over\<close>

lemma end_efd:
  assumes g: "gevp w = Some i" and a: "eles w a = Some e" "ty_type (etype e) = DPELE_TYPE_EFD"
    "dpele_is_doing e" "\<not> is_timing e" "prv e = None" "nxt e = None"
    and q: "deque_is w (ready i) []"
  obtains w1 where "dpevp_end w a r = Some (w1, DPE_OK)" "deque_is w1 (ready i) [a]"
    "relinks (put_ele w a (e\<lparr>want_events := DPEVT_NAN, ret := r\<rparr>)) w1"
    "\<forall>x. x \<noteq> a \<longrightarrow> eles w1 x = eles w x"
proof -
  let ?w = "put_ele w a (e\<lparr>want_events := DPEVT_NAN, ret := r\<rparr>)"
  have "deque_is ?w (ready i) []" using q by (simp add: deque_is_def)
  then obtain w1 where w1: "dpele_deque_push_back ?w (ready i) a = Some w1"
    "deque_is w1 (ready i) ([] @ [a])" "touches (set ([] @ [a])) {ready i} ?w w1"
    by (rule push_back_deque [where e = "e\<lparr>want_events := DPEVT_NAN, ret := r\<rparr>"])
      (use a in auto)
  then have "dpevp_end w a r = Some (w1, DPE_OK)"
    using g a by (simp add: dpevp_end_def dptmrset_remove_def)
  then show ?thesis using that w1 touches_relinks touches_eles by fastforce
qed

lemma reap_no_events:
  assumes "ev_index (evps w i) \<ge> ev_count (evps w i)"
  shows "dpevp_reap_ele env DPELE_TYPE_EFD w i = Some (w, None)"
  using assms by (cases "i = 0"; subst dpevp_reap_ele.simps)
    (simp_all add: reap_func_def master_reap_efd_def worker_reap_efd_def)

lemma pop_ready:
  assumes g: "gevp w = Some i" "ev_index (evps w i) \<ge> ev_count (evps w i)"
    "pop_limit (evps w i) < DPEVP_REAP_LIMIT"
    and q: "deque_is w (ready i) (a # xs)"
    and a: "eles w a = Some e" "ty_type (etype e) = DPELE_TYPE_EFD" "dpele_refc e \<noteq> 0" "\<not> is_detach e"
  obtains w' e' where "dpevp_pop env ew w t = Some (w', Some a)" "eles w' a = Some e'"
    "etype e' = etype e" "cop e' = cop e" "ret e' = ret e"
    "\<forall>x. x \<notin> set (a # xs) \<longrightarrow> eles w' x = eles w x"
proof -
  obtain w1 where w1: "dpele_deque_pop_front w (ready i) = Some (w1, Some a)"
    "touches (set (a # xs)) {ready i} w w1" using pop_front_deque [OF q] by metis
  obtain e1 where e1: "eles w1 a = Some e1" "unlink e1 = unlink e"
    using relinks_ele [OF touches_relinks [OF w1(2)] a(1)] by blast
  note f = unlink_fields [OF e1(2)]
  let ?w2 = "put_ele w1 a (e1\<lparr>want_events := 0, asc_type := None\<rparr>)"
  have "dpele_asc_over env w1 a = Some (?w2, True)"
    using e1 a f by (simp add: dpele_asc_over_def asc_over_end_def dpele_refc_def dpele_is_detach_def)
  then have "dpevp_reap_ele env DPELE_TYPE_USD w i = Some (?w2, Some a)"
    using w1(1) by (subst dpevp_reap_ele.simps) (simp add: reap_func_def dpevp_reap_usd_def)
  then have "dpevp_pop env ew w t
      = Some (upd_evp ?w2 i (\<lambda>p. p\<lparr>pop_limit := pop_limit p + 1\<rparr>), Some a)"
    using g by (simp add: dpevp_pop_def reap_no_events)
  then show ?thesis
    using that e1(1) f touches_eles [OF w1(2)] by fastforce
qed

section \<open>Coroutines that wait\<close>

text \<open>A coroutine is parked when it is suspended in a yield and its handle is in use.\<close>

definition parked :: "nat \<Rightarrow> aco_thenv \<Rightarrow> bool" where
  "parked p e \<longleftrightarrow> (\<exists>d. coheap e p = Some d \<and> func d \<noteq> None \<and> costatus d = DPACO_SUSPEND \<and>
     ctx d = In_yield)"

lemma resume_parked:
  assumes I: "aco_inv cs rs e" and p: "parked p e"
  obtains e' where "dpaco_resume (Some p) v e = Some (Ret v, e')" "aco_inv (p # cs) rs e'"
    "dpaco_status_of p e = Some DPACO_SUSPEND"
proof -
  obtain d where d: "coheap e p = Some d" "func d \<noteq> None" "costatus d = DPACO_SUSPEND"
    "ctx d = In_yield" using p by (auto simp: parked_def)
  obtain b f where "resume_at (In_resume p) p v e
      = Some (entered d v, resumed (In_resume p) p v b d f e)"
    "aco_inv (p # cs) rs (resumed (In_resume p) p v b d f e)"
    by (rule resume_inv [OF I d(1,2), of "In_resume p" v]) (use d in auto)
  then show ?thesis using that d by (auto simp: dpaco_resume_def entered_def dpaco_status_of_def)
qed

lemma aco_inv_running: "aco_inv (p # cs) rs e \<Longrightarrow> dpaco_running e = Some p"
  by (auto simp: dpaco_running_def dest: aco_invD(4))

lemma yield_parks:
  assumes I: "aco_inv (p # b # cs) rs e"
  obtains e' rs' where "dpaco_yield v e = Some (Ret v, e')" "aco_inv (b # cs) rs' e'" "parked p e'"
  by (rule leave_inv [OF I, of DPACO_SUSPEND v]) (auto simp: parked_def intro: that)

definition ptr_ok :: "nat \<Rightarrow> bool" where
  "ptr_ok p \<longleftrightarrow> 0 < p \<and> p < 2 ^ 64"

text \<open>An element of a descriptor whose operation is under way and that somebody waits for.\<close>

definition waiting_efd :: "'d dpele \<Rightarrow> bool" where
  "waiting_efd e \<longleftrightarrow> ty_type (etype e) = DPELE_TYPE_EFD \<and> dpele_is_doing e \<and>
     \<not> is_detach e \<and> dpele_refc e \<noteq> 0"

text \<open>A loop with no event left to look at.\<close>

definition quiet :: "('d, 's) world \<Rightarrow> nat \<Rightarrow> bool" where
  "quiet w i \<longleftrightarrow> gevp w = Some i \<and> ev_index (evps w i) \<ge> ev_count (evps w i) \<and>
     pop_limit (evps w i) < DPEVP_REAP_LIMIT"

lemma await_step:
  assumes I: "aco_inv (p # b # cs) rs (ca c)" and a: "eles (cw c) a = Some e" "waiting_efd e"
  obtains a' rs' where "dpcwc_await c a m =
      Some (Switch (Ret m), c\<lparr>cw := put_ele (cw c) a (e\<lparr>cop := ptr_word (Some p)\<rparr>), ca := a'\<rparr>)"
    "aco_inv (b # cs) rs' a'" "parked p a'"
proof -
  obtain a' rs' where y: "dpaco_yield m (ca c) = Some (Ret m, a')" "aco_inv (b # cs) rs' a'" "parked p a'"
    by (rule yield_parks [OF I])
  then show ?thesis
    using that a aco_inv_running [OF I]
    by (auto simp: dpcwc_await_def dpele_wait_def waiting_efd_def)
qed

lemma step_ready:
  assumes I: "aco_inv cs rs (ca c)" and P: "parked p (ca c)" "ptr_ok p"
    and g: "quiet (cw c) i" and q: "deque_is (cw c) (ready i) (a # xs)"
    and a: "eles (cw c) a = Some e" "ty_type (etype e) = DPELE_TYPE_EFD" "dpele_refc e \<noteq> 0"
      "\<not> is_detach e" "cop e = ptr_word (Some p)"
  obtains c' where "thread_main_step R new moved c = Some (True, Some (Ret (ret64 (ret e))), c')"
    "aco_inv (p # cs) rs (ca c')" "\<forall>x. x \<notin> set (a # xs) \<longrightarrow> eles (cw c') x = eles (cw c) x"
proof -
  obtain w' e' where w': "dpevp_pop (loop_env R) (loop_wait R) (cw c) (step_toms c) = Some (w', Some a)"
    "eles w' a = Some e'" "etype e' = etype e" "cop e' = cop e" "ret e' = ret e"
    "\<forall>x. x \<notin> set (a # xs) \<longrightarrow> eles w' x = eles (cw c) x"
    using pop_ready [OF _ _ _ q a(1-4)] g unfolding quiet_def by metis
  obtain a' where r: "dpaco_resume (Some p) (ret64 (ret e)) (ca c) = Some (Ret (ret64 (ret e)), a')"
    "aco_inv (p # cs) rs a'" "dpaco_status_of p (ca c) = Some DPACO_SUSPEND"
    by (rule resume_parked [OF I P(1)])
  show ?thesis
    by (rule that [of "c\<lparr>cw := w', step_toms := - 1, ca := a'\<rparr>"])
      (use w' r a P(2) in \<open>simp_all add: thread_main_step_def resume_waiting_def dpele_ret_def ptr_ok_def\<close>)
qed

section \<open>Properties\<close>


text \<open>A thread with its main stack and a suspended coroutine, and two descriptors in use.\<close>

definition cwc_type :: dpele_type where
  "cwc_type = \<lparr>ty_name = ''tcp'', ty_type = DPELE_TYPE_EFD, ty_size = 0, ty_iotype = DPAIO_TYPE_SKT,
     ty_events = 31, ty_init = None, ty_copy = None, ty_fini = None\<rparr>"

definition cwc_ele :: "unit dpele" where
  "cwc_ele = (ele_zero cwc_type)\<lparr>asc_type := Some 7, cop := ptr_word (Some 2), ret := DPE_INPROGRESS\<rparr>"

definition cwc_world :: "(unit, unit) world" where
  "cwc_world = \<lparr>eles = [11 \<mapsto> cwc_ele, 12 \<mapsto> cwc_ele\<lparr>cop := 0\<rparr>], ele_brk = 15,
     deqs = (\<lambda>_. \<lparr>dq_head = None, dq_tail = None\<rparr>), evps = (\<lambda>i. dpevp_zero\<lparr>evp_id := i\<rparr>),
     gevp = Some 2, gcount = 3, type_count = 2, each_count = [1, 2], each_ids = [[0], [1, 2]],
     eventfd = (\<lambda>_. 0), interest = (\<lambda>_ _. None), wake_interest = (\<lambda>_. None), fd_flags = (\<lambda>_. None),
     closed = [], errno = 0, clock = (\<lambda>_. 1000), clock_reads = 0, mem_ok = (\<lambda>_. True), mem_calls = 0,
     sys_err = (\<lambda>_. None), sys_calls = 0, ext = ()\<rparr>"

definition ready_world :: "(unit, unit) world" where
  "ready_world = cwc_world\<lparr>eles := [11 \<mapsto> cwc_ele\<lparr>ret := 5\<rparr>],
     deqs := (\<lambda>_. \<lparr>dq_head = Some 11, dq_tail = Some 11\<rparr>)\<rparr>"

definition cwc_aco :: "bool \<Rightarrow> aco_thenv" where
  "cwc_aco inside = \<lparr>comain = Some 1, cocurr = Some (if inside then 2 else 1), recycle = None,
     recycle_count = 0, costack_size = 1024, coheap = [
       1 \<mapsto> (co_calloc 0)\<lparr>costatus := (if inside then DPACO_SUSPEND else DPACO_RUNNING),
              ctx := In_resume 2\<rparr>,
       2 \<mapsto> (co_calloc 8192)\<lparr>func := Some 9, ctx := In_yield, lnk := Some 1,
              costatus := (if inside then DPACO_RUNNING else DPACO_SUSPEND)\<rparr>]\<rparr>"

lemma cwc_aco_inv: "aco_inv [1] [] (cwc_aco False)" "aco_inv [2, 1] [] (cwc_aco True)"
  by (intro aco_invI;
      auto simp: cwc_aco_def on_chain_def idle_def co_calloc_def split: if_splits)+

definition cwc_rt :: "(unit, unit) cwc_env" where
  "cwc_rt = \<lparr>loop_env = \<lparr>ascs = (\<lambda>_. dpctc_submit (\<lambda>_ _. ())), fn_init = (\<lambda>_ _ _ w. Some (w, 0)),
       fn_copy = (\<lambda>_ xs. (xs, 0)), fn_fini = (\<lambda>_ _ w. w)\<rparr>,
     loop_wait = (\<lambda>_ _ _ w. (w, Some [])), get_slots = (\<lambda>_. Some (0, 0)),
     timeout_asc = 5, submit_asc = 6, ctc_init_fn = 0\<rparr>"

definition cwc_state :: "(unit, unit) world \<Rightarrow> bool \<Rightarrow> (unit, unit) cwc" where
  "cwc_state w inside = \<lparr>cw = w, ca = cwc_aco inside, step_toms = - 1, usrdata = 0\<rparr>"

lemma cwc_state_facts:
  "parked 2 (cwc_aco False)" "ptr_ok 2" "quiet cwc_world 2" "quiet ready_world 2"
  "eles cwc_world 11 = Some cwc_ele" "eles cwc_world 12 = Some (cwc_ele\<lparr>cop := 0\<rparr>)"
  "eles ready_world 11 = Some (cwc_ele\<lparr>ret := 5\<rparr>)"
  "waiting_efd cwc_ele" "cop cwc_ele = ptr_word (Some 2)" "\<not> is_timing cwc_ele"
  "prv cwc_ele = None" "nxt cwc_ele = None"
  "deque_is cwc_world (ready 2) []" "deque_is ready_world (ready 2) [11]"
  by (simp_all add: parked_def ptr_ok_def quiet_def cwc_world_def ready_world_def cwc_aco_def
      co_calloc_def cwc_ele_def cwc_type_def ele_zero_def waiting_efd_def dpele_is_doing_def
      dpele_refc_def deque_is_def first_or_def last_or_def dpevp_zero_def)

lemma waiting_efd_upd: "waiting_efd (e\<lparr>cop := x\<rparr>) = waiting_efd e" "waiting_efd (e\<lparr>ret := r\<rparr>) = waiting_efd e"
  by (simp_all add: waiting_efd_def dpele_is_doing_def dpele_refc_def)


text \<open>
  C37. A coroutine whose element is ended early is resumed twice: once by the call that ends the
  element, and once by the step of the main stack that later finds the element in the ready queue;
  a wait for another element it has begun in between returns with the result of the first, while
  the operation of that other element goes on.
\<close>

theorem cease_wakes_twice:
  assumes I: "aco_inv cs rs (ca c)" and p: "parked p (ca c)" "ptr_ok p" and g: "quiet (cw c) i"
    and a: "eles (cw c) a = Some e" "waiting_efd e" "cop e = ptr_word (Some p)"
      "\<not> is_timing e" "prv e = None" "nxt e = None" "deque_is (cw c) (ready i) []"
    and b: "eles (cw c) b = Some f" "waiting_efd f" "b \<noteq> a"
  shows "\<exists>c1 c2 c3 f3. dpcwc_cease c a r = Some (DPE_OK, Some (Ret (ret64 r)), c1) \<and>
    dpaco_running (ca c1) = Some p \<and>
    dpcwc_await c1 b DPV64_NULL = Some (Switch (Ret DPV64_NULL), c2) \<and>
    thread_main_step R new moved c2 = Some (True, Some (Ret (ret64 r)), c3) \<and>
    dpaco_running (ca c3) = Some p \<and> eles (cw c3) b = Some f3 \<and> dpele_is_doing f3"
proof -
  have gi: "gevp (cw c) = Some i" using g by (simp add: quiet_def)
  obtain w1 where w1: "dpevp_end (cw c) a r = Some (w1, DPE_OK)" "deque_is w1 (ready i) [a]"
    "relinks (put_ele (cw c) a (e\<lparr>want_events := DPEVT_NAN, ret := r\<rparr>)) w1"
    "\<forall>x. x \<noteq> a \<longrightarrow> eles w1 x = eles (cw c) x"
    by (rule end_efd [OF gi a(1) _ _ a(4-7)]) (use a(2) in \<open>auto simp: waiting_efd_def\<close>)
  obtain e1 where e1: "eles w1 a = Some e1" "unlink e1 = unlink (e\<lparr>want_events := DPEVT_NAN, ret := r\<rparr>)"
    using relinks_ele [OF w1(3), of a "e\<lparr>want_events := DPEVT_NAN, ret := r\<rparr>"] by auto
  note u = unlink_fields [OF e1(2)]
  obtain a1 where r1: "dpaco_resume (Some p) (ret64 r) (ca c) = Some (Ret (ret64 r), a1)"
    "aco_inv (p # cs) rs a1" by (rule resume_parked [OF I p(1)])
  let ?c1 = "c\<lparr>cw := w1, ca := a1\<rparr>"
  have c1: "dpcwc_cease c a r = Some (DPE_OK, Some (Ret (ret64 r)), ?c1)"
    using a(1,3) w1(1) r1(1) p(2) by (simp add: dpcwc_cease_def ptr_ok_def dpret_isok_def)
  obtain m ms where cs: "cs = m # ms" using aco_invD(1) [OF I] by (cases cs) auto
  have b1: "eles (cw ?c1) b = Some f" using w1(4) b by simp
  have I1: "aco_inv (p # m # ms) rs (ca ?c1)" using r1(2) cs by simp
  obtain a2 rs2 where c2: "dpcwc_await ?c1 b DPV64_NULL = Some (Switch (Ret DPV64_NULL),
      ?c1\<lparr>cw := put_ele (cw ?c1) b (f\<lparr>cop := ptr_word (Some p)\<rparr>), ca := a2\<rparr>)"
    "aco_inv (m # ms) rs2 a2" "parked p a2"
    by (rule await_step [OF I1 b1 b(2)])
  let ?c2 = "?c1\<lparr>cw := put_ele (cw ?c1) b (f\<lparr>cop := ptr_word (Some p)\<rparr>), ca := a2\<rparr>"
  have "quiet (cw ?c2) i" using g relinks_fields [OF w1(3)] by (simp add: quiet_def)
  moreover have "deque_is (cw ?c2) (ready i) [a]"
    by (rule deque_is_frame [OF w1(2)]) (use b(3) in auto)
  moreover have "eles (cw ?c2) a = Some e1" using e1(1) b(3) by simp
  moreover have "ty_type (etype e1) = DPELE_TYPE_EFD" "dpele_refc e1 \<noteq> 0" "\<not> is_detach e1"
    "cop e1 = ptr_word (Some p)" "ret e1 = r"
    using u a(2,3) by (auto simp: waiting_efd_def dpele_refc_def)
  ultimately obtain c3 where c3: "thread_main_step R new moved ?c2 = Some (True, Some (Ret (ret64 r)), c3)"
    "aco_inv (p # m # ms) rs2 (ca c3)" "\<forall>x. x \<notin> set [a] \<longrightarrow> eles (cw c3) x = eles (cw ?c2) x"
    using step_ready [of "m # ms" rs2 ?c2 p i a "[]" e1 R new moved] c2(2,3) p(2) by auto
  have "eles (cw c3) b = Some (f\<lparr>cop := ptr_word (Some p)\<rparr>)" using c3(3) b(3) by simp
  moreover have "dpele_is_doing (f\<lparr>cop := ptr_word (Some p)\<rparr>)"
    using b(2) by (simp add: waiting_efd_def dpele_is_doing_def)
  ultimately show ?thesis
    using c1 c2(1) c3(1) aco_inv_running [OF I1] aco_inv_running [OF c3(2)] by blast
qed

lemma cease_wakes_twice_witness:
  "\<exists>c1 c2 c3 f3. dpcwc_cease (cwc_state cwc_world False) 11 (- 125) =
      Some (DPE_OK, Some (Ret (ret64 (- 125))), c1) \<and>
    dpaco_running (ca c1) = Some 2 \<and>
    dpcwc_await c1 12 DPV64_NULL = Some (Switch (Ret DPV64_NULL), c2) \<and>
    thread_main_step cwc_rt None None c2 = Some (True, Some (Ret (ret64 (- 125))), c3) \<and>
    dpaco_running (ca c3) = Some 2 \<and> eles (cw c3) 12 = Some f3 \<and> dpele_is_doing f3"
  using cease_wakes_twice [of "[1]" "[]" "cwc_state cwc_world False" 2 2 11 cwc_ele 12
      "cwc_ele\<lparr>cop := 0\<rparr>" "- 125" cwc_rt None None] cwc_aco_inv cwc_state_facts
  by (simp add: cwc_state_def waiting_efd_upd)

end
