(* ===== verification/Dpcwc_Aux.thy ===== *)
theory Dpcwc_Aux
  imports Dpcwc
begin

text \<open>
  The helpers over the runtime (\<^verbatim>\<open>dpcwc_aux.c\<close>): clients, listeners and accepted connections, the
  servers of a list of parameters, and calls to other threads.  They run in a coroutine and wait for
  elements several times, so each is a resumption over the world of the loops: it is over with a
  result, or it waits for an element and says how it goes on from the value with which it is
  resumed and the world at that time.  A function takes what follows it as its last argument but
  the world.  \<open>self\<close> is the pointer of the running coroutine, which a wait stores in the element.
\<close>

section \<open>Resumptions\<close>

datatype ('s, 'a) cores = Over 'a | Wait nat "dpret \<Rightarrow> 's \<Rightarrow> ('s \<times> ('s, 'a) cores) option"

type_synonym ('d, 's, 'a) coproc = "('d, 's) world \<Rightarrow> (('d, 's) world \<times> (('d, 's) world, 'a) cores) option"

definition co_await ::
  "dpv64 \<Rightarrow> nat \<Rightarrow> (dpret \<Rightarrow> ('d, 's, 'a) coproc) \<Rightarrow> ('d, 's, 'a) coproc" where
  "co_await self a k w = do {
     e \<leftarrow> eles w a;
     let (e1, waits) = dpele_wait e self;
     if waits then Some (put_ele w a e1, Wait a k) else k (dpele_ret e) w }"

definition co_aexec ::
  "('d, 's) env \<Rightarrow> dpv64 \<Rightarrow> nat \<Rightarrow> nat \<Rightarrow> va_list \<Rightarrow> (dpret \<Rightarrow> ('d, 's, 'a) coproc) \<Rightarrow> ('d, 's, 'a) coproc" where
  "co_aexec env self a asc vargs k w = do {
     (w1, r) \<leftarrow> dpevp_addv env w (Some a) (Some asc) vargs;
     if r = DPE_WAIT then co_await self a k w1 else k r w1 }"

text \<open>The wait of the runtime and the wait of a resumption are the same step.\<close>

lemma co_await_runtime:
  assumes "dpcwc_await c a y = Some (x, c1)"
  shows "case x of
      Switch ev \<Rightarrow> co_await (ptr_word (dpaco_running (ca c))) a k (cw c) = Some (cw c1, Wait a k)
    | Now r \<Rightarrow> co_await (ptr_word (dpaco_running (ca c))) a k (cw c) = k r (cw c)"
  using assms
  by (auto simp: dpcwc_await_def co_await_def split: bind_splits prod.splits if_splits)

section \<open>Endpoints\<close>

text \<open>The types and operations the helpers use; \<open>ssl\<close> is whether TLS was built in.\<close>

record aux_env =
  tcp_client_ty :: dpele_type
  tcp_listen_ty :: dpele_type
  tcp_server_ty :: dpele_type
  uds_client_ty :: dpele_type
  uds_listen_ty :: dpele_type
  uds_server_ty :: dpele_type
  ssl_client_ty :: dpele_type
  ssl_server_ty :: dpele_type
  qic_listen_ty :: dpele_type
  ctc_ty :: dpele_type
  connect_asc :: nat
  accept_asc :: nat
  qic_accept_asc :: nat
  call_asc :: nat
  ssl_enable :: bool

text \<open>Both the result and the element that a client or server function stores on success.\<close>

type_synonym ep = "dpret \<times> nat option"

definition client_of ::
  "dpele_type \<Rightarrow> ('d, 's) env \<Rightarrow> aux_env \<Rightarrow> dpv64 \<Rightarrow> va_list \<Rightarrow> (ep \<Rightarrow> ('d, 's, 'a) coproc) \<Rightarrow> ('d, 's, 'a) coproc"
where
  "client_of ty env A self args k w = do {
     (w1, cet) \<leftarrow> dpele_newv env w (Some ty) args;
     (case cet of
        None \<Rightarrow> k (errno w1, None) w1
      | Some a \<Rightarrow>
          co_aexec env self a (connect_asc A) [Vptr (Some (Pobj a 0))]
            (\<lambda>r w2. if dpret_isok r then k (DPE_OK, Some a) w2
                    else do { w3 \<leftarrow> dpele_del env w2 (Some a); k (r, None) w3 }) w1) }"

definition dpcwc_tcp_client ::
  "('d, 's) env \<Rightarrow> aux_env \<Rightarrow> dpv64 \<Rightarrow> va_list \<Rightarrow> (ep \<Rightarrow> ('d, 's, 'a) coproc) \<Rightarrow> ('d, 's, 'a) coproc" where
  "dpcwc_tcp_client env A = client_of (tcp_client_ty A) env A"

definition dpcwc_uds_client ::
  "('d, 's) env \<Rightarrow> aux_env \<Rightarrow> dpv64 \<Rightarrow> va_list \<Rightarrow> (ep \<Rightarrow> ('d, 's, 'a) coproc) \<Rightarrow> ('d, 's, 'a) coproc" where
  "dpcwc_uds_client env A = client_of (uds_client_ty A) env A"

definition listen_of ::
  "dpele_type \<Rightarrow> ('d, 's) env \<Rightarrow> va_list \<Rightarrow> ('d, 's) world \<Rightarrow> (('d, 's) world \<times> ep) option" where
  "listen_of ty env args w = do {
     (w1, lsn) \<leftarrow> dpele_newv env w (Some ty) args;
     Some (w1, case lsn of None \<Rightarrow> (errno w1, None) | Some a \<Rightarrow> (DPE_OK, Some a)) }"

definition dpcwc_tcp_listen ::
  "('d, 's) env \<Rightarrow> aux_env \<Rightarrow> va_list \<Rightarrow> ('d, 's) world \<Rightarrow> (('d, 's) world \<times> ep) option" where
  "dpcwc_tcp_listen env A = listen_of (tcp_listen_ty A) env"

definition dpcwc_uds_listen ::
  "('d, 's) env \<Rightarrow> aux_env \<Rightarrow> va_list \<Rightarrow> ('d, 's) world \<Rightarrow> (('d, 's) world \<times> ep) option" where
  "dpcwc_uds_listen env A = listen_of (uds_listen_ty A) env"

text \<open>\<open>addr\<close> is the local variable the peer's address is accepted into.\<close>

definition accept_of ::
  "dpele_type \<Rightarrow> ('d, 's) env \<Rightarrow> aux_env \<Rightarrow> dpv64 \<Rightarrow> nat \<Rightarrow> ptr \<Rightarrow> (ep \<Rightarrow> ('d, 's, 'a) coproc) \<Rightarrow> ('d, 's, 'a) coproc"
where
  "accept_of ty env A self listener addr k =
     co_aexec env self listener (accept_asc A) [Vptr (Some addr)]
       (\<lambda>r w. if dpret_iserr r then k (r, None) w
              else do {
                (w1, svr) \<leftarrow> dpele_newv env w (Some ty) [Vint r, Vptr (Some addr)];
                (case svr of
                   None \<Rightarrow> k (errno w1, None) w1
                 | Some a \<Rightarrow> k (DPE_OK, Some a) w1) })"

definition dpcwc_tcp_accept ::
  "('d, 's) env \<Rightarrow> aux_env \<Rightarrow> dpv64 \<Rightarrow> nat \<Rightarrow> ptr \<Rightarrow> (ep \<Rightarrow> ('d, 's, 'a) coproc) \<Rightarrow> ('d, 's, 'a) coproc" where
  "dpcwc_tcp_accept env A = accept_of (tcp_server_ty A) env A"

definition dpcwc_uds_accept ::
  "('d, 's) env \<Rightarrow> aux_env \<Rightarrow> dpv64 \<Rightarrow> nat \<Rightarrow> ptr \<Rightarrow> (ep \<Rightarrow> ('d, 's, 'a) coproc) \<Rightarrow> ('d, 's, 'a) coproc" where
  "dpcwc_uds_accept env A = accept_of (uds_server_ty A) env A"

text \<open>
  A TLS element over the element of the connection.  When it cannot be made the result is
  \<open>errno\<close> as it is after the deletion of that element.
\<close>

definition ssl_over ::
  "dpele_type \<Rightarrow> ('d, 's) env \<Rightarrow> va_list \<Rightarrow> (ep \<Rightarrow> ('d, 's, 'a) coproc) \<Rightarrow> ep \<Rightarrow> ('d, 's, 'a) coproc" where
  "ssl_over ty env args k x w =
     (if dpret_iserr (fst x) then k (fst x, None) w
      else do {
        (w1, ssl) \<leftarrow> dpele_newv env w (Some ty)
           (Vptr (map_option (\<lambda>a. Pobj a 0) (snd x)) # args);
        (case ssl of
           None \<Rightarrow> do { w2 \<leftarrow> dpele_del env w1 (snd x); k (errno w2, None) w2 }
         | Some s \<Rightarrow> k (DPE_OK, Some s) w1) })"

definition dpcwc_ssl_client ::
  "('d, 's) env \<Rightarrow> aux_env \<Rightarrow> dpv64 \<Rightarrow> va_list \<Rightarrow> va_list \<Rightarrow> (ep \<Rightarrow> ('d, 's, 'a) coproc) \<Rightarrow> ('d, 's, 'a) coproc" where
  "dpcwc_ssl_client env A self tcp_args ssl_args k =
     dpcwc_tcp_client env A self tcp_args (ssl_over (ssl_client_ty A) env ssl_args k)"

definition dpcwc_ssl_accept ::
  "('d, 's) env \<Rightarrow> aux_env \<Rightarrow> dpv64 \<Rightarrow> nat \<Rightarrow> ptr \<Rightarrow> va_list \<Rightarrow> (ep \<Rightarrow> ('d, 's, 'a) coproc) \<Rightarrow> ('d, 's, 'a) coproc" where
  "dpcwc_ssl_accept env A self listener addr ssl_args k =
     dpcwc_tcp_accept env A self listener addr (ssl_over (ssl_server_ty A) env ssl_args k)"

section \<open>Servers\<close>

record ('d, 's) server_param =
  sp_type :: "string option"
  sp_host :: "string option"
  sp_args :: va_list
  sp_ssl :: "va_list option"
  sp_start :: "(nat option \<Rightarrow> ('d, 's) world \<Rightarrow> ('d, 's) world option) option"

text \<open>
  One turn of an accept loop; \<open>start\<close> is what the coroutine of a connection does until it waits or
  ends, and \<open>again\<close> the next turn.
\<close>

definition accept_turn ::
  "('d, 's) env \<Rightarrow> (nat option \<Rightarrow> ('d, 's) world \<Rightarrow> ('d, 's) world option) \<Rightarrow> nat
     \<Rightarrow> ('d, 's, dpret) coproc \<Rightarrow> ep \<Rightarrow> ('d, 's, dpret) coproc" where
  "accept_turn env start listener again x w =
     (if dpret_iserr (fst x) then do {
        w1 \<leftarrow> dpele_del env w (Some listener);
        Some (w1, Over (fst x)) }
      else do { w1 \<leftarrow> start (snd x) w; again w1 })"

text \<open>The loops, for a number of turns after which the model stops to look; the code has no bound.\<close>

primrec tcp_accept_loop_run ::
  "nat \<Rightarrow> ('d, 's) env \<Rightarrow> aux_env \<Rightarrow> dpv64 \<Rightarrow> nat \<Rightarrow> ptr \<Rightarrow> va_list option
     \<Rightarrow> (nat option \<Rightarrow> ('d, 's) world \<Rightarrow> ('d, 's) world option) \<Rightarrow> ('d, 's, dpret) coproc" where
  "tcp_accept_loop_run 0 env A self listener addr ssl start = (\<lambda>w. Some (w, Over DPE_INPROGRESS))"
| "tcp_accept_loop_run (Suc n) env A self listener addr ssl start =
     (case ssl of
        Some ssl_args \<Rightarrow> dpcwc_ssl_accept env A self listener addr ssl_args
          (accept_turn env start listener (tcp_accept_loop_run n env A self listener addr ssl start))
      | None \<Rightarrow> dpcwc_tcp_accept env A self listener addr
          (accept_turn env start listener (tcp_accept_loop_run n env A self listener addr ssl start)))"

primrec uds_accept_loop_run ::
  "nat \<Rightarrow> ('d, 's) env \<Rightarrow> aux_env \<Rightarrow> dpv64 \<Rightarrow> nat \<Rightarrow> ptr
     \<Rightarrow> (nat option \<Rightarrow> ('d, 's) world \<Rightarrow> ('d, 's) world option) \<Rightarrow> ('d, 's, dpret) coproc" where
  "uds_accept_loop_run 0 env A self listener addr start = (\<lambda>w. Some (w, Over DPE_INPROGRESS))"
| "uds_accept_loop_run (Suc n) env A self listener addr start =
     dpcwc_uds_accept env A self listener addr
       (accept_turn env start listener (uds_accept_loop_run n env A self listener addr start))"

text \<open>\<open>conn\<close> reads the local variable into which the operation stores the connection.\<close>

primrec qic_accept_loop_run ::
  "nat \<Rightarrow> ('d, 's) env \<Rightarrow> aux_env \<Rightarrow> dpv64 \<Rightarrow> nat \<Rightarrow> ptr \<Rightarrow> (('d, 's) world \<Rightarrow> nat option)
     \<Rightarrow> (nat option \<Rightarrow> ('d, 's) world \<Rightarrow> ('d, 's) world option) \<Rightarrow> ('d, 's, dpret) coproc" where
  "qic_accept_loop_run 0 env A self listener addr conn start = (\<lambda>w. Some (w, Over DPE_INPROGRESS))"
| "qic_accept_loop_run (Suc n) env A self listener addr conn start =
     co_aexec env self listener (qic_accept_asc A) [Vptr (Some addr)]
       (\<lambda>r w. accept_turn env start listener
          (qic_accept_loop_run n env A self listener addr conn start) (r, conn w) w)"

text \<open>
  The start of one server.  \<open>run\<close> is what the coroutine of the accept loop does with a listener
  until it waits.
\<close>

definition start_tcp ::
  "('d, 's) env \<Rightarrow> aux_env \<Rightarrow> (nat \<Rightarrow> ('d, 's) world \<Rightarrow> ('d, 's) world option) \<Rightarrow> ('d, 's) server_param
     \<Rightarrow> ('d, 's) world \<Rightarrow> (('d, 's) world \<times> dpret) option" where
  "start_tcp env A run p w =
     (if \<not> ssl_enable A \<and> sp_ssl p \<noteq> None then Some (w, DPE_UNSUPPORT)
      else do {
        (w1, r, listener) \<leftarrow> dpcwc_tcp_listen env A (sp_args p) w;
        (case listener of
           None \<Rightarrow> Some (w1, r)
         | Some l \<Rightarrow> if dpret_iserr r then Some (w1, r) else do { w2 \<leftarrow> run l w1; Some (w2, DPE_OK) }) })"

definition start_uds ::
  "('d, 's) env \<Rightarrow> aux_env \<Rightarrow> (nat \<Rightarrow> ('d, 's) world \<Rightarrow> ('d, 's) world option) \<Rightarrow> ('d, 's) server_param
     \<Rightarrow> ('d, 's) world \<Rightarrow> (('d, 's) world \<times> dpret) option" where
  "start_uds env A run p w = do {
     (w1, r, listener) \<leftarrow> dpcwc_uds_listen env A (sp_args p) w;
     (case listener of
        None \<Rightarrow> Some (w1, r)
      | Some l \<Rightarrow> if dpret_iserr r then Some (w1, r) else do { w2 \<leftarrow> run l w1; Some (w2, DPE_OK) }) }"

text \<open>\<open>add_engine\<close> is \<open>dpqic_add_engine\<close> for the group of the parameters.\<close>

definition start_qic ::
  "('d, 's) env \<Rightarrow> aux_env \<Rightarrow> (nat \<Rightarrow> ('d, 's) world \<Rightarrow> ('d, 's) world option)
     \<Rightarrow> (va_list \<Rightarrow> ('d, 's) world \<Rightarrow> ('d, 's) world \<times> dpret) \<Rightarrow> ('d, 's) server_param
     \<Rightarrow> ('d, 's) world \<Rightarrow> (('d, 's) world \<times> dpret) option" where
  "start_qic env A run add_engine p w =
     (case sp_ssl p of
        None \<Rightarrow> Some (w, DPE_INVAL)
      | Some grp \<Rightarrow>
          let (w1, r) = add_engine grp w in
          if dpret_iserr r then Some (w1, r)
          else do {
            (w2, listener) \<leftarrow> dpele_newv env w1 (Some (qic_listen_ty A)) (grp @ sp_args p);
            (case listener of
               None \<Rightarrow> Some (w2, errno w2)
             | Some l \<Rightarrow> do { w3 \<leftarrow> run l w2; Some (w3, DPE_OK) }) })"

text \<open>\<open>qic\<close> is present when QUIC was built in.\<close>

definition start_one ::
  "('d, 's) env \<Rightarrow> aux_env \<Rightarrow> (nat \<Rightarrow> ('d, 's) world \<Rightarrow> ('d, 's) world option)
     \<Rightarrow> (va_list \<Rightarrow> ('d, 's) world \<Rightarrow> ('d, 's) world \<times> dpret) option
     \<Rightarrow> ('d, 's) server_param \<Rightarrow> string \<Rightarrow> ('d, 's) world \<Rightarrow> (('d, 's) world \<times> dpret) option" where
  "start_one env A run qic p ty w =
     (if ty = ''tcp'' then start_tcp env A run p w
      else if ty = ''uds'' then start_uds env A run p w
      else case qic of
        Some add_engine \<Rightarrow>
          if ty = ''qic'' then start_qic env A run add_engine p w else Some (w, DPE_INVAL)
      | None \<Rightarrow> Some (w, DPE_INVAL))"

text \<open>The list ends at the first entry without a type.\<close>

fun start_servers ::
  "('d, 's) env \<Rightarrow> aux_env \<Rightarrow> (('d, 's) server_param \<Rightarrow> nat \<Rightarrow> ('d, 's) world \<Rightarrow> ('d, 's) world option)
     \<Rightarrow> (va_list \<Rightarrow> ('d, 's) world \<Rightarrow> ('d, 's) world \<times> dpret) option
     \<Rightarrow> ('d, 's) server_param list \<Rightarrow> int \<Rightarrow> ('d, 's) world \<Rightarrow> (('d, 's) world \<times> int) option" where
  "start_servers env A run qic [] started w = None"
| "start_servers env A run qic (p # ps) started w =
     (case sp_type p of
        None \<Rightarrow> Some (w, started)
      | Some ty \<Rightarrow>
          if sp_start p = None \<or> sp_host p = None then start_servers env A run qic ps started w
          else do {
            (w1, r) \<leftarrow> start_one env A (run p) qic p ty w;
            start_servers env A run qic ps (if dpret_isok r then started + 1 else started) w1 })"

definition dpcwc_server_start ::
  "('d, 's) env \<Rightarrow> aux_env \<Rightarrow> (('d, 's) server_param \<Rightarrow> nat \<Rightarrow> ('d, 's) world \<Rightarrow> ('d, 's) world option)
     \<Rightarrow> (va_list \<Rightarrow> ('d, 's) world \<Rightarrow> ('d, 's) world \<times> dpret) option
     \<Rightarrow> ('d, 's) server_param list option \<Rightarrow> ('d, 's) world \<Rightarrow> (('d, 's) world \<times> dpret) option" where
  "dpcwc_server_start env A run qic params w =
     (case params of None \<Rightarrow> Some (w, DPE_INVAL) | Some ps \<Rightarrow> start_servers env A run qic ps 0 w)"

text \<open>The same as a call of another thread: \<open>arg\<close> points to the list.\<close>

definition dpcwc_server_start_with_task ::
  "('d, 's) env \<Rightarrow> aux_env \<Rightarrow> (('d, 's) server_param \<Rightarrow> nat \<Rightarrow> ('d, 's) world \<Rightarrow> ('d, 's) world option)
     \<Rightarrow> (va_list \<Rightarrow> ('d, 's) world \<Rightarrow> ('d, 's) world \<times> dpret) option
     \<Rightarrow> nat option \<Rightarrow> ('d, 's) server_param list option \<Rightarrow> ('d, 's) world \<Rightarrow> (('d, 's) world \<times> dpret) option" where
  "dpcwc_server_start_with_task env A run qic task arg w =
     (case arg of None \<Rightarrow> Some (w, DPE_INVAL) | Some ps \<Rightarrow> dpcwc_server_start env A run qic (Some ps) w)"

section \<open>Calls to other threads\<close>

definition dpcwc_ctc_once ::
  "('d, 's) env \<Rightarrow> aux_env \<Rightarrow> dpv64 \<Rightarrow> int \<Rightarrow> dpv64 \<Rightarrow> dpv64 \<Rightarrow> (dpret \<Rightarrow> ('d, 's, 'a) coproc)
     \<Rightarrow> ('d, 's, 'a) coproc" where
  "dpcwc_ctc_once env A self to_id fn ro_req k w = do {
     (w1, ctc) \<leftarrow> dpele_newv env w (Some (ctc_ty A)) [Vint to_id, Vint 0];
     (case ctc of
        None \<Rightarrow> k (errno w1) w1
      | Some a \<Rightarrow>
          co_aexec env self a (call_asc A) [Vw64 fn, Vw64 ro_req]
            (\<lambda>r w2. do { w3 \<leftarrow> dpele_del env w2 (Some a); k r w3 }) w1) }"

definition dpcwc_ctc_detach ::
  "('d, 's) env \<Rightarrow> aux_env \<Rightarrow> int \<Rightarrow> dpv64 \<Rightarrow> dpv64 \<Rightarrow> ('d, 's) world \<Rightarrow> (('d, 's) world \<times> dpret) option" where
  "dpcwc_ctc_detach env A to_id fn req w = do {
     (w1, ctc) \<leftarrow> dpele_newv env w (Some (ctc_ty A)) [Vint to_id, Vint 1];
     (case ctc of
        None \<Rightarrow> Some (w1, errno w1)
      | Some a \<Rightarrow> do {
          (w2, r) \<leftarrow> dpevp_addv env w1 (Some a) (Some (call_asc A)) [Vw64 fn, Vw64 req];
          w3 \<leftarrow> dpele_del env w2 (Some a);
          Some (w3, r) }) }"

text \<open>\<open>slots\<close> is the representation of the two words in the scratch data.\<close>

definition dpcwc_ctc_reto ::
  "(dpv64 \<Rightarrow> dpv64 \<Rightarrow> 'd) \<Rightarrow> nat option \<Rightarrow> int \<Rightarrow> dpv64 \<Rightarrow> dpv64 \<Rightarrow> ('d, 's) world
     \<Rightarrow> (('d, 's) world \<times> dpret) option" where
  "dpcwc_ctc_reto slots task to_id fn arg w =
     (case task of
        None \<Rightarrow> Some (w, DPE_INVAL)
      | Some a \<Rightarrow>
          if fn = 0 then Some (w, DPE_INVAL)
          else do {
            e \<leftarrow> eles w a;
            (cap, _) \<leftarrow> asc_data e;
            dpctc_reto (put_ele w a (e\<lparr>asc_data := Some (cap, Some (slots fn arg))\<rparr>)) task to_id })"

text \<open>The loop that submits: the calls under way, oldest first, and the last result.\<close>

fun each_submit ::
  "('d, 's) env \<Rightarrow> aux_env \<Rightarrow> dpv64 \<Rightarrow> dpv64 \<Rightarrow> int list \<Rightarrow> nat list \<Rightarrow> dpret \<Rightarrow> ('d, 's) world
     \<Rightarrow> (('d, 's) world \<times> nat list \<times> dpret) option" where
  "each_submit env A fn ro_req [] ctcs err w = Some (w, ctcs, err)"
| "each_submit env A fn ro_req (to_id # ids) ctcs err w = do {
     (w1, ctc) \<leftarrow> dpele_newv env w (Some (ctc_ty A)) [Vint to_id, Vint 0];
     (case ctc of
        None \<Rightarrow> Some (w1, ctcs, errno w1)
      | Some a \<Rightarrow> do {
          (w2, r) \<leftarrow> dpevp_addv env w1 (Some a) (Some (call_asc A)) [Vw64 fn, Vw64 ro_req];
          if r = DPE_WAIT then each_submit env A fn ro_req ids (ctcs @ [a]) r w2
          else do { w3 \<leftarrow> dpele_del env w2 (Some a); Some (w3, ctcs, r) } }) }"

primrec each_await ::
  "('d, 's) env \<Rightarrow> dpv64 \<Rightarrow> nat list \<Rightarrow> dpret \<Rightarrow> (dpret \<Rightarrow> ('d, 's, 'a) coproc) \<Rightarrow> ('d, 's, 'a) coproc" where
  "each_await env self [] err k = k err"
| "each_await env self (a # as) err k =
     co_await self a (\<lambda>r w. do { w1 \<leftarrow> dpele_del env w (Some a); each_await env self as r k w1 })"

definition dpcwc_ctc_each ::
  "('d, 's) env \<Rightarrow> aux_env \<Rightarrow> dpv64 \<Rightarrow> int \<Rightarrow> dpv64 \<Rightarrow> dpv64 \<Rightarrow> (dpret \<Rightarrow> ('d, 's, 'a) coproc)
     \<Rightarrow> ('d, 's, 'a) coproc" where
  "dpcwc_ctc_each env A self totype fn ro_req k w = do {
     t \<leftarrow> chk_int (abs totype);
     if t \<ge> type_count w then k DPE_INVAL w
     else do {
       tcount \<leftarrow> elem_at (each_count w) t;
       toids \<leftarrow> elem_at (each_ids w) t;
       guard (tcount \<le> int (length toids));
       if tcount = 0 then k DPE_INVAL w
       else
         (let (w1, ok) = try_alloc w in
          if \<not> ok then k DPE_NOMEM w1
          else do {
            (w2, ctcs, err) \<leftarrow> each_submit env A fn ro_req (take (nat tcount) toids) [] DPE_OK w1;
            each_await env self ctcs err k w2 }) } }"

section \<open>Results\<close>

text \<open>
  A run of a resumption to its end: the waits in their order, each with the value it got, in worlds
  the rest of the program left behind.
\<close>

inductive co_run ::
  "'s \<Rightarrow> ('s, 'a) cores \<Rightarrow> (nat \<times> dpret) list \<Rightarrow> 's \<Rightarrow> 'a \<Rightarrow> bool" where
  over: "co_run w (Over x) [] w x"
| wait: "k r w1 = Some (w2, c) \<Longrightarrow> co_run w2 c tr w' x \<Longrightarrow> co_run w (Wait a k) ((a, r) # tr) w' x"

inductive_cases co_run_OverE [elim!]: "co_run w (Over x) tr w' y"

inductive_cases co_run_WaitE [elim!]: "co_run w (Wait a k) tr w' y"

definition finish :: "'a \<Rightarrow> ('d, 's, 'a) coproc" where
  "finish x w = Some (w, Over x)"

lemma co_await_run:
  assumes "co_await self a k w = Some (w1, c)" "co_run w1 c tr w' x"
  obtains r w2 w3 c3 tr' where "k r w2 = Some (w3, c3)" "co_run w3 c3 tr' w' x"
    "tr = (a, r) # tr' \<or> tr = tr' \<and> map_option ret (eles w a) = Some r"
  using assms
  by (auto simp: co_await_def dpele_ret_def dpele_wait_def split: bind_splits prod.splits if_splits
      intro: that)

lemma co_aexec_run:
  assumes "co_aexec env self a asc va k w = Some (w1, c)" "co_run w1 c tr w' x"
  obtains r w2 w3 c3 tr' where "k r w2 = Some (w3, c3)" "co_run w3 c3 tr' w' x"
    "tr = (a, r) # tr' \<or> tr = tr'"
proof -
  obtain w2 r where r: "dpevp_addv env w (Some a) (Some asc) va = Some (w2, r)"
    "(if r = DPE_WAIT then co_await self a k w2 else k r w2) = Some (w1, c)"
    using assms(1) by (auto simp: co_aexec_def split: bind_splits)
  show ?thesis
  proof (cases "r = DPE_WAIT")
    case True
    then have "co_await self a k w2 = Some (w1, c)" using r(2) by simp
    then show ?thesis using co_await_run [OF _ assms(2)] that by metis
  qed (use r(2) assms(2) that in \<open>auto\<close>)
qed

text \<open>
  A client is handed out exactly with success; after a failed connection its element was deleted,
  and when no element could be made the result is \<open>errno\<close>, which is not an error code.
\<close>

lemma tcp_client_result:
  assumes "dpcwc_tcp_client env A self args finish w = Some (w1, c)" "co_run w1 c tr w' (r, cl)"
  shows "(r = DPE_OK \<and> cl \<noteq> None) \<or>
    (\<exists>w2. cl = None \<and> dpele_newv env w (Some (tcp_client_ty A)) args = Some (w2, None) \<and>
       r = errno w2 \<and> w' = w2 \<and> tr = []) \<or>
    (\<exists>a w2. cl = None \<and> dpret_iserr r \<and> dpele_del env w2 (Some a) = Some w')"
proof -
  obtain w2 cet where n: "dpele_newv env w (Some (tcp_client_ty A)) args = Some (w2, cet)"
    using assms(1) by (auto simp: dpcwc_tcp_client_def client_of_def split: bind_splits)
  show ?thesis
  proof (cases cet)
    case None
    then show ?thesis using n assms
      by (auto simp: dpcwc_tcp_client_def client_of_def finish_def)
  next
    case (Some a)
    let ?k = "\<lambda>r w2. if dpret_isok r then finish (DPE_OK, Some a) w2
                    else do { w3 \<leftarrow> dpele_del env w2 (Some a); finish (r, None) w3 }"
    have "co_aexec env self a (connect_asc A) [Vptr (Some (Pobj a 0))] ?k w2 = Some (w1, c)"
      using assms(1) n Some by (simp add: dpcwc_tcp_client_def client_of_def)
    then obtain s w3 w4 c4 tr' where k: "?k s w3 = Some (w4, c4)" "co_run w4 c4 tr' w' (r, cl)"
      by (rule co_aexec_run [OF _ assms(2)])
    show ?thesis
    proof (cases "dpret_isok s")
      case True
      then show ?thesis using k by (auto simp: finish_def)
    next
      case False
      then show ?thesis using k
        by (auto simp: finish_def dpret_isok_def dpret_iserr_def split: bind_splits)
    qed
  qed
qed

text \<open>
  When the second of the calls cannot be made, the result is that of the first: what the submission
  loop ended with is lost as soon as there is a call to wait for.
\<close>

lemma each_await_forgets:
  "each_await env self (a # as) err k w = each_await env self (a # as) err' k w"
  by simp

lemma each_await_last:
  assumes "each_await env self as err finish w = Some (w1, c)" "co_run w1 c tr w' x" "distinct as"
  shows "if as = [] then x = err \<and> tr = []
    else (\<exists>w2. dpele_del env w2 (Some (last as)) = Some w') \<and> fst ` set tr \<subseteq> set as \<and>
      (tr \<noteq> [] \<and> fst (last tr) = last as \<longrightarrow> x = snd (last tr))"
  using assms
proof (induction as arbitrary: err w w1 c tr)
  case Nil
  then show ?case by (auto simp: finish_def)
next
  case (Cons a as)
  let ?k = "\<lambda>r w. do { w1 \<leftarrow> dpele_del env w (Some a); each_await env self as r finish w1 }"
  obtain r w2 w3 c3 tr' where k: "?k r w2 = Some (w3, c3)" "co_run w3 c3 tr' w' x"
    "tr = (a, r) # tr' \<or> tr = tr'"
    using Cons.prems(1,2) by (auto elim: co_await_run)
  obtain w4 where d: "dpele_del env w2 (Some a) = Some w4" "each_await env self as r finish w4 = Some (w3, c3)"
    using k(1) by (auto split: bind_splits)
  have "distinct as" "a \<notin> set as" using Cons.prems(3) by auto
  note IH = Cons.IH [OF d(2) k(2) this(1)]
  show ?case
  proof (cases "as = []")
    case True
    then have "w' = w4" "x = r" "tr' = []" using d(2) k(2) by (auto simp: finish_def)
    then show ?thesis using True d(1) k(3) by auto
  next
    case False
    then have "last as \<noteq> a" using \<open>a \<notin> set as\<close> by (metis last_in_set)
    then show ?thesis using IH False k(3) by (cases "tr' = []") (auto simp: image_subset_iff)
  qed
qed

text \<open>
  A listener that could not be opened counts as started: \<open>dpele_newv\<close> leaves the positive number of
  the system call in \<open>errno\<close>, and that is what the listen function returns.
\<close>

lemma failed_listen_counts:
  assumes "dpele_newv env w (Some (tcp_listen_ty A)) (sp_args p) = Some (w1, None)" "errno w1 \<ge> 0"
    and "sp_type p = Some ''tcp''" "sp_start p \<noteq> None" "sp_host p \<noteq> None" "sp_ssl p = None"
    and "sp_type q = None"
  shows "dpcwc_server_start env A run qic (Some [p, q]) w = Some (w1, 1)"
  using assms
  by (simp add: dpcwc_server_start_def start_one_def start_tcp_def dpcwc_tcp_listen_def listen_of_def
      dpret_isok_def)

text \<open>
  A connection for which no element can be made is handed to the start function as a null pointer,
  and its descriptor is held by nothing.
\<close>

lemma accept_without_element:
  assumes "dpevp_addv env w (Some l) (Some (accept_asc A)) [Vptr (Some addr)] = Some (w1, f)"
    and "0 \<le> f" "f \<noteq> DPE_WAIT"
    and "dpele_newv env w1 (Some (tcp_server_ty A)) [Vint f, Vptr (Some addr)] = Some (w2, None)"
      "errno w2 \<ge> 0" "start None w2 = Some w3"
  shows "tcp_accept_loop_run (Suc n) env A self l addr None start w =
    tcp_accept_loop_run n env A self l addr None start w3"
  using assms
  by (simp add: dpcwc_tcp_accept_def accept_of_def co_aexec_def accept_turn_def dpret_iserr_def)

end
