(* ===== verification/Dpcwc_Start.thy ===== *)
theory Dpcwc_Start
  imports Dpapp_Arg
begin

text \<open>
  The start of a module (\<open>dpcwc_start\<close>): its own options, the search for the library, the name of
  the entry function, and the checks of what the entry function answers.  The dynamic linker and the
  entry function are arguments; \<open>opened\<close> counts the libraries that are open.
\<close>

section \<open>The functions of the C library\<close>

definition ends_with :: "string \<Rightarrow> string \<Rightarrow> bool" where
  "ends_with s ext \<longleftrightarrow> drop (length s - length ext) s = ext"

fun strstr :: "string \<Rightarrow> string \<Rightarrow> nat option" where
  "strstr [] pat = (if pat = [] then Some 0 else None)"
| "strstr (c # cs) pat =
     (if take (length pat) (c # cs) = pat then Some 0 else map_option Suc (strstr cs pat))"

text \<open>\<open>basename\<close> of a path that does not end in a slash.\<close>

definition basename :: "string \<Rightarrow> string" where
  "basename s = rev (takeWhile (\<lambda>c. c \<noteq> CHR ''/'') (rev s))"

text \<open>The canonical path of the node a path names; the tree has no symbolic links.\<close>

definition realpath :: "fsys \<Rightarrow> string \<Rightarrow> string option" where
  "realpath fs path =
     (case lookup fs path of
        Inl _ \<Rightarrow> None
      | Inr (at, _) \<Rightarrow>
          let p = (if at = [] then ''/'' else concat (map (\<lambda>t. CHR ''/'' # t) at))
          in if length p < PATH_MAX then Some p else None)"

section \<open>The options of the runtime\<close>

text \<open>
  The arguments left and the stack size in bytes, which is set as the options are read; the inner
  \<open>Inl\<close> is the end with \<open>DPE_INVAL\<close>.
\<close>

fun stack_args :: "string list \<Rightarrow> int \<Rightarrow> ((unit + string list) \<times> int) option" where
  "stack_args [] sz = Some (Inr [], sz)"
| "stack_args (arg # rest) sz =
     (if arg = ''-s'' \<or> arg = ''--stack_size'' then
        (case rest of
           [] \<Rightarrow> Some (Inl (), sz)
         | v # rest1 \<Rightarrow>
             if take 1 v = ''-'' then Some (Inl (), sz)
             else do {
               n \<leftarrow> atoi v;
               if n \<le> 0 then Some (Inl (), sz)
               else do { b \<leftarrow> chk_int (n * 1024); stack_args rest1 b } })
      else Some (Inr (arg # rest), sz))"

section \<open>The library and its entry function\<close>

definition find_lib :: "fsys \<Rightarrow> string \<Rightarrow> string \<Rightarrow> string option" where
  "find_lib fs root_dir libpath =
     (let tmp1 = snprint_s PATH_MAX (root_dir @ ''/app/'' @ libpath);
          try_one = (\<lambda>p. if is_file fs p then realpath fs p else None)
      in case try_one libpath of Some p \<Rightarrow> Some p | None \<Rightarrow> try_one tmp1)"

text \<open>\<open>dpcwc__\<close> and the name of the file without \<open>lib\<close> in front and without its ending.\<close>

definition entry_symbol :: "string \<Rightarrow> string option" where
  "entry_symbol libpathr =
     (let bname = basename libpathr in
      case strstr bname ''.so'' of
        None \<Rightarrow> None
      | Some n \<Rightarrow>
          let start = (if take 3 bname = ''lib'' then 3 else 0);
              symb = ''dpcwc__'' @ take (n - start) (drop start bname)
          in if length symb \<ge> 256 then None else Some symb)"

text \<open>
  \<open>dlopen\<close> gives a library or fails, \<open>dlsym\<close> the entry function of a name, which fills the table of
  thread types and answers their number; \<open>start\<close> is \<open>dpapp_start\<close> with that number.
\<close>

record 'l linker =
  dlopen :: "string \<Rightarrow> 'l option"
  dlsym :: "'l \<Rightarrow> string \<Rightarrow> (string list \<Rightarrow> int) option"

definition load_module ::
  "'l linker \<Rightarrow> string \<Rightarrow> string \<Rightarrow> string list \<Rightarrow> (int \<Rightarrow> dpret) \<Rightarrow> int \<Rightarrow> dpret \<times> int" where
  "load_module L libpathr symb argv start opened =
     (case dlopen L libpathr of
        None \<Rightarrow> (DPE_INVAL, opened)
      | Some handle \<Rightarrow>
          let opened1 = opened + 1 in
          (case dlsym L handle symb of
             None \<Rightarrow> (DPE_INVAL, opened1 - 1)
           | Some load_func \<Rightarrow>
               let count = load_func argv in
               if count \<le> 0 \<or> count > int DPAPP_TYPE_MAX then (DPE_INVAL, opened1 - 1)
               else (start count, opened1 - 1)))"

text \<open>The result with the stack size that is in force.\<close>

definition dpcwc_start ::
  "'l linker \<Rightarrow> fsys \<Rightarrow> string list option \<Rightarrow> string option \<Rightarrow> (int \<Rightarrow> int \<Rightarrow> dpret) \<Rightarrow> int \<Rightarrow> int
     \<Rightarrow> (dpret \<times> int \<times> int) option" where
  "dpcwc_start L fs argv root_dir start stack_size opened =
     (case (argv, root_dir) of
        (Some args, Some root) \<Rightarrow>
          if args = [] then Some (DPE_INVAL, stack_size, opened)
          else do {
            (mod_args, sz) \<leftarrow> stack_args args stack_size;
            (case mod_args of
               Inl _ \<Rightarrow> Some (DPE_INVAL, sz, opened)
             | Inr [] \<Rightarrow> Some (DPE_INVAL, sz, opened)
             | Inr (libpath # rest) \<Rightarrow>
                 if length libpath < 3 \<or> \<not> ends_with libpath ''.so'' then Some (DPE_INVAL, sz, opened)
                 else (case find_lib fs root libpath of
                     None \<Rightarrow> Some (DPE_INVAL, sz, opened)
                   | Some libpathr \<Rightarrow>
                       (case entry_symbol libpathr of
                          None \<Rightarrow> Some (DPE_INVAL, sz, opened)
                        | Some symb \<Rightarrow>
                            let (r, o1) = load_module L libpathr symb (libpath # rest) (start sz) opened
                            in Some (r, sz, o1)))) }
      | _ \<Rightarrow> Some (DPE_INVAL, stack_size, opened))"

section \<open>Lemmas\<close>

lemma basename_dir: "CHR ''/'' \<notin> set name \<Longrightarrow> basename (dir @ CHR ''/'' # name) = name"
  by (subst basename_def, simp, subst takeWhile_append2) auto

text \<open>The first \<open>.so\<close> of a name without a dot before it.\<close>

lemma strstr_so: "CHR ''.'' \<notin> set n \<Longrightarrow> strstr (n @ ''.so'' @ ys) ''.so'' = Some (length n)"
  by (induction n) auto

lemma entry_symbol_lib:
  assumes "CHR ''/'' \<notin> set n" "CHR ''.'' \<notin> set n" "length n < 249"
  shows "entry_symbol (dir @ ''/lib'' @ n @ ''.so'') = Some (''dpcwc__'' @ n)"
proof -
  have "basename (dir @ CHR ''/'' # (''lib'' @ n @ ''.so'')) = ''lib'' @ n @ ''.so''"
    by (rule basename_dir) (use assms in simp)
  moreover have "strstr ((''lib'' @ n) @ ''.so'' @ []) ''.so'' = Some (length (''lib'' @ n))"
    by (rule strstr_so) (use assms in simp)
  ultimately show ?thesis using assms by (simp add: entry_symbol_def)
qed

text \<open>
  The entry name of a file with \<open>.so\<close> inside its name is cut at the first place, not at the ending
  that the check before looked at.
\<close>

lemma entry_symbol_cut: "entry_symbol ''/m/libweb.social.so'' = Some ''dpcwc__web''"
  by code_simp

lemma load_module_closes: "snd (load_module L p s argv start opened) = opened"
  by (simp add: load_module_def Let_def split: option.splits)

text \<open>However the start ends, no library is left open.\<close>

lemma start_closes:
  "dpcwc_start L fs argv root start sz opened = Some (r, sz', o') \<Longrightarrow> o' = opened"
  using load_module_closes [of L]
  by (auto simp: dpcwc_start_def Let_def split: option.splits bind_splits sum.splits list.splits
      if_splits prod.splits) (metis snd_conv)+

text \<open>Options are taken from the front, in pairs, and the last size counts.\<close>

lemma stack_args_option:
  assumes "opt = ''-s'' \<or> opt = ''--stack_size''" "take 1 v \<noteq> ''-''" "atoi v = Some n" "0 < n"
    "n * 1024 \<le> INT_MAX"
  shows "stack_args (opt # v # rest) sz = stack_args rest (n * 1024)"
  using assms by auto

lemma stack_args_stop: "opt \<noteq> ''-s'' \<Longrightarrow> opt \<noteq> ''--stack_size'' \<Longrightarrow>
    stack_args (opt # rest) sz = Some (Inr (opt # rest), sz)"
  by simp

text \<open>A size of two gigabytes or more overflows when it is turned into bytes.\<close>

lemma stack_args_overflow: "stack_args [''-s'', ''2097152'', ''libx.so''] sz = None"
  by code_simp

end
