(* ===== verification/Dpssl.thy ===== *)
theory Dpssl
  imports Dpbuf
begin

text \<open>
  The TLS groups of a thread (the first part of \<^verbatim>\<open>dpssl.c\<close>).  A group is a named set of protocol
  versions, application protocols (ALPN) and certificates; it lives in a list of the thread.  Its
  protocols are kept as a list and, brought up to date when they are needed, in the wire format of RFC
  7301 in a \<open>dpbuf\<close>.

  The state \<open>tls\<close> is the list of groups, the buffer store (whose schedule also decides \<open>calloc\<close>,
  \<open>malloc\<close> and \<open>strdup\<close>), the address the next group will have, and the calls made to OpenSSL.  OpenSSL is
  the field \<open>tl_answer\<close>: the result of a call as a function of the calls before it, a handle or zero
  where the call returns a pointer.  A C string is its bytes without the terminator, \<open>None\<close> is a null pointer.
  A function that touches a buffer returns an option: \<open>None\<close> is an access outside it.
\<close>

section \<open>Data\<close>

abbreviation (input) DPE_NOTEXISTS :: int where "DPE_NOTEXISTS \<equiv> - 157"
abbreviation (input) DPE_NAMETOOLONG :: int where "DPE_NAMETOOLONG \<equiv> - 36"

datatype dprole = DPROLE_CLIENT | DPROLE_SERVER | DPROLE_UNSURE

type_synonym cstr = "byte list"
type_synonym u16 = "16 word"

record dpssl_ctx =
  sni :: "string option"
  ori_ctx :: int

record dpssl_group =
  sg_addr :: nat
  sg_name :: string
  sg_role :: dprole
  min_version :: u16
  max_version :: u16
  alpns :: "cstr list"
  alpns_wire :: dpbuf
  alpns_wire_dirty :: bool
  ctxs :: "dpssl_ctx list"
  default_ctx :: "int option"

datatype ssl_method = TLS_method | DTLS_method

datatype ssl_call =
    SSL_CTX_new ssl_method | SSL_CTX_free int
  | SSL_CTX_set_min int u16 | SSL_CTX_set_max int u16 | SSL_CTX_get_min int | SSL_CTX_get_max int
  | SSL_CTX_set_verify_paths int
  | SSL_CTX_use_certificate int string | SSL_CTX_use_private_key int string | SSL_CTX_check_key int
  | SSL_CTX_set_alpn_cb int nat | SSL_CTX_set_sni_cb int nat
  | SSL_set_ctx int int
  | SSL_new int | SSL_free int | BIO_new_socket int | SSL_set_bio int int
  | SSL_set_connect_state int | SSL_set_accept_state int
  | SSL_set_host_name int string | SSL_set_alpn_protos int cstr

record tls =
  tl_groups :: "dpssl_group list"
  tl_store :: store
  tl_next :: nat
  tl_log :: "ssl_call list"
  tl_answer :: "ssl_call list \<Rightarrow> ssl_call \<Rightarrow> int"

definition default_sni :: string where
  "default_sni = ''@default.sni.dpssl''"

definition ssl_do :: "tls \<Rightarrow> ssl_call \<Rightarrow> tls \<times> int" where
  "ssl_do t c = (t\<lparr>tl_log := tl_log t @ [c]\<rparr>, tl_answer t (tl_log t) c)"

abbreviation ssl_tell :: "tls \<Rightarrow> ssl_call \<Rightarrow> tls" where
  "ssl_tell t c \<equiv> fst (ssl_do t c)"

definition ssl_malloc :: "tls \<Rightarrow> tls \<times> bool" where
  "ssl_malloc t = (let (h, ok) = attempt (tl_store t) in (t\<lparr>tl_store := h\<rparr>, ok))"

definition set_group :: "tls \<Rightarrow> dpssl_group \<Rightarrow> tls" where
  "set_group t g = t\<lparr>tl_groups := map (\<lambda>x. if sg_addr x = sg_addr g then g else x) (tl_groups t)\<rparr>"

section \<open>Looking up\<close>

definition bad_group_name :: "string option \<Rightarrow> bool" where
  "bad_group_name n = (case n of None \<Rightarrow> True | Some s \<Rightarrow> s = [] \<or> length s > 31)"

definition dpssl_group_find :: "tls \<Rightarrow> string option \<Rightarrow> dpret \<times> dpssl_group option" where
  "dpssl_group_find t n =
     (if bad_group_name n then (DPE_INVAL, None)
      else let g = find (\<lambda>g. sg_name g = the n) (tl_groups t)
           in (if g = None then DPE_NOTEXISTS else DPE_OK, g))"

fun alpn_walk :: "cstr list \<Rightarrow> int \<Rightarrow> int \<Rightarrow> cstr option" where
  "alpn_walk [] cur idx = None"
| "alpn_walk (a # as) cur idx = (if cur = idx then Some a else alpn_walk as (cur + 1) idx)"

definition dpssl_alpn_at :: "dpssl_group option \<Rightarrow> int \<Rightarrow> cstr option" where
  "dpssl_alpn_at g idx = (case g of None \<Rightarrow> None | Some g \<Rightarrow> if idx < 0 then None else alpn_walk (alpns g) 0 idx)"

definition no_str :: "'a list option \<Rightarrow> bool" where
  "no_str s \<longleftrightarrow> s = None \<or> s = Some []"

definition dpssl_alpn_contains :: "dpssl_group \<Rightarrow> cstr option \<Rightarrow> bool" where
  "dpssl_alpn_contains g a = (if no_str a then False else the a \<in> set (alpns g))"

definition dpssl_ctx_find :: "dpssl_group \<Rightarrow> string option \<Rightarrow> dpret \<times> dpssl_ctx option" where
  "dpssl_ctx_find g n =
     (if no_str n then (DPE_INVAL, None)
      else let c = find (\<lambda>c. sni c = Some (the n)) (ctxs g)
           in (if c = None then DPE_NOTEXISTS else DPE_OK, c))"

section \<open>Application protocols\<close>

fun wire_put :: "store \<Rightarrow> dpbuf \<Rightarrow> cstr list \<Rightarrow> (store \<times> dpbuf \<times> dpret) option" where
  "wire_put h b [] = Some (h, b, DPE_OK)"
| "wire_put h b (a # as) =
     (if length a > 255 then Some (h, b, DPE_NAMETOOLONG)
      else do {
        (h, b, r) \<leftarrow> dpbuf_wdata h b (Some [of_nat (length a)]) 1;
        if r \<noteq> 1 then Some (h, b, DPE_NOMEM)
        else do {
          (h, b, r) \<leftarrow> dpbuf_wdata h b (Some a) (int (length a));
          if r \<noteq> int (length a) then Some (h, b, DPE_NOMEM) else wire_put h b as
        }
      })"

text \<open>The group as it is found, the store, and the group after it.\<close>

definition alpns_wire_sync :: "store \<Rightarrow> dpssl_group \<Rightarrow> (store \<times> dpssl_group \<times> dpret) option" where
  "alpns_wire_sync h g =
     (if \<not> alpns_wire_dirty g then Some (h, g, DPE_OK)
      else do {
        (h, b, r) \<leftarrow> wire_put h (dpbuf_reset (alpns_wire g) DPBUF_INIT_W) (alpns g);
        if r \<noteq> DPE_OK then Some (h, g\<lparr>alpns_wire := b\<rparr>, r)
        else do {
          (b, _) \<leftarrow> dpbuf_eseek b 0 SEEK_END;
          Some (h, g\<lparr>alpns_wire := b, alpns_wire_dirty := False\<rparr>, DPE_OK)
        }
      })"

definition dpssl_alpns_wire_sync :: "tls \<Rightarrow> dpssl_group \<Rightarrow> (tls \<times> dpssl_group \<times> dpret) option" where
  "dpssl_alpns_wire_sync t g = do {
     (h, g, r) \<leftarrow> alpns_wire_sync (tl_store t) g;
     Some (set_group (t\<lparr>tl_store := h\<rparr>) g, g, r)
   }"

text \<open>The readable bytes of the wire buffer, as OpenSSL is given them.\<close>

definition wire_bytes :: "store \<Rightarrow> dpssl_group \<Rightarrow> byte list option" where
  "wire_bytes h g = do {
     m \<leftarrow> dpbuf_crdata h (alpns_wire g);
     mem_read 0 (dpbuf_crsize (alpns_wire g)) m
   }"

definition dpssl_add_alpn_to :: "tls \<Rightarrow> dpssl_group \<Rightarrow> cstr option \<Rightarrow> tls \<times> dpret" where
  "dpssl_add_alpn_to t g a =
     (if no_str a then (t, DPE_INVAL)
      else if dpssl_alpn_contains g a then (t, DPE_OK)
      else if length (the a) > 255 then (t, DPE_NAMETOOLONG)
      else
        let (t, ok) = ssl_malloc t
        in if \<not> ok then (t, DPE_NOMEM)
           else (set_group t (g\<lparr>alpns := alpns g @ [the a], alpns_wire_dirty := True\<rparr>), DPE_OK))"

text \<open>The callback of OpenSSL that chooses a protocol; \<open>select\<close> is \<open>SSL_select_next_proto\<close>, which is given the
  server's list and the client's.  Results: \<open>SSL_TLSEXT_ERR_OK\<close> is 0, \<open>SSL_TLSEXT_ERR_ALERT_FATAL\<close> is 2.\<close>

definition dpssl_alpn_select ::
  "(byte list \<Rightarrow> byte list \<Rightarrow> cstr option) \<Rightarrow> tls \<Rightarrow> dpssl_group \<Rightarrow> byte list \<Rightarrow> (tls \<times> cstr option \<times> int) option"
where
  "dpssl_alpn_select select t g inp = do {
     (t, g, _) \<leftarrow> dpssl_alpns_wire_sync t g;
     server \<leftarrow> wire_bytes (tl_store t) g;
     Some (case select server inp of Some p \<Rightarrow> (t, Some p, 0) | None \<Rightarrow> (t, None, 2))
   }"

definition dpssl_add_alpn :: "tls \<Rightarrow> string option \<Rightarrow> cstr option \<Rightarrow> tls \<times> dpret" where
  "dpssl_add_alpn t n a =
     (if a = None then (t, DPE_INVAL)
      else case dpssl_group_find t n of
        (r, Some g) \<Rightarrow> dpssl_add_alpn_to t g a
      | (r, None) \<Rightarrow> (t, r))"

definition dpssl_has_alpn :: "tls \<Rightarrow> string option \<Rightarrow> cstr option \<Rightarrow> dpret" where
  "dpssl_has_alpn t n a =
     (if no_str a then DPE_INVAL
      else case dpssl_group_find t n of
        (r, Some g) \<Rightarrow> if dpssl_alpn_contains g a then DPE_OK else DPE_NOTEXISTS
      | (r, None) \<Rightarrow> r)"

definition dpssl_get_alpn :: "tls \<Rightarrow> string option \<Rightarrow> int \<Rightarrow> cstr option" where
  "dpssl_get_alpn t n idx = (if idx < 0 then None else dpssl_alpn_at (snd (dpssl_group_find t n)) idx)"

definition dpssl_has_version :: "tls \<Rightarrow> string option \<Rightarrow> u16 \<Rightarrow> u16 \<Rightarrow> dpret" where
  "dpssl_has_version t n lo hi =
     (case dpssl_group_find t n of
        (r, None) \<Rightarrow> r
      | (r, Some g) \<Rightarrow>
          let minv = min_version g; maxv = max_version g
          in if lo \<noteq> 0 \<and> (minv > lo \<or> lo > maxv) then DPE_NOTEXISTS
             else if hi \<noteq> 0 \<and> (maxv < hi \<or> hi < minv) then DPE_NOTEXISTS
             else DPE_OK)"

section \<open>Groups and certificates\<close>

definition dpssl_group_add ::
  "tls \<Rightarrow> string option \<Rightarrow> dprole \<Rightarrow> u16 \<Rightarrow> u16 \<Rightarrow> tls \<times> dpssl_group option \<times> dpret" where
  "dpssl_group_add t n role minv maxv =
     (if bad_group_name n \<or> role \<noteq> DPROLE_CLIENT \<and> role \<noteq> DPROLE_SERVER then (t, None, DPE_INVAL)
      else
        let (t, ok) = ssl_malloc t
        in if \<not> ok then (t, None, DPE_NOMEM)
           else
             let (h, b, ok) = dpbuf_init (tl_store t) (Some dpbuf_zero) DPBUF_S_SIZE;
                 t = t\<lparr>tl_store := h\<rparr>
             in case (b, ok) of
                  (Some b, True) \<Rightarrow>
                    let g = \<lparr>sg_addr = tl_next t, sg_name = take 31 (the n), sg_role = role, min_version = minv,
                             max_version = maxv, alpns = [], alpns_wire = b, alpns_wire_dirty = False,
                             ctxs = [], default_ctx = None\<rparr>
                    in (t\<lparr>tl_next := tl_next t + 1, tl_groups := g # tl_groups t\<rparr>, Some g, DPE_OK)
                | _ \<Rightarrow> (t, None, DPE_NOMEM))"

text \<open>\<open>strdup\<close> is not checked: the entry is made without a name when it fails.\<close>

definition dpssl_ctx_add :: "tls \<Rightarrow> dpssl_group \<Rightarrow> string option \<Rightarrow> int \<Rightarrow> tls \<times> dpret" where
  "dpssl_ctx_add t g n ori =
     (if no_str n \<or> ori = 0 then (t, DPE_INVAL)
      else
        let (t, ok) = ssl_malloc t
        in if \<not> ok then (t, DPE_NOMEM)
           else
             let (t, dup) = ssl_malloc t;
                 c = \<lparr>sni = (if dup then n else None), ori_ctx = ori\<rparr>
             in (set_group t (g\<lparr>ctxs := c # ctxs g\<rparr>), DPE_OK))"

definition dpssl_ctx_free :: "tls \<Rightarrow> dpssl_ctx \<Rightarrow> tls" where
  "dpssl_ctx_free t c = (if ori_ctx c \<noteq> 0 then ssl_tell t (SSL_CTX_free (ori_ctx c)) else t)"

definition dpssl_group_del_all_ctx :: "tls \<Rightarrow> dpssl_group \<Rightarrow> tls" where
  "dpssl_group_del_all_ctx t g = set_group (fold (\<lambda>c t. dpssl_ctx_free t c) (ctxs g) t) (g\<lparr>ctxs := []\<rparr>)"

text \<open>The group is no longer in the list when it is freed.\<close>

definition dpssl_group_free :: "tls \<Rightarrow> dpssl_group \<Rightarrow> tls option" where
  "dpssl_group_free t g = do {
     let t = fold (\<lambda>c t. dpssl_ctx_free t c) (ctxs g) t;
     let t = (case default_ctx g of None \<Rightarrow> t | Some c \<Rightarrow> ssl_tell t (SSL_CTX_free c));
     (h, b) \<leftarrow> dpbuf_fini (tl_store t) (Some (alpns_wire g));
     Some (t\<lparr>tl_store := h\<rparr>)
   }"

text \<open>The two loops that unlink the first element with a property.\<close>

fun unlink_first :: "('a \<Rightarrow> bool) \<Rightarrow> 'a list \<Rightarrow> 'a list \<times> 'a option" where
  "unlink_first p [] = ([], None)"
| "unlink_first p (x # xs) = (if p x then (xs, Some x) else let (ys, r) = unlink_first p xs in (x # ys, r))"

definition dpssl_group_unlink :: "tls \<Rightarrow> string option \<Rightarrow> tls \<times> dpssl_group option \<times> dpret" where
  "dpssl_group_unlink t n =
     (if bad_group_name n then (t, None, DPE_INVAL)
      else let (gs, g) = unlink_first (\<lambda>g. sg_name g = the n) (tl_groups t)
           in (t\<lparr>tl_groups := gs\<rparr>, g, if g = None then DPE_NOTEXISTS else DPE_OK))"

definition dpssl_ctx_unlink :: "tls \<Rightarrow> dpssl_group \<Rightarrow> string option \<Rightarrow> tls \<times> dpssl_ctx option \<times> dpret" where
  "dpssl_ctx_unlink t g n =
     (if no_str n then (t, None, DPE_INVAL)
      else let (cs, c) = unlink_first (\<lambda>c. sni c = Some (the n)) (ctxs g)
           in (set_group t (g\<lparr>ctxs := cs\<rparr>), c, if c = None then DPE_NOTEXISTS else DPE_OK))"

text \<open>The callback that chooses a certificate; \<open>name\<close> is what \<open>SSL_get_servername\<close> returned.\<close>

definition dpssl_sni_entry :: "dpssl_group \<Rightarrow> string option \<Rightarrow> dpssl_ctx option" where
  "dpssl_sni_entry g name =
     (let not_default = \<not> no_str name;
          name = (if not_default then name else Some default_sni);
          (r, c) = dpssl_ctx_find g name
      in if r \<noteq> DPE_OK \<and> not_default then snd (dpssl_ctx_find g (Some default_sni)) else c)"

definition dpssl_sni_select :: "tls \<Rightarrow> dpssl_group \<Rightarrow> int \<Rightarrow> string option \<Rightarrow> tls \<times> int" where
  "dpssl_sni_select t g ssl name =
     (case dpssl_sni_entry g name of
        None \<Rightarrow> (t, 2)
      | Some c \<Rightarrow> (ssl_tell t (SSL_set_ctx ssl (ori_ctx c)), 0))"

definition dpssl_use_crt_key :: "tls \<Rightarrow> int \<Rightarrow> string option \<Rightarrow> string option \<Rightarrow> tls \<times> dpret" where
  "dpssl_use_crt_key t c crt key =
     (case (crt, key) of
        (Some crt, Some key) \<Rightarrow>
          let (t, r) = ssl_do t (SSL_CTX_use_certificate c crt)
          in if r \<le> 0 then (t, DPE_INTERNAL_ERROR)
             else
               let (t, r) = ssl_do t (SSL_CTX_use_private_key c key)
               in if r \<le> 0 then (t, DPE_INTERNAL_ERROR)
                  else
                    let (t, r) = ssl_do t (SSL_CTX_check_key c)
                    in (t, if r \<noteq> 1 then DPE_INTERNAL_ERROR else DPE_OK)
      | _ \<Rightarrow> (t, DPE_INVAL))"

abbreviation (input) TLS1_3_VERSION :: u16 where "TLS1_3_VERSION \<equiv> 0x304"
abbreviation (input) DTLS1_VERSION_MAJOR :: u16 where "DTLS1_VERSION_MAJOR \<equiv> 0xFE"
abbreviation (input) SSL3_VERSION_MAJOR :: u16 where "SSL3_VERSION_MAJOR \<equiv> 3"

definition method_for :: "u16 \<Rightarrow> u16 \<Rightarrow> ssl_method \<times> u16 \<times> u16" where
  "method_for minv maxv =
     (if drop_bit 8 minv = SSL3_VERSION_MAJOR then (TLS_method, minv, maxv)
      else if drop_bit 8 minv = DTLS1_VERSION_MAJOR then (DTLS_method, minv, maxv)
      else (TLS_method, TLS1_3_VERSION, TLS1_3_VERSION))"

definition dpssl_new_ori_ctx :: "tls \<Rightarrow> u16 \<Rightarrow> u16 \<Rightarrow> tls \<times> int \<times> dpret" where
  "dpssl_new_ori_ctx t minv maxv =
     (let (meth, minv, maxv) = method_for minv maxv;
          (t, c) = ssl_do t (SSL_CTX_new meth)
      in if c = 0 then (t, 0, DPE_INTERNAL_ERROR)
         else
           let t = (if minv \<noteq> 0 then ssl_tell t (SSL_CTX_set_min c minv) else t);
               t = (if maxv \<noteq> 0 then ssl_tell t (SSL_CTX_set_max c maxv) else t);
               (t, ok) = ssl_do t (SSL_CTX_set_verify_paths c)
           in if ok = 0 then (ssl_tell t (SSL_CTX_free c), 0, DPE_INTERNAL_ERROR) else (t, c, DPE_OK))"

definition dpssl_add :: "tls \<Rightarrow> string option \<Rightarrow> dprole \<Rightarrow> u16 \<Rightarrow> u16 \<Rightarrow> tls \<times> dpret" where
  "dpssl_add t n role minv maxv =
     (let (r, _) = dpssl_group_find t n
      in if r \<noteq> DPE_NOTEXISTS then (t, r)
         else
           let (t, c, r) = dpssl_new_ori_ctx t minv maxv
           in if r \<noteq> DPE_OK then (t, r)
              else
                let (t, lo) = ssl_do t (SSL_CTX_get_min c);
                    (t, hi) = ssl_do t (SSL_CTX_get_max c);
                    (t, g, r) = dpssl_group_add t n role (word_of_int lo) (word_of_int hi)
                in case g of
                     None \<Rightarrow> (ssl_tell t (SSL_CTX_free c), r)
                   | Some g \<Rightarrow>
                       let t = (if role = DPROLE_SERVER
                                then ssl_tell (ssl_tell t (SSL_CTX_set_alpn_cb c (sg_addr g))) (SSL_CTX_set_sni_cb c (sg_addr g))
                                else t)
                       in (set_group t (g\<lparr>default_ctx := Some c\<rparr>), DPE_OK))"

definition dpssl_del :: "tls \<Rightarrow> string option \<Rightarrow> (tls \<times> dpret) option" where
  "dpssl_del t n =
     (case dpssl_group_unlink t n of
        (t, Some g, _) \<Rightarrow> do { t \<leftarrow> dpssl_group_free t g; Some (t, DPE_OK) }
      | (t, None, r) \<Rightarrow> Some (t, r))"

definition dpssl_role :: "tls \<Rightarrow> string option \<Rightarrow> dprole" where
  "dpssl_role t n = (case dpssl_group_find t n of (_, Some g) \<Rightarrow> sg_role g | _ \<Rightarrow> DPROLE_UNSURE)"

text \<open>The empty name stands for the default certificate.\<close>

definition sni_key :: "string \<Rightarrow> string" where
  "sni_key n = (if n = [] then default_sni else n)"

definition dpssl_del_ctx :: "tls \<Rightarrow> string option \<Rightarrow> string option \<Rightarrow> tls \<times> dpret" where
  "dpssl_del_ctx t n name =
     (case name of
        None \<Rightarrow> (t, DPE_INVAL)
      | Some name \<Rightarrow>
          case dpssl_group_find t n of
            (r, None) \<Rightarrow> (t, r)
          | (_, Some g) \<Rightarrow>
              case dpssl_ctx_unlink t g (Some (sni_key name)) of
                (t, Some c, _) \<Rightarrow> (dpssl_ctx_free t c, DPE_OK)
              | (t, None, r) \<Rightarrow> (t, r))"

definition dpssl_del_all_ctx :: "tls \<Rightarrow> string option \<Rightarrow> tls" where
  "dpssl_del_all_ctx t n =
     (case dpssl_group_find t n of (_, Some g) \<Rightarrow> dpssl_group_del_all_ctx t g | _ \<Rightarrow> t)"

definition dpssl_add_ctx ::
  "tls \<Rightarrow> string option \<Rightarrow> string option \<Rightarrow> string option \<Rightarrow> string option \<Rightarrow> tls \<times> dpret" where
  "dpssl_add_ctx t n name crt key =
     (case name of
        None \<Rightarrow> (t, DPE_INVAL)
      | Some name \<Rightarrow>
          case dpssl_group_find t n of
            (r, None) \<Rightarrow> (t, r)
          | (_, Some g) \<Rightarrow>
              if sg_role g \<noteq> DPROLE_SERVER then (t, DPE_PERM)
              else if snd (dpssl_ctx_find g (Some (sni_key name))) \<noteq> None then (t, DPE_OK)
              else
                let (t, c, r) = dpssl_new_ori_ctx t (min_version g) (max_version g)
                in if r \<noteq> DPE_OK then (t, r)
                   else
                     let (t, r) = dpssl_use_crt_key t c crt key
                     in if r \<noteq> DPE_OK then (ssl_tell t (SSL_CTX_free c), r)
                        else
                          let t = ssl_tell t (SSL_CTX_set_alpn_cb c (sg_addr g));
                              (t, r) = dpssl_ctx_add t g (Some (sni_key name)) c
                          in if r \<noteq> DPE_OK then (ssl_tell t (SSL_CTX_free c), r) else (t, DPE_OK))"

definition dpssl_get_ctx :: "tls \<Rightarrow> string option \<Rightarrow> string option \<Rightarrow> int option" where
  "dpssl_get_ctx t n name =
     (case dpssl_group_find t n of
        (_, None) \<Rightarrow> None
      | (_, Some g) \<Rightarrow>
          if name = None then default_ctx g else map_option ori_ctx (dpssl_sni_entry g name))"

definition dpssl_thrd_init :: dpret where
  "dpssl_thrd_init = DPE_OK"

text \<open>The head of the list is unlinked and freed until the list is empty; \<open>exit_groups\<close> frees the groups it is given.\<close>

fun exit_groups :: "tls \<Rightarrow> dpssl_group list \<Rightarrow> tls option" where
  "exit_groups t [] = Some t"
| "exit_groups t (g # gs) = do { t \<leftarrow> dpssl_group_free (t\<lparr>tl_groups := gs\<rparr>) g; exit_groups t gs }"

definition dpssl_thrd_exit :: "tls \<Rightarrow> tls option" where
  "dpssl_thrd_exit t = exit_groups t (tl_groups t)"

end
