(* ===== verification/Dpssl_Inv.thy ===== *)
theory Dpssl_Inv
  imports Dpssl Dpbuf_Life "HOL-Library.Multiset"
begin

text \<open>
  The invariant of the TLS groups of a thread.  Names and addresses of groups are distinct; the names, roles
  and protocols of a group are within the limits of the code; the wire buffer of a group is a buffer of its
  own, and its readable window is the wire format of the protocols unless the group is marked dirty; no two
  certificates have one name.  The ledger says that every context OpenSSL has made is held once by a group or
  has been freed once.
\<close>

named_theorems tls_simps \<open>fields of the thread's TLS state\<close>

section \<open>The wire format of RFC 7301\<close>

definition wire_of :: "cstr list \<Rightarrow> byte list" where
  "wire_of as = concat (map (\<lambda>a. of_nat (length a) # a) as)"

definition alpn_ok :: "cstr \<Rightarrow> bool" where
  "alpn_ok a \<longleftrightarrow> a \<noteq> [] \<and> length a \<le> 255"

function wire_parse :: "byte list \<Rightarrow> cstr list option" where
  "wire_parse [] = Some []"
| "wire_parse (n # bs) =
     (if n = 0 \<or> unat n > length bs then None
      else map_option ((#) (take (unat n) bs)) (wire_parse (drop (unat n) bs)))"
  by pat_completeness auto
termination by (relation "measure length") auto

lemma wire_of_simps [simp]:
  "wire_of [] = []" "wire_of (a # as) = of_nat (length a) # a @ wire_of as"
  "wire_of (as @ bs) = wire_of as @ wire_of bs"
  by (simp_all add: wire_of_def)

lemma alpn_length_byte:
  assumes "alpn_ok a"
  shows "unat (of_nat (length a) :: byte) = length a" "(of_nat (length a) :: byte) \<noteq> 0"
proof -
  show u: "unat (of_nat (length a) :: byte) = length a"
    using assms by (simp add: alpn_ok_def unat_of_nat take_bit_nat_eq_self)
  show "(of_nat (length a) :: byte) \<noteq> 0" using assms u unat_0 by (force simp: alpn_ok_def)
qed

lemma wire_parse_wire_of: "list_all alpn_ok as \<Longrightarrow> wire_parse (wire_of as) = Some as"
  by (induction as) (simp_all add: alpn_length_byte)

section \<open>Writing the list\<close>

definition synced :: "store \<Rightarrow> dpbuf \<Rightarrow> store \<Rightarrow> dpbuf \<Rightarrow> bool" where
  "synced h b h' b' \<longleftrightarrow> buf_ok h' b' \<and> same_frame h b h' b' \<and> nblk h' = nblk h \<and> rview h' b' = rview h b"

lemma synced_trans: "synced h b h1 b1 \<Longrightarrow> synced h1 b1 h2 b2 \<Longrightarrow> synced h b h2 b2"
  by (auto simp: synced_def intro: same_frame_trans)

lemma wdata_synced:
  assumes "buf_ok h b" "xs \<noteq> []" "wbeg b + int (length xs) < 2 ^ 30"
  shows "\<exists>h' b' r. dpbuf_wdata h b (Some xs) (int (length xs)) = Some (h', b', r) \<and> synced h b h' b' \<and>
    wbeg b' \<le> wbeg b + int (length xs) \<and>
    (r = int (length xs) \<and> eview h' b' = eview h b @ xs \<or> r = DPE_NOMEM)"
proof -
  obtain h' b' r where w: "dpbuf_wdata h b (Some xs) (int (length xs)) = Some (h', b', r)"
    "write_outcome h b xs h' b' r"
    using dpbuf_wdata_outcome [of h b "int (length xs)" xs] assms by auto
  then show ?thesis using dpbuf_wdata_nblk [OF w(1)]
    by (auto simp: write_outcome_def appends_def keeps_def synced_def)
qed

lemma wire_put_synced:
  assumes "buf_ok h b" "list_all alpn_ok as" "wbeg b + int (length (wire_of as)) < 2 ^ 30"
  shows "\<exists>h' b' r. wire_put h b as = Some (h', b', r) \<and> synced h b h' b' \<and>
    (r = DPE_OK \<and> eview h' b' = eview h b @ wire_of as \<or> r = DPE_NOMEM)"
  using assms
proof (induction as arbitrary: h b)
  case Nil
  then show ?case by (simp add: synced_def)
next
  case (Cons a as)
  then have "alpn_ok a" and as: "list_all alpn_ok as" by simp_all
  then have a: "a \<noteq> []" "length a \<le> 255" "list_all alpn_ok as" by (simp_all add: alpn_ok_def)
  obtain h1 b1 r1 where w1: "dpbuf_wdata h b (Some [of_nat (length a)]) 1 = Some (h1, b1, r1)" "synced h b h1 b1"
    "wbeg b1 \<le> wbeg b + 1" "r1 = 1 \<and> eview h1 b1 = eview h b @ [of_nat (length a)] \<or> r1 = DPE_NOMEM"
    using wdata_synced [of h b "[of_nat (length a)]"] Cons.prems by auto
  show ?case
  proof (cases "r1 = 1")
    case False
    then show ?thesis using w1 a by auto
  next
    case True
    obtain h2 b2 r2 where w2: "dpbuf_wdata h1 b1 (Some a) (int (length a)) = Some (h2, b2, r2)" "synced h1 b1 h2 b2"
      "wbeg b2 \<le> wbeg b1 + int (length a)" "r2 = int (length a) \<and> eview h2 b2 = eview h1 b1 @ a \<or> r2 = DPE_NOMEM"
      using wdata_synced [of h1 b1 a] w1(2,3) a Cons.prems by (auto simp: synced_def)
    show ?thesis
    proof (cases "r2 = int (length a)")
      case False
      then show ?thesis using w1 w2 True a synced_trans [OF w1(2) w2(2)] by auto
    next
      case r2: True
      obtain h3 b3 r3 where "wire_put h2 b2 as = Some (h3, b3, r3)" "synced h2 b2 h3 b3"
        "r3 = DPE_OK \<and> eview h3 b3 = eview h2 b2 @ wire_of as \<or> r3 = DPE_NOMEM"
        using Cons.IH [of h2 b2] w1(3) w2(2,3) a Cons.prems by (auto simp: synced_def)
      then show ?thesis using w1 w2 True r2 a synced_trans [OF synced_trans [OF w1(2) w2(2)]] by auto
    qed
  qed
qed

lemma reset_w_ok:
  assumes "buf_ok h b"
  shows "buf_ok h (dpbuf_reset b DPBUF_INIT_W)" "rview h (dpbuf_reset b DPBUF_INIT_W) = []"
    "eview h (dpbuf_reset b DPBUF_INIT_W) = []" "wbeg (dpbuf_reset b DPBUF_INIT_W) = 0"
    "bdata (dpbuf_reset b DPBUF_INIT_W) = bdata b"
proof -
  have r: "dpbuf_reset b DPBUF_INIT_W = b\<lparr>rbeg := 0, rend := 0, wbeg := 0\<rparr>"
    by (simp add: dpbuf_reset_def has_bit_def)
  show "buf_ok h (dpbuf_reset b DPBUF_INIT_W)" unfolding r
    using assms by (auto simp: buf_ok_iff cursors_ok_def)
qed (simp_all add: dpbuf_reset_def has_bit_def rview_def eview_def seg_def)

lemma eseek_end_ok:
  assumes "buf_ok h b" "rview h b = []"
  shows "\<exists>b' n. dpbuf_eseek b 0 SEEK_END = Some (b', n) \<and> buf_ok h b' \<and> bdata b' = bdata b \<and>
    rview h b' = eview h b"
proof -
  obtain p d where pd: "cursors_ok b d" "block_ok d" using assms(1) by (rule buf_okE)
  have w: "0 \<le> wbeg b" "wbeg b \<le> INT_MAX" "rbeg b \<le> wbeg b"
    using pd by (auto simp: cursors_ok_def block_ok_def)
  obtain i where i: "dpbuf_eseek b 0 SEEK_END = Some (b\<lparr>rend := i\<rparr>, i - rend b)"
    "i = max (rbeg b) (min (origin (rbeg b) (rend b) (wbeg b) SEEK_END + 0) (wbeg b))" "buf_ok h (b\<lparr>rend := i\<rparr>)"
    using dpbuf_eseek_ok [OF assms(1), of SEEK_END 0] w by (auto simp: origin_def)
  have "i = wbeg b" using i(2) w by (simp add: origin_def)
  moreover have "rbeg b = rend b"
    using assms length_rview [OF assms(1)] pd(1) by (simp add: dpbuf_crsize_def cursors_ok_def)
  ultimately show ?thesis using i(1,3) by (auto simp: rview_def eview_def content_def get_block_def)
qed

section \<open>The invariant\<close>

definition ctx_names :: "dpssl_group \<Rightarrow> string list" where
  "ctx_names g = List.map_filter sni (ctxs g)"

definition group_ok :: "store \<Rightarrow> dpssl_group \<Rightarrow> bool" where
  "group_ok h g \<longleftrightarrow>
     sg_name g \<noteq> [] \<and> length (sg_name g) \<le> 31 \<and> sg_role g \<noteq> DPROLE_UNSURE \<and>
     list_all alpn_ok (alpns g) \<and> distinct (alpns g) \<and> length (wire_of (alpns g)) < 2 ^ 30 \<and>
     (\<not> alpns_wire_dirty g \<longrightarrow> rview h (alpns_wire g) = wire_of (alpns g)) \<and>
     distinct (ctx_names g) \<and> (\<forall>c \<in> set (ctxs g). ori_ctx c \<noteq> 0) \<and>
     (sg_role g = DPROLE_CLIENT \<longrightarrow> ctxs g = []) \<and> default_ctx g \<noteq> None"

definition tls_inv :: "tls \<Rightarrow> bool" where
  "tls_inv t \<longleftrightarrow>
     live_inv (tl_store t, map alpns_wire (tl_groups t)) \<and>
     distinct (map (\<lambda>g. bdata (alpns_wire g)) (tl_groups t)) \<and>
     distinct (map sg_name (tl_groups t)) \<and> distinct (map sg_addr (tl_groups t)) \<and>
     (\<forall>g \<in> set (tl_groups t). sg_addr g < tl_next t \<and> group_ok (tl_store t) g)"

text \<open>The contexts the groups hold, those that have been freed, and those OpenSSL has made.\<close>

definition held :: "dpssl_group \<Rightarrow> int list" where
  "held g = (case default_ctx g of None \<Rightarrow> [] | Some c \<Rightarrow> [c]) @ map ori_ctx (ctxs g)"

fun freed_by :: "ssl_call \<Rightarrow> int list" where
  "freed_by (SSL_CTX_free c) = [c]"
| "freed_by c = []"

fun is_new :: "ssl_call \<Rightarrow> bool" where
  "is_new (SSL_CTX_new m) = True"
| "is_new c = False"

text \<open>The log is read from its end, so that the calls before a call are at hand.\<close>

fun made_in :: "(ssl_call list \<Rightarrow> ssl_call \<Rightarrow> int) \<Rightarrow> ssl_call list \<Rightarrow> int list" where
  "made_in f [] = []"
| "made_in f (c # cs) = (let r = f (rev cs) c in if is_new c \<and> r \<noteq> 0 then r # made_in f cs else made_in f cs)"

definition made :: "tls \<Rightarrow> int list" where
  "made t = made_in (tl_answer t) (rev (tl_log t))"

definition freed :: "tls \<Rightarrow> int list" where
  "freed t = concat (map freed_by (tl_log t))"

definition ledger :: "tls \<Rightarrow> int multiset \<Rightarrow> bool" where
  "ledger t owned \<longleftrightarrow> mset (made t) = mset (freed t) + owned"

definition held_all :: "tls \<Rightarrow> int multiset" where
  "held_all t = mset (concat (map held (tl_groups t)))"

lemma ssl_do_fields [simp, tls_simps]:
  "tl_groups (fst (ssl_do t c)) = tl_groups t" "tl_store (fst (ssl_do t c)) = tl_store t"
  "tl_next (fst (ssl_do t c)) = tl_next t" "tl_answer (fst (ssl_do t c)) = tl_answer t"
  "tl_log (fst (ssl_do t c)) = tl_log t @ [c]"
  by (simp_all add: ssl_do_def)

lemma made_snoc [simp]:
  "made (fst (ssl_do t c)) = (if is_new c \<and> snd (ssl_do t c) \<noteq> 0 then snd (ssl_do t c) # made t else made t)"
  by (simp add: made_def ssl_do_def Let_def)

lemma freed_snoc [simp]: "freed (fst (ssl_do t c)) = freed t @ freed_by c"
  by (simp add: freed_def)

lemma made_fields [simp]:
  "made (t\<lparr>tl_groups := g\<rparr>) = made t" "made (t\<lparr>tl_store := h\<rparr>) = made t" "made (t\<lparr>tl_next := n\<rparr>) = made t"
  "freed (t\<lparr>tl_groups := g\<rparr>) = freed t" "freed (t\<lparr>tl_store := h\<rparr>) = freed t" "freed (t\<lparr>tl_next := n\<rparr>) = freed t"
  by (simp_all add: made_def freed_def)

lemma tls_inv_do [simp]: "tls_inv (fst (ssl_do t c)) = tls_inv t"
  by (simp add: tls_inv_def)

lemma views_blocks:
  "blocks h' = blocks h \<Longrightarrow> rview h' b = rview h b" "blocks h' = blocks h \<Longrightarrow> eview h' b = eview h b"
  by (simp_all add: rview_def eview_def content_def get_block_def)

lemma tls_inv_attempt:
  assumes "tls_inv t" "unborn (tl_store t) h"
  shows "tls_inv (t\<lparr>tl_store := h\<rparr>)"
  using assms unborn_inv [OF assms(2)] views_blocks [of h "tl_store t"]
  by (auto simp: tls_inv_def group_ok_def unborn_def)

lemma attempt_unborn: "unborn h (fst (attempt h))"
  by (simp add: unborn_def)

lemma ssl_malloc_fields [simp, tls_simps]:
  "tl_groups (fst (ssl_malloc t)) = tl_groups t" "tl_next (fst (ssl_malloc t)) = tl_next t"
  "made (fst (ssl_malloc t)) = made t" "freed (fst (ssl_malloc t)) = freed t"
  by (simp_all add: ssl_malloc_def split: prod.splits)

lemma tls_inv_malloc [simp]: "tls_inv t \<Longrightarrow> tls_inv (fst (ssl_malloc t))"
  using tls_inv_attempt [OF _ attempt_unborn] by (simp add: ssl_malloc_def split_def Let_def)

end
