(* ===== verification/Dpssl_Step.thy ===== *)
theory Dpssl_Step
  imports Dpssl_Inv
begin

text \<open>
  Every operation on the TLS groups keeps the invariant and the ledger, and is defined where the invariant
  holds.
\<close>

section \<open>Changing one group\<close>

lemma group_split:
  assumes "tls_inv t" "g \<in> set (tl_groups t)" "sg_addr g' = sg_addr g"
  obtains xs ys where "tl_groups t = xs @ g # ys" "tl_groups (set_group t g') = xs @ g' # ys"
proof -
  obtain xs ys where s: "tl_groups t = xs @ g # ys" using assms(2) by (meson split_list)
  have d: "distinct (map sg_addr (xs @ g # ys))" using assms(1) s by (simp add: tls_inv_def)
  have "map (\<lambda>x. if sg_addr x = sg_addr g' then g' else x) zs = zs" if "sg_addr g \<notin> sg_addr ` set zs" for zs
    using that assms(3) by (intro map_idI) (metis image_eqI)
  then have "tl_groups (set_group t g') = xs @ g' # ys"
    using s d assms(3) by (simp add: set_group_def image_iff)
  then show thesis using s by (rule that [rotated])
qed

lemma set_group_fields [simp, tls_simps]:
  "tl_store (set_group t g) = tl_store t" "tl_next (set_group t g) = tl_next t"
  "tl_log (set_group t g) = tl_log t" "made (set_group t g) = made t" "freed (set_group t g) = freed t"
  by (simp_all add: set_group_def)

lemma set_group_inv:
  assumes "tls_inv t" "g \<in> set (tl_groups t)" "sg_addr g' = sg_addr g" "sg_name g' = sg_name g"
    "alpns_wire g' = alpns_wire g" "group_ok (tl_store t) g'"
  shows "tls_inv (set_group t g')"
proof -
  obtain xs ys where s: "tl_groups t = xs @ g # ys" "tl_groups (set_group t g') = xs @ g' # ys"
    by (rule group_split [OF assms(1-3)])
  then show ?thesis using assms(1,3-6) by (auto simp: tls_inv_def)
qed

lemma set_group_held:
  assumes "tls_inv t" "g \<in> set (tl_groups t)" "sg_addr g' = sg_addr g"
  obtains X where "held_all t = mset (held g) + X" "held_all (set_group t g') = mset (held g') + X"
proof -
  obtain xs ys where s: "tl_groups t = xs @ g # ys" "tl_groups (set_group t g') = xs @ g' # ys"
    by (rule group_split [OF assms])
  show thesis by (rule that [of "mset (concat (map held xs)) + mset (concat (map held ys))"])
      (simp_all add: held_all_def s)
qed

lemma set_group_same_held:
  assumes "tls_inv t" "g \<in> set (tl_groups t)" "sg_addr g' = sg_addr g" "held g' = held g"
  shows "held_all (set_group t g') = held_all t"
  using set_group_held [OF assms(1-3)] assms(4) by metis

lemma group_okD:
  assumes "tls_inv t" "g \<in> set (tl_groups t)"
  shows "group_ok (tl_store t) g" "buf_ok (tl_store t) (alpns_wire g)"
  using assms by (auto simp: tls_inv_def live_inv_def)

lemma group_find_cases:
  obtains (none) r where "dpssl_group_find t n = (r, None)" "r = DPE_INVAL \<or> r = DPE_NOTEXISTS"
      "r = DPE_INVAL \<longleftrightarrow> bad_group_name n" "bad_group_name n \<or> the n \<notin> sg_name ` set (tl_groups t)"
  | (some) g where "dpssl_group_find t n = (DPE_OK, Some g)" "g \<in> set (tl_groups t)" "n = Some (sg_name g)"
      "\<not> bad_group_name n"
proof (cases "bad_group_name n")
  case True
  then show ?thesis using none by (simp add: dpssl_group_find_def)
next
  case False
  then obtain s where n: "n = Some s" by (auto simp: bad_group_name_def split: option.splits)
  show ?thesis
  proof (cases "find (\<lambda>g. sg_name g = s) (tl_groups t)")
    case None
    then show ?thesis using False n none [of DPE_NOTEXISTS] by (auto simp: dpssl_group_find_def find_None_iff)
  next
    case (Some g)
    then have "g \<in> set (tl_groups t)" "sg_name g = s" by (auto simp: find_Some_iff)
    then show ?thesis using False n Some some [of g] by (simp add: dpssl_group_find_def)
  qed
qed

section \<open>Contexts\<close>

lemma ledger_do:
  "ledger t X \<Longrightarrow> \<not> is_new c \<Longrightarrow> freed_by c = [] \<Longrightarrow> ledger (fst (ssl_do t c)) X"
  "ledger t (add_mset d X) \<Longrightarrow> ledger (fst (ssl_do t (SSL_CTX_free d))) X"
  by (simp_all add: ledger_def)

lemma new_ori_ctx_spec:
  assumes "dpssl_new_ori_ctx t lo hi = (t', c, r)" "ledger t X"
  shows "tl_groups t' = tl_groups t" "tl_store t' = tl_store t" "tl_next t' = tl_next t"
    "r = DPE_OK \<and> c \<noteq> 0 \<and> ledger t' (add_mset c X) \<or> r = DPE_INTERNAL_ERROR \<and> ledger t' X"
proof -
  obtain meth lo' hi' where m: "method_for lo hi = (meth, lo', hi')" by (cases "method_for lo hi")
  define t1 where "t1 = fst (ssl_do t (SSL_CTX_new meth))"
  define c1 where "c1 = snd (ssl_do t (SSL_CTX_new meth))"
  define t2 where "t2 = (if lo' \<noteq> 0 then ssl_tell t1 (SSL_CTX_set_min c1 lo') else t1)"
  define t3 where "t3 = (if hi' \<noteq> 0 then ssl_tell t2 (SSL_CTX_set_max c1 hi') else t2)"
  define t4 where "t4 = fst (ssl_do t3 (SSL_CTX_set_verify_paths c1))"
  have n: "ssl_do t (SSL_CTX_new meth) = (t1, c1)" by (simp add: t1_def c1_def)
  have e: "dpssl_new_ori_ctx t lo hi =
      (if c1 = 0 then (t1, 0, DPE_INTERNAL_ERROR)
       else if snd (ssl_do t3 (SSL_CTX_set_verify_paths c1)) = 0
         then (ssl_tell t4 (SSL_CTX_free c1), 0, DPE_INTERNAL_ERROR) else (t4, c1, DPE_OK))"
    by (simp add: dpssl_new_ori_ctx_def m n t2_def t3_def t4_def Let_def split_def)
  have f: "tl_groups t4 = tl_groups t \<and> tl_store t4 = tl_store t \<and> tl_next t4 = tl_next t"
    by (simp add: t4_def t3_def t2_def t1_def)
  show "tl_groups t' = tl_groups t" "tl_store t' = tl_store t" "tl_next t' = tl_next t"
    using assms(1) f by (auto simp: e t1_def split: if_splits)
  have l0: "ledger t1 X" if "c1 = 0" using assms(2) that by (simp add: ledger_def t1_def c1_def)
  have "ledger t1 (add_mset c1 X)" if "c1 \<noteq> 0"
    using assms(2) that by (simp add: ledger_def t1_def c1_def)
  then have l4: "ledger t4 (add_mset c1 X)" if "c1 \<noteq> 0"
    using that by (auto simp: t4_def t3_def t2_def intro!: ledger_do(1))
  show "r = DPE_OK \<and> c \<noteq> 0 \<and> ledger t' (add_mset c X) \<or> r = DPE_INTERNAL_ERROR \<and> ledger t' X"
    using assms(1) l0 ledger_do(2) [OF l4] l4 by (auto simp: e split: if_splits)
qed

lemma use_crt_key_spec:
  assumes "dpssl_use_crt_key t c crt key = (t', r)" "ledger t X"
  shows "tl_groups t' = tl_groups t" "tl_store t' = tl_store t" "tl_next t' = tl_next t" "ledger t' X"
    "r = DPE_OK \<or> r = DPE_INVAL \<or> r = DPE_INTERNAL_ERROR"
  using assms
  by (auto simp: dpssl_use_crt_key_def ledger_def split_def Let_def split: option.splits if_splits)

definition tls_ok :: "tls \<Rightarrow> bool" where
  "tls_ok t \<longleftrightarrow> tls_inv t \<and> ledger t (held_all t)"

lemma tls_inv_cong:
  "tl_groups t' = tl_groups t \<Longrightarrow> tl_store t' = tl_store t \<Longrightarrow> tl_next t' = tl_next t \<Longrightarrow>
     tls_inv t' = tls_inv t \<and> held_all t' = held_all t"
  by (simp add: tls_inv_def held_all_def)

lemma new_ori_ctx_ok:
  assumes "dpssl_new_ori_ctx t lo hi = (t', c, r)" "tls_ok t"
  shows "tls_inv t'" "tl_groups t' = tl_groups t" "held_all t' = held_all t"
    "r = DPE_OK \<and> c \<noteq> 0 \<and> ledger t' (add_mset c (held_all t)) \<or> r = DPE_INTERNAL_ERROR \<and> tls_ok t'"
  using new_ori_ctx_spec [OF assms(1), of "held_all t"] assms(2) tls_inv_cong [of t' t] by (auto simp: tls_ok_def)

lemma ctx_free_fields [simp, tls_simps]:
  "tl_groups (dpssl_ctx_free t c) = tl_groups t" "tl_store (dpssl_ctx_free t c) = tl_store t"
  "tl_next (dpssl_ctx_free t c) = tl_next t"
  by (simp_all add: dpssl_ctx_free_def)

lemma fold_free_fields [simp, tls_simps]:
  "tl_groups (fold (\<lambda>c t. dpssl_ctx_free t c) cs t) = tl_groups t"
  "tl_store (fold (\<lambda>c t. dpssl_ctx_free t c) cs t) = tl_store t"
  "tl_next (fold (\<lambda>c t. dpssl_ctx_free t c) cs t) = tl_next t"
  by (induction cs arbitrary: t) simp_all

lemma ctxs_freed:
  "\<forall>c \<in> set cs. ori_ctx c \<noteq> 0 \<Longrightarrow> ledger t (mset (map ori_ctx cs) + X) \<Longrightarrow>
     ledger (fold (\<lambda>c t. dpssl_ctx_free t c) cs t) X"
  by (induction cs arbitrary: t) (auto simp: dpssl_ctx_free_def intro: ledger_do(2))

section \<open>The operations\<close>

lemma add_alpn_to_ok:
  assumes ok: "tls_ok t" and g: "g \<in> set (tl_groups t)"
    and room: "\<And>b. a = Some b \<Longrightarrow> length (wire_of (alpns g)) + length b + 1 < 2 ^ 30"
  shows "tls_ok (fst (dpssl_add_alpn_to t g a))"
proof -
  let ?t = "fst (ssl_malloc t)" and ?g = "g\<lparr>alpns := alpns g @ [the a], alpns_wire_dirty := True\<rparr>"
  have i: "tls_inv ?t" "ledger ?t (held_all ?t)" "g \<in> set (tl_groups ?t)"
    using ok g by (auto simp: tls_ok_def ledger_def held_all_def)
  have "tls_ok (set_group ?t ?g)"
    if a: "\<not> no_str a" "\<not> dpssl_alpn_contains g a" "\<not> length (the a) > 255"
  proof -
    have "group_ok (tl_store ?t) ?g"
      using group_okD(1) [OF i(1,3)] a room [of "the a"]
      by (auto simp: group_ok_def no_str_def dpssl_alpn_contains_def alpn_ok_def ctx_names_def)
    then have "tls_inv (set_group ?t ?g)" by (intro set_group_inv [OF i(1,3)]) simp_all
    then show ?thesis using i set_group_same_held [OF i(1,3), of ?g] by (simp add: tls_ok_def ledger_def held_def)
  qed
  then show ?thesis using ok i by (simp add: dpssl_add_alpn_to_def tls_ok_def split_def Let_def)
qed

lemma wire_sync_store:
  assumes b: "buf_ok h (alpns_wire g)" and g: "group_ok h g"
  obtains h' g' r where "alpns_wire_sync h g = Some (h', g', r)" "r = DPE_OK \<or> r = DPE_NOMEM"
    "buf_ok h' (alpns_wire g')" "same_frame h (alpns_wire g) h' (alpns_wire g')" "nblk h' = nblk h" "group_ok h' g'"
    "g' = g\<lparr>alpns_wire := alpns_wire g', alpns_wire_dirty := alpns_wire_dirty g'\<rparr>"
    "r = DPE_OK \<longrightarrow> \<not> alpns_wire_dirty g'" "r = DPE_NOMEM \<longrightarrow> rview h' (alpns_wire g') = []"
proof (cases "alpns_wire_dirty g")
  case False
  then show ?thesis using that [of h g DPE_OK] b g by (simp add: alpns_wire_sync_def)
next
  case True
  let ?b = "dpbuf_reset (alpns_wire g) DPBUF_INIT_W"
  note r = reset_w_ok [OF b]
  have as: "list_all alpn_ok (alpns g)" "length (wire_of (alpns g)) < 2 ^ 30" using g by (simp_all add: group_ok_def)
  then have "wbeg ?b + int (length (wire_of (alpns g))) < 2 ^ 30" using r(4) by simp
  then obtain h1 b1 r1 where w: "wire_put h ?b (alpns g) = Some (h1, b1, r1)" "synced h ?b h1 b1"
    "r1 = DPE_OK \<and> eview h1 b1 = wire_of (alpns g) \<or> r1 = DPE_NOMEM"
    using wire_put_synced [OF r(1) as(1)] r(3) by auto
  have f: "same_frame h (alpns_wire g) h1 b1" "buf_ok h1 b1" "nblk h1 = nblk h" "rview h1 b1 = []"
    using w(2) same_frame_trans [OF same_frame_cursors [OF r(5)]] r(2) by (auto simp: synced_def)
  show ?thesis
  proof (cases "r1 = DPE_OK")
    case False
    then show ?thesis using True w f g
      by (intro that [of h1 "g\<lparr>alpns_wire := b1\<rparr>" r1]) (auto simp: alpns_wire_sync_def group_ok_def ctx_names_def)
  next
    case r1: True
    then have e: "eview h1 b1 = wire_of (alpns g)" using w(3) by auto
    obtain b2 n where b2: "dpbuf_eseek b1 0 SEEK_END = Some (b2, n)" "buf_ok h1 b2" "bdata b2 = bdata b1"
      "rview h1 b2 = eview h1 b1" using eseek_end_ok [OF f(2,4)] by auto
    have "same_frame h (alpns_wire g) h1 b2" by (rule same_frame_trans [OF f(1) same_frame_cursors [OF b2(3)]])
    then show ?thesis using True w(1) r1 b2 e f(3) g
      by (intro that [of h1 "g\<lparr>alpns_wire := b2, alpns_wire_dirty := False\<rparr>" DPE_OK])
        (auto simp: alpns_wire_sync_def group_ok_def ctx_names_def)
  qed
qed

lemma wire_sync_ok:
  assumes ok: "tls_ok t" and g: "g \<in> set (tl_groups t)"
  obtains t' g' r where "dpssl_alpns_wire_sync t g = Some (t', g', r)" "r = DPE_OK \<or> r = DPE_NOMEM"
    "tls_ok t'" "g' \<in> set (tl_groups t')" "alpns g' = alpns g" "r = DPE_OK \<longrightarrow> \<not> alpns_wire_dirty g'"
    "r = DPE_NOMEM \<longrightarrow> rview (tl_store t') (alpns_wire g') = []"
proof -
  have inv: "tls_inv t" using ok by (simp add: tls_ok_def)
  obtain h' g' r where s: "alpns_wire_sync (tl_store t) g = Some (h', g', r)" "r = DPE_OK \<or> r = DPE_NOMEM"
    "buf_ok h' (alpns_wire g')" "same_frame (tl_store t) (alpns_wire g) h' (alpns_wire g')"
    "nblk h' = nblk (tl_store t)" "group_ok h' g'"
    "g' = g\<lparr>alpns_wire := alpns_wire g', alpns_wire_dirty := alpns_wire_dirty g'\<rparr>"
    "r = DPE_OK \<longrightarrow> \<not> alpns_wire_dirty g'" "r = DPE_NOMEM \<longrightarrow> rview h' (alpns_wire g') = []"
    by (rule wire_sync_store [OF group_okD(2,1) [OF inv g]])
  have e: "sg_addr g' = sg_addr g" "sg_name g' = sg_name g" "alpns g' = alpns g" "held g' = held g"
    using arg_cong [OF s(7), of sg_addr] arg_cong [OF s(7), of sg_name] arg_cong [OF s(7), of alpns]
      arg_cong [OF s(7), of held] by (simp_all add: held_def)
  let ?t = "set_group (t\<lparr>tl_store := h'\<rparr>) g'"
  have sg: "?t = (set_group t g')\<lparr>tl_store := h'\<rparr>" by (simp add: set_group_def)
  obtain xs ys where x: "tl_groups t = xs @ g # ys" "tl_groups (set_group t g') = xs @ g' # ys"
    by (rule group_split [OF inv g e(1)])
  have b: "bdata (alpns_wire g') = bdata (alpns_wire g)" using s(4) by (simp add: same_frame_def)
  have "live_inv (h', (map alpns_wire (tl_groups t))[length xs := alpns_wire g'])"
    using inv s(3-5) x(1) by (intro frame_inv [of "tl_store t"]) (simp_all add: tls_inv_def nth_append)
  moreover have "group_ok h' x" if "x \<in> set xs \<union> set ys" for x
  proof -
    have "bdata (alpns_wire x) \<noteq> bdata (alpns_wire g)"
      using inv x(1) that by (auto simp: tls_inv_def image_iff)
    then show ?thesis using group_okD(1) [OF inv, of x] that x(1) same_frame_other(3) [OF s(4)]
      by (auto simp: group_ok_def)
  qed
  ultimately have "tls_inv ?t" using inv x e b s(6) by (auto simp: tls_inv_def sg list_update_append)
  moreover have "ledger ?t (held_all ?t)"
    using ok set_group_same_held [OF inv g e(1,4)] by (simp add: tls_ok_def ledger_def held_all_def sg)
  ultimately have "tls_ok ?t" by (simp add: tls_ok_def)
  moreover have "g' \<in> set (tl_groups ?t)" using x(2) by (simp add: sg)
  ultimately show thesis using s(1,2,8,9) e(3) by (intro that [of ?t g' r]) (simp_all add: dpssl_alpns_wire_sync_def)
qed

text \<open>The bytes OpenSSL is given.\<close>

lemma wire_bytes_rview:
  assumes "buf_ok h (alpns_wire g)"
  shows "wire_bytes h g = Some (rview h (alpns_wire g))"
proof -
  have c: "0 \<le> dpbuf_crsize (alpns_wire g)"
    using assms by (rule buf_okE) (auto simp: dpbuf_crsize_def cursors_ok_def)
  then show ?thesis
    using read_window [OF assms c order_refl] length_rview [OF assms] by (auto simp: wire_bytes_def)
qed

lemma alpn_select_ok:
  assumes "tls_ok t" "g \<in> set (tl_groups t)"
  shows "\<exists>t' p r. dpssl_alpn_select sel t g inp = Some (t', p, r) \<and> tls_ok t'"
proof -
  obtain t' g' r where s: "dpssl_alpns_wire_sync t g = Some (t', g', r)" "tls_ok t'" "g' \<in> set (tl_groups t')"
    by (rule wire_sync_ok [OF assms])
  then show ?thesis
    using wire_bytes_rview [OF group_okD(2), of t' g'] by (auto simp: dpssl_alpn_select_def tls_ok_def split: option.split)
qed

lemma views_born:
  assumes "born h h' b r" "fresh_above h" "buf_ok h c"
  shows "rview h' c = rview h c" "bdata c \<noteq> bdata b"
proof -
  obtain p d where c: "bdata c = Some p" "blocks h p = Some d" using assms(3) by (rule buf_okE)
  then have "p \<noteq> nblk h" using assms(2) by (auto simp: fresh_above_def)
  then show "rview h' c = rview h c" "bdata c \<noteq> bdata b"
    using assms(1) c by (auto simp: born_def rview_def content_def get_block_def)
qed

lemma group_add_cases:
  obtains (no) t' r where "dpssl_group_add t n role lo hi = (t', None, r)" "r = DPE_INVAL \<or> r = DPE_NOMEM"
      "tl_groups t' = tl_groups t" "tl_next t' = tl_next t" "tl_log t' = tl_log t" "tl_answer t' = tl_answer t"
      "unborn (tl_store t) (tl_store t')"
  | (yes) h b where "\<not> bad_group_name n" "role \<noteq> DPROLE_UNSURE" "born (tl_store t) h b []"
      "dpssl_group_add t n role lo hi =
        (t\<lparr>tl_store := h, tl_next := tl_next t + 1,
           tl_groups := \<lparr>sg_addr = tl_next t, sg_name = the n, sg_role = role, min_version = lo, max_version = hi,
             alpns = [], alpns_wire = b, alpns_wire_dirty = False, ctxs = [], default_ctx = None\<rparr> # tl_groups t\<rparr>,
         Some \<lparr>sg_addr = tl_next t, sg_name = the n, sg_role = role, min_version = lo, max_version = hi,
             alpns = [], alpns_wire = b, alpns_wire_dirty = False, ctxs = [], default_ctx = None\<rparr>, DPE_OK)"
proof (cases "bad_group_name n \<or> role \<noteq> DPROLE_CLIENT \<and> role \<noteq> DPROLE_SERVER")
  case True
  then show ?thesis using no [of t DPE_INVAL] by (simp add: dpssl_group_add_def unborn_def)
next
  case False
  define h1 where "h1 = fst (attempt (tl_store t))"
  define ok1 where "ok1 = snd (attempt (tl_store t))"
  have a: "attempt (tl_store t) = (h1, ok1)" by (simp add: h1_def ok1_def)
  have u1: "unborn (tl_store t) h1" using attempt_unborn by (simp add: h1_def)
  obtain h2 b2 ok2 where i: "dpbuf_init h1 (Some dpbuf_zero) DPBUF_S_SIZE = (h2, b2, ok2)"
    by (cases "dpbuf_init h1 (Some dpbuf_zero) DPBUF_S_SIZE") auto
  have n: "take 31 (the n) = the n" "\<not> bad_group_name n"
    using False by (auto simp: bad_group_name_def split: option.splits)
  show ?thesis
  proof (cases "ok1 \<and> ok2")
    case True
    then obtain b where b: "b2 = Some b" "born h1 h2 b []" using dpbuf_init_born [OF i] by auto
    then have "born (tl_store t) h2 b []" using u1 by (simp add: born_def unborn_def)
    then show ?thesis using False n a i True b
      by (intro yes [of h2 b]) (auto simp: dpssl_group_add_def ssl_malloc_def Let_def)
  next
    case no2: False
    have u2: "unborn (tl_store t) h2" if "\<not> ok2"
      using dpbuf_init_born [OF i] that u1 by (simp add: unborn_def)
    show ?thesis
    proof (cases ok1)
      case True
      then have "\<not> ok2" using no2 by simp
      then show ?thesis using False a i True u2
        by (intro no [of "t\<lparr>tl_store := h2\<rparr>" DPE_NOMEM])
          (auto simp: dpssl_group_add_def ssl_malloc_def Let_def split: option.splits)
    next
      case nok: False
      then show ?thesis using False a u1
        by (intro no [of "t\<lparr>tl_store := h1\<rparr>" DPE_NOMEM])
          (auto simp: dpssl_group_add_def ssl_malloc_def Let_def)
    qed
  qed
qed

lemma born_group_inv:
  assumes inv: "tls_inv t" and b: "born (tl_store t) h b []" and n: "s \<notin> sg_name ` set (tl_groups t)"
    "s \<noteq> []" "length s \<le> 31" "role \<noteq> DPROLE_UNSURE"
    and g: "g = \<lparr>sg_addr = tl_next t, sg_name = s, sg_role = role, min_version = lo, max_version = hi,
      alpns = [], alpns_wire = b, alpns_wire_dirty = False, ctxs = [], default_ctx = Some c\<rparr>"
    and t': "tl_groups t' = g # tl_groups t" "tl_store t' = h" "tl_next t' = tl_next t + 1"
  shows "tls_inv t'"
proof -
  have fr: "fresh_above (tl_store t)" using inv by (simp add: tls_inv_def live_inv_def)
  have o: "group_ok h x" "bdata (alpns_wire x) \<noteq> bdata b" if "x \<in> set (tl_groups t)" for x
    using views_born [OF b fr group_okD(2) [OF inv that]] group_okD(1) [OF inv that] by (auto simp: group_ok_def)
  have "group_ok h g" using b n by (simp add: g group_ok_def born_def ctx_names_def map_filter_simps)
  moreover have "live_inv (h, map alpns_wire (g # tl_groups t))"
    using born_inv [OF b] inv by (simp add: g tls_inv_def)
  ultimately show ?thesis using inv o n(1) t' by (force simp: tls_inv_def g)
qed

lemma dpssl_add_ok:
  assumes ok: "tls_ok t" and a: "dpssl_add t n role lo hi = (t', r)"
  shows "tls_ok t'"
proof (cases "fst (dpssl_group_find t n) = DPE_NOTEXISTS")
  case False
  then show ?thesis using a ok by (simp add: dpssl_add_def split_def Let_def)
next
  case True
  then have n: "the n \<notin> sg_name ` set (tl_groups t)" by (cases rule: group_find_cases [of t n]) auto
  obtain t1 c r1 where c: "dpssl_new_ori_ctx t lo hi = (t1, c, r1)" by (cases "dpssl_new_ori_ctx t lo hi")
  note new = new_ori_ctx_ok [OF c ok]
  show ?thesis
  proof (cases "r1 = DPE_OK")
    case False
    then show ?thesis using a True c new(4) by (auto simp: dpssl_add_def split: prod.splits)
  next
    case r1: True
    define t2 where "t2 = fst (ssl_do t1 (SSL_CTX_get_min c))"
    define t3 where "t3 = fst (ssl_do t2 (SSL_CTX_get_max c))"
    define lo3 :: u16 where "lo3 = word_of_int (snd (ssl_do t1 (SSL_CTX_get_min c)))"
    define hi3 :: u16 where "hi3 = word_of_int (snd (ssl_do t2 (SSL_CTX_get_max c)))"
    obtain x where f: "dpssl_group_find t n = (DPE_NOTEXISTS, x)" using True by (cases "dpssl_group_find t n") auto
    have d: "ssl_do t1 (SSL_CTX_get_min c) = (t2, snd (ssl_do t1 (SSL_CTX_get_min c)))"
      "ssl_do t2 (SSL_CTX_get_max c) = (t3, snd (ssl_do t2 (SSL_CTX_get_max c)))"
      by (simp_all add: t2_def t3_def)
    have add: "dpssl_add t n role lo hi = (let (t, g, r) = dpssl_group_add t3 n role lo3 hi3 in case g of
        None \<Rightarrow> (ssl_tell t (SSL_CTX_free c), r)
      | Some g \<Rightarrow>
          let t = (if role = DPROLE_SERVER
                   then ssl_tell (ssl_tell t (SSL_CTX_set_alpn_cb c (sg_addr g))) (SSL_CTX_set_sni_cb c (sg_addr g))
                   else t)
          in (set_group t (g\<lparr>default_ctx := Some c\<rparr>), DPE_OK))"
      unfolding dpssl_add_def f c r1 Let_def prod.case lo3_def hi3_def by (subst d(1), unfold prod.case, subst d(2)) simp
    have i3: "tls_inv t3" "tl_groups t3 = tl_groups t" "ledger t3 (add_mset c (held_all t))" "c \<noteq> 0"
      using new r1 by (auto simp: t3_def t2_def intro!: ledger_do(1))
    show ?thesis
    proof (cases rule: group_add_cases [of t3 n role lo3 hi3])
      case (no t4 r4)
      have "tls_inv t4" using tls_inv_attempt [OF i3(1) no(7)] no(3,4) by (simp add: tls_inv_def)
      moreover have "ledger t4 (add_mset c (held_all t))" using i3(3) no(5,6) by (simp add: ledger_def made_def freed_def)
      moreover have "held_all t4 = held_all t" using no(3) i3(2) by (simp add: held_all_def)
      ultimately show ?thesis using a no(1) ledger_do(2) by (auto simp: add tls_ok_def held_all_def)
    next
      case (yes h b)
      define g where "g = \<lparr>sg_addr = tl_next t3, sg_name = the n, sg_role = role, min_version = lo3, max_version = hi3,
        alpns = [], alpns_wire = b, alpns_wire_dirty = False, ctxs = [], default_ctx = None\<rparr>"
      define t4 where "t4 = t3\<lparr>tl_store := h, tl_next := tl_next t3 + 1, tl_groups := g # tl_groups t3\<rparr>"
      define t5 where "t5 = (if role = DPROLE_SERVER
        then ssl_tell (ssl_tell t4 (SSL_CTX_set_alpn_cb c (sg_addr g))) (SSL_CTX_set_sni_cb c (sg_addr g)) else t4)"
      have y: "dpssl_group_add t3 n role lo3 hi3 = (t4, Some g, DPE_OK)" using yes(4) by (simp add: t4_def g_def)
      have t': "t' = set_group t5 (g\<lparr>default_ctx := Some c\<rparr>)"
        using a unfolding add y Let_def prod.case option.case t5_def [symmetric] by simp
      have f5: "tl_groups t5 = g # tl_groups t3" "tl_store t5 = h" "tl_next t5 = tl_next t3 + 1"
        by (simp_all add: t5_def t4_def)
      have "sg_addr x \<noteq> tl_next t3" if "x \<in> set (tl_groups t3)" for x
        using i3(1) that by (auto simp: tls_inv_def)
      then have gs: "tl_groups t' = g\<lparr>default_ctx := Some c\<rparr> # tl_groups t3"
        by (auto simp: t' set_group_def f5 g_def intro!: map_idI)
      have nn: "the n \<noteq> []" "length (the n) \<le> 31"
        using yes(1) by (auto simp: bad_group_name_def split: option.splits)
      have "tls_inv t'"
        by (rule born_group_inv [OF i3(1) yes(3) _ nn yes(2) _ gs]) (use n i3(2) in \<open>simp_all add: g_def t' f5\<close>)
      moreover have "ledger t5 (add_mset c (held_all t))"
        using i3(3) by (auto simp: t5_def t4_def ledger_def)
      moreover have "held_all t' = add_mset c (held_all t)" using gs i3(2) by (simp add: held_all_def held_def g_def)
      ultimately show ?thesis by (simp add: tls_ok_def t' ledger_def)
    qed
  qed
qed

end
