(* ===== verification/Dpssl_Reach.thy ===== *)
theory Dpssl_Reach
  imports Dpssl_Step
begin

text \<open>
  Certificates, the end of a group and the end of the thread; the runs of the API and their invariant.
\<close>

section \<open>Certificates\<close>

lemma ctx_find_None:
  "\<not> no_str n \<Longrightarrow> snd (dpssl_ctx_find g n) = None \<longleftrightarrow> the n \<notin> set (ctx_names g)"
  by (force simp: dpssl_ctx_find_def find_None_iff ctx_names_def map_filter_def no_str_def)

lemma sni_key_str [simp]: "\<not> no_str (Some (sni_key s))"
  by (simp add: no_str_def sni_key_def default_sni_def)

lemma ctx_add_ok:
  assumes i: "tls_inv t" "g \<in> set (tl_groups t)" "ledger t (add_mset c (held_all t))"
    and s: "sg_role g = DPROLE_SERVER" "\<not> no_str n" "the n \<notin> set (ctx_names g)" "c \<noteq> 0"
    and a: "dpssl_ctx_add t g n c = (t', r)"
  shows "r = DPE_OK \<and> tls_ok t' \<or> r = DPE_NOMEM \<and> tls_inv t' \<and> ledger t' (add_mset c (held_all t'))"
proof -
  define t1 where "t1 = fst (ssl_malloc t)"
  define t2 where "t2 = fst (ssl_malloc t1)"
  let ?g = "g\<lparr>ctxs := \<lparr>sni = (if snd (ssl_malloc t1) then n else None), ori_ctx = c\<rparr> # ctxs g\<rparr>"
  have e: "(t', r) = (if snd (ssl_malloc t) then (set_group t2 ?g, DPE_OK) else (t1, DPE_NOMEM))"
    using a s(2,4) by (simp add: dpssl_ctx_add_def t1_def t2_def split_def Let_def split: if_splits)
  have f: "tls_inv t1" "tls_inv t2" "tl_groups t1 = tl_groups t" "tl_groups t2 = tl_groups t"
    "made t1 = made t" "made t2 = made t" "freed t1 = freed t" "freed t2 = freed t"
    using i(1) by (simp_all add: t1_def t2_def)
  have g2: "g \<in> set (tl_groups t2)" using i(2) f(4) by simp
  obtain nm where n: "n = Some nm" using s(2) by (auto simp: no_str_def)
  have "group_ok (tl_store t2) ?g"
    using group_okD(1) [OF f(2) g2] s n by (auto simp: group_ok_def ctx_names_def map_filter_simps)
  then have inv: "tls_inv (set_group t2 ?g)" by (intro set_group_inv [OF f(2) g2]) simp_all
  obtain X where X: "held_all t2 = mset (held g) + X" "held_all (set_group t2 ?g) = mset (held ?g) + X"
    by (rule set_group_held [OF f(2) g2, of ?g]) simp
  have h: "held_all t1 = held_all t" "held_all t2 = held_all t" by (simp_all add: held_all_def f)
  have "held_all (set_group t2 ?g) = add_mset c (held_all t)" using X h(2) by (simp add: held_def)
  then have "tls_ok (set_group t2 ?g)" using inv i(3) f by (simp add: tls_ok_def ledger_def)
  then show ?thesis using e i(3) f h by (auto simp: ledger_def split: if_splits)
qed

lemma dpssl_add_ctx_ok:
  assumes ok: "tls_ok t" and a: "dpssl_add_ctx t n name crt key = (t', r)"
  shows "tls_ok t'"
proof (cases name)
  case None
  then show ?thesis using ok a by (simp add: dpssl_add_ctx_def)
next
  case nm: (Some nm)
  show ?thesis
  proof (cases rule: group_find_cases [of t n])
    case (none r)
    then show ?thesis using ok a nm by (simp add: dpssl_add_ctx_def)
  next
    case (some g)
    show ?thesis
    proof (cases "sg_role g \<noteq> DPROLE_SERVER \<or> snd (dpssl_ctx_find g (Some (sni_key nm))) \<noteq> None")
      case True
      then show ?thesis using ok a nm some by (simp add: dpssl_add_ctx_def split: if_splits)
    next
      case False
      then have srv: "sg_role g = DPROLE_SERVER" "sni_key nm \<notin> set (ctx_names g)"
        using ctx_find_None [of "Some (sni_key nm)" g] by simp_all
      obtain t1 c r1 where c: "dpssl_new_ori_ctx t (min_version g) (max_version g) = (t1, c, r1)"
        by (cases "dpssl_new_ori_ctx t (min_version g) (max_version g)")
      note new = new_ori_ctx_ok [OF c ok]
      show ?thesis
      proof (cases "r1 = DPE_OK")
        case False
        then show ?thesis using ok a nm some srv(1) \<open>\<not> (_ \<or> _)\<close> c new by (auto simp: dpssl_add_ctx_def)
      next
        case r1: True
        obtain t2 r2 where k: "dpssl_use_crt_key t1 c crt key = (t2, r2)" by (cases "dpssl_use_crt_key t1 c crt key")
        have l1: "ledger t1 (add_mset c (held_all t))" "c \<noteq> 0" using new(4) r1 by simp_all
        note u = use_crt_key_spec [OF k l1(1)]
        have i2: "tls_inv t2" "held_all t2 = held_all t" "g \<in> set (tl_groups t2)"
          using tls_inv_cong [OF u(1-3)] new(1-3) u(1) some(2) by simp_all
        show ?thesis
        proof (cases "r2 = DPE_OK")
          case False
          then have "t' = ssl_tell t2 (SSL_CTX_free c)"
            using a nm some srv(1) \<open>\<not> (_ \<or> _)\<close> c r1 k by (simp add: dpssl_add_ctx_def)
          then show ?thesis using i2 ledger_do(2) [OF u(4)] by (simp add: tls_ok_def held_all_def)
        next
          case r2: True
          let ?t3 = "ssl_tell t2 (SSL_CTX_set_alpn_cb c (sg_addr g))"
          obtain t4 r4 where d: "dpssl_ctx_add ?t3 g (Some (sni_key nm)) c = (t4, r4)"
            by (cases "dpssl_ctx_add ?t3 g (Some (sni_key nm)) c")
          have i3: "tls_inv ?t3" "g \<in> set (tl_groups ?t3)" "ledger ?t3 (add_mset c (held_all ?t3))"
            using i2 ledger_do(1) [OF u(4)] by (simp_all add: held_all_def)
          have "t' = (if r4 \<noteq> DPE_OK then ssl_tell t4 (SSL_CTX_free c) else t4)"
            using a nm some srv(1) \<open>\<not> (_ \<or> _)\<close> c r1 k r2 d by (simp add: dpssl_add_ctx_def Let_def split: if_splits)
          then show ?thesis
            using ctx_add_ok [OF i3 srv(1) _ _ l1(2) d] srv(2) ledger_do(2) [of t4 c]
            by (auto simp: tls_ok_def held_all_def)
        qed
      qed
    qed
  qed
qed

lemma unlink_first_Some:
  "unlink_first p xs = (ys, Some x) \<Longrightarrow> p x \<and> (\<exists>as bs. xs = as @ x # bs \<and> ys = as @ bs \<and> (\<forall>a \<in> set as. \<not> p a))"
proof (induction xs arbitrary: ys)
  case (Cons a xs)
  show ?case
  proof (cases "p a")
    case True
    then show ?thesis using Cons.prems by (intro conjI exI [of _ "[]"] exI [of _ xs]) auto
  next
    case False
    then obtain zs where z: "unlink_first p xs = (zs, Some x)" "ys = a # zs"
      using Cons.prems by (auto split: prod.splits)
    then obtain as bs where "p x" "xs = as @ x # bs" "zs = as @ bs" "\<forall>a \<in> set as. \<not> p a" using Cons.IH by blast
    then show ?thesis using False z(2) by (intro conjI exI [of _ "a # as"] exI [of _ bs]) auto
  qed
qed simp

lemma unlink_first_None: "unlink_first p xs = (ys, None) \<Longrightarrow> ys = xs \<and> (\<forall>x \<in> set xs. \<not> p x)"
  by (induction xs arbitrary: ys) (auto split: if_splits prod.splits)

lemma map_filter_append: "List.map_filter f (as @ bs) = List.map_filter f as @ List.map_filter f bs"
  by (simp add: map_filter_def)

lemma map_filter_remove:
  "distinct (List.map_filter f (as @ x # bs)) \<Longrightarrow> distinct (List.map_filter f (as @ bs))"
  by (cases "f x") (simp_all add: map_filter_append map_filter_simps)

lemma dpssl_del_ctx_ok:
  assumes ok: "tls_ok t" and a: "dpssl_del_ctx t n name = (t', r)"
  shows "tls_ok t'"
proof (cases name)
  case None
  then show ?thesis using ok a by (simp add: dpssl_del_ctx_def)
next
  case nm: (Some nm)
  show ?thesis
  proof (cases rule: group_find_cases [of t n])
    case (none r)
    then show ?thesis using ok a nm by (simp add: dpssl_del_ctx_def)
  next
    case (some g)
    obtain cs c where u: "unlink_first (\<lambda>c. sni c = Some (sni_key nm)) (ctxs g) = (cs, c)"
      by (cases "unlink_first (\<lambda>c. sni c = Some (sni_key nm)) (ctxs g)")
    have inv: "tls_inv t" using ok by (simp add: tls_ok_def)
    let ?g = "g\<lparr>ctxs := cs\<rparr>"
    have e: "t' = (case c of Some c \<Rightarrow> dpssl_ctx_free (set_group t ?g) c | None \<Rightarrow> set_group t ?g)"
      using a nm some u by (auto simp: dpssl_del_ctx_def dpssl_ctx_unlink_def split: option.splits)
    show ?thesis
    proof (cases c)
      case None
      then have "?g = g" using unlink_first_None [of _ "ctxs g" cs] u by auto
      moreover have "map (\<lambda>x. if sg_addr x = sg_addr g then g else x) (tl_groups t) = tl_groups t"
        using inv some(2) by (intro map_idI) (auto simp: tls_inv_def distinct_map inj_on_def)
      then have "set_group t g = t" by (simp add: set_group_def)
      ultimately show ?thesis using e None ok by simp
    next
      case (Some x)
      obtain as bs where s: "ctxs g = as @ x # bs" "cs = as @ bs" using unlink_first_Some u Some by metis
      have gk: "group_ok (tl_store t) ?g"
        using group_okD(1) [OF inv some(2)] s map_filter_remove [of sni as x bs]
        by (simp add: group_ok_def ctx_names_def)
      have i: "tls_inv (set_group t ?g)" by (rule set_group_inv [OF inv some(2)]) (use gk in simp_all)
      obtain X where X: "held_all t = mset (held g) + X" "held_all (set_group t ?g) = mset (held ?g) + X"
        by (rule set_group_held [OF inv some(2), of ?g]) simp
      have x: "ori_ctx x \<noteq> 0" using group_okD(1) [OF inv some(2)] s by (simp add: group_ok_def)
      have "held_all t = add_mset (ori_ctx x) (held_all (set_group t ?g))" using X s by (simp add: held_def)
      then have "ledger (set_group t ?g) (add_mset (ori_ctx x) (held_all (set_group t ?g)))"
        using ok by (simp add: tls_ok_def ledger_def)
      from ledger_do(2) [OF this] show ?thesis
        using e Some i x by (simp add: dpssl_ctx_free_def tls_ok_def held_all_def)
    qed
  qed
qed

lemma del_all_ctx_ok:
  assumes ok: "tls_ok t"
  shows "tls_ok (dpssl_del_all_ctx t n)"
proof (cases rule: group_find_cases [of t n])
  case (none r)
  then show ?thesis using ok by (simp add: dpssl_del_all_ctx_def)
next
  case (some g)
  let ?t = "fold (\<lambda>c t. dpssl_ctx_free t c) (ctxs g) t" and ?g = "g\<lparr>ctxs := []\<rparr>"
  have inv: "tls_inv t" "ledger t (held_all t)" using ok by (simp_all add: tls_ok_def)
  have i: "tls_inv ?t" "g \<in> set (tl_groups ?t)" "held_all ?t = held_all t"
    using tls_inv_cong [of ?t t] inv some(2) by simp_all
  have gk: "group_ok (tl_store ?t) ?g"
    using group_okD(1) [OF i(1,2)] by (simp add: group_ok_def ctx_names_def map_filter_simps)
  have inv': "tls_inv (set_group ?t ?g)" by (rule set_group_inv [OF i(1,2)]) (use gk in simp_all)
  obtain X where X: "held_all ?t = mset (held g) + X" "held_all (set_group ?t ?g) = mset (held ?g) + X"
    by (rule set_group_held [OF i(1,2), of ?g]) simp
  have "ledger t (mset (map ori_ctx (ctxs g)) + held_all (set_group ?t ?g))"
    using inv(2) X i(3) by (simp add: held_def ac_simps split: option.splits)
  moreover have "\<forall>c \<in> set (ctxs g). ori_ctx c \<noteq> 0" using group_okD(1) [OF i(1,2)] by (simp add: group_ok_def)
  ultimately have "ledger ?t (held_all (set_group ?t ?g))" by (intro ctxs_freed)
  then show ?thesis
    using inv' some(1) by (simp add: dpssl_del_all_ctx_def dpssl_group_del_all_ctx_def tls_ok_def ledger_def)
qed

section \<open>The end of a group\<close>

text \<open>A state from which a group has just been unlinked: the rest keeps the invariant, and the group's
  buffer and contexts are still there.\<close>

lemma group_free_ok:
  assumes ok: "tls_ok t" and s: "tl_groups t = xs @ g # ys"
  shows "\<exists>t'. dpssl_group_free (t\<lparr>tl_groups := xs @ ys\<rparr>) g = Some t' \<and> tls_ok t' \<and> tl_groups t' = xs @ ys"
proof -
  have inv: "tls_inv t" and g: "g \<in> set (tl_groups t)" using ok s by (simp_all add: tls_ok_def)
  define t0 where "t0 = t\<lparr>tl_groups := xs @ ys\<rparr>"
  define t1 where "t1 = fold (\<lambda>c t. dpssl_ctx_free t c) (ctxs g) t0"
  obtain c where c: "default_ctx g = Some c" using group_okD(1) [OF inv g] by (auto simp: group_ok_def)
  define t2 where "t2 = ssl_tell t1 (SSL_CTX_free c)"
  have f: "tl_groups t2 = xs @ ys" "tl_store t2 = tl_store t" "tl_next t2 = tl_next t"
    by (simp_all add: t2_def t1_def t0_def)
  have "ledger t0 (mset (map ori_ctx (ctxs g)) + add_mset c (held_all t0))"
    using ok s c by (simp add: tls_ok_def ledger_def t0_def held_all_def held_def ac_simps)
  then have "ledger t1 (add_mset c (held_all t0))"
    unfolding t1_def using group_okD(1) [OF inv g] by (intro ctxs_freed) (simp_all add: group_ok_def)
  then have l2: "ledger t2 (held_all t0)" unfolding t2_def by (rule ledger_do(2))
  have live: "live_inv (tl_store t, map alpns_wire xs @ alpns_wire g # map alpns_wire ys)"
    using inv s by (simp add: tls_inv_def)
  then obtain h where h: "dpbuf_del (tl_store t) (Some (alpns_wire g)) = Some h"
    "live_inv (h, map alpns_wire xs @ map alpns_wire ys)"
    using release_inv [OF live] by auto
  obtain p where p: "bdata (alpns_wire g) = Some p" using group_okD(2) [OF inv g] by (rule buf_okE)
  have bl: "blocks h q = blocks (tl_store t) q" if "q \<noteq> p" for q
    using h(1) p that by (auto simp: dpbuf_del_def dpbuf_data_del_def set_block_def bind_eq_Some_conv split: if_splits)
  have "group_ok h x \<and> sg_addr x < tl_next t" if "x \<in> set (xs @ ys)" for x
  proof -
    have "x \<in> set (tl_groups t)" "bdata (alpns_wire x) \<noteq> Some p" using inv s that p by (auto simp: tls_inv_def image_iff)
    moreover from this have "rview h (alpns_wire x) = rview (tl_store t) (alpns_wire x)"
      using bl by (cases "bdata (alpns_wire x)") (auto simp: rview_def content_def get_block_def)
    ultimately show ?thesis using group_okD(1) [OF inv] inv by (auto simp: group_ok_def tls_inv_def)
  qed
  then have "tls_inv (t2\<lparr>tl_store := h\<rparr>)" using inv s h(2) f by (auto simp: tls_inv_def)
  moreover have "ledger (t2\<lparr>tl_store := h\<rparr>) (held_all (t2\<lparr>tl_store := h\<rparr>))"
    using l2 f(1) by (simp add: ledger_def held_all_def t0_def)
  ultimately have "tls_ok (t2\<lparr>tl_store := h\<rparr>)" by (simp add: tls_ok_def)
  moreover have "dpssl_group_free t0 g = Some (t2\<lparr>tl_store := h\<rparr>)"
    unfolding dpssl_group_free_def Let_def t1_def [symmetric] c option.case t2_def [symmetric] f(2) dpbuf_fini_def p
    using p h(1) by (simp add: dpbuf_del_def)
  ultimately show ?thesis using f(1) by (simp add: t0_def)
qed

lemma dpssl_del_ok:
  assumes ok: "tls_ok t"
  shows "\<exists>t' r. dpssl_del t n = Some (t', r) \<and> tls_ok t' \<and>
    (r = DPE_OK \<or> r = DPE_INVAL \<or> r = DPE_NOTEXISTS)"
proof (cases "bad_group_name n")
  case True
  then show ?thesis using ok by (simp add: dpssl_del_def dpssl_group_unlink_def)
next
  case False
  obtain gs g where u: "unlink_first (\<lambda>g. sg_name g = the n) (tl_groups t) = (gs, g)"
    by (cases "unlink_first (\<lambda>g. sg_name g = the n) (tl_groups t)")
  show ?thesis
  proof (cases g)
    case None
    then have "t\<lparr>tl_groups := gs\<rparr> = t" using unlink_first_None [of _ "tl_groups t" gs] u by simp
    then show ?thesis using ok False None u by (simp add: dpssl_del_def dpssl_group_unlink_def)
  next
    case (Some x)
    obtain as bs where s: "tl_groups t = as @ x # bs" "gs = as @ bs" using unlink_first_Some u Some by metis
    then show ?thesis using group_free_ok [OF ok s(1)] False Some u
      by (auto simp: dpssl_del_def dpssl_group_unlink_def)
  qed
qed

lemma exit_groups_ok: "tls_ok t \<Longrightarrow> tl_groups t = gs \<Longrightarrow>
    \<exists>t'. exit_groups t gs = Some t' \<and> tls_ok t' \<and> tl_groups t' = []"
proof (induction gs arbitrary: t)
  case (Cons g gs)
  then show ?case using group_free_ok [of t "[]" g gs] by auto
qed simp

section \<open>Runs\<close>

text \<open>The calls of the API and of OpenSSL's callbacks; \<open>sel\<close> is \<open>SSL_select_next_proto\<close>.  The protocols of one
  group stay below a gigabyte.\<close>

inductive tls_step :: "(byte list \<Rightarrow> byte list \<Rightarrow> cstr option) \<Rightarrow> tls \<Rightarrow> tls \<Rightarrow> bool" for sel where
  s_add: "dpssl_add t n role lo hi = (t', r) \<Longrightarrow> tls_step sel t t'"
| s_del: "dpssl_del t n = Some (t', r) \<Longrightarrow> tls_step sel t t'"
| s_add_alpn: "dpssl_add_alpn t n a = (t', r) \<Longrightarrow>
    \<forall>g \<in> set (tl_groups t). length (wire_of (alpns g)) + length (the a) + 1 < 2 ^ 30 \<Longrightarrow> tls_step sel t t'"
| s_add_ctx: "dpssl_add_ctx t n name crt key = (t', r) \<Longrightarrow> tls_step sel t t'"
| s_del_ctx: "dpssl_del_ctx t n name = (t', r) \<Longrightarrow> tls_step sel t t'"
| s_del_all: "tls_step sel t (dpssl_del_all_ctx t n)"
| s_select: "g \<in> set (tl_groups t) \<Longrightarrow> dpssl_alpn_select sel t g inp = Some (t', p, r) \<Longrightarrow> tls_step sel t t'"
| s_sni: "g \<in> set (tl_groups t) \<Longrightarrow> dpssl_sni_select t g ssl name = (t', r) \<Longrightarrow> tls_step sel t t'"

inductive tls_reach :: "(byte list \<Rightarrow> byte list \<Rightarrow> cstr option) \<Rightarrow> tls \<Rightarrow> bool" for sel where
  t_start: "tl_groups t = [] \<Longrightarrow> blocks (tl_store t) = Map.empty \<Longrightarrow> tl_log t = [] \<Longrightarrow> tls_reach sel t"
| t_step: "tls_reach sel t \<Longrightarrow> tls_step sel t t' \<Longrightarrow> tls_reach sel t'"

lemma add_alpn_ok:
  assumes ok: "tls_ok t" and a: "dpssl_add_alpn t n a = (t', r)"
    and room: "\<forall>g \<in> set (tl_groups t). length (wire_of (alpns g)) + length (the a) + 1 < 2 ^ 30"
  shows "tls_ok t'"
proof (cases rule: group_find_cases [of t n])
  case (none r)
  then show ?thesis using ok a by (simp add: dpssl_add_alpn_def split: if_splits)
next
  case (some g)
  have "tls_ok (fst (dpssl_add_alpn_to t g a))" by (rule add_alpn_to_ok [OF ok some(2)]) (use room some(2) in auto)
  then show ?thesis using ok a some(1) by (auto simp: dpssl_add_alpn_def split: if_splits)
qed

lemma sni_select_ok:
  assumes "tls_ok t" "dpssl_sni_select t g ssl name = (t', r)"
  shows "tls_ok t'"
  using assms by (auto simp: dpssl_sni_select_def tls_ok_def held_all_def ledger_def split: option.splits)

lemma tls_step_ok: "tls_step sel t t' \<Longrightarrow> tls_ok t \<Longrightarrow> tls_ok t'"
proof (induction rule: tls_step.induct)
  case (s_del t n t' r)
  then show ?case using dpssl_del_ok [of t n] by auto
next
  case (s_select g t inp t' p r)
  then show ?case using alpn_select_ok [of t g sel inp] by auto
qed (blast intro: dpssl_add_ok add_alpn_ok dpssl_add_ctx_ok dpssl_del_ctx_ok del_all_ctx_ok sni_select_ok)+

lemma tls_reach_ok: "tls_reach sel t \<Longrightarrow> tls_ok t"
proof (induction rule: tls_reach.induct)
  case (t_start t)
  then show ?case
    by (simp add: tls_ok_def tls_inv_def live_inv_def fresh_above_def counted_def ledger_def held_all_def
        made_def freed_def)
next
  case (t_step t t')
  then show ?case by (blast intro: tls_step_ok)
qed

end
