(* ===== verification/Dpssl_Io.thy ===== *)
theory Dpssl_Io
  imports Dpssl Dpasc_Wake
begin

text \<open>
  TLS sessions as elements, and the operations on them (the second part of \<^verbatim>\<open>dpssl.c\<close>).  A session element
  holds the element of the TCP connection below it and the session of OpenSSL.  What OpenSSL does with the
  machine is the record \<open>openssl\<close>, a parameter of the operations: the four calls, and \<open>SSL_get_error\<close>.
\<close>

section \<open>Sessions\<close>

text \<open>The memory of \<open>dpssl_ssn_udata_t\<close>: the pointers to the element and to the session, and the role.\<close>

fun le_bytes :: "nat \<Rightarrow> int \<Rightarrow> byte list" where
  "le_bytes 0 i = []"
| "le_bytes (Suc n) i = word_of_int i # le_bytes n (i div 256)"

definition le_int :: "byte list \<Rightarrow> int" where
  "le_int bs = foldr (\<lambda>b x. uint b + 256 * x) bs 0"

definition role_code :: "dprole \<Rightarrow> int" where
  "role_code r = (case r of DPROLE_CLIENT \<Rightarrow> 1 | DPROLE_SERVER \<Rightarrow> 2 | DPROLE_UNSURE \<Rightarrow> 3)"

definition ssn_udata :: "nat \<Rightarrow> int \<Rightarrow> dprole \<Rightarrow> byte list" where
  "ssn_udata efd ssn role = le_bytes 8 (int efd) @ le_bytes 8 ssn @ le_bytes 4 (role_code role) @ replicate 4 0"

definition u_efd :: "byte list \<Rightarrow> int" where
  "u_efd u = le_int (take 8 u)"

definition u_ssn :: "byte list \<Rightarrow> int" where
  "u_ssn u = le_int (take 8 (drop 8 u))"

text \<open>The session and its socket BIO, made the same way for both roles.\<close>

definition ssn_open :: "tls \<Rightarrow> dpssl_group \<Rightarrow> int \<Rightarrow> tls \<times> int \<times> dpret" where
  "ssn_open t g f =
     (let (t, ssn) = ssl_do t (SSL_new (case default_ctx g of None \<Rightarrow> 0 | Some c \<Rightarrow> c))
      in if ssn = 0 then (t, 0, DPE_INTERNAL_ERROR)
         else
           let (t, bio) = ssl_do t (BIO_new_socket f)
           in if bio = 0 then (ssl_tell t (SSL_free ssn), 0, DPE_INTERNAL_ERROR)
              else (ssl_tell t (SSL_set_bio ssn bio), ssn, DPE_OK))"

text \<open>\<open>args_of\<close> reads the variadic arguments: the element, the name of the group and the server name.\<close>

type_synonym ssn_args = "va_list \<Rightarrow> (nat option \<times> string option \<times> string option) option"

definition ssn_group ::
  "('d, tls) world \<Rightarrow> nat option \<Rightarrow> string option \<Rightarrow> dprole \<Rightarrow> (dpret + 'd dpele \<times> dpssl_group) option" where
  "ssn_group w efd n role =
     (if efd = None \<or> no_str n then Some (Inl DPE_INVAL)
      else do {
        e \<leftarrow> eles w (the efd);
        Some (if dpele_is_doing e then Inl DPE_PERM
              else case dpssl_group_find (ext w) n of
                (r, None) \<Rightarrow> Inl r
              | (_, Some g) \<Rightarrow> if sg_role g \<noteq> role then Inl DPE_INVAL else Inr (e, g))
      })"

definition ssn_attach ::
  "('d, tls) world \<Rightarrow> nat \<Rightarrow> nat \<Rightarrow> tls \<Rightarrow> int \<Rightarrow> dprole \<Rightarrow> ('d, tls) world option" where
  "ssn_attach w a efd t ssn role = do {
     w1 \<leftarrow> upd_ele (w\<lparr>ext := t\<rparr>) a (aux_data_update (\<lambda>_. ssn_udata efd ssn role));
     upd_ele w1 efd (is_close_update (\<lambda>_. False))
   }"

definition dpssl_client_uinit ::
  "ssn_args \<Rightarrow> nat \<Rightarrow> va_list \<Rightarrow> ('d, tls) world \<Rightarrow> (('d, tls) world \<times> dpret) option" where
  "dpssl_client_uinit args_of a args w = do {
     (efd, n, name) \<leftarrow> args_of args;
     x \<leftarrow> ssn_group w efd n DPROLE_CLIENT;
     (case x of
        Inl r \<Rightarrow> Some (w, r)
      | Inr (e, g) \<Rightarrow>
          let (t, ssn, r) = ssn_open (ext w) g (fd e)
          in if r \<noteq> DPE_OK then Some (w\<lparr>ext := t\<rparr>, r)
             else do {
               let t = ssl_tell t (SSL_set_connect_state ssn);
               let t = (if no_str name then t else ssl_tell t (SSL_set_host_name ssn (the name)));
               t \<leftarrow> (if alpns g = [] then Some t
                     else do {
                       (t, g, _) \<leftarrow> dpssl_alpns_wire_sync t g;
                       ps \<leftarrow> wire_bytes (tl_store t) g;
                       Some (ssl_tell t (SSL_set_alpn_protos ssn ps))
                     });
               w \<leftarrow> ssn_attach w a (the efd) t ssn DPROLE_CLIENT;
               Some (w, fd e)
             })
   }"

definition dpssl_server_uinit ::
  "ssn_args \<Rightarrow> nat \<Rightarrow> va_list \<Rightarrow> ('d, tls) world \<Rightarrow> (('d, tls) world \<times> dpret) option" where
  "dpssl_server_uinit args_of a args w = do {
     (efd, n, _) \<leftarrow> args_of args;
     x \<leftarrow> ssn_group w efd n DPROLE_SERVER;
     (case x of
        Inl r \<Rightarrow> Some (w, r)
      | Inr (e, g) \<Rightarrow>
          let (t, ssn, r) = ssn_open (ext w) g (fd e)
          in if r \<noteq> DPE_OK then Some (w\<lparr>ext := t\<rparr>, r)
             else do {
               w \<leftarrow> ssn_attach w a (the efd) (ssl_tell t (SSL_set_accept_state ssn)) ssn DPROLE_SERVER;
               Some (w, fd e)
             })
   }"

definition dpssl_ssn_ufini :: "('d, tls) env \<Rightarrow> byte list \<Rightarrow> ('d, tls) world \<Rightarrow> ('d, tls) world option" where
  "dpssl_ssn_ufini env u w =
     dpele_del env (w\<lparr>ext := ssl_tell (ext w) (SSL_free (u_ssn u))\<rparr>) (if u_efd u = 0 then None else Some (nat (u_efd u)))"

definition dpssl_server_type :: "(string \<Rightarrow> nat) \<Rightarrow> dpele_type" where
  "dpssl_server_type symtab = \<lparr>ty_name = ''ssl_server'', ty_type = DPELE_TYPE_EFD, ty_size = 24, ty_iotype = DPAIO_TYPE_SSL,
     ty_events = DPEVT_AIO, ty_init = Some (symtab ''_dpssl_server_uinit''), ty_copy = None,
     ty_fini = Some (symtab ''_dpssl_ssn_ufini'')\<rparr>"

definition dpssl_client_type :: "(string \<Rightarrow> nat) \<Rightarrow> dpele_type" where
  "dpssl_client_type symtab = \<lparr>ty_name = ''ssl_client'', ty_type = DPELE_TYPE_EFD, ty_size = 24, ty_iotype = DPAIO_TYPE_SSL,
     ty_events = DPEVT_AIO, ty_init = Some (symtab ''_dpssl_client_uinit''), ty_copy = None,
     ty_fini = Some (symtab ''_dpssl_ssn_ufini'')\<rparr>"

section \<open>Errors\<close>

text \<open>\<open>SSL_ERROR_SSL\<close> carries whether the reason is \<open>SSL_R_UNEXPECTED_EOF_WHILE_READING\<close>.\<close>

datatype ssl_err =
  SSL_ERROR_SSL bool | SSL_ERROR_WANT_READ | SSL_ERROR_WANT_WRITE | SSL_ERROR_SYSCALL |
  SSL_ERROR_ZERO_RETURN | SSL_ERROR_OTHER

record openssl =
  o_read :: "int \<Rightarrow> ptr \<Rightarrow> int \<Rightarrow> machine \<Rightarrow> (machine \<times> int) option"
  o_write :: "int \<Rightarrow> ptr \<Rightarrow> int \<Rightarrow> machine \<Rightarrow> (machine \<times> int) option"
  o_handshake :: "int \<Rightarrow> machine \<Rightarrow> machine \<times> int"
  o_shutdown :: "int \<Rightarrow> machine \<Rightarrow> machine \<times> int"
  o_finished :: "int \<Rightarrow> machine \<Rightarrow> bool"
  o_error :: "int \<Rightarrow> int \<Rightarrow> machine \<Rightarrow> ssl_err"

definition ssl_fatal :: "bool \<Rightarrow> int \<Rightarrow> dpret" where
  "ssl_fatal eof err = (if eof then DPE_EOF else if err > 0 then - err else DPE_INTERNAL_ERROR)"

definition dpssl_prep_err :: "ssl_err \<Rightarrow> int \<Rightarrow> dpasc_out \<Rightarrow> dpasc_out \<times> dpret" where
  "dpssl_prep_err ssl_err err out =
     (case ssl_err of
        SSL_ERROR_SSL eof \<Rightarrow> (out, ssl_fatal eof err)
      | SSL_ERROR_WANT_READ \<Rightarrow> (out\<lparr>out_want := DPEVT_IN, out_inva := 0\<rparr>, DPE_CONTINUE)
      | SSL_ERROR_WANT_WRITE \<Rightarrow> (out\<lparr>out_want := DPEVT_OUT, out_inva := 0\<rparr>, DPE_CONTINUE)
      | SSL_ERROR_SYSCALL \<Rightarrow> (out, DPE_EOF)
      | _ \<Rightarrow> (out, DPE_CONNRESET))"

definition dpssl_post_err :: "ssl_err \<Rightarrow> int \<Rightarrow> dpasc_out \<Rightarrow> dpasc_out \<times> dpret" where
  "dpssl_post_err ssl_err err out =
     (case ssl_err of
        SSL_ERROR_SSL eof \<Rightarrow> (out, ssl_fatal eof err)
      | SSL_ERROR_WANT_READ \<Rightarrow> (out\<lparr>out_inva := DPEVT_IN, out_want := DPEVT_IN\<rparr>, DPE_WAIT)
      | SSL_ERROR_WANT_WRITE \<Rightarrow> (out\<lparr>out_inva := DPEVT_OUT, out_want := DPEVT_OUT\<rparr>, DPE_WAIT)
      | SSL_ERROR_SYSCALL \<Rightarrow> (out, DPE_EOF)
      | _ \<Rightarrow> (out, DPE_CONNRESET))"

section \<open>Handshake and shutdown\<close>

type_synonym ctl_result = "machine \<times> dpasc_out \<times> dpret"

definition ssl_ctl_prep :: "(int \<Rightarrow> machine \<Rightarrow> machine \<times> int) \<Rightarrow> openssl \<Rightarrow> 'd dpele \<Rightarrow> dpasc_out \<Rightarrow> machine \<Rightarrow> ctl_result" where
  "ssl_ctl_prep call S e out m =
     (let ssn = u_ssn (aux_data e); (m, r) = call ssn m
      in if r = 1 then (m, out\<lparr>out_want := DPEVT_NAN, out_inva := 0\<rparr>, DPE_OK)
         else let (out, r) = dpssl_prep_err (o_error S ssn r m) (kerrno m) out in (m, out, r))"

definition ssl_ctl_post :: "(int \<Rightarrow> machine \<Rightarrow> machine \<times> int) \<Rightarrow> openssl \<Rightarrow> 'd dpele \<Rightarrow> dpasc_out \<Rightarrow> machine \<Rightarrow> ctl_result" where
  "ssl_ctl_post call S e out m =
     (let ssn = u_ssn (aux_data e); (m, r) = call ssn m
      in if r = 1 then (m, out, DPE_OK)
         else let (out, r) = dpssl_post_err (o_error S ssn r m) (kerrno m) out in (m, out, r))"

definition dpssl_handshake_prep :: "openssl \<Rightarrow> 'd dpele \<Rightarrow> dpasc_out \<Rightarrow> machine \<Rightarrow> ctl_result" where
  "dpssl_handshake_prep S e out m =
     (if o_finished S (u_ssn (aux_data e)) m then (m, out\<lparr>out_want := DPEVT_NAN, out_inva := 0\<rparr>, DPE_OK)
      else ssl_ctl_prep (o_handshake S) S e out m)"

definition dpssl_handshake_post :: "openssl \<Rightarrow> 'd dpele \<Rightarrow> dpasc_out \<Rightarrow> machine \<Rightarrow> ctl_result" where
  "dpssl_handshake_post S = ssl_ctl_post (o_handshake S) S"

definition dpssl_shutdown_prep :: "openssl \<Rightarrow> 'd dpele \<Rightarrow> dpasc_out \<Rightarrow> machine \<Rightarrow> ctl_result" where
  "dpssl_shutdown_prep S = ssl_ctl_prep (o_shutdown S) S"

definition dpssl_shutdown_post :: "openssl \<Rightarrow> 'd dpele \<Rightarrow> dpasc_out \<Rightarrow> machine \<Rightarrow> ctl_result" where
  "dpssl_shutdown_post S = ssl_ctl_post (o_shutdown S) S"

section \<open>Reading and writing\<close>

definition ssl_io_prep :: "16 word \<Rightarrow> va_list \<Rightarrow> dpasc_out \<Rightarrow> dpaio_arg \<Rightarrow> machine \<Rightarrow> io_result" where
  "ssl_io_prep ev va out io m = do {
     (buf, va) \<leftarrow> va_ptr va;
     (len, _) \<leftarrow> va_int va;
     Some (m, io\<lparr>io_ptr := buf, io_len := len\<rparr>, out\<lparr>out_want := ev, out_inva := 0\<rparr>,
       if buf = None \<or> len \<le> 0 then DPE_INVAL else DPE_CONTINUE)
   }"

definition dpssl_recv_prep :: "va_list \<Rightarrow> dpasc_out \<Rightarrow> dpaio_arg \<Rightarrow> machine \<Rightarrow> io_result" where
  "dpssl_recv_prep = ssl_io_prep DPEVT_IN"

definition dpssl_send_prep :: "va_list \<Rightarrow> dpasc_out \<Rightarrow> dpaio_arg \<Rightarrow> machine \<Rightarrow> io_result" where
  "dpssl_send_prep = ssl_io_prep DPEVT_OUT"

text \<open>The calls of the two loops, at an offset of the buffer; the descriptor is the session.\<close>

definition ssl_read_at :: "openssl \<Rightarrow> data_fun" where
  "ssl_read_at S ssn io off m = do { p \<leftarrow> io_ptr io; o_read S ssn (padd p off) (io_len io - off) m }"

definition ssl_write_at :: "openssl \<Rightarrow> data_fun" where
  "ssl_write_at S ssn io off m = do { p \<leftarrow> io_ptr io; o_write S ssn (padd p off) (io_len io - off) m }"

partial_function (option) ssl_loop ::
  "data_fun \<Rightarrow> (int \<Rightarrow> int \<Rightarrow> machine \<Rightarrow> ssl_err) \<Rightarrow> int \<Rightarrow> dpaio_arg \<Rightarrow> dpasc_out \<Rightarrow> int \<Rightarrow> machine \<Rightarrow>
     (machine \<times> dpasc_out \<times> dpret) option"
where
  "ssl_loop iofun err ssn io out got m =
     Option.bind (iofun ssn io got m) (\<lambda>(m1, res).
       if res > 0 then
         Option.bind (chk_int (got + res)) (\<lambda>got'.
           if got' = io_len io then Some (m1, out, got')
           else ssl_loop iofun err ssn io out got' m1)
       else
         (let (out', r) = dpssl_post_err (err ssn res m1) (kerrno m1) out
          in Some (m1, out', if got > 0 then got else r)))"

definition ssl_io_post :: "data_fun \<Rightarrow> openssl \<Rightarrow> 'd dpele \<Rightarrow> dpasc_out \<Rightarrow> dpaio_arg \<Rightarrow> machine \<Rightarrow> io_result" where
  "ssl_io_post iofun S e out io m = do {
     (m1, out1, r) \<leftarrow> ssl_loop iofun (o_error S) (u_ssn (aux_data e)) io out 0 m;
     Some (m1, io, out1, r)
   }"

definition dpssl_recv_post :: "openssl \<Rightarrow> 'd dpele \<Rightarrow> dpasc_out \<Rightarrow> dpaio_arg \<Rightarrow> machine \<Rightarrow> io_result" where
  "dpssl_recv_post S = ssl_io_post (ssl_read_at S) S"

definition dpssl_send_post :: "openssl \<Rightarrow> 'd dpele \<Rightarrow> dpasc_out \<Rightarrow> dpaio_arg \<Rightarrow> machine \<Rightarrow> io_result" where
  "dpssl_send_post S = ssl_io_post (ssl_write_at S) S"

section \<open>The descriptors\<close>

definition DPASC_SSL_FUNCTION :: "prep_fun \<Rightarrow> post_fun option \<Rightarrow> nat \<Rightarrow> (scratch, machine) dpasc" where
  "DPASC_SSL_FUNCTION prep post sz =
     DPASC_FUNCTION prep post (type_bit DPELE_TYPE_EFD) (iotype_bit DPAIO_TYPE_SSL) sz 0"

definition dpssl_handshake :: "openssl \<Rightarrow> (scratch, machine) dpasc" where
  "dpssl_handshake S = DPASC_SSL_FUNCTION (\<lambda>a va. on_machine (\<lambda>e out m. Some (dpssl_handshake_prep S e out m)) a)
     (Some (on_machine (\<lambda>e out m. Some (dpssl_handshake_post S e out m)))) 0"

definition dpssl_shutdown :: "openssl \<Rightarrow> (scratch, machine) dpasc" where
  "dpssl_shutdown S = DPASC_SSL_FUNCTION (\<lambda>a va. on_machine (\<lambda>e out m. Some (dpssl_shutdown_prep S e out m)) a)
     (Some (on_machine (\<lambda>e out m. Some (dpssl_shutdown_post S e out m)))) 0"

definition dpssl_recv :: "openssl \<Rightarrow> (scratch, machine) dpasc" where
  "dpssl_recv S = DPASC_SSL_FUNCTION (\<lambda>a va. on_io (\<lambda>_. dpssl_recv_prep va) a) (Some (on_io (dpssl_recv_post S))) 24"

definition dpssl_send :: "openssl \<Rightarrow> (scratch, machine) dpasc" where
  "dpssl_send S = DPASC_SSL_FUNCTION (\<lambda>a va. on_io (\<lambda>_. dpssl_send_prep va) a) (Some (on_io (dpssl_send_post S))) 24"

text \<open>The entries the stream operations find for TLS elements.\<close>

definition ssl_ascs :: "openssl \<Rightarrow> 'd tls_ascs" where
  "ssl_ascs S k idx =
     (if k \<noteq> DPAIO_TYPE_SSL then None
      else Some (if idx = 0 then \<lparr>sub_prep = dpssl_recv_prep, sub_post = dpssl_recv_post S\<rparr>
                 else \<lparr>sub_prep = dpssl_send_prep, sub_post = dpssl_send_post S\<rparr>))"

section \<open>What a transfer over a session does\<close>

text \<open>How a transfer of \<open>k\<close> bytes ends: with the whole length, or at a call without data, whose error decides the
  result when nothing was moved and the events in any case.\<close>

definition ssl_ends ::
  "(int \<Rightarrow> int \<Rightarrow> machine \<Rightarrow> ssl_err) \<Rightarrow> int \<Rightarrow> int \<Rightarrow> dpasc_out \<Rightarrow> machine \<Rightarrow> int \<Rightarrow> dpasc_out \<Rightarrow> dpret \<Rightarrow> bool" where
  "ssl_ends err f len out m k out' r \<longleftrightarrow>
     r = k \<and> k = len \<and> out' = out \<or>
     (\<exists>res. k < len \<and> out' = fst (dpssl_post_err (err f res m) (kerrno m) out) \<and>
        r = (if k > 0 then k else snd (dpssl_post_err (err f res m) (kerrno m) out)))"

context data_io begin

text \<open>Every call that keeps the laws of \<open>data_io\<close> gives a loop that returns: the whole length, the part that
  was moved before the first call without data, or what that call's error is turned into.\<close>

lemma ssl_loop_returns:
  assumes "room f io m" "0 \<le> i" "i < io_len io" "io_len io \<le> INT_MAX"
  shows "\<exists>m' out' r k. ssl_loop iofun err f io out i m = Some (m', out', r) \<and> room f io m' \<and>
    i \<le> k \<and> k \<le> io_len io \<and> moved f io i (k - i) m m' \<and> ssl_ends err f (io_len io) out m' k out' r"
  using assms
proof (induction "nat (io_len io - i)" arbitrary: i m rule: less_induct)
  case less
  obtain m1 res where c: "iofun f io i m = Some (m1, res)" "room f io m1" "res \<le> io_len io - i"
    "moved f io i (max 0 res) m m1"
    using call [OF less.prems(1-3)] by blast
  note loop = ssl_loop.simps [of iofun err f io out i m]
  show ?case
  proof (cases "res > 0")
    case False
    then have "ssl_loop iofun err f io out i m = Some (m1, fst (dpssl_post_err (err f res m1) (kerrno m1) out),
        if i > 0 then i else snd (dpssl_post_err (err f res m1) (kerrno m1) out))"
      using loop c(1) by (simp add: split_def Let_def)
    moreover have "moved f io i (i - i) m m1" using c(4) False by (simp add: max_absorb1)
    moreover have "ssl_ends err f (io_len io) out m1 i (fst (dpssl_post_err (err f res m1) (kerrno m1) out))
        (if i > 0 then i else snd (dpssl_post_err (err f res m1) (kerrno m1) out))"
      using less.prems(3) by (auto simp: ssl_ends_def)
    ultimately show ?thesis using c(2) less.prems(3)
      by (intro exI [of _ m1] exI [of _ "fst (dpssl_post_err (err f res m1) (kerrno m1) out)"]
          exI [of _ "if i > 0 then i else snd (dpssl_post_err (err f res m1) (kerrno m1) out)"] exI [of _ i]) simp
  next
    case True
    then have mv: "moved f io i res m m1" using c(4) by simp
    show ?thesis
    proof (cases "i + res = io_len io")
      case full: True
      then have "ssl_loop iofun err f io out i m = Some (m1, out, io_len io)"
        using loop c(1) True less.prems(2,4) by simp
      moreover have "moved f io i (io_len io - i) m m1" using mv full by (metis add_diff_cancel_left')
      ultimately show ?thesis using c(2) less.prems
        by (intro exI [of _ m1] exI [of _ out] exI [of _ "io_len io"] exI [of _ "io_len io"])
          (auto simp: ssl_ends_def)
    next
      case part: False
      then have lt: "i + res < io_len io" using c(3) by simp
      obtain m' out' r k where ih: "ssl_loop iofun err f io out (i + res) m1 = Some (m', out', r)"
        "room f io m'" "i + res \<le> k" "k \<le> io_len io" "moved f io (i + res) (k - (i + res)) m1 m'"
        "ssl_ends err f (io_len io) out m' k out' r"
        using less.hyps [OF _ c(2) _ lt less.prems(4)] True less.prems(2) lt by (auto simp: nat_mono_iff)
      have "ssl_loop iofun err f io out i m = Some (m', out', r)"
        using loop c(1) True less.prems(2,4) lt ih(1) part by simp
      moreover have "moved f io i (res + (k - (i + res))) m m'"
        using moved_trans [OF less.prems(2) _ _ mv ih(5)] True ih(3) by simp
      then have "moved f io i (k - i) m m'" by (simp add: algebra_simps)
      ultimately show ?thesis using ih(2,3,4,6) True
        by (intro exI [of _ m'] exI [of _ out'] exI [of _ r] exI [of _ k]) auto
    qed
  qed
qed

end

lemma div_256_less: "(x :: int) < 256 * y \<Longrightarrow> x div 256 < y"
  using mod_mult_div_eq [of x 256] pos_mod_sign [of 256 x] by linarith

lemma le_int_le_bytes:
  assumes "0 \<le> i" "i < 256 ^ n"
  shows "le_int (le_bytes n i) = i"
  using assms
proof (induction n arbitrary: i)
  case 0
  then show ?case by (simp add: le_int_def)
next
  case (Suc n)
  have "le_int (le_bytes n (i div 256)) = i div 256"
    using Suc.prems div_256_less [of i "256 ^ n"] by (intro Suc.IH) (auto simp: pos_imp_zdiv_nonneg_iff)
  moreover have "le_int (b # bs) = uint b + 256 * le_int bs" for b bs by (simp add: le_int_def)
  moreover have "uint (word_of_int i :: byte) = i mod 256"
    by (simp add: uint_word_of_int_eq take_bit_eq_mod)
  moreover have "i mod 256 + 256 * (i div 256) = i" by (rule mod_mult_div_eq)
  ultimately show ?case by (simp only: le_bytes.simps)
qed

lemma u_ssn_udata:
  assumes "0 \<le> ssn" "ssn < 2 ^ 64"
  shows "u_ssn (ssn_udata efd ssn role) = ssn"
proof -
  have "length (le_bytes 8 i) = 8" for i by (simp add: eval_nat_numeral)
  then show ?thesis using le_int_le_bytes [of ssn 8] assms by (simp add: u_ssn_def ssn_udata_def)
qed

lemma u_efd_udata:
  assumes "efd < 2 ^ 64"
  shows "u_efd (ssn_udata efd ssn role) = int efd"
proof -
  have "length (le_bytes 8 i) = 8" for i by (simp add: eval_nat_numeral)
  then show ?thesis using le_int_le_bytes [of "int efd" 8] assms by (simp add: u_efd_def ssn_udata_def)
qed

end
