(* ===== verification/Dpssl_Props.thy ===== *)
theory Dpssl_Props
  imports Dpssl_Reach Dpssl_Io Dpasc_Props
begin

text \<open>
  The properties of the TLS groups and of the operations on TLS sessions, and the inputs on which they do not
  do what their headers say.
\<close>

section \<open>A concrete thread\<close>

definition tls_answer :: "u16 \<Rightarrow> u16 \<Rightarrow> ssl_call list \<Rightarrow> ssl_call \<Rightarrow> int" where
  "tls_answer lo hi l c =
     (case c of SSL_CTX_new _ \<Rightarrow> int (length l) + 1 | SSL_CTX_get_min _ \<Rightarrow> uint lo | SSL_CTX_get_max _ \<Rightarrow> uint hi | _ \<Rightarrow> 1)"

definition tls_empty :: "u16 \<Rightarrow> u16 \<Rightarrow> tls" where
  "tls_empty lo hi = \<lparr>tl_groups = [],
     tl_store = \<lparr>blocks = Map.empty, nblk = 0, allocs = 0, avail = (\<lambda>_. True), junk = (\<lambda>_ _. 0)\<rparr>,
     tl_next = 1, tl_log = [], tl_answer = tls_answer lo hi\<rparr>"

definition demo_buf :: dpbuf where
  "demo_buf = the (fst (snd (dpbuf_init \<lparr>blocks = Map.empty, nblk = 0, allocs = 1, avail = (\<lambda>_. True), junk = (\<lambda>_ _. 0)\<rparr>
     (Some dpbuf_zero) DPBUF_S_SIZE)))"

definition demo_group :: "u16 \<Rightarrow> u16 \<Rightarrow> dpssl_group" where
  "demo_group lo hi = \<lparr>sg_addr = 1, sg_name = ''srv'', sg_role = DPROLE_SERVER, min_version = lo, max_version = hi,
     alpns = [], alpns_wire = demo_buf, alpns_wire_dirty = False, ctxs = [], default_ctx = Some 1\<rparr>"

text \<open>A server group, and two protocols in it.\<close>

definition tls_one :: "u16 \<Rightarrow> u16 \<Rightarrow> tls" where
  "tls_one lo hi = fst (dpssl_add (tls_empty lo hi) (Some ''srv'') DPROLE_SERVER lo hi)"

lemma tls_one_groups: "tl_groups (tls_one lo hi) = [demo_group lo hi]"
  by (simp add: tls_one_def tls_empty_def dpssl_add_def dpssl_group_find_def bad_group_name_def dpssl_new_ori_ctx_def
      method_for_def ssl_do_def tls_answer_def dpssl_group_add_def ssl_malloc_def attempt_def dpbuf_init_def dpbuf_data_new_def
      new_block_def Let_def demo_group_def demo_buf_def set_group_def)

lemma tls_one_reach: "tls_reach sel (tls_one lo hi)"
proof (rule tls_reach.t_step)
  show "tls_reach sel (tls_empty lo hi)" by (rule tls_reach.t_start) (simp_all add: tls_empty_def)
  show "tls_step sel (tls_empty lo hi) (tls_one lo hi)"
    unfolding tls_one_def by (rule tls_step.s_add [of _ "Some ''srv''" DPROLE_SERVER lo hi]) (rule surjective_pairing)
qed

definition tls_two :: tls where
  "tls_two = fst (dpssl_add_alpn (tls_one 0x304 0x304) (Some ''srv'') (Some [104, 50]))"

lemma tls_two_groups:
  "tl_groups tls_two = [(demo_group 0x304 0x304)\<lparr>alpns := [[104, 50]], alpns_wire_dirty := True\<rparr>]"
proof -
  have m: "avail (tl_store (tls_one 0x304 0x304)) = (\<lambda>_. True)"
    by (simp add: tls_one_def tls_empty_def dpssl_add_def dpssl_group_find_def bad_group_name_def dpssl_new_ori_ctx_def
        method_for_def ssl_do_def tls_answer_def dpssl_group_add_def ssl_malloc_def attempt_def dpbuf_init_def dpbuf_data_new_def
        new_block_def Let_def set_group_def)
  show ?thesis
    by (simp add: tls_two_def dpssl_add_alpn_def dpssl_group_find_def bad_group_name_def tls_one_groups demo_group_def
        dpssl_add_alpn_to_def no_str_def dpssl_alpn_contains_def ssl_malloc_def attempt_def m Let_def set_group_def)
qed

lemma tls_two_reach: "tls_reach sel tls_two"
proof (rule tls_reach.t_step [OF tls_one_reach [of sel "0x304" "0x304"]])
  show "tls_step sel (tls_one 0x304 0x304) tls_two"
    unfolding tls_two_def
    by (rule tls_step.s_add_alpn [of _ "Some ''srv''" "Some [104, 50]"])
      (rule surjective_pairing, simp add: tls_one_groups demo_group_def)
qed

section \<open>Groups\<close>



text \<open>
  C12.  The protocols a group offers reach OpenSSL in the wire format of RFC 7301: after a call that brings the buffer up
  to date its readable bytes parse back to exactly the names that were added, in their order.  When memory runs out
  the buffer is empty and stays marked.
\<close>

theorem alpn_wire_roundtrip:
  assumes "tls_reach sel t" and "g \<in> set (tl_groups t)"
  shows "\<exists>t' g' r ws. dpssl_alpns_wire_sync t g = Some (t', g', r) \<and> wire_bytes (tl_store t') g' = Some ws \<and>
    (r = DPE_OK \<and> wire_parse ws = Some (alpns g) \<or> r = DPE_NOMEM \<and> ws = [])"
proof -
  have ok: "tls_ok t" using tls_reach_ok [OF assms(1)] .
  obtain t' g' r where s: "dpssl_alpns_wire_sync t g = Some (t', g', r)" "r = DPE_OK \<or> r = DPE_NOMEM"
    "tls_ok t'" "g' \<in> set (tl_groups t')" "alpns g' = alpns g" "r = DPE_OK \<longrightarrow> \<not> alpns_wire_dirty g'"
    "r = DPE_NOMEM \<longrightarrow> rview (tl_store t') (alpns_wire g') = []"
    by (rule wire_sync_ok [OF ok assms(2)])
  have inv: "tls_inv t'" using s(3) by (simp add: tls_ok_def)
  have g: "group_ok (tl_store t') g'" by (rule group_okD(1) [OF inv s(4)])
  have w: "wire_bytes (tl_store t') g' = Some (rview (tl_store t') (alpns_wire g'))"
    by (rule wire_bytes_rview [OF group_okD(2) [OF inv s(4)]])
  have "wire_parse (rview (tl_store t') (alpns_wire g')) = Some (alpns g)" if "r = DPE_OK"
    using g s(5,6) that wire_parse_wire_of [of "alpns g"] by (simp add: group_ok_def)
  then show ?thesis using s(1,2,7) w by auto
qed

lemma alpn_wire_roundtrip_witness:
  "\<exists>t' g' r ws. dpssl_alpns_wire_sync tls_two (hd (tl_groups tls_two)) = Some (t', g', r) \<and>
    wire_bytes (tl_store t') g' = Some ws \<and> (r = DPE_OK \<and> wire_parse ws = Some [[104, 50]] \<or> r = DPE_NOMEM \<and> ws = [])"
  using alpn_wire_roundtrip [OF tls_two_reach [of "\<lambda>_ _. None"], of "hd (tl_groups tls_two)"]
  by (simp add: tls_two_groups)

text \<open>
  C11.  The end of a thread releases everything: every context OpenSSL ever made for the thread has been freed exactly
  once, also those of calls that failed half way, and no buffer of a group is left.
\<close>

theorem thread_exit_releases_all:
  assumes "tls_reach sel t"
  shows "\<exists>t'. dpssl_thrd_exit t = Some t' \<and> tl_groups t' = [] \<and> mset (freed t') = mset (made t') \<and>
    blocks (tl_store t') = Map.empty"
proof -
  obtain t' where t': "exit_groups t (tl_groups t) = Some t'" "tls_ok t'" "tl_groups t' = []"
    using exit_groups_ok [OF tls_reach_ok [OF assms] refl] by blast
  have "blocks (tl_store t') = Map.empty"
    using t'(2,3) by (fastforce simp: tls_ok_def tls_inv_def live_inv_def counted_def fun_eq_iff)
  then show ?thesis using t' by (simp add: dpssl_thrd_exit_def tls_ok_def ledger_def held_all_def)
qed

lemma thread_exit_releases_all_witness:
  "\<exists>t'. dpssl_thrd_exit tls_two = Some t' \<and> tl_groups t' = [] \<and> mset (freed t') = mset (made t') \<and>
    blocks (tl_store t') = Map.empty"
  by (rule thread_exit_releases_all [OF tls_two_reach [of "\<lambda>_ _. None"]])

section \<open>Certificates and versions\<close>

text \<open>The certificates of a group as a map from names.\<close>

definition cert_map :: "dpssl_group \<Rightarrow> string \<Rightarrow> int option" where
  "cert_map g = map_of (List.map_filter (\<lambda>c. map_option (\<lambda>s. (s, ori_ctx c)) (sni c)) (ctxs g))"

lemma cert_map_find: "map_option ori_ctx (find (\<lambda>c. sni c = Some s) cs) =
    map_of (List.map_filter (\<lambda>c. map_option (\<lambda>s. (s, ori_ctx c)) (sni c)) cs) s"
  by (induction cs) (auto simp: map_filter_simps split: option.split)

lemma cert_lookup: "\<not> no_str (Some s) \<Longrightarrow> map_option ori_ctx (snd (dpssl_ctx_find g (Some s))) = cert_map g s"
  by (simp add: dpssl_ctx_find_def cert_map_def cert_map_find Let_def)

lemma ctx_find_code: "\<not> no_str n \<Longrightarrow> fst (dpssl_ctx_find g n) = DPE_OK \<longleftrightarrow> snd (dpssl_ctx_find g n) \<noteq> None"
  by (simp add: dpssl_ctx_find_def Let_def)

definition cert_for :: "dpssl_group \<Rightarrow> string \<Rightarrow> int option" where
  "cert_for g name = (case cert_map g (sni_key name) of Some c \<Rightarrow> Some c | None \<Rightarrow> cert_map g default_sni)"

lemma default_sni_str [simp]: "\<not> no_str (Some default_sni)"
  by (simp add: no_str_def default_sni_def)

lemma sni_entry_cert: "map_option ori_ctx (dpssl_sni_entry g (Some name)) = cert_for g name"
proof -
  obtain r c where f: "dpssl_ctx_find g (Some (sni_key name)) = (r, c)" by (cases "dpssl_ctx_find g (Some (sni_key name))")
  have k: "(if \<not> no_str (Some name) then Some name else Some default_sni) = Some (sni_key name)"
    by (simp add: no_str_def sni_key_def)
  have c: "map_option ori_ctx c = cert_map g (sni_key name)" "r = DPE_OK \<longleftrightarrow> c \<noteq> None"
    using cert_lookup [of "sni_key name" g] ctx_find_code [of "Some (sni_key name)" g] f by simp_all
  have d: "map_option ori_ctx (snd (dpssl_ctx_find g (Some default_sni))) = cert_map g default_sni"
    by (simp add: cert_lookup)
  have "sni_key name = default_sni" if "no_str (Some name)" using that by (simp add: no_str_def sni_key_def)
  then show ?thesis unfolding dpssl_sni_entry_def Let_def k f using c d
    by (cases c) (auto simp: cert_for_def split: option.split)
qed

lemma find_set_group:
  assumes "tls_inv t" "dpssl_group_find t n = (DPE_OK, Some g)" "sg_addr g' = sg_addr g" "sg_name g' = sg_name g"
  shows "dpssl_group_find (set_group t g') n = (DPE_OK, Some g')"
proof (cases rule: group_find_cases [of t n])
  case (none r)
  then show ?thesis using assms(2) by simp
next
  case (some x)
  then have x: "x = g" "g \<in> set (tl_groups t)" "n = Some (sg_name g)" using assms(2) by simp_all
  obtain xs ys where s: "tl_groups t = xs @ g # ys" "tl_groups (set_group t g') = xs @ g' # ys"
    by (rule group_split [OF assms(1) x(2) assms(3)])
  have "sg_name y \<noteq> sg_name g" if "y \<in> set xs" for y
    using assms(1) s(1) that by (auto simp: tls_inv_def image_iff)
  then have "find (\<lambda>y. sg_name y = sg_name g) (xs @ g' # ys) = Some g'"
    using assms(4) by (induction xs) auto
  then show ?thesis using some(4) s(2) x(3) by (simp add: dpssl_group_find_def)
qed

text \<open>
  C21.  The certificates of a group are a map from server names.  A session gets the certificate of the name the client
  asked for, or the default one, and an alert when there is neither; the API looks up in the same way; and deleting a
  name removes it, so that what is left is the default.
\<close>

theorem certificates_are_a_map:
  assumes "tls_reach sel t" and "dpssl_group_find t n = (DPE_OK, Some g)"
  shows "dpssl_get_ctx t n (Some name) = cert_for g name \<and>
    (case cert_for g name of None \<Rightarrow> dpssl_sni_select t g ssl (Some name) = (t, 2)
     | Some c \<Rightarrow> dpssl_sni_select t g ssl (Some name) = (ssl_tell t (SSL_set_ctx ssl c), 0)) \<and>
    (\<exists>t' g'. dpssl_del_ctx t n (Some name) = (t', if cert_map g (sni_key name) = None then DPE_NOTEXISTS else DPE_OK) \<and>
       dpssl_group_find t' n = (DPE_OK, Some g') \<and> cert_map g' = (cert_map g)(sni_key name := None))"
proof -
  have inv: "tls_inv t" using tls_reach_ok [OF assms(1)] by (simp add: tls_ok_def)
  have gs: "g \<in> set (tl_groups t)" by (cases rule: group_find_cases [of t n]) (use assms(2) in auto)
  let ?p = "\<lambda>c. sni c = Some (sni_key name)"
  let ?f = "List.map_filter (\<lambda>c. map_option (\<lambda>s. (s, ori_ctx c)) (sni c))"
  obtain cs c where u: "unlink_first ?p (ctxs g) = (cs, c)" by (cases "unlink_first ?p (ctxs g)")
  let ?g = "g\<lparr>ctxs := cs\<rparr>"
  let ?t = "case c of None \<Rightarrow> set_group t ?g | Some c \<Rightarrow> dpssl_ctx_free (set_group t ?g) c"
  have d: "dpssl_del_ctx t n (Some name) = (?t, if c = None then DPE_NOTEXISTS else DPE_OK)"
    using assms(2) u by (simp add: dpssl_del_ctx_def dpssl_ctx_unlink_def split: option.split)
  have "dpssl_group_find ?t n = dpssl_group_find (set_group t ?g) n"
    by (simp add: dpssl_group_find_def split: option.split)
  then have fd: "dpssl_group_find ?t n = (DPE_OK, Some ?g)" using find_set_group [OF inv assms(2), of ?g] by simp
  have dist: "distinct (ctx_names g)" using group_okD(1) [OF inv gs] by (simp add: group_ok_def)
  have names: "s \<in> set (List.map_filter sni xs) \<longleftrightarrow> map_of (?f xs) s \<noteq> None" for s xs
    by (induction xs) (auto simp: map_filter_simps split: option.splits)
  have app: "map_of (?f (xs @ ys)) = map_of (?f ys) ++ map_of (?f xs)" for xs ys
    by (simp add: map_filter_append)
  have "cert_map ?g = (cert_map g)(sni_key name := None) \<and> (c = None \<longleftrightarrow> cert_map g (sni_key name) = None)"
  proof (cases c)
    case None
    then have "cs = ctxs g" "\<forall>x \<in> set (ctxs g). \<not> ?p x" using unlink_first_None [of ?p "ctxs g" cs] u by simp_all
    moreover from this(2) have "find ?p (ctxs g) = None" by (simp add: find_None_iff)
    ultimately show ?thesis using None cert_map_find [of "sni_key name" "ctxs g"] by (auto simp: cert_map_def fun_upd_idem)
  next
    case (Some x)
    then obtain as bs where s: "?p x" "ctxs g = as @ x # bs" "cs = as @ bs"
      using unlink_first_Some [of ?p "ctxs g" cs x] u by auto
    have "sni_key name \<notin> set (List.map_filter sni as)" "sni_key name \<notin> set (List.map_filter sni bs)"
      using dist s(1,2) by (simp_all add: ctx_names_def map_filter_append map_filter_simps)
    then have n: "map_of (?f as) (sni_key name) = None" "map_of (?f bs) (sni_key name) = None"
      using names [of "sni_key name" as] names [of "sni_key name" bs] by auto
    have "map_of (?f (x # bs)) = (map_of (?f bs))(sni_key name \<mapsto> ori_ctx x)" using s(1) by (simp add: map_filter_simps)
    then have "cert_map g = (map_of (?f bs))(sni_key name \<mapsto> ori_ctx x) ++ map_of (?f as)"
      "cert_map ?g = map_of (?f bs) ++ map_of (?f as)"
      using s(2,3) app [of as "x # bs"] app [of as bs] by (simp_all add: cert_map_def)
    then show ?thesis using n Some by (auto simp: fun_eq_iff map_add_def split: option.splits)
  qed
  moreover have "dpssl_get_ctx t n (Some name) = cert_for g name"
    using assms(2) sni_entry_cert [of g name] by (simp add: dpssl_get_ctx_def)
  moreover have "case cert_for g name of None \<Rightarrow> dpssl_sni_select t g ssl (Some name) = (t, 2)
     | Some c \<Rightarrow> dpssl_sni_select t g ssl (Some name) = (ssl_tell t (SSL_set_ctx ssl c), 0)"
    using sni_entry_cert [of g name, symmetric]
    by (cases "dpssl_sni_entry g (Some name)") (simp_all add: dpssl_sni_select_def)
  ultimately show ?thesis using d fd by auto
qed

lemma tls_two_find:
  "dpssl_group_find tls_two (Some ''srv'') = (DPE_OK, Some ((demo_group 0x304 0x304)\<lparr>alpns := [[104, 50]], alpns_wire_dirty := True\<rparr>))"
  by (simp add: dpssl_group_find_def bad_group_name_def tls_two_groups demo_group_def)

definition tls_cert :: tls where
  "tls_cert = fst (dpssl_add_ctx tls_two (Some ''srv'') (Some ''a.example'') (Some ''crt'') (Some ''key''))"

lemma tls_cert_reach: "tls_reach sel tls_cert"
proof (rule tls_reach.t_step [OF tls_two_reach [of sel]])
  show "tls_step sel tls_two tls_cert"
    unfolding tls_cert_def
    by (rule tls_step.s_add_ctx [of _ "Some ''srv''" "Some ''a.example''" "Some ''crt''" "Some ''key''"])
      (rule surjective_pairing)
qed

lemma tls_two_rest: "avail (tl_store tls_two) = (\<lambda>_. True)" "tl_answer tls_two = tls_answer 0x304 0x304"
  "length (tl_log tls_two) = 8"
  by (simp_all add: tls_two_def dpssl_add_alpn_def tls_one_def tls_empty_def dpssl_add_def dpssl_group_find_def bad_group_name_def
      dpssl_new_ori_ctx_def method_for_def ssl_do_def tls_answer_def dpssl_group_add_def ssl_malloc_def attempt_def dpbuf_init_def
      dpbuf_data_new_def new_block_def Let_def set_group_def dpssl_add_alpn_to_def no_str_def dpssl_alpn_contains_def)

definition cert_group :: dpssl_group where
  "cert_group = (demo_group 0x304 0x304)\<lparr>alpns := [[104, 50]], alpns_wire_dirty := True,
     ctxs := [\<lparr>sni = Some ''a.example'', ori_ctx = 9\<rparr>]\<rparr>"

lemma tls_cert_find: "dpssl_group_find tls_cert (Some ''srv'') = (DPE_OK, Some cert_group)"
  by (simp add: tls_cert_def dpssl_add_ctx_def tls_two_find demo_group_def dpssl_ctx_find_def no_str_def sni_key_def
      dpssl_new_ori_ctx_def method_for_def ssl_do_def tls_two_rest tls_answer_def dpssl_use_crt_key_def dpssl_ctx_add_def
      ssl_malloc_def attempt_def Let_def set_group_def tls_two_groups dpssl_group_find_def bad_group_name_def cert_group_def)

lemma certificates_are_a_map_witness:
  "dpssl_get_ctx tls_cert (Some ''srv'') (Some ''a.example'') = Some 9 \<and>
    dpssl_sni_select tls_cert cert_group 1 (Some ''a.example'') = (ssl_tell tls_cert (SSL_set_ctx 1 9), 0) \<and>
    (\<exists>t' g'. dpssl_del_ctx tls_cert (Some ''srv'') (Some ''a.example'') = (t', DPE_OK) \<and>
       dpssl_group_find t' (Some ''srv'') = (DPE_OK, Some g') \<and> cert_map g' ''a.example'' = None)"
  using certificates_are_a_map [OF tls_cert_reach [of "\<lambda>_ _. None"] tls_cert_find, of "''a.example''" 1]
  by (auto simp: cert_for_def cert_map_def cert_group_def demo_group_def map_filter_simps sni_key_def)


lemma tls_one_find: "dpssl_group_find (tls_one lo hi) (Some ''srv'') = (DPE_OK, Some (demo_group lo hi))"
  by (simp add: dpssl_group_find_def bad_group_name_def tls_one_groups demo_group_def)


section \<open>Operations on sessions\<close>


text \<open>A session without encryption: its calls are those of the socket.\<close>

definition plain_ssl :: openssl where
  "plain_ssl = \<lparr>o_read = (\<lambda>ssn p n m. sys_recv ssn p n 0 m), o_write = (\<lambda>ssn p n m. sys_send ssn p n m),
     o_handshake = (\<lambda>_ m. (m, 1)), o_shutdown = (\<lambda>_ m. (m, 1)), o_finished = (\<lambda>_ _. True),
     o_error = (\<lambda>_ res m. if res = 0 then SSL_ERROR_ZERO_RETURN else if kerrno m = EAGAIN then SSL_ERROR_WANT_READ
        else SSL_ERROR_SYSCALL)\<rparr>"

definition ssl_ele :: aele where
  "ssl_ele = io_ele\<lparr>aux_data := ssn_udata 3 5 DPROLE_SERVER, asc_type := Some 9, want_events := DPEVT_IN,
     able_events := DPEVT_IN, asc_data := Some (24, Some (Sio (stm_io (stm_asked 7))))\<rparr>"

lemma ssl_ele_ssn: "u_ssn (aux_data ssl_ele) = 5"
  using u_ssn_udata [of 5 3 DPROLE_SERVER] by (simp add: ssl_ele_def)


text \<open>
  C38.  A fatal TLS error is taken for a wait.  The post functions turn \<open>SSL_ERROR_SSL\<close> into the negated \<open>errno\<close>, which that error
  does not set; what is left there by the last read that found nothing is \<open>EAGAIN\<close>, and its negation is \<open>DPE_WAIT\<close>.  The
  events are left alone, so the loop calls \<open>SSL_read\<close> on the broken session again at once, without an end as
  long as the session reports the error.
\<close>

theorem fatal_tls_error_retried:
  assumes e: "eles w a = Some e" "asc_type e = Some t" "ascs env t = dpssl_recv S"
      "asc_data e = Some (cap, Some (Sio io))" "able_events e AND want_events e \<noteq> 0" "want_events e = ucast (out_want out)"
      "out_inva out = 0"
    and f: "ssl_read_at S (u_ssn (aux_data e)) io 0 (ext w) = Some (m, res)" "res \<le> 0"
      "o_error S (u_ssn (aux_data e)) res m = SSL_ERROR_SSL False" "kerrno m = EAGAIN"
  shows "dpefd_wake_loop env w a out r =
    dpefd_wake_loop env (w\<lparr>ext := m\<rparr>) a (out\<lparr>out_able := ucast (able_events e)\<rparr>) DPE_WAIT"
proof -
  let ?out = "out\<lparr>out_able := ucast (able_events e)\<rparr>" and ?w = "w\<lparr>ext := m\<rparr>"
  have "ssl_loop (ssl_read_at S) (o_error S) (u_ssn (aux_data e)) io ?out 0 (ext w) = Some (m, ?out, DPE_WAIT)"
    using ssl_loop.simps [of "ssl_read_at S" "o_error S" "u_ssn (aux_data e)" io ?out 0 "ext w"] f
    by (simp add: dpssl_post_err_def ssl_fatal_def Let_def)
  then have "dpssl_recv_post S e ?out io (ext w) = Some (m, io, ?out, DPE_WAIT)"
    by (simp add: dpssl_recv_post_def ssl_io_post_def)
  moreover have same: "put_ele ?w a e = ?w" using e(1) by (simp add: put_ele_def fun_upd_idem)
  moreover have "e\<lparr>asc_data := Some (cap, Some (Sio io))\<rparr> = e" using e(4) by (cases e) simp
  then have "put_ele ?w a (e\<lparr>asc_data := Some (cap, Some (Sio io))\<rparr>) = ?w" using same by metis
  ultimately have post: "on_io (dpssl_recv_post S) a ?out w = Some (?w, ?out, DPE_WAIT)"
    using e(1,4) by (simp add: on_io_def on_data_def get_io_def)
  have want: "e\<lparr>want_events := ucast (out_want out)\<rparr> = e" using e(6) by (cases e) simp
  have upd: "upd_ele ?w a (want_events_update (\<lambda>_. ucast (out_want out))) = Some ?w"
    using e(1) want same by (simp add: upd_ele_def)
  have inva: "apply_inva ?w a ?out = Some (?w, ?out)" using e(1,7) by (simp add: apply_inva_def)
  have p: "asc_post (ascs env t) = Some (on_io (dpssl_recv_post S))"
    by (simp add: e(3) dpssl_recv_def DPASC_SSL_FUNCTION_def DPASC_FUNCTION_def)
  show ?thesis
    using dpefd_wake_loop.simps [of env w a out r] e(1,2,5) p post inva upd by simp
qed

text \<open>A session that fails this way and keeps failing.\<close>

definition broken_ssl :: openssl where
  "broken_ssl = plain_ssl\<lparr>o_read := (\<lambda>_ _ _ m. Some (m, - 1)), o_error := (\<lambda>_ _ _. SSL_ERROR_SSL False)\<rparr>"

definition ssl_env :: "(scratch, machine) env" where
  "ssl_env = \<lparr>ascs = (\<lambda>_. dpssl_recv broken_ssl), fn_init = (\<lambda>_ _ _ _. None), fn_copy = (\<lambda>_ x. (x, 0)), fn_fini = (\<lambda>_ _ w. w)\<rparr>"

definition ssl_world :: aworld where
  "ssl_world = io_world\<lparr>eles := [9 \<mapsto> ssl_ele], ext := io_machine\<lparr>kerrno := EAGAIN\<rparr>\<rparr>"

lemma fatal_tls_error_retried_witness:
  "dpefd_wake_loop ssl_env ssl_world 9 (no_out\<lparr>out_want := DPEVT_IN\<rparr>) DPE_WAIT =
     dpefd_wake_loop ssl_env (ssl_world\<lparr>ext := io_machine\<lparr>kerrno := EAGAIN\<rparr>\<rparr>) 9
       (no_out\<lparr>out_want := DPEVT_IN, out_able := DPEVT_IN\<rparr>) DPE_WAIT"
  using fatal_tls_error_retried [of ssl_world 9 ssl_ele 9 ssl_env broken_ssl 24 "stm_io (stm_asked 7)"
      "no_out\<lparr>out_want := DPEVT_IN\<rparr>" "io_machine\<lparr>kerrno := EAGAIN\<rparr>" "- 1" DPE_WAIT]
  by (simp add: ssl_world_def ssl_env_def ssl_ele_def no_out_def ssl_read_at_def broken_ssl_def stm_asked_def)

section \<open>The element of a session\<close>

text \<open>A session element holds its session and the element of the connection, and from then on closes the descriptor
  in its place.\<close>

lemma server_init_attaches:
  assumes "args_of args = Some (Some b, Some n, x)" "n \<noteq> []" "eles w b = Some e" "\<not> dpele_is_doing e"
    and "dpssl_group_find (ext w) (Some n) = (DPE_OK, Some g)" "sg_role g = DPROLE_SERVER"
    and "ssn_open (ext w) g (fd e) = (t, ssn, DPE_OK)" "eles w a = Some s" "a \<noteq> b"
  shows "\<exists>w' s' e'. dpssl_server_uinit args_of a args w = Some (w', fd e) \<and> eles w' a = Some s' \<and> eles w' b = Some e' \<and>
    aux_data s' = ssn_udata b ssn DPROLE_SERVER \<and> \<not> is_close e' \<and> fd e' = fd e \<and>
    ext w' = ssl_tell t (SSL_set_accept_state ssn)"
  using assms by (simp add: dpssl_server_uinit_def ssn_group_def ssn_attach_def upd_ele_def put_ele_def no_str_def)

text \<open>The end of the session frees it and lets go of the connection.\<close>

lemma session_end_lets_go:
  assumes "0 \<le> ssn" "ssn < 2 ^ 64" "0 < b" "b < 2 ^ 64"
  shows "dpssl_ssn_ufini env (ssn_udata b ssn role) w =
    dpele_del env (w\<lparr>ext := ssl_tell (ext w) (SSL_free ssn)\<rparr>) (Some b)"
  using assms by (simp add: dpssl_ssn_ufini_def u_ssn_udata u_efd_udata)

end
