(* ===== verification/Spec2Isabelle.thy ===== *)
theory Spec2Isabelle
  imports Dpret Dpbuf_Props Dpevp_Props Dpasc_Findings Dpwhich_Props Dplog_Props Dpapp_Cmd Dpapp_Launch Dpspd_Props Dpdev_Props
    Dpnet_Props Dpcwc_Id_Props Dpaco_Props Dpcwc_Props Dpcwc_Aux Dpcwc_Start Dpssl_Props
begin

text \<open>
  Verification of the dpapp asynchronous runtime.
\<close>

end
